(* ===== verification/Tp_Prelude.thy ===== *)
theory Tp_Prelude
  imports Main "HOL-Library.Word" "HOL-Library.State_Monad"
begin

text \<open>
  What the component theories share: the collections of rewrite rules, ASCII character
  classes and string helpers as the C++ code writes them (\<open>src/lexer.cc\<close>, lines 87--101 and
  115--127; \<open>Lexer::lower\<close>), fixed width integers, and small facts on lists and options.

  Characters are bytes: \<open>char\<close> of HOL has exactly 256 values. \<open>std::isalnum\<close> and
  \<open>std::isdigit\<close> are modelled in the C locale, the only one the program runs in
  (it never calls \<open>setlocale\<close>).
\<close>

named_theorems frame_simps \<open>fields an operation does not touch\<close>
named_theorems resp \<open>a computation respects a relation between its states\<close>
named_theorems wp \<open>weakest preconditions of parser computations\<close>
named_theorems progress \<open>an operation does not enlarge what is left to read\<close>

type_synonym u32 = "32 word"
type_synonym u64 = "64 word"

subsection \<open>ASCII\<close>

definition code :: "char \<Rightarrow> nat" where
  "code c = of_char c"

definition is_upper :: "char \<Rightarrow> bool" where
  "is_upper c \<longleftrightarrow> 65 \<le> code c \<and> code c \<le> 90"

definition is_lower :: "char \<Rightarrow> bool" where
  "is_lower c \<longleftrightarrow> 97 \<le> code c \<and> code c \<le> 122"

definition is_digit :: "char \<Rightarrow> bool" where
  "is_digit c \<longleftrightarrow> 48 \<le> code c \<and> code c \<le> 57"

definition is_ident_start :: "char \<Rightarrow> bool" where
  "is_ident_start c \<longleftrightarrow> is_upper c \<or> is_lower c \<or> c = CHR ''_''"

definition is_ident_cont :: "char \<Rightarrow> bool" where
  "is_ident_cont c \<longleftrightarrow> is_ident_start c \<or> is_digit c"

definition is_hex :: "char \<Rightarrow> bool" where
  "is_hex c \<longleftrightarrow> is_digit c \<or> (97 \<le> code c \<and> code c \<le> 102) \<or> (65 \<le> code c \<and> code c \<le> 70)"

definition hex_val :: "char \<Rightarrow> nat" where
  "hex_val c =
     (if is_digit c then code c - 48
      else if 97 \<le> code c \<and> code c \<le> 102 then 10 + (code c - 97)
      else 10 + (code c - 65))"

definition is_alnum :: "char \<Rightarrow> bool" where
  "is_alnum c \<longleftrightarrow> is_upper c \<or> is_lower c \<or> is_digit c"

definition digit_val :: "char \<Rightarrow> nat" where
  "digit_val c = code c - 48"

definition lower_char :: "char \<Rightarrow> char" where
  "lower_char c = (if is_upper c then char_of (code c + 32) else c)"

definition lower :: "string \<Rightarrow> string" where
  "lower s = map lower_char s"

abbreviation nl :: char where "nl \<equiv> CHR 0x0A"
abbreviation cr :: char where "cr \<equiv> CHR 0x0D"
abbreviation tab :: char where "tab \<equiv> CHR 0x09"
abbreviation quote :: char where "quote \<equiv> CHR 0x27"
abbreviation nul :: char where "nul \<equiv> CHR 0x00"

text \<open>The two blanks of directive text, and the four that \<open>trim\<close> and the lexer skip.\<close>

definition is_blank :: "char \<Rightarrow> bool" where
  "is_blank c \<longleftrightarrow> c = CHR '' '' \<or> c = tab"

definition is_space :: "char \<Rightarrow> bool" where
  "is_space c \<longleftrightarrow> c = CHR '' '' \<or> c = tab \<or> c = cr \<or> c = nl"

definition trim :: "string \<Rightarrow> string" where
  "trim s = rev (dropWhile is_space (rev (dropWhile is_space s)))"

text \<open>\<open>s.find(needle)\<close>: the text before and after the first occurrence.\<close>

fun split_first :: "string \<Rightarrow> string \<Rightarrow> (string \<times> string) option" where
  "split_first needle [] = (if needle = [] then Some ([], []) else None)"
| "split_first needle (c # cs) =
     (if take (length needle) (c # cs) = needle
      then Some ([], drop (length needle) (c # cs))
      else map_option (\<lambda>(a, b). (c # a, b)) (split_first needle cs))"

subsection \<open>Facts\<close>

lemma code_less_256 [simp]: "code c < 256"
  by (simp add: code_def)

lemma char_of_code [simp]: "char_of (code c) = c"
  by (simp add: code_def)

lemma code_char_of: "n < 256 \<Longrightarrow> code (char_of n) = n"
  by (simp add: code_def)

lemma code_eq_iff: "code c = code d \<longleftrightarrow> c = d"
  by (metis char_of_code)

lemma is_lower_lower_char: "is_upper c \<Longrightarrow> is_lower (lower_char c)"
  by (simp add: lower_char_def is_upper_def is_lower_def code_char_of)

lemma lower_char_id: "\<not> is_upper c \<Longrightarrow> lower_char c = c"
  by (simp add: lower_char_def)

lemma not_upper_lower_char [simp]: "\<not> is_upper (lower_char c)"
proof (cases "is_upper c")
  case True
  from is_lower_lower_char [OF this] show ?thesis by (simp add: is_upper_def is_lower_def)
qed (simp add: lower_char_id)

lemma lower_lower [simp]: "lower (lower s) = lower s"
  by (simp add: lower_def lower_char_id)

lemma length_lower [simp]: "length (lower s) = length s"
  by (simp add: lower_def)

lemma lower_eq_Nil [simp]: "lower s = [] \<longleftrightarrow> s = []"
  by (simp add: lower_def)

lemma is_ident_cont_lower [simp]: "is_ident_cont (lower_char c) \<longleftrightarrow> is_ident_cont c"
  by (cases "is_upper c")
    (auto simp: lower_char_id is_ident_cont_def is_ident_start_def dest: is_lower_lower_char)

lemma length_trim: "length (trim s) \<le> length s"
  by (simp add: trim_def) (metis length_dropWhile_le length_rev order_trans)

lemma set_trim: "set (trim s) \<subseteq> set s"
  by (auto simp: trim_def dest!: set_dropWhileD)

text \<open>The trimmed text neither starts nor ends with a space.\<close>

lemma trim_ends:
  assumes "trim s \<noteq> []"
  shows "\<not> is_space (hd (trim s)) \<and> \<not> is_space (last (trim s))"
proof -
  let ?a = "dropWhile is_space s"
  let ?b = "dropWhile is_space (rev ?a)"
  from assms have b: "?b \<noteq> []" by (simp add: trim_def)
  then have last: "\<not> is_space (hd ?b)" by (rule hd_dropWhile)
  from b have a: "?a \<noteq> []" by (metis dropWhile.simps(1) rev.simps(1))
  then have "\<not> is_space (last (rev ?a))" by (simp add: last_rev hd_dropWhile)
  moreover from b have "last ?b = last (rev ?a)"
    by (metis last_appendR takeWhile_dropWhile_id)
  ultimately show ?thesis using last b
    by (simp add: trim_def hd_rev last_rev)
qed

lemma dropWhile_hd: "xs \<noteq> [] \<Longrightarrow> \<not> P (hd xs) \<Longrightarrow> dropWhile P xs = xs"
  by (cases xs) auto

lemma trim_idem [simp]: "trim (trim s) = trim s"
proof (cases "trim s = []")
  case True
  have "trim [] = []" by (simp add: trim_def)
  with True show ?thesis by simp
next
  case False
  from trim_ends [OF this] False have "trim (trim s) = rev (rev (trim s))"
    by (subst (1) trim_def) (simp add: dropWhile_hd hd_rev)
  then show ?thesis by simp
qed

lemma split_first_append: "split_first needle s = Some (a, b) \<Longrightarrow> s = a @ needle @ b"
proof (induction s arbitrary: a b)
  case Nil
  then show ?case by (auto split: if_splits)
next
  case (Cons c cs)
  show ?case
  proof (cases "take (length needle) (c # cs) = needle")
    case True
    with Cons.prems have "a = []" "b = drop (length needle) (c # cs)" by auto
    then show ?thesis using True by (metis append.left_neutral append_take_drop_id)
  next
    case False
    with Cons show ?thesis by (auto split: option.splits)
  qed
qed

end
