(* ===== verification/Tokens.thy ===== *)
theory Tokens
  imports Tp_Prelude
begin

text \<open>
  \<open>src/token.h\<close>, \<open>src/source.h\<close> and the keyword table of \<open>src/lexer.cc\<close>: token kinds,
  tokens, source locations, diagnostics.

  The C++ enumeration \<open>Tok\<close> has 141 members. Those the lexer can produce are modelled: the
  control, literal and punctuation kinds, and the 67 reserved words of \<open>kKeywordTable\<close>.
  The remaining members (\<open>KwAbsolute\<close>, \<open>KwVirtual\<close>, \<open>KwRead\<close>, \<dots>) have no producer:
  those words reach the parser as \<open>Ident\<close>. The reserved words are grouped in four small
  datatypes, which keeps the generated distinctness facts small; the abbreviations
  below give back the source's names, so that \<open>KwBegin\<close> stands for \<open>Tok::KwBegin\<close>.
\<close>

subsection \<open>Token kinds\<close>

datatype (plugins only: code size) kw_expr =
    E_And | E_As | E_Div | E_False | E_In | E_Inherited | E_Is | E_Mod | E_Nil | E_Not | E_Or
    | E_Self | E_Shl | E_Shr | E_True | E_Xor

datatype (plugins only: code size) kw_stmt =
    S_Asm | S_Begin | S_Case | S_Do | S_Downto | S_Else | S_End | S_Except | S_Finally | S_For
    | S_Goto | S_If | S_Of | S_Otherwise | S_Raise | S_Repeat | S_Then | S_To | S_Try
    | S_Until | S_While | S_With

datatype (plugins only: code size) kw_decl =
    D_Const | D_Constructor | D_Destructor | D_Exports | D_Finalization | D_Function
    | D_Implementation | D_Initialization | D_Interface | D_Label | D_Library | D_Operator
    | D_Procedure | D_Program | D_Resourcestring | D_Threadvar | D_Type | D_Unit | D_Uses
    | D_Var

datatype (plugins only: code size) kw_type =
    T_Array | T_Class | T_File | T_Object | T_Packed | T_Record | T_Set | T_Shortstring
    | T_String

datatype (plugins only: code size) tok =
    Eof | Error | Ident | IntLit | RealLit | StringLit | Plus | Minus | Star | Slash | Eq | Lt
    | Gt | LtEq | GtEq | NotEq | SymDiff | StarStar | Assign | Caret | LBrack | RBrack | Dot
    | DotDot | Comma | LParen | RParen | Colon | Semi | At | AtAt | KwExpr kw_expr
    | KwStmt kw_stmt | KwDecl kw_decl | KwTy kw_type

abbreviation KwAnd :: tok where "KwAnd \<equiv> KwExpr E_And"
abbreviation KwAs :: tok where "KwAs \<equiv> KwExpr E_As"
abbreviation KwDiv :: tok where "KwDiv \<equiv> KwExpr E_Div"
abbreviation KwFalse :: tok where "KwFalse \<equiv> KwExpr E_False"
abbreviation KwIn :: tok where "KwIn \<equiv> KwExpr E_In"
abbreviation KwInherited :: tok where "KwInherited \<equiv> KwExpr E_Inherited"
abbreviation KwIs :: tok where "KwIs \<equiv> KwExpr E_Is"
abbreviation KwMod :: tok where "KwMod \<equiv> KwExpr E_Mod"
abbreviation KwNil :: tok where "KwNil \<equiv> KwExpr E_Nil"
abbreviation KwNot :: tok where "KwNot \<equiv> KwExpr E_Not"
abbreviation KwOr :: tok where "KwOr \<equiv> KwExpr E_Or"
abbreviation KwSelf :: tok where "KwSelf \<equiv> KwExpr E_Self"
abbreviation KwShl :: tok where "KwShl \<equiv> KwExpr E_Shl"
abbreviation KwShr :: tok where "KwShr \<equiv> KwExpr E_Shr"
abbreviation KwTrue :: tok where "KwTrue \<equiv> KwExpr E_True"
abbreviation KwXor :: tok where "KwXor \<equiv> KwExpr E_Xor"
abbreviation KwAsm :: tok where "KwAsm \<equiv> KwStmt S_Asm"
abbreviation KwBegin :: tok where "KwBegin \<equiv> KwStmt S_Begin"
abbreviation KwCase :: tok where "KwCase \<equiv> KwStmt S_Case"
abbreviation KwDo :: tok where "KwDo \<equiv> KwStmt S_Do"
abbreviation KwDownto :: tok where "KwDownto \<equiv> KwStmt S_Downto"
abbreviation KwElse :: tok where "KwElse \<equiv> KwStmt S_Else"
abbreviation KwEnd :: tok where "KwEnd \<equiv> KwStmt S_End"
abbreviation KwExcept :: tok where "KwExcept \<equiv> KwStmt S_Except"
abbreviation KwFinally :: tok where "KwFinally \<equiv> KwStmt S_Finally"
abbreviation KwFor :: tok where "KwFor \<equiv> KwStmt S_For"
abbreviation KwGoto :: tok where "KwGoto \<equiv> KwStmt S_Goto"
abbreviation KwIf :: tok where "KwIf \<equiv> KwStmt S_If"
abbreviation KwOf :: tok where "KwOf \<equiv> KwStmt S_Of"
abbreviation KwOtherwise :: tok where "KwOtherwise \<equiv> KwStmt S_Otherwise"
abbreviation KwRaise :: tok where "KwRaise \<equiv> KwStmt S_Raise"
abbreviation KwRepeat :: tok where "KwRepeat \<equiv> KwStmt S_Repeat"
abbreviation KwThen :: tok where "KwThen \<equiv> KwStmt S_Then"
abbreviation KwTo :: tok where "KwTo \<equiv> KwStmt S_To"
abbreviation KwTry :: tok where "KwTry \<equiv> KwStmt S_Try"
abbreviation KwUntil :: tok where "KwUntil \<equiv> KwStmt S_Until"
abbreviation KwWhile :: tok where "KwWhile \<equiv> KwStmt S_While"
abbreviation KwWith :: tok where "KwWith \<equiv> KwStmt S_With"
abbreviation KwConst :: tok where "KwConst \<equiv> KwDecl D_Const"
abbreviation KwConstructor :: tok where "KwConstructor \<equiv> KwDecl D_Constructor"
abbreviation KwDestructor :: tok where "KwDestructor \<equiv> KwDecl D_Destructor"
abbreviation KwExports :: tok where "KwExports \<equiv> KwDecl D_Exports"
abbreviation KwFinalization :: tok where "KwFinalization \<equiv> KwDecl D_Finalization"
abbreviation KwFunction :: tok where "KwFunction \<equiv> KwDecl D_Function"
abbreviation KwImplementation :: tok where "KwImplementation \<equiv> KwDecl D_Implementation"
abbreviation KwInitialization :: tok where "KwInitialization \<equiv> KwDecl D_Initialization"
abbreviation KwInterface :: tok where "KwInterface \<equiv> KwDecl D_Interface"
abbreviation KwLabel :: tok where "KwLabel \<equiv> KwDecl D_Label"
abbreviation KwLibrary :: tok where "KwLibrary \<equiv> KwDecl D_Library"
abbreviation KwOperator :: tok where "KwOperator \<equiv> KwDecl D_Operator"
abbreviation KwProcedure :: tok where "KwProcedure \<equiv> KwDecl D_Procedure"
abbreviation KwProgram :: tok where "KwProgram \<equiv> KwDecl D_Program"
abbreviation KwResourcestring :: tok where "KwResourcestring \<equiv> KwDecl D_Resourcestring"
abbreviation KwThreadvar :: tok where "KwThreadvar \<equiv> KwDecl D_Threadvar"
abbreviation KwType :: tok where "KwType \<equiv> KwDecl D_Type"
abbreviation KwUnit :: tok where "KwUnit \<equiv> KwDecl D_Unit"
abbreviation KwUses :: tok where "KwUses \<equiv> KwDecl D_Uses"
abbreviation KwVar :: tok where "KwVar \<equiv> KwDecl D_Var"
abbreviation KwArray :: tok where "KwArray \<equiv> KwTy T_Array"
abbreviation KwClass :: tok where "KwClass \<equiv> KwTy T_Class"
abbreviation KwFile :: tok where "KwFile \<equiv> KwTy T_File"
abbreviation KwObject :: tok where "KwObject \<equiv> KwTy T_Object"
abbreviation KwPacked :: tok where "KwPacked \<equiv> KwTy T_Packed"
abbreviation KwRecord :: tok where "KwRecord \<equiv> KwTy T_Record"
abbreviation KwSet :: tok where "KwSet \<equiv> KwTy T_Set"
abbreviation KwShortstring :: tok where "KwShortstring \<equiv> KwTy T_Shortstring"
abbreviation KwString :: tok where "KwString \<equiv> KwTy T_String"

text \<open>\<open>kKeywordTable\<close>, in the order of the source.\<close>

definition keyword_table :: "(string \<times> tok) list" where
  "keyword_table =
    [(''and'', KwAnd) , (''array'', KwArray) , (''as'', KwAs) , (''asm'', KwAsm)
    , (''begin'', KwBegin) , (''case'', KwCase) , (''class'', KwClass) , (''const'', KwConst)
    , (''constructor'', KwConstructor) , (''destructor'', KwDestructor) , (''div'', KwDiv)
    , (''do'', KwDo) , (''downto'', KwDownto) , (''else'', KwElse) , (''end'', KwEnd)
    , (''except'', KwExcept) , (''exports'', KwExports) , (''false'', KwFalse)
    , (''file'', KwFile) , (''finalization'', KwFinalization) , (''finally'', KwFinally)
    , (''for'', KwFor) , (''function'', KwFunction) , (''goto'', KwGoto) , (''if'', KwIf)
    , (''implementation'', KwImplementation) , (''in'', KwIn) , (''inherited'', KwInherited)
    , (''initialization'', KwInitialization) , (''interface'', KwInterface) , (''is'', KwIs)
    , (''label'', KwLabel) , (''library'', KwLibrary) , (''mod'', KwMod) , (''nil'', KwNil)
    , (''not'', KwNot) , (''object'', KwObject) , (''of'', KwOf) , (''operator'', KwOperator)
    , (''or'', KwOr) , (''otherwise'', KwOtherwise) , (''packed'', KwPacked)
    , (''procedure'', KwProcedure) , (''program'', KwProgram) , (''raise'', KwRaise)
    , (''record'', KwRecord) , (''repeat'', KwRepeat) , (''resourcestring'', KwResourcestring)
    , (''self'', KwSelf) , (''set'', KwSet) , (''shl'', KwShl)
    , (''shortstring'', KwShortstring) , (''shr'', KwShr) , (''string'', KwString)
    , (''then'', KwThen) , (''threadvar'', KwThreadvar) , (''to'', KwTo) , (''true'', KwTrue)
    , (''try'', KwTry) , (''type'', KwType) , (''unit'', KwUnit) , (''until'', KwUntil)
    , (''uses'', KwUses) , (''var'', KwVar) , (''while'', KwWhile) , (''with'', KwWith)
    , (''xor'', KwXor)]"

text \<open>
  \<open>keywords_.emplace\<close> keeps the first entry of a key, as \<open>map_of\<close> does;
  \<open>keywords_.find\<close> looks a (lowercased) word up.
\<close>

definition keyword_lookup :: "string \<Rightarrow> tok option" where
  "keyword_lookup w = map_of keyword_table w"

subsection \<open>Locations and diagnostics\<close>

text \<open>
  \<open>Location\<close> holds a pointer to its source file; the model keeps the file's path
  (\<open>None\<close> for the null pointer). Lines and columns are \<open>uint32_t\<close>.
\<close>

datatype (plugins only: code size) location =
  Location (loc_file: "string option") (loc_line: u32) (loc_col: u32)

definition no_location :: location where
  "no_location = Location None 0 0"

text \<open>
  \<open>report_error\<close> and \<open>report_warning\<close> print a line and bump a global counter. The model
  appends to a log: the counters are the numbers of errors and of warnings in it.
\<close>

datatype (plugins only: code size) diag =
    Err (diag_loc: location) (diag_msg: string)
  | Warn (diag_loc: location) (diag_msg: string)

definition is_err :: "diag \<Rightarrow> bool" where
  "is_err d = (case d of Err _ _ \<Rightarrow> True | Warn _ _ \<Rightarrow> False)"

definition error_count :: "diag list \<Rightarrow> nat" where
  "error_count ds = length (filter is_err ds)"

definition warning_count :: "diag list \<Rightarrow> nat" where
  "warning_count ds = length (filter (\<lambda>d. \<not> is_err d) ds)"

lemma error_count_append [simp]: "error_count (a @ b) = error_count a + error_count b"
  by (simp add: error_count_def)

lemma error_count_simps [simp]:
  "error_count [] = 0"
  "error_count (Err l m # ds) = Suc (error_count ds)"
  "error_count (Warn l m # ds) = error_count ds"
  by (simp_all add: error_count_def is_err_def)

subsection \<open>Tokens\<close>

datatype (plugins only: code size) token =
  Token (tok_kind: tok) (tok_loc: location) (tok_text: string) (tok_int: u64)

text \<open>The default arguments of the constructor: \<open>text_in = {}\<close>, \<open>int_value_in = 0\<close>.\<close>

abbreviation token_at :: "tok \<Rightarrow> location \<Rightarrow> string \<Rightarrow> token" where
  "token_at k l t \<equiv> Token k l t 0"

text \<open>\<open>InterfaceMode\<close>, and the mode switches the parser reads off the lexer.\<close>

datatype (plugins only: code size) interface_mode = Com | Corba

record modes =
  m_overflow :: bool
  m_range :: bool
  m_packenum :: nat
  m_interface :: interface_mode
  m_long_strings :: bool

subsection \<open>Facts\<close>

lemma keyword_table_distinct: "distinct (map fst keyword_table)"
  by (simp add: keyword_table_def)

lemma keyword_table_lower:
  "list_all (\<lambda>(w, _). list_all is_lower w \<and> w \<noteq> []) keyword_table"
  by (simp add: keyword_table_def is_lower_def code_def)

lemma keyword_not_ident:
  "list_all (\<lambda>(_, k). k \<noteq> Ident \<and> k \<noteq> Eof \<and> k \<noteq> Error) keyword_table"
  by (simp add: keyword_table_def)

lemma keyword_lookup_kind: "keyword_lookup w = Some k \<Longrightarrow> k \<noteq> Ident \<and> k \<noteq> Eof \<and> k \<noteq> Error"
  using keyword_not_ident
  by (auto simp: keyword_lookup_def list_all_iff dest!: map_of_SomeD)

end
