(* ===== verification/Lex_State.thy ===== *)
theory Lex_State
  imports Tokens
begin

text \<open>
  The state of class \<open>Lexer\<close> (\<open>src/lexer.h\<close>, \<open>src/lexer.cc\<close>), the character level operations
  \<open>peek\<close>, \<open>get\<close>, \<open>pop_input_if_eof\<close>, the loops that consume characters, the table of
  conditional symbols and the parts of \<open>std::filesystem::path\<close> that file inclusion uses.
\<close>

subsection \<open>State\<close>

text \<open>
  \<open>Lexer::Input\<close>: \<open>in_path\<close> and \<open>in_text\<close> are the \<open>path\<close> and \<open>contents\<close> of the shared
  source file. Positions are below the length of the file, so \<open>size_t\<close> is a natural
  number; lines and columns wrap at 32 bits.
\<close>

record input =
  in_path :: string
  in_text :: string
  in_pos :: nat
  in_line :: u32
  in_col :: u32

record ifdef_frame =
  fr_accepting :: bool
  fr_any_taken :: bool
  fr_in_else :: bool

text \<open>
  The vector \<open>stack_\<close> is never empty: the constructor pushes the root file and
  \<open>pop_input_if_eof\<close> keeps one element. So the model has its last element \<open>top\<close> and the
  ones below it, nearest first. \<open>ifdef_stack\<close> lists \<open>ifdef_stack_\<close> from its back.
\<close>

record lexer =
  top :: input
  under :: "input list"
  ifdef_stack :: "ifdef_frame list"
  lex_defines :: "string \<rightharpoonup> string option"
  include_dirs :: "string list"
  q_check :: bool
  r_check :: bool
  t_typed_addresses :: bool
  packenum :: nat
  h_long_strings :: bool
  default_interface_mode :: interface_mode
  interface_mode :: interface_mode
  diags :: "diag list"

definition initial_input_pos :: "string \<Rightarrow> nat" where
  "initial_input_pos s =
     (if length s \<ge> 3 \<and> code (s ! 0) = 0xef \<and> code (s ! 1) = 0xbb \<and> code (s ! 2) = 0xbf
      then 3 else 0)"

definition open_input :: "string \<Rightarrow> string \<Rightarrow> input" where
  "open_input path text =
     \<lparr>in_path = path, in_text = text, in_pos = initial_input_pos text, in_line = 1, in_col = 1\<rparr>"

definition new_lexer :: "string \<Rightarrow> string \<Rightarrow> string list \<Rightarrow> lexer" where
  "new_lexer path text dirs =
     \<lparr>top = open_input path text, under = [], ifdef_stack = [], lex_defines = Map.empty,
      include_dirs = dirs, q_check = False, r_check = False, t_typed_addresses = False,
      packenum = 4, h_long_strings = False, default_interface_mode = Com,
      interface_mode = Com, diags = []\<rparr>"

definition modes_of :: "lexer \<Rightarrow> modes" where
  "modes_of lx = \<lparr>m_overflow = q_check lx, m_range = r_check lx, m_packenum = packenum lx,
     m_interface = interface_mode lx, m_long_strings = h_long_strings lx\<rparr>"

definition set_overflow_check_default :: "bool \<Rightarrow> lexer \<Rightarrow> lexer" where
  "set_overflow_check_default on lx = lx\<lparr>q_check := on\<rparr>"

definition set_range_check_default :: "bool \<Rightarrow> lexer \<Rightarrow> lexer" where
  "set_range_check_default on lx = lx\<lparr>r_check := on\<rparr>"

definition report_error :: "location \<Rightarrow> string \<Rightarrow> lexer \<Rightarrow> lexer" where
  "report_error l m lx = lx\<lparr>diags := diags lx @ [Err l m]\<rparr>"

definition report_warning :: "location \<Rightarrow> string \<Rightarrow> lexer \<Rightarrow> lexer" where
  "report_warning l m lx = lx\<lparr>diags := diags lx @ [Warn l m]\<rparr>"

subsection \<open>Characters\<close>

definition at_eof_of_current :: "lexer \<Rightarrow> bool" where
  "at_eof_of_current lx = (in_pos (top lx) \<ge> length (in_text (top lx)))"

definition peek :: "nat \<Rightarrow> lexer \<Rightarrow> char" where
  "peek ahead lx =
     (let p = in_pos (top lx) + ahead
      in if p \<ge> length (in_text (top lx)) then nul else in_text (top lx) ! p)"

definition get :: "lexer \<Rightarrow> char \<times> lexer" where
  "get lx =
     (let i = top lx
      in if in_pos i \<ge> length (in_text i) then (nul, lx)
         else let c = in_text i ! in_pos i
              in (c, lx\<lparr>top := (if c = nl
                   then i\<lparr>in_pos := Suc (in_pos i), in_line := in_line i + 1, in_col := 1\<rparr>
                   else i\<lparr>in_pos := Suc (in_pos i), in_col := in_col i + 1\<rparr>)\<rparr>))"

text \<open>\<open>get\<close> with its result thrown away.\<close>

definition skip1 :: "lexer \<Rightarrow> lexer" where
  "skip1 lx = snd (get lx)"

definition pop_input_if_eof :: "lexer \<Rightarrow> bool \<times> lexer" where
  "pop_input_if_eof lx =
     (case under lx of
        [] \<Rightarrow> (False, lx)
      | i # is \<Rightarrow> if at_eof_of_current lx then (True, lx\<lparr>top := i, under := is\<rparr>)
                 else (False, lx))"

definition here :: "lexer \<Rightarrow> location" where
  "here lx = Location (Some (in_path (top lx))) (in_line (top lx)) (in_col (top lx))"

definition accepting :: "lexer \<Rightarrow> bool" where
  "accepting lx = list_all fr_accepting (ifdef_stack lx)"

definition push_input :: "input \<Rightarrow> lexer \<Rightarrow> lexer" where
  "push_input i lx = lx\<lparr>top := i, under := top lx # under lx\<rparr>"

subsection \<open>Measures of what is left to read\<close>

definition rest :: "lexer \<Rightarrow> string" where
  "rest lx = drop (in_pos (top lx)) (in_text (top lx))"

definition in_left :: "input \<Rightarrow> nat" where
  "in_left i = length (in_text i) - in_pos i"

definition lex_left :: "lexer \<Rightarrow> nat" where
  "lex_left lx = in_left (top lx) + sum_list (map (\<lambda>i. Suc (in_left i)) (under lx))"

lemma at_eof_rest: "at_eof_of_current lx \<longleftrightarrow> rest lx = []"
  by (simp add: at_eof_of_current_def rest_def)

lemma peek_rest: "peek k lx = (if k < length (rest lx) then rest lx ! k else nul)"
  by (auto simp: peek_def rest_def Let_def)

lemma peek_0_Cons [simp]: "rest lx = c # cs \<Longrightarrow> peek 0 lx = c"
  by (simp add: peek_rest)

lemma peek_Suc_Cons: "rest lx = c # cs \<Longrightarrow> peek (Suc k) lx = (if k < length cs then cs ! k else nul)"
  by (simp add: peek_rest)

lemma get_Cons: "rest lx = c # cs \<Longrightarrow> fst (get lx) = c \<and> rest (snd (get lx)) = cs"
proof -
  assume r: "rest lx = c # cs"
  then have lt: "in_pos (top lx) < length (in_text (top lx))"
    by (metis drop_all linorder_not_less list.distinct(1) rest_def)
  then have "in_text (top lx) ! in_pos (top lx) # drop (Suc (in_pos (top lx))) (in_text (top lx))
      = c # cs"
    using r by (simp add: rest_def Cons_nth_drop_Suc)
  with lt show ?thesis by (simp add: get_def rest_def Let_def)
qed

lemma rest_skip1 [simp]: "rest (skip1 lx) = tl (rest lx)"
proof (cases "rest lx")
  case Nil
  then have "in_pos (top lx) \<ge> length (in_text (top lx))" by (simp add: rest_def)
  then show ?thesis using Nil by (simp add: skip1_def get_def)
qed (auto simp: skip1_def get_Cons)

lemma get_pair: "rest lx = c # cs \<Longrightarrow> get lx = (c, skip1 lx)"
  by (metis get_Cons prod.collapse skip1_def)

lemma in_left_top: "in_left (top lx) = length (rest lx)"
  by (simp add: in_left_def rest_def)

text \<open>Reading characters touches nothing but the position in the current input.\<close>

lemma skip1_frame [simp, frame_simps]:
  "under (skip1 lx) = under lx"
  "ifdef_stack (skip1 lx) = ifdef_stack lx"
  "lex_defines (skip1 lx) = lex_defines lx"
  "include_dirs (skip1 lx) = include_dirs lx"
  "diags (skip1 lx) = diags lx"
  "modes_of (skip1 lx) = modes_of lx"
  "in_path (top (skip1 lx)) = in_path (top lx)"
  "in_text (top (skip1 lx)) = in_text (top lx)"
  by (simp_all add: skip1_def get_def Let_def modes_of_def)

lemma lex_left_skip1: "rest lx \<noteq> [] \<Longrightarrow> Suc (lex_left (skip1 lx)) = lex_left lx"
  by (simp add: lex_left_def in_left_top)

lemma lex_left_skip1_le [progress]: "lex_left (skip1 lx) \<le> lex_left lx"
  by (simp add: lex_left_def in_left_top)

lemma pop_input_if_eof_cases:
  "pop_input_if_eof lx = (b, lx') \<Longrightarrow>
     (b \<and> rest lx = [] \<and> (\<exists>i is. under lx = i # is \<and> lx' = lx\<lparr>top := i, under := is\<rparr>)) \<or>
     (\<not> b \<and> lx' = lx \<and> (rest lx = [] \<longrightarrow> under lx = []))"
  by (auto simp: pop_input_if_eof_def at_eof_rest split: list.splits if_splits)

lemma lex_left_pop: "pop_input_if_eof lx = (True, lx') \<Longrightarrow> Suc (lex_left lx') = lex_left lx"
  by (auto dest!: pop_input_if_eof_cases simp: lex_left_def in_left_top)
    (simp add: in_left_def rest_def)

subsection \<open>Loops that consume characters\<close>

text \<open>
  \<open>while (!at_eof_of_current() && P(peek())) out.push_back(get());\<close> is the shape of most
  loops of the lexer; the current input shrinks with every round.
\<close>

function take_chars :: "(char \<Rightarrow> bool) \<Rightarrow> lexer \<Rightarrow> string \<times> lexer" where
  "take_chars P lx =
     (if \<not> at_eof_of_current lx \<and> P (peek 0 lx)
      then let (c, lx1) = get lx; (cs, lx2) = take_chars P lx1 in (c # cs, lx2)
      else ([], lx))"
  by pat_completeness auto
termination
proof (relation "measure (\<lambda>(P, lx). length (rest lx))", goal_cases)
  case (2 P lx x c lx1)
  then obtain d ds where "rest lx = d # ds" by (cases "rest lx") (auto simp: at_eof_rest)
  with 2 show ?case by (auto simp: get_pair)
qed simp

declare take_chars.simps [simp del]

text \<open>\<open>n\<close> calls of \<open>get\<close>.\<close>

fun skip :: "nat \<Rightarrow> lexer \<Rightarrow> lexer" where
  "skip 0 lx = lx"
| "skip (Suc n) lx = skip n (skip1 lx)"

lemma rest_skip [simp]: "rest (skip n lx) = drop n (rest lx)"
  by (induction n arbitrary: lx) (auto simp: drop_Suc)

lemma skip_frame [simp, frame_simps]:
  "under (skip n lx) = under lx"
  "ifdef_stack (skip n lx) = ifdef_stack lx"
  "lex_defines (skip n lx) = lex_defines lx"
  "include_dirs (skip n lx) = include_dirs lx"
  "diags (skip n lx) = diags lx"
  "modes_of (skip n lx) = modes_of lx"
  "in_path (top (skip n lx)) = in_path (top lx)"
  "in_text (top (skip n lx)) = in_text (top lx)"
  by (induction n arbitrary: lx) auto

lemma skip_add: "skip (m + n) lx = skip n (skip m lx)"
  by (induction m arbitrary: lx) auto

lemma lex_left_skip_le [progress]: "lex_left (skip n lx) \<le> lex_left lx"
  by (induction n arbitrary: lx) (auto intro: order_trans lex_left_skip1_le)

lemma take_chars_eq:
  "take_chars P lx = (takeWhile P (rest lx), skip (length (takeWhile P (rest lx))) lx)"
proof (induction P lx rule: take_chars.induct)
  case (1 P lx)
  show ?case
  proof (cases "rest lx")
    case Nil
    then show ?thesis by (simp add: take_chars.simps at_eof_rest)
  next
    case (Cons c cs)
    then have "\<not> at_eof_of_current lx" "peek 0 lx = c" "get lx = (c, skip1 lx)"
      by (simp_all add: at_eof_rest get_pair)
    with 1 Cons show ?thesis
      by (cases "P c") (simp_all add: take_chars.simps [of P lx])
  qed
qed

end
