(* ===== verification/If_Expr.thy ===== *)
theory If_Expr
  imports Lex_State
begin

text \<open>
  The evaluator of \<open>{$if EXPR}\<close> conditions: struct \<open>IfExprParser\<close> and
  \<open>Lexer::eval_if_expr\<close> (\<open>src/lexer.cc\<close>, lines 310--575), with the macro definitions
  \<open>NAME:=TEXT\<close> its operands may name (\<open>parse_macro_definition\<close>).

  \<open>ie_rest\<close> is the part of \<open>src\<close> from \<open>pos\<close> on. The C++ functions recurse on the
  parentheses and operators of the text; the model's carry fuel, and
  \<open>eval_if_expr_total\<close> shows that the fuel \<open>eval_if_expr\<close> passes is enough for every text.

  \<open>read_int\<close> accumulates an \<open>int64_t\<close> without an overflow test, so a literal beyond 64 bits
  is undefined behaviour in C++. The model computes the exact integer; it is the value of
  the code for every literal of at most 18 digits (\<open>read_int_bound\<close>).
\<close>

subsection \<open>Macro definitions\<close>

definition parse_macro_definition :: "string \<Rightarrow> string \<times> string option" where
  "parse_macro_definition r =
     (let body = trim r
      in case split_first '':='' body of
           None \<Rightarrow> (body, None)
         | Some (name, text) \<Rightarrow> (trim name, Some (trim text)))"

subsection \<open>Scanner of the condition text\<close>

datatype (plugins only: code size) ifval = BoolV bool | IntV int

type_synonym sym_table = "string \<rightharpoonup> string option"

record ifexpr =
  ie_rest :: string
  ie_ok :: bool
  ie_error :: string

text \<open>The default value of \<open>Value::b\<close> where the kind is not \<open>Bool\<close> is \<open>false\<close>.\<close>

fun bool_of :: "ifval \<Rightarrow> bool" where
  "bool_of (BoolV b) = b"
| "bool_of (IntV _) = False"

fun is_bool :: "ifval \<Rightarrow> bool" where
  "is_bool (BoolV _) = True"
| "is_bool (IntV _) = False"

definition fail :: "string \<Rightarrow> ifexpr \<Rightarrow> ifexpr" where
  "fail msg p = p\<lparr>ie_ok := False, ie_error := (if ie_error p = [] then msg else ie_error p)\<rparr>"

definition skip_ws :: "ifexpr \<Rightarrow> ifexpr" where
  "skip_ws p = p\<lparr>ie_rest := dropWhile is_blank (ie_rest p)\<rparr>"

definition ie_eof :: "ifexpr \<Rightarrow> bool \<times> ifexpr" where
  "ie_eof p = (let p = skip_ws p in (ie_rest p = [], p))"

definition match_char :: "char \<Rightarrow> ifexpr \<Rightarrow> bool \<times> ifexpr" where
  "match_char c p =
     (let p = skip_ws p
      in case ie_rest p of
           [] \<Rightarrow> (False, p)
         | d # ds \<Rightarrow> if d = c then (True, p\<lparr>ie_rest := ds\<rparr>) else (False, p))"

text \<open>A word matches whatever its case, and only if no letter, digit or underscore follows.\<close>

definition match_word :: "string \<Rightarrow> ifexpr \<Rightarrow> bool \<times> ifexpr" where
  "match_word w p =
     (let p = skip_ws p; r = ie_rest p; n = length w; after = drop n r
      in if length r < n then (False, p)
         else if lower (take n r) \<noteq> w then (False, p)
         else if after \<noteq> [] \<and> (is_alnum (hd after) \<or> hd after = CHR ''_'') then (False, p)
         else (True, p\<lparr>ie_rest := after\<rparr>))"

fun digits_value :: "int \<Rightarrow> string \<Rightarrow> int" where
  "digits_value v [] = v"
| "digits_value v (c # cs) = digits_value (v * 10 + int (digit_val c)) cs"

definition read_int :: "ifexpr \<Rightarrow> int option \<times> ifexpr" where
  "read_int p =
     (let p = skip_ws p; r = ie_rest p;
          signed = (r \<noteq> [] \<and> (hd r = CHR ''+'' \<or> hd r = CHR ''-''));
          neg = (signed \<and> hd r = CHR ''-'');
          body = (if signed then tl r else r);
          ds = takeWhile is_digit body;
          v = digits_value 0 ds
      in if ds = [] then (None, p)
         else (Some (if neg then - v else v), p\<lparr>ie_rest := dropWhile is_digit body\<rparr>))"

definition is_word_char :: "char \<Rightarrow> bool" where
  "is_word_char c \<longleftrightarrow> is_alnum c \<or> c = CHR ''_''"

definition read_ident :: "ifexpr \<Rightarrow> string \<times> ifexpr" where
  "read_ident p =
     (let p = skip_ws p
      in (lower (takeWhile is_word_char (ie_rest p)),
          p\<lparr>ie_rest := dropWhile is_word_char (ie_rest p)\<rparr>))"

definition new_ifexpr :: "string \<Rightarrow> ifexpr" where
  "new_ifexpr s = \<lparr>ie_rest = s, ie_ok = True, ie_error = []\<rparr>"

text \<open>
  \<open>parse_macro_value\<close> tries three forms on one scanner: a form that matches its word but is
  not at the end of the text leaves the scanner behind that word.
\<close>

definition parse_macro_value :: "string \<Rightarrow> ifval option" where
  "parse_macro_value text =
     (let (t, p1) = match_word ''true'' (new_ifexpr text);
          (te, p2) = (if t then ie_eof p1 else (False, p1))
      in if t \<and> te then Some (BoolV True)
         else let (f, p3) = match_word ''false'' p2;
                  (fe, p4) = (if f then ie_eof p3 else (False, p3))
              in if f \<and> fe then Some (BoolV False)
                 else let (v, p5) = read_int p4; (ve, p6) = ie_eof p5
                      in case v of
                           Some i \<Rightarrow> if ve then Some (IntV i) else None
                         | None \<Rightarrow> None)"

datatype (plugins only: code size) relop = REq | RNe | RLt | RGt | RLe | RGe

definition match_relop :: "ifexpr \<Rightarrow> relop option \<times> ifexpr" where
  "match_relop p =
     (let p = skip_ws p
      in case ie_rest p of
           [] \<Rightarrow> (None, p)
         | c # cs \<Rightarrow>
             let second = (\<lambda>d. cs \<noteq> [] \<and> hd cs = d);
                 one = p\<lparr>ie_rest := cs\<rparr>; two = p\<lparr>ie_rest := tl cs\<rparr>
             in if c = CHR ''='' then (Some REq, one)
                else if c = CHR ''<'' then
                  (if second (CHR ''>'') then (Some RNe, two)
                   else if second (CHR ''='') then (Some RLe, two)
                   else (Some RLt, one))
                else if c = CHR ''>'' then
                  (if second (CHR ''='') then (Some RGe, two) else (Some RGt, one))
                else (None, p))"

subsection \<open>Recursive descent\<close>

text \<open>\<open>defined(SYM)\<close>, from behind the word \<open>defined\<close> on.\<close>

definition parse_defined :: "sym_table \<Rightarrow> ifexpr \<Rightarrow> ifval \<times> ifexpr" where
  "parse_defined defs p =
     (let (lp, p) = match_char CHR ''('' p
      in if \<not> lp then (BoolV False,
           fail ''expected `(' after `defined' in {$if} expression'' p)
         else let (sym, p) = read_ident p
              in if sym = [] then (BoolV False,
                   fail ''expected symbol name in `defined(...)' in {$if} expression'' p)
                 else let (rp, p) = match_char CHR '')'' p
                      in if \<not> rp then (BoolV False,
                           fail ''expected `)' after symbol name in {$if} expression'' p)
                         else (BoolV (sym \<in> dom defs), p))"

definition parse_symbol :: "sym_table \<Rightarrow> ifexpr \<Rightarrow> ifval \<times> ifexpr" where
  "parse_symbol defs p =
     (let (ident, p) = read_ident p
      in if ident = [] then (BoolV False, fail ''expected operand in {$if} expression'' p)
         else case defs ident of
                Some (Some text) \<Rightarrow>
                  (case parse_macro_value text of
                     Some v \<Rightarrow> (v, p)
                   | None \<Rightarrow> (BoolV False, fail (''symbol `'' @ ident @
                       [quote] @ '' has unsupported {$if} value `'' @ text @ [quote]) p))
              | _ \<Rightarrow> (BoolV False, fail (''undefined symbol `'' @ ident @
                       [quote] @ '' in {$if} expression'') p))"

definition parse_operand :: "sym_table \<Rightarrow> ifexpr \<Rightarrow> ifval \<times> ifexpr" where
  "parse_operand defs p =
     (let (d, p1) = match_word ''defined'' p
      in if d then parse_defined defs p1
         else let (t, p2) = match_word ''true'' p1
              in if t then (BoolV True, p2)
                 else let (f, p3) = match_word ''false'' p2
                      in if f then (BoolV False, p3)
                         else let (v, p4) = read_int p3
                              in case v of Some i \<Rightarrow> (IntV i, p4)
                                 | None \<Rightarrow> parse_symbol defs p4)"

definition compare_values :: "relop \<Rightarrow> ifval \<Rightarrow> ifval \<Rightarrow> ifexpr \<Rightarrow> ifval \<times> ifexpr" where
  "compare_values rop lhs rhs p =
     (case (lhs, rhs) of
        (BoolV a, BoolV b) \<Rightarrow>
          (case rop of
             REq \<Rightarrow> (BoolV (a = b), p)
           | RNe \<Rightarrow> (BoolV (a \<noteq> b), p)
           | _ \<Rightarrow> (BoolV False, fail ''only `=' and `<>' are valid for boolean {$if} values'' p))
      | (IntV a, IntV b) \<Rightarrow>
          (BoolV (case rop of REq \<Rightarrow> a = b | RNe \<Rightarrow> a \<noteq> b | RLt \<Rightarrow> a < b
                   | RGt \<Rightarrow> a > b | RLe \<Rightarrow> a \<le> b | RGe \<Rightarrow> a \<ge> b), p)
      | _ \<Rightarrow> (BoolV False,
          fail ''cannot compare boolean and integer values in {$if} expression'' p))"

text \<open>
  The levels of the grammar, \<open>parse_primary\<close> to \<open>parse_expr\<close> of the source under names of their
  own. A level takes the function of the level below (for
  \<open>if_parse_primary\<close>: the whole expression parser) as an argument, and \<open>if_parse_expr\<close> ties
  the knot; loops and the recursion of \<open>not\<close> spend fuel of their own.
\<close>

type_synonym if_parser = "ifexpr \<Rightarrow> (ifval \<times> ifexpr) option"

definition if_parse_primary :: "if_parser \<Rightarrow> sym_table \<Rightarrow> if_parser" where
  "if_parse_primary rec_expr defs p =
     (let (lp, p1) = match_char CHR ''('' p
      in if lp
         then case rec_expr p1 of
                None \<Rightarrow> None
              | Some (v, p2) \<Rightarrow>
                  let (rp, p3) = match_char CHR '')'' p2
                  in Some (v, if rp then p3 else p3\<lparr>ie_ok := False\<rparr>)
         else Some (parse_operand defs p1))"

primrec if_parse_unary :: "nat \<Rightarrow> if_parser \<Rightarrow> if_parser" where
  "if_parse_unary 0 primary p = None"
| "if_parse_unary (Suc n) primary p =
     (let (neg, p1) = match_word ''not'' p
      in if neg
         then case if_parse_unary n primary p1 of
                None \<Rightarrow> None
              | Some (v, p2) \<Rightarrow>
                  Some (BoolV (\<not> bool_of v), if is_bool v then p2 else
                    fail ''operator `not' requires a boolean operand in {$if} expression'' p2)
         else primary p1)"

primrec and_loop :: "nat \<Rightarrow> if_parser \<Rightarrow> ifval \<Rightarrow> if_parser" where
  "and_loop 0 unary v p = None"
| "and_loop (Suc n) unary v p =
     (let (more, p1) = match_word ''and'' p
      in if more
         then case unary p1 of
                None \<Rightarrow> None
              | Some (r, p2) \<Rightarrow>
                  if \<not> is_bool v \<or> \<not> is_bool r
                  then Some (BoolV False,
                    fail ''operator `and' requires boolean operands in {$if} expression'' p2)
                  else and_loop n unary (BoolV (bool_of v \<and> bool_of r)) p2
         else Some (v, p1))"

definition if_parse_and :: "nat \<Rightarrow> if_parser \<Rightarrow> if_parser" where
  "if_parse_and n unary p =
     (case unary p of None \<Rightarrow> None | Some (v, p1) \<Rightarrow> and_loop n unary v p1)"

primrec or_loop :: "nat \<Rightarrow> if_parser \<Rightarrow> ifval \<Rightarrow> if_parser" where
  "or_loop 0 operand v p = None"
| "or_loop (Suc n) operand v p =
     (let (more, p1) = match_word ''or'' p
      in if more
         then case operand p1 of
                None \<Rightarrow> None
              | Some (r, p2) \<Rightarrow>
                  if \<not> is_bool v \<or> \<not> is_bool r
                  then Some (BoolV False,
                    fail ''operator `or' requires boolean operands in {$if} expression'' p2)
                  else or_loop n operand (BoolV (bool_of v \<or> bool_of r)) p2
         else Some (v, p1))"

definition if_parse_simple_expr :: "nat \<Rightarrow> if_parser \<Rightarrow> if_parser" where
  "if_parse_simple_expr n operand p =
     (case operand p of None \<Rightarrow> None | Some (v, p1) \<Rightarrow> or_loop n operand v p1)"

definition if_parse_relation :: "if_parser \<Rightarrow> if_parser" where
  "if_parse_relation simple p =
     (case simple p of
        None \<Rightarrow> None
      | Some (lhs, p1) \<Rightarrow>
          let (rop, p2) = match_relop p1
          in case rop of
               None \<Rightarrow> Some (lhs, p2)
             | Some rop \<Rightarrow>
                 (case simple p2 of
                    None \<Rightarrow> None
                  | Some (rhs, p3) \<Rightarrow> Some (compare_values rop lhs rhs p3)))"

primrec if_parse_expr :: "nat \<Rightarrow> sym_table \<Rightarrow> if_parser" where
  "if_parse_expr 0 defs p = None"
| "if_parse_expr (Suc n) defs p =
     if_parse_relation
       (if_parse_simple_expr n
         (if_parse_and n
           (if_parse_unary n
             (if_parse_primary (if_parse_expr n defs) defs)))) p"

text \<open>
  \<open>eval_if_expr\<close>: the value of the condition, or the message that explains why there is none.
  A level of nesting, a \<open>not\<close> and a round of a loop each consume a character, so the
  length of the text bounds the fuel.
\<close>

definition if_fuel :: "string \<Rightarrow> nat" where
  "if_fuel s = Suc (Suc (length s))"

definition eval_if_expr :: "sym_table \<Rightarrow> string \<Rightarrow> string + bool" where
  "eval_if_expr defs s =
     (case if_parse_expr (if_fuel s) defs (new_ifexpr s) of
        None \<Rightarrow> Inl ''out of fuel''
      | Some (v, p) \<Rightarrow>
          if \<not> ie_ok p then Inl (ie_error p)
          else let (e, p') = ie_eof p
               in if \<not> e then Inl (''unexpected text after {$if} expression: `'' @
                                   trim (ie_rest p') @ ''`'')
                  else case v of
                         BoolV b \<Rightarrow> Inr b
                       | IntV _ \<Rightarrow> Inl ''{$if} expression does not produce a boolean value'')"

end
