(* ===== verification/Directives.thy ===== *)
theory Directives
  imports If_Expr
begin

text \<open>
  Compiler directives: \<open>Lexer::handle_directive\<close>, \<open>Lexer::do_include\<close> and their helpers
  (\<open>src/lexer.cc\<close>, lines 189--197, 253--306 and 577--912). The conditional directives keep
  the stack of \<open>IfdefFrame\<close>s; all others act only where the text is accepted.

  The file system is a parameter (\<open>fs_exists\<close>, \<open>fs_load\<close>: the answers of
  \<open>std::filesystem::exists\<close> and \<open>SourceFile::load\<close>). The operations of
  \<open>std::filesystem::path\<close> are those of the standard library on POSIX.
\<close>

subsection \<open>Paths\<close>

record file_system =
  fs_exists :: "string \<Rightarrow> bool"
  fs_load :: "string \<Rightarrow> string option"

abbreviation slash :: char where "slash \<equiv> CHR ''/''"

definition path_filename :: "string \<Rightarrow> string" where
  "path_filename p = rev (takeWhile (\<lambda>c. c \<noteq> slash) (rev p))"

definition path_has_extension :: "string \<Rightarrow> bool" where
  "path_has_extension p =
     (let f = path_filename p in f \<noteq> ''.'' \<and> f \<noteq> ''..'' \<and> CHR ''.'' \<in> set (tl f))"

definition path_is_absolute :: "string \<Rightarrow> bool" where
  "path_is_absolute p = (p \<noteq> [] \<and> hd p = slash)"

definition path_parent :: "string \<Rightarrow> string" where
  "path_parent p =
     (if list_all (\<lambda>c. c = slash) p then p
      else let pre = rev (dropWhile (\<lambda>c. c \<noteq> slash) (rev p));
               dir = rev (dropWhile (\<lambda>c. c = slash) (rev pre))
           in if pre \<noteq> [] \<and> dir = [] then [slash] else dir)"

definition path_append :: "string \<Rightarrow> string \<Rightarrow> string" where
  "path_append a b =
     (if path_is_absolute b then b
      else if a = [] \<or> last a = slash then a @ b else a @ [slash] @ b)"

subsection \<open>Symbols\<close>

definition define_symbol :: "string \<Rightarrow> lexer \<Rightarrow> lexer" where
  "define_symbol name lx =
     (let (n, text) = parse_macro_definition name
      in if lower n = [] then lx
         else lx\<lparr>lex_defines := (lex_defines lx)(lower n \<mapsto> text)\<rparr>)"

definition undefine_symbol :: "string \<Rightarrow> lexer \<Rightarrow> lexer" where
  "undefine_symbol name lx = lx\<lparr>lex_defines := (lex_defines lx)(lower name := None)\<rparr>"

subsection \<open>Parts of a directive\<close>

definition is_head_char :: "char \<Rightarrow> bool" where
  "is_head_char c \<longleftrightarrow> is_alnum c \<or> c = CHR ''_'' \<or> c = CHR ''+'' \<or> c = CHR ''-''"

definition split_directive :: "string \<Rightarrow> string \<times> string" where
  "split_directive body =
     (let b = dropWhile is_blank body
      in (lower (takeWhile is_head_char b),
          dropWhile is_blank (dropWhile is_head_char b)))"

definition parse_packenum_value :: "string \<Rightarrow> nat option" where
  "parse_packenum_value r =
     (let v = lower (trim r)
      in if v = [] then None
         else if v = ''default'' \<or> v = ''normal'' then Some 4
         else if v = ''1'' then Some 1
         else if v = ''2'' then Some 2
         else if v = ''4'' then Some 4
         else None)"

definition mode_default_packenum :: "string \<Rightarrow> nat option" where
  "mode_default_packenum r =
     (let m = lower (trim r)
      in if m = ''tp'' \<or> m = ''tp7'' \<or> m = ''delphi'' \<or> m = ''macpas'' then Some 1
         else if m = ''fpc'' \<or> m = ''objfpc'' then Some 4
         else None)"

subsection \<open>File inclusion\<close>

text \<open>The file an include argument names: relative to the current file's directory first.\<close>

definition resolve_include :: "file_system \<Rightarrow> lexer \<Rightarrow> string \<Rightarrow> string option" where
  "resolve_include fs lx a =
     (let p = (if path_has_extension a then a else a @ ''.inc'');
          cand = path_append (path_parent (in_path (top lx))) p
      in if path_is_absolute p \<and> fs_exists fs p then Some p
         else if fs_exists fs cand then Some cand
         else find (fs_exists fs) (map (\<lambda>d. path_append d p) (include_dirs lx)))"

definition do_include :: "file_system \<Rightarrow> string \<Rightarrow> location \<Rightarrow> lexer \<Rightarrow> lexer" where
  "do_include fs arg loc lx =
     (let a = trim arg
      in if a = [] then report_error loc ''empty {$include ...}'' lx
         else if length a \<ge> 2 \<and> hd a = CHR ''%'' \<and> last a = CHR ''%'' then
           (let macro = lower a;
                path = in_path (top lx) @ '':{$I '' @ a @ ''}''
            in if macro = ''%date%'' then
                 push_input (open_input path ([quote] @ ''1970-01-01'' @ [quote])) lx
               else if macro = ''%time%'' then
                 push_input (open_input path ([quote] @ ''00:00:00'' @ [quote])) lx
               else report_error loc (''unsupported builtin include-macro {$I '' @ a @ ''}'') lx)
         else
           let a = (if length a \<ge> 2 \<and> hd a = quote \<and> last a = quote
                    then butlast (tl a) else a)
           in case resolve_include fs lx a of
                None \<Rightarrow> report_error loc (''cannot find include file: '' @ a) lx
              | Some path \<Rightarrow>
                  (case fs_load fs path of
                     None \<Rightarrow> report_error loc (''cannot read include file: '' @ path) lx
                   | Some text \<Rightarrow> push_input (open_input path text) lx))"

subsection \<open>Conditional directives\<close>

definition push_frame :: "bool \<Rightarrow> lexer \<Rightarrow> lexer" where
  "push_frame b lx = lx\<lparr>ifdef_stack :=
     \<lparr>fr_accepting = b, fr_any_taken = b, fr_in_else = False\<rparr> # ifdef_stack lx\<rparr>"

text \<open>The state of a compiler switch that \<open>{$ifopt}\<close> asks for; unknown switches are off.\<close>

definition ifopt_value :: "string \<Rightarrow> lexer \<Rightarrow> bool" where
  "ifopt_value opt lx =
     (if opt = ''q+'' \<or> opt = ''overflowchecks+'' then q_check lx
      else if opt = ''q-'' \<or> opt = ''overflowchecks-'' then \<not> q_check lx
      else if opt = ''r+'' \<or> opt = ''rangechecks+'' then r_check lx
      else if opt = ''r-'' \<or> opt = ''rangechecks-'' then \<not> r_check lx
      else if opt = ''h+'' \<or> opt = ''longstrings+'' then h_long_strings lx
      else if opt = ''h-'' \<or> opt = ''longstrings-'' then \<not> h_long_strings lx
      else if opt = ''t+'' then t_typed_addresses lx
      else if opt = ''t-'' then \<not> t_typed_addresses lx
      else False)"

text \<open>
  A condition of \<open>{$if}\<close> or \<open>{$elseif}\<close>: false, with a report, where it has no value.
\<close>

definition if_condition :: "string \<Rightarrow> string \<Rightarrow> location \<Rightarrow> lexer \<Rightarrow> bool \<times> lexer" where
  "if_condition what r loc lx =
     (case eval_if_expr (lex_defines lx) r of
        Inr b \<Rightarrow> (b, lx)
      | Inl msg \<Rightarrow> (False, report_error loc (''cannot evaluate '' @ what @ '': '' @ msg) lx))"

definition handle_conditional ::
    "string \<Rightarrow> string \<Rightarrow> location \<Rightarrow> lexer \<Rightarrow> lexer option" where
  "handle_conditional head r loc lx =
     (if head = ''ifdef'' \<or> head = ''ifndef'' then
        let defined = (lower (trim r) \<in> dom (lex_defines lx));
            take = (if head = ''ifdef'' then defined else \<not> defined)
        in Some (push_frame (accepting lx \<and> take) lx)
      else if head = ''if'' then
        let (cond, lx') = (if accepting lx then if_condition ''{$if}'' r loc lx
                           else (False, lx))
        in Some (push_frame (accepting lx \<and> cond) lx')
      else if head = ''ifopt'' then
        Some (push_frame (accepting lx \<and> ifopt_value (lower (trim r)) lx) lx)
      else if head = ''elseif'' then
        Some (case ifdef_stack lx of
          [] \<Rightarrow> report_error loc ''{$elseif} without matching {$if}'' lx
        | f # fs \<Rightarrow>
            if fr_in_else f then report_error loc ''{$elseif} after {$else}'' lx
            else
              let parent_ok = list_all fr_accepting fs;
                  (cond, lx') = (if parent_ok \<and> \<not> fr_any_taken f
                                 then if_condition ''{$elseif}'' r loc lx else (False, lx));
                  acc = (parent_ok \<and> \<not> fr_any_taken f \<and> cond)
              in lx'\<lparr>ifdef_stack :=
                   f\<lparr>fr_accepting := acc, fr_any_taken := (fr_any_taken f \<or> acc)\<rparr> # fs\<rparr>)
      else if head = ''else'' then
        Some (case ifdef_stack lx of
          [] \<Rightarrow> report_error loc ''{$else} without matching {$ifdef}'' lx
        | f # fs \<Rightarrow>
            if fr_in_else f then report_error loc ''duplicate {$else}'' lx
            else
              let acc = (list_all fr_accepting fs \<and> \<not> fr_any_taken f)
              in lx\<lparr>ifdef_stack := f\<lparr>fr_in_else := True, fr_accepting := acc,
                   fr_any_taken := (fr_any_taken f \<or> acc)\<rparr> # fs\<rparr>)
      else if head = ''endif'' \<or> head = ''ifend'' then
        Some (case ifdef_stack lx of
          [] \<Rightarrow> report_error loc ''{$endif} without matching {$ifdef}'' lx
        | f # fs \<Rightarrow> lx\<lparr>ifdef_stack := fs\<rparr>)
      else None)"

subsection \<open>The other directives\<close>

text \<open>\<open>{$typedaddress X}\<close>, \<open>{$longstrings X}\<close>, \<open>{$interfaces X}\<close>.\<close>

definition do_typedaddress :: "string \<Rightarrow> location \<Rightarrow> lexer \<Rightarrow> lexer" where
  "do_typedaddress r loc lx =
     (let mode = lower (trim r)
      in if mode = ''-'' then lx\<lparr>t_typed_addresses := False\<rparr>
         else if mode = ''+'' then
           report_error loc ''{$TYPEDADDRESS+} typed address operator mode is not supported'' lx
         else report_error loc (''illegal {$typedaddress} value: '' @ trim r) lx)"

definition do_longstrings :: "string \<Rightarrow> location \<Rightarrow> lexer \<Rightarrow> lexer" where
  "do_longstrings r loc lx =
     (let mode = lower (trim r)
      in if mode = ''on'' \<or> mode = ''+'' then lx\<lparr>h_long_strings := True\<rparr>
         else if mode = ''off'' \<or> mode = ''-'' then lx\<lparr>h_long_strings := False\<rparr>
         else report_error loc (''illegal {$longstrings} value: '' @ trim r) lx)"

definition do_interfaces :: "string \<Rightarrow> location \<Rightarrow> lexer \<Rightarrow> lexer" where
  "do_interfaces r loc lx =
     (let mode = lower (trim r)
      in if mode = ''corba'' then lx\<lparr>interface_mode := Corba\<rparr>
         else if mode = ''com'' then lx\<lparr>interface_mode := Com\<rparr>
         else if mode = ''default'' then lx\<lparr>interface_mode := default_interface_mode lx\<rparr>
         else report_error loc (''illegal {$interfaces} value: '' @ trim r) lx)"

text \<open>The switches: directives that set one mode and do nothing else.\<close>

definition set_switch :: "string \<Rightarrow> (lexer \<Rightarrow> lexer) option" where
  "set_switch head =
     (if head = ''q+'' \<or> head = ''overflowchecks+'' then Some (\<lambda>lx. lx\<lparr>q_check := True\<rparr>)
      else if head = ''q-'' \<or> head = ''overflowchecks-'' then Some (\<lambda>lx. lx\<lparr>q_check := False\<rparr>)
      else if head = ''r+'' \<or> head = ''rangechecks+'' then Some (\<lambda>lx. lx\<lparr>r_check := True\<rparr>)
      else if head = ''r-'' \<or> head = ''rangechecks-'' then Some (\<lambda>lx. lx\<lparr>r_check := False\<rparr>)
      else if head = ''h+'' \<or> head = ''longstrings+''
        then Some (\<lambda>lx. lx\<lparr>h_long_strings := True\<rparr>)
      else if head = ''h-'' \<or> head = ''longstrings-''
        then Some (\<lambda>lx. lx\<lparr>h_long_strings := False\<rparr>)
      else if head = ''t-'' \<or> head = ''typedaddress-''
        then Some (\<lambda>lx. lx\<lparr>t_typed_addresses := False\<rparr>)
      else if head = ''z1'' then Some (\<lambda>lx. lx\<lparr>packenum := 1\<rparr>)
      else if head = ''z2'' then Some (\<lambda>lx. lx\<lparr>packenum := 2\<rparr>)
      else if head = ''z4'' then Some (\<lambda>lx. lx\<lparr>packenum := 4\<rparr>)
      else None)"

definition handle_other :: "file_system \<Rightarrow> string \<Rightarrow> string \<Rightarrow> location \<Rightarrow> lexer \<Rightarrow> lexer" where
  "handle_other fs head r loc lx =
     (if head = ''define'' then define_symbol r lx
      else if head = ''undef'' then undefine_symbol (trim r) lx
      else if head = ''i'' \<or> head = ''include'' then do_include fs r loc lx
      else if head = ''fatal'' \<or> head = ''error'' then
        report_error loc (''{$'' @ head @ ''} '' @ trim r) lx
      else if head = ''warning'' \<or> head = ''message'' \<or> head = ''note'' \<or> head = ''hint'' then
        report_warning loc (''{$'' @ head @ ''} '' @ trim r) lx
      else case set_switch head of
        Some f \<Rightarrow> f lx
      | None \<Rightarrow>
          if head = ''t+'' \<or> head = ''typedaddress+'' then
            report_error loc ''{$T+} typed address operator mode is not supported'' lx
          else if head = ''typedaddress'' then do_typedaddress r loc lx
          else if head = ''longstrings'' then do_longstrings r loc lx
          else if head = ''packenum'' \<or> head = ''minenumsize'' then
            (case parse_packenum_value r of
               Some v \<Rightarrow> lx\<lparr>packenum := v\<rparr>
             | None \<Rightarrow> report_error loc (''illegal {$'' @ head @ ''} value: '' @ trim r) lx)
          else if head = ''interfaces'' then do_interfaces r loc lx
          else if head = ''mode'' then
            (case mode_default_packenum r of
               Some v \<Rightarrow> lx\<lparr>packenum := v\<rparr>
             | None \<Rightarrow> lx)
          else lx)"

text \<open>
  \<open>handle_directive\<close>: conditional directives whatever the state, the others only where the
  text is accepted; everything unknown is silently accepted.
\<close>

definition handle_directive :: "file_system \<Rightarrow> string \<Rightarrow> location \<Rightarrow> lexer \<Rightarrow> lexer" where
  "handle_directive fs body loc lx =
     (let (head, r) = split_directive body
      in if head = [] then lx
         else case handle_conditional head r loc lx of
                Some lx' \<Rightarrow> lx'
              | None \<Rightarrow> if accepting lx then handle_other fs head r loc lx else lx)"

end
