(* ===== verification/Lexer.thy ===== *)
theory Lexer
  imports Directives
begin

text \<open>
  The scanners and the main loop of \<open>Lexer\<close> (\<open>src/lexer.cc\<close>, lines 155--175 and 914--1255):
  identifiers and keywords, numbers, string literals, punctuation, white space with nested
  comments and directives, and \<open>Lexer::next\<close>.

  Loops inside one input terminate because the input shrinks. The loops of
  \<open>skip_ws_and_comments\<close> and \<open>next\<close> may include files, and a file that includes itself
  keeps them busy for ever, so they carry fuel and return an option.
\<close>

subsection \<open>Digits\<close>

text \<open>
  \<open>accumulate_digit\<close>: \<open>__builtin_mul_overflow\<close> and \<open>__builtin_add_overflow\<close> compare the exact
  result with the width. A product that does not fit leaves the value alone; a sum that
  does not fit has stored the wrapped sum.
\<close>

definition accumulate_digit ::
    "nat \<Rightarrow> nat \<Rightarrow> 'a::len word \<times> bool \<Rightarrow> 'a word \<times> bool" where
  "accumulate_digit base digit vo =
     (let (value, overflow) = vo
      in if overflow then (value, True)
         else if unat value * base \<ge> 2 ^ LENGTH('a) then (value, True)
         else let tmp = value * of_nat base
              in (tmp + of_nat digit, unat tmp + digit \<ge> 2 ^ LENGTH('a)))"

text \<open>\<open>while (!eof && P(peek())) { d = get(); accumulate_digit(v, base, val(d), ovf); text += d; }\<close>\<close>

function scan_digits ::
    "(char \<Rightarrow> bool) \<Rightarrow> (char \<Rightarrow> nat) \<Rightarrow> nat \<Rightarrow> ('a::len word \<times> bool) \<Rightarrow> lexer
      \<Rightarrow> ('a word \<times> bool) \<times> string \<times> lexer" where
  "scan_digits P val base vo lx =
     (if \<not> at_eof_of_current lx \<and> P (peek 0 lx)
      then let (d, lx1) = get lx;
               (vo', cs, lx2) = scan_digits P val base (accumulate_digit base (val d) vo) lx1
           in (vo', d # cs, lx2)
      else (vo, [], lx))"
  by pat_completeness auto
termination
proof (relation "measure (\<lambda>(P, val, base, vo, lx). length (rest lx))", goal_cases)
  case (2 P val base vo lx x d lx1)
  then obtain c cs where "rest lx = c # cs" by (cases "rest lx") (auto simp: at_eof_rest)
  with 2 show ?case by (auto simp: get_pair)
qed simp

declare scan_digits.simps [simp del]

lemma scan_digits_eq:
  "scan_digits P val base vo lx =
     (let ds = takeWhile P (rest lx)
      in (fold (\<lambda>d. accumulate_digit base (val d)) ds vo, ds, skip (length ds) lx))"
proof (induction P val base vo lx rule: scan_digits.induct)
  case (1 P val base vo lx)
  show ?case
  proof (cases "rest lx")
    case Nil
    then show ?thesis by (simp add: scan_digits.simps at_eof_rest)
  next
    case (Cons c cs)
    then have "\<not> at_eof_of_current lx" "peek 0 lx = c" "get lx = (c, skip1 lx)"
      by (simp_all add: at_eof_rest get_pair)
    with 1 Cons show ?thesis
      by (cases "P c") (simp_all add: scan_digits.simps [of P val base vo lx] Let_def)
  qed
qed

subsection \<open>Scanners\<close>

definition scan_identifier_or_keyword :: "lexer \<Rightarrow> token \<times> lexer" where
  "scan_identifier_or_keyword lx =
     (let loc = here lx;
          (text, lx1) = take_chars is_ident_cont lx;
          key = lower text
      in case keyword_lookup key of
           Some k \<Rightarrow> (token_at k loc key, lx1)
         | None \<Rightarrow> (token_at Ident loc key, lx1))"

definition is_bit :: "char \<Rightarrow> bool" where
  "is_bit c \<longleftrightarrow> c = CHR ''0'' \<or> c = CHR ''1''"

definition is_octal :: "char \<Rightarrow> bool" where
  "is_octal c \<longleftrightarrow> 48 \<le> code c \<and> code c \<le> 55"

definition report_if :: "bool \<Rightarrow> location \<Rightarrow> string \<Rightarrow> lexer \<Rightarrow> lexer" where
  "report_if b loc msg lx = (if b then report_error loc msg lx else lx)"

text \<open>\<open>$hex\<close>, \<open>%binary\<close>, \<open>&octal\<close>: a marker and digits, possibly none.\<close>

definition scan_radix ::
    "location \<Rightarrow> (char \<Rightarrow> bool) \<Rightarrow> (char \<Rightarrow> nat) \<Rightarrow> nat \<Rightarrow> lexer \<Rightarrow> token \<times> lexer" where
  "scan_radix loc P val base lx =
     (let (marker, lx1) = get lx;
          ((v, ovf), ds, lx2) = scan_digits P val base (0, False) lx1
      in (Token IntLit loc (marker # ds) v,
          report_if ovf loc ''integer literal exceeds 64 bits'' lx2))"

text \<open>The fraction and the exponent of a decimal literal; \<open>..\<close> is not a decimal point.\<close>

definition scan_fraction :: "lexer \<Rightarrow> string option \<times> lexer" where
  "scan_fraction lx =
     (if peek 0 lx = CHR ''.'' \<and> peek 1 lx \<noteq> CHR ''.''
      then let (c, lx1) = get lx; (ds, lx2) = take_chars is_digit lx1 in (Some (c # ds), lx2)
      else (None, lx))"

definition scan_exponent :: "lexer \<Rightarrow> string option \<times> lexer" where
  "scan_exponent lx =
     (if peek 0 lx = CHR ''e'' \<or> peek 0 lx = CHR ''E''
      then let (c, lx1) = get lx;
               (sign, lx2) = (if peek 0 lx1 = CHR ''+'' \<or> peek 0 lx1 = CHR ''-''
                              then (let (s, l) = get lx1 in ([s], l)) else ([], lx1));
               (ds, lx3) = take_chars is_digit lx2
           in (Some (c # sign @ ds), lx3)
      else (None, lx))"

definition opt_text :: "string option \<Rightarrow> string" where
  "opt_text t = (case t of None \<Rightarrow> [] | Some s \<Rightarrow> s)"

definition scan_decimal :: "location \<Rightarrow> lexer \<Rightarrow> token \<times> lexer" where
  "scan_decimal loc lx =
     (let ((v, ovf), ds, lx1) = scan_digits is_digit digit_val 10 (0, False) lx;
          (frac, lx2) = scan_fraction lx1;
          (expo, lx3) = scan_exponent lx2;
          text = ds @ opt_text frac @ opt_text expo
      in if frac \<noteq> None \<or> expo \<noteq> None then (token_at RealLit loc text, lx3)
         else (Token IntLit loc text v,
               report_if ovf loc ''integer literal exceeds 64 bits'' lx3))"

definition scan_number :: "lexer \<Rightarrow> token \<times> lexer" where
  "scan_number lx =
     (let loc = here lx; c = peek 0 lx
      in if c = CHR ''$'' then scan_radix loc is_hex hex_val 16 lx
         else if c = CHR ''%'' then scan_radix loc is_bit digit_val 2 lx
         else if c = CHR ''&'' then scan_radix loc is_octal digit_val 8 lx
         else scan_decimal loc lx)"

text \<open>
  One quoted piece of a string literal, behind its opening quote. The flag says whether the
  literal goes on: an unterminated piece ends it.
\<close>

function scan_quoted :: "location \<Rightarrow> string \<Rightarrow> lexer \<Rightarrow> bool \<times> string \<times> lexer" where
  "scan_quoted loc out lx =
     (if at_eof_of_current lx
      then (False, out, report_error loc ''unterminated string literal'' lx)
      else if peek 0 lx = nl
      then (False, out, report_error loc ''newline in string literal'' lx)
      else if peek 0 lx = quote
      then let lx1 = skip1 lx
           in if peek 0 lx1 = quote then scan_quoted loc (out @ [quote]) (skip1 lx1)
              else (True, out, lx1)
      else scan_quoted loc (out @ [fst (get lx)]) (skip1 lx))"
  by pat_completeness auto
termination
proof (relation "measure (\<lambda>(loc, out, lx). length (rest lx))", goal_cases)
  case (2 loc out lx lx1)
  then show ?case by (cases "rest lx") (auto simp: at_eof_rest)
next
  case (3 loc out lx)
  then show ?case by (cases "rest lx") (auto simp: at_eof_rest)
qed simp

declare scan_quoted.simps [simp del]

text \<open>\<open>#NN\<close> or \<open>#$HH\<close>: a byte; a value outside 0..255 is reported and becomes 0.\<close>

definition scan_char_code :: "lexer \<Rightarrow> char \<times> lexer" where
  "scan_char_code lx =
     (let esc_loc = here lx;
          lx1 = skip1 lx;
          (vo, ds, lx2) =
            (if peek 0 lx1 = CHR ''$''
             then scan_digits is_hex hex_val 16 (0 :: u32, False) (skip1 lx1)
             else scan_digits is_digit digit_val 10 (0, False) lx1);
          bad = (snd vo \<or> unat (fst vo) > 0xff)
      in (char_of (if bad then 0 else unat (fst vo)),
          report_if bad esc_loc
            ''character escape `#' value out of range (expected 0..255)'' lx2))"

lemma rest_report [simp]:
  "rest (report_error l m lx) = rest lx"
  "rest (report_warning l m lx) = rest lx"
  "rest (report_if b l m lx) = rest lx"
  by (simp_all add: rest_def report_error_def report_warning_def report_if_def)

lemma rest_scan_quoted: "rest (snd (snd (scan_quoted loc out lx))) = [] \<or>
    length (rest (snd (snd (scan_quoted loc out lx)))) \<le> length (rest lx)"
proof (induction loc out lx rule: scan_quoted.induct)
  case (1 loc out lx)
  show ?case
  proof (cases "rest lx")
    case Nil
    then show ?thesis by (simp add: scan_quoted.simps [of loc out lx] at_eof_rest)
  next
    case (Cons c cs)
    then show ?thesis using 1
      by (auto simp: scan_quoted.simps [of loc out lx] at_eof_rest Let_def)
  qed
qed

lemma rest_scan_char_code:
  "length (rest (snd (scan_char_code lx))) \<le> length (rest (skip1 lx))"
  by (auto simp: scan_char_code_def scan_digits_eq Let_def split: prod.splits if_splits)

function scan_string_loop :: "location \<Rightarrow> string \<Rightarrow> lexer \<Rightarrow> string \<times> lexer" where
  "scan_string_loop loc out lx =
     (if peek 0 lx = quote
      then let (goes_on, out', lx') = scan_quoted loc out (skip1 lx)
           in if goes_on then scan_string_loop loc out' lx' else (out', lx')
      else if peek 0 lx = CHR ''#''
      then let (c, lx') = scan_char_code lx in scan_string_loop loc (out @ [c]) lx'
      else (out, lx))"
  by pat_completeness auto
termination
proof (relation "measure (\<lambda>(loc, out, lx). length (rest lx))", goal_cases)
  case (2 loc out lx x b y out' lx')
  then obtain cs where r: "rest lx = quote # cs"
    by (cases "rest lx") (auto simp: peek_rest)
  from 2(2-4) have "scan_quoted loc out (skip1 lx) = (b, out', lx')" by simp
  with rest_scan_quoted [of loc out "skip1 lx"] r show ?case by auto
next
  case (3 loc out lx x c lx')
  then obtain cs where "rest lx = CHR ''#'' # cs"
    by (cases "rest lx") (auto simp: peek_rest)
  with 3 rest_scan_char_code [of lx] show ?case by (auto dest: sym)
qed simp

declare scan_string_loop.simps [simp del]

definition scan_string :: "lexer \<Rightarrow> token \<times> lexer" where
  "scan_string lx =
     (let loc = here lx; (out, lx1) = scan_string_loop loc [] lx
      in (token_at StringLit loc out, lx1))"

subsection \<open>Punctuation\<close>

text \<open>\<open>snprintf("0x%02x")\<close> of an unexpected byte.\<close>

definition hex2 :: "char \<Rightarrow> string" where
  "hex2 c = [''0123456789abcdef'' ! (code c div 16), ''0123456789abcdef'' ! (code c mod 16)]"

definition scan_punctuation :: "lexer \<Rightarrow> token \<times> lexer" where
  "scan_punctuation lx =
     (let loc = here lx;
          (c, lx1) = get lx;
          one = (\<lambda>k t. (token_at k loc t, lx1));
          two = (\<lambda>k t. (token_at k loc t, skip1 lx1));
          ahead = peek 0 lx1
      in if c = CHR ''+'' then one Plus ''+''
         else if c = CHR ''-'' then one Minus ''-''
         else if c = CHR ''*'' then
           (if ahead = CHR ''*'' then two StarStar ''**'' else one Star ''*'')
         else if c = CHR ''/'' then one Slash ''/''
         else if c = CHR ''='' then one Eq ''=''
         else if c = CHR ''<'' then
           (if ahead = CHR ''='' then two LtEq ''<=''
            else if ahead = CHR ''>'' then two NotEq ''<>''
            else if ahead = CHR ''<'' then two KwShl ''<<''
            else one Lt ''<'')
         else if c = CHR ''>'' then
           (if ahead = CHR ''='' then two GtEq ''>=''
            else if ahead = CHR ''<'' then two SymDiff ''><''
            else if ahead = CHR ''>'' then two KwShr ''>>''
            else one Gt ''>'')
         else if c = CHR '':'' then
           (if ahead = CHR ''='' then two Assign '':='' else one Colon '':'')
         else if c = CHR '';'' then one Semi '';''
         else if c = CHR '','' then one Comma '',''
         else if c = CHR ''('' then one LParen ''(''
         else if c = CHR '')'' then one RParen '')''
         else if c = CHR ''['' then one LBrack ''[''
         else if c = CHR '']'' then one RBrack '']''
         else if c = CHR ''^'' then one Caret ''^''
         else if c = CHR ''@'' then
           (if ahead = CHR ''@'' then two AtAt ''@@'' else one At ''@'')
         else if c = CHR ''.'' then
           (if ahead = CHR ''.'' then two DotDot ''..'' else one Dot ''.'')
         else (token_at Error loc [c],
               report_error loc (''unexpected character 0x'' @ hex2 c) lx1))"

subsection \<open>White space, comments, directives\<close>

text \<open>\<open>handle_directive_at_brace\<close>: the text up to the next closing brace is the directive.\<close>

definition handle_directive_at_brace :: "file_system \<Rightarrow> lexer \<Rightarrow> lexer" where
  "handle_directive_at_brace fs lx =
     (let loc = here lx;
          (body, lx1) = take_chars (\<lambda>c. c \<noteq> CHR ''}'') (skip1 (skip1 lx))
      in handle_directive fs body loc (if at_eof_of_current lx1 then lx1 else skip1 lx1))"

text \<open>Text up to a closing \<open>*)\<close>, which is consumed too, or up to the end of the input.\<close>

function take_to_star_paren :: "lexer \<Rightarrow> string \<times> lexer" where
  "take_to_star_paren lx =
     (if at_eof_of_current lx then ([], lx)
      else if peek 0 lx = CHR ''*'' \<and> peek 1 lx = CHR '')'' then ([], skip1 (skip1 lx))
      else let (c, lx1) = get lx; (cs, lx2) = take_to_star_paren lx1 in (c # cs, lx2))"
  by pat_completeness auto
termination
proof (relation "measure (\<lambda>lx. length (rest lx))", goal_cases)
  case (2 lx x c lx1)
  then show ?case by (cases "rest lx") (auto simp: at_eof_rest get_pair)
qed simp

declare take_to_star_paren.simps [simp del]

definition handle_directive_at_paren :: "file_system \<Rightarrow> lexer \<Rightarrow> lexer" where
  "handle_directive_at_paren fs lx =
     (let loc = here lx;
          (body, lx1) = take_to_star_paren (skip1 (skip1 (skip1 lx)))
      in handle_directive fs body loc lx1)"

lemma skip1_shrinks:
  assumes "(False, lx1) = pop_input_if_eof lx" "peek 0 lx1 \<noteq> nul"
  shows "lex_left (skip1 lx1) < lex_left lx"
proof -
  from assms(1) have "lx1 = lx" by (auto dest!: sym [THEN pop_input_if_eof_cases])
  moreover from assms(2) have "rest lx1 \<noteq> []" by (auto simp: peek_rest)
  ultimately show ?thesis using lex_left_skip1 [of lx1] by simp
qed

text \<open>
  The body of a brace comment, nested braces counted. A comment left open at the end of an
  included file goes on in the including one. \<open>peek() == 0\<close> also holds at a NUL byte, which
  ends the comment (and the whole \<open>skip_ws_and_comments\<close>) there.
\<close>

function skip_brace_comment :: "nat \<Rightarrow> lexer \<Rightarrow> lexer" where
  "skip_brace_comment depth lx =
     (if depth = 0 then lx
      else let (popped, lx1) = pop_input_if_eof lx
           in if popped then skip_brace_comment depth lx1
              else let c = peek 0 lx1
                   in if c = nul then lx1
                      else if c = CHR ''{'' then skip_brace_comment (Suc depth) (skip1 lx1)
                      else if c = CHR ''}'' then skip_brace_comment (depth - 1) (skip1 lx1)
                      else skip_brace_comment depth (skip1 lx1))"
  by pat_completeness auto

termination
  by (relation "measure (\<lambda>(depth, lx). lex_left lx)")
    (auto simp: skip1_shrinks dest!: sym [THEN lex_left_pop])

declare skip_brace_comment.simps [simp del]

text \<open>One round of the loop of \<open>skip_ws_and_comments\<close>: \<open>None\<close> when it returns.\<close>

definition skip_round :: "file_system \<Rightarrow> lexer \<Rightarrow> lexer option" where
  "skip_round fs lx =
     (let c = peek 0 lx
      in if c = nul then None
         else if is_space c then Some (skip1 lx)
         else if c = CHR ''/'' \<and> peek 1 lx = CHR ''/''
           then Some (snd (take_chars (\<lambda>d. d \<noteq> nl) lx))
         else if c = CHR ''{'' then
           (if peek 1 lx = CHR ''$'' then Some (handle_directive_at_brace fs lx)
            else Some (skip_brace_comment 1 (skip1 lx)))
         else if c = CHR ''('' \<and> peek 1 lx = CHR ''*'' then
           (if peek 2 lx = CHR ''$'' then Some (handle_directive_at_paren fs lx)
            else Some (snd (take_to_star_paren (skip1 (skip1 lx)))))
         else None)"

primrec skip_ws_and_comments :: "nat \<Rightarrow> file_system \<Rightarrow> lexer \<Rightarrow> lexer option" where
  "skip_ws_and_comments 0 fs lx = None"
| "skip_ws_and_comments (Suc n) fs lx =
     (let (popped, lx1) = pop_input_if_eof lx
      in if popped then skip_ws_and_comments n fs lx1
         else case skip_round fs lx1 of
                None \<Rightarrow> Some lx1
              | Some lx2 \<Rightarrow> skip_ws_and_comments n fs lx2)"

subsection \<open>next\<close>

definition scan_token :: "lexer \<Rightarrow> token \<times> lexer" where
  "scan_token lx =
     (let c = peek 0 lx
      in if is_ident_start c then scan_identifier_or_keyword lx
         else if is_digit c \<or> c = CHR ''$'' \<or> c = CHR ''%'' \<or> c = CHR ''&'' then scan_number lx
         else if c = quote \<or> c = CHR ''#'' then scan_string lx
         else scan_punctuation lx)"

text \<open>
  In a rejected branch, source is consumed until a directive changes the state; string
  literals are consumed whole, so that a brace in one is not taken for a comment.
\<close>

definition skip_rejected :: "lexer \<Rightarrow> lexer" where
  "skip_rejected lx =
     (if peek 0 lx = quote \<or> peek 0 lx = CHR ''#'' then snd (scan_string lx) else skip1 lx)"

primrec lex_next :: "nat \<Rightarrow> file_system \<Rightarrow> lexer \<Rightarrow> (token \<times> lexer) option" where
  "lex_next 0 fs lx = None"
| "lex_next (Suc n) fs lx =
     (case skip_ws_and_comments n fs lx of
        None \<Rightarrow> None
      | Some lx1 \<Rightarrow>
          let (popped, lx2) = pop_input_if_eof lx1
          in if popped then lex_next n fs lx2
             else if under lx2 = [] \<and> at_eof_of_current lx2
               then Some (token_at Eof (here lx2) [], lx2)
             else if \<not> accepting lx2
               then (if at_eof_of_current lx2 then lex_next n fs lx2
                     else lex_next n fs (skip_rejected lx2))
             else Some (scan_token lx2))"

end
