(* ===== verification/Ast.thy ===== *)
theory Ast
  imports Tokens
begin

text \<open>
  The syntax tree of \<open>src/ast.h\<close>: expressions, statements, types, declarations and the
  compilation unit. A constructor has the fields of the C++ node that the parser fills in,
  the location first; a pointer that may be null is an option. The \<open>mutable\<close> fields (results
  of later semantic binding: descriptors, symbols, bound operations) start out null and
  are not written by the parser; they are not part of the model. So is \<open>BreakStmt\<close>,
  \<open>ContinueStmt\<close>, \<open>ExitStmt\<close>, \<open>UsesClause\<close>, which the parser never builds.
\<close>

subsection \<open>Expressions\<close>

datatype (plugins only: code size) binop =
  BAdd | BSub | BMul | BRealDiv | BIntDiv | BMod | BShl | BShr
  | BAnd | BOr | BXor | BEq | BNotEq | BLt | BGt | BLtEq | BGtEq | BIn | BIs | BAs | BSymDiff

datatype (plugins only: code size) unop = UNeg | UPlus | UNot

datatype (plugins only: code size) expr =
    EIdent location string
  | EIntLit location u64
  | ERealLit location string
  | EStringLit location string
  | ENilLit location
  | EBoolLit location bool
  | EBinary location binop expr expr bool
  | EUnary location unop expr bool
  | ECall location expr "expr list" "expr option list" "expr option list" bool bool
  | EIndex location expr "expr list"
  | EMember location expr string
  | EDeref location expr
  | EAddrOf location bool expr
  | ESetLit location "expr list"
  | ERange location expr expr
  | EArrayConst location "expr list"
  | ERecordConst location "(string \<times> expr) list"

fun expr_loc :: "expr \<Rightarrow> location" where
  "expr_loc (EIdent l _) = l"
| "expr_loc (EIntLit l _) = l"
| "expr_loc (ERealLit l _) = l"
| "expr_loc (EStringLit l _) = l"
| "expr_loc (ENilLit l) = l"
| "expr_loc (EBoolLit l _) = l"
| "expr_loc (EBinary l _ _ _ _) = l"
| "expr_loc (EUnary l _ _ _) = l"
| "expr_loc (ECall l _ _ _ _ _ _) = l"
| "expr_loc (EIndex l _ _) = l"
| "expr_loc (EMember l _ _) = l"
| "expr_loc (EDeref l _) = l"
| "expr_loc (EAddrOf l _ _) = l"
| "expr_loc (ESetLit l _) = l"
| "expr_loc (ERange l _ _) = l"
| "expr_loc (EArrayConst l _) = l"
| "expr_loc (ERecordConst l _) = l"

subsection \<open>Statements\<close>

datatype (plugins only: code size) stmt =
    SCompound location "stmt list"
  | SAssign location expr expr bool
  | SExprStmt location expr
  | SIf location expr stmt "stmt option"
  | SWhile location expr stmt
  | SRepeat location "stmt list" expr
  | SFor location string expr expr bool stmt
  | SForIn location string expr stmt
  | SCase location expr "(expr list \<times> stmt) list" "stmt option"
  | SWith location "expr list" stmt
  | SGoto location string
  | SLabeled location string stmt
  | SEmpty location
  | SAsm location
  | STry location "stmt list" bool "(string \<times> string \<times> stmt) list" "stmt option" "stmt list"
  | SRaise location "expr option"

subsection \<open>Pieces of types and declarations\<close>

datatype (plugins only: code size) proc_kind = PProcedure | PFunction | PConstructor | PDestructor
datatype (plugins only: code size) intrinsic_operator = NoIntrinsic | StringCompare
datatype (plugins only: code size) array_kind = Fixed | Open | Dynamic
datatype (plugins only: code size) param_mode = ByValue | ByVar | ByConst | ByConstRef | ByOut
datatype (plugins only: code size) visibility =
  Public | Private | Protected | StrictPrivate | StrictProtected
datatype (plugins only: code size) record_member_kind = FieldMember | TypeMember

record proc_modifiers =
  is_virtual :: bool
  is_abstract :: bool
  is_override :: bool
  is_final :: bool
  is_forward :: bool
  is_inline :: bool
  is_cdecl :: bool
  is_noreturn :: bool
  is_external :: bool
  is_assembler :: bool
  is_overload :: bool
  external_lib :: string
  external_name :: string

datatype (plugins only: code) 'ty param =
  Param (param_mode: param_mode) (param_names: "string list") (param_type: "'ty option")
    (param_default: "expr option")

datatype (plugins only: code) 'ty record_field = RecordField "string list" 'ty

datatype (plugins only: code) 'ty variant_part =
    VariantPart string 'ty "'ty variant_case list"
and 'ty variant_case =
    VariantCase "expr list" "'ty record_field list" "'ty variant_part option"

datatype (plugins only: code) 'ty type_decl =
  TypeDecl (td_loc: location) (td_name: string) (td_type: 'ty) (td_section: nat)

datatype (plugins only: code) 'ty property_decl =
  PropertyDecl (prop_name: string) (prop_params: "'ty param list") (prop_type: 'ty)
    (prop_read: "string list") (prop_write: "string list") (prop_default: bool)

datatype (plugins only: code) ('ty, 'd) proc_decl =
  ProcDecl (pd_loc: location) (pd_kind: proc_kind) (pd_name: string) (pd_is_operator: bool)
    (pd_operator_token: string) (pd_intrinsic: intrinsic_operator) (pd_of_type: string)
    (pd_is_class_method: bool) (pd_params: "'ty param list") (pd_return: "'ty option")
    (pd_modifiers: proc_modifiers) (pd_locals: "'d list") (pd_body: "stmt option")

datatype (plugins only: code) ('ty, 'd) member_content =
    FieldContent "string list" 'ty bool
  | MethodContent "('ty, 'd) proc_decl"
  | PropertyContent "'ty property_decl"
  | TypeContent "'ty type_decl"

datatype (plugins only: code) ('ty, 'd) object_member =
  ObjectMember (om_loc: location) (om_vis: visibility) (om_content: "('ty, 'd) member_content")

datatype (plugins only: code) enum_member = EnumMember string "expr option"

subsection \<open>Types and declarations\<close>

text \<open>
  \<open>TyFile::is_text\<close> and the explicit bounds of \<open>TySet\<close> keep their default values in the
  parser.
\<close>

datatype (plugins only: code) 'ty decl_of =
    ConstDecl location string "'ty option" expr
  | TypeDeclD "'ty type_decl"
  | VarDecl location "string list" 'ty "expr option" bool bool string "expr option" string
  | LabelDecl location "string list"
  | ProcDeclD "('ty, 'ty decl_of) proc_decl"

datatype (plugins only: code) ty =
    TyName location string
  | TyArray location "ty list" ty bool array_kind
  | TyRecord location "ty record_field list" "ty type_decl list"
      "(record_member_kind \<times> nat) list" "ty variant_part option" bool
  | TyObject location string "string list" "(ty, ty decl_of) object_member list" bool bool bool
  | TyInterface location string "(ty, ty decl_of) object_member list"
  | TySet location ty
  | TyFile location "ty option"
  | TyPointer location ty
  | TyDistinct location ty
  | TyMetaclass location string
  | TyProcedural location bool "ty param list" "ty option" bool bool
  | TyEnum location nat "enum_member list"
  | TySubrange location expr expr
  | TyString location "expr option"

type_synonym decl = "ty decl_of"

datatype (plugins only: code) unit_node =
  UnitNode (un_loc: location) (un_name: string)
    (un_interface_uses: "string list") (un_interface_decls: "decl list")
    (un_impl_uses: "string list") (un_impl_decls: "decl list")
    (un_init: "stmt option") (un_final: "stmt option") (un_is_program: bool)

end
