(* ===== verification/Parse_Core.thy ===== *)
theory Parse_Core
  imports Ast
begin

text \<open>
  The token plumbing of class \<open>Parser\<close> (\<open>src/parser.h\<close>, \<open>src/parser.cc\<close>, lines 194--308):
  state, one token of lookahead, \<open>accept\<close>, \<open>expect\<close>, error reports, loops.

  The parser reads its lexer through \<open>next()\<close> and the mode accessors only, and never
  writes to it. So the state holds what the successive calls of \<open>next()\<close> will yield: for
  every token, the modes the lexer has after it and the reports made while it was scanned
  (\<open>Lexer_Stream.lexer_stream\<close> computes this list from a lexer). The list ends with the \<open>Eof\<close>
  token; a lexer at its end returns \<open>Eof\<close> again and again (\<open>Lexer_Facts.lex_next_eof\<close>).

  The parser functions are computations of the library's state monad, written in the order
  of the C++ statements. Loops and the recursion through the grammar carry fuel;
  \<open>out_of_fuel\<close> records that it ran out, and \<open>Parse_Total\<close> proves that it never does.
\<close>

subsection \<open>State\<close>

type_synonym lexed = "token \<times> modes \<times> diag list"

text \<open>Calls of \<open>ParserSemanticActions\<close>, in the order they are made.\<close>

datatype (plugins only: code) action =
    BeginUnit string bool
  | ImportUnits "string list" bool
  | TypeSection "decl list" bool
  | Declaration decl bool
  | FinishUnit unit_node

record pstate =
  ps_rest :: "lexed list"
  ps_eof :: location
  ps_modes :: modes
  ps_cur :: token
  ps_peek :: "token option"
  ps_diags :: "diag list"
  decl_block_depth :: nat
  next_type_section_id :: nat
  has_actions :: bool
  ps_actions :: "action list"
  partial_unit :: "unit_node option"
  out_of_fuel :: bool

type_synonym 'a parser = "(pstate, 'a) state"

abbreviation return :: "'a \<Rightarrow> 'a parser" where "return \<equiv> State_Monad.return"
abbreviation read_state :: "pstate parser" where "read_state \<equiv> State_Monad.get"
abbreviation modify :: "(pstate \<Rightarrow> pstate) \<Rightarrow> unit parser" where "modify \<equiv> State_Monad.update"

lemma run_state_update [simp]: "run_state (modify f) s = ((), f s)"
  by (simp add: State_Monad.update_def)

definition field :: "(pstate \<Rightarrow> 'a) \<Rightarrow> 'a parser" where
  "field f = State (\<lambda>s. (f s, s))"

definition only_if :: "bool \<Rightarrow> unit parser \<Rightarrow> unit parser" where
  "only_if b m = (if b then m else return ())"

subsection \<open>Token stream\<close>

definition lex_pull :: "token parser" where
  "lex_pull = State (\<lambda>s. case ps_rest s of
       [] \<Rightarrow> (token_at Eof (ps_eof s) [], s)
     | (t, m, ds) # r \<Rightarrow>
         (t, s\<lparr>ps_rest := r, ps_modes := m, ps_diags := ps_diags s @ ds\<rparr>))"

definition cur :: "token parser" where "cur = field ps_cur"
definition cur_kind :: "tok parser" where "cur_kind = field (\<lambda>s. tok_kind (ps_cur s))"
definition cur_text :: "string parser" where "cur_text = field (\<lambda>s. tok_text (ps_cur s))"
definition cur_loc :: "location parser" where "cur_loc = field (\<lambda>s. tok_loc (ps_cur s))"

definition peek_token :: "token parser" where
  "peek_token = do {
     p \<leftarrow> field ps_peek;
     case p of
       Some t \<Rightarrow> return t
     | None \<Rightarrow> do {
         t \<leftarrow> lex_pull;
         modify (\<lambda>s. s\<lparr>ps_peek := Some t\<rparr>);
         return t } }"

definition peek_kind :: "tok parser" where
  "peek_kind = do { t \<leftarrow> peek_token; return (tok_kind t) }"

definition advance :: "unit parser" where
  "advance = do {
     p \<leftarrow> field ps_peek;
     case p of
       Some t \<Rightarrow> modify (\<lambda>s. s\<lparr>ps_cur := t, ps_peek := None\<rparr>)
     | None \<Rightarrow> do { t \<leftarrow> lex_pull; modify (\<lambda>s. s\<lparr>ps_cur := t\<rparr>) } }"

definition check :: "tok \<Rightarrow> bool parser" where
  "check t = field (\<lambda>s. tok_kind (ps_cur s) = t)"

definition check_any :: "tok list \<Rightarrow> bool parser" where
  "check_any ts = field (\<lambda>s. tok_kind (ps_cur s) \<in> set ts)"

definition at_end :: "bool parser" where
  "at_end = check Eof"

definition accept :: "tok \<Rightarrow> bool parser" where
  "accept t = do {
     b \<leftarrow> check t;
     if b then do { advance; return True } else return False }"

definition report :: "location \<Rightarrow> string \<Rightarrow> unit parser" where
  "report l m = modify (\<lambda>s. s\<lparr>ps_diags := ps_diags s @ [Err l m]\<rparr>)"

text \<open>How \<open>expect\<close> spells the token it misses.\<close>

definition expected_name :: "tok \<Rightarrow> string" where
  "expected_name t =
     (case map_of
        [(Semi, '';''), (Dot, ''.''), (Colon, '':''), (Comma, '',''), (Eq, ''=''),
         (Assign, '':=''), (LParen, ''(''), (RParen, '')''), (LBrack, ''[''), (RBrack, '']''),
         (KwBegin, ''begin''), (KwEnd, ''end''), (KwDo, ''do''), (KwThen, ''then''),
         (KwOf, ''of''), (KwTo, ''to''), (KwUntil, ''until'')] t of
        Some w \<Rightarrow> [quote] @ w @ [quote]
      | None \<Rightarrow> if t = Ident then ''identifier'' else ''token'')"

definition expect_message :: "tok \<Rightarrow> string \<Rightarrow> string \<Rightarrow> string" where
  "expect_message t ctx got =
     ''expected '' @ expected_name t @ '' (in '' @ ctx @ '')'' @
     (if got = [] then [] else '', got '' @ [quote] @ got @ [quote])"

definition expect :: "tok \<Rightarrow> string \<Rightarrow> bool parser" where
  "expect t ctx = do {
     b \<leftarrow> check t;
     if b then do { advance; return True }
     else do {
       l \<leftarrow> cur_loc;
       txt \<leftarrow> cur_text;
       report l (expect_message t ctx txt);
       return False } }"

definition consume_ident :: "string \<Rightarrow> string parser" where
  "consume_ident ctx = do {
     b \<leftarrow> check Ident;
     if b then do { t \<leftarrow> cur_text; advance; return t }
     else do { _ \<leftarrow> expect Ident ctx; return [] } }"

definition is_directive :: "string \<Rightarrow> bool parser" where
  "is_directive name = field (\<lambda>s. tok_kind (ps_cur s) = Ident \<and> tok_text (ps_cur s) = name)"

definition is_any_directive :: "string list \<Rightarrow> bool parser" where
  "is_any_directive names =
     field (\<lambda>s. tok_kind (ps_cur s) = Ident \<and> tok_text (ps_cur s) \<in> set names)"

definition identifier_ends_nested_type_block :: "bool parser" where
  "identifier_ends_nested_type_block = is_any_directive
     [''private'', ''protected'', ''public'', ''published'', ''strict'', ''final'', ''property'']"

definition consume_name_or_directive :: "string \<Rightarrow> string parser" where
  "consume_name_or_directive ctx = do {
     b \<leftarrow> check Ident;
     if b then do { t \<leftarrow> cur_text; advance; return t }
     else do { _ \<leftarrow> expect Ident ctx; return [] } }"

text \<open>\<open>if (cur_.kind == StringLit) advance();\<close>\<close>

definition skip_string_literal :: "unit parser" where
  "skip_string_literal = do { b \<leftarrow> check StringLit; only_if b advance }"

text \<open>\<open>if (c) a else b\<close>, \<open>c || d\<close>, \<open>c && d\<close> on conditions that act on the state.\<close>

definition branch :: "bool parser \<Rightarrow> 'a parser \<Rightarrow> 'a parser \<Rightarrow> 'a parser" where
  "branch c a b = do { x \<leftarrow> c; if x then a else b }"

definition either :: "bool parser \<Rightarrow> bool parser \<Rightarrow> bool parser" where
  "either c d = branch c (return True) d"

definition both :: "bool parser \<Rightarrow> bool parser \<Rightarrow> bool parser" where
  "both c d = branch c d (return False)"

text \<open>\<open>if (c) x = m;\<close> for a pointer \<open>x\<close> that is null otherwise.\<close>

definition optionally :: "bool parser \<Rightarrow> 'a parser \<Rightarrow> 'a option parser" where
  "optionally c m = branch c (do { x \<leftarrow> m; return (Some x) }) (return None)"

text \<open>\<open>cur_.kind == a && peek().kind == b\<close>: the peek happens only behind an \<open>a\<close>.\<close>

definition peek_is :: "tok list \<Rightarrow> bool parser" where
  "peek_is ts = do { k \<leftarrow> peek_kind; return (k \<in> set ts) }"

definition cur_then_peek :: "tok \<Rightarrow> tok list \<Rightarrow> bool parser" where
  "cur_then_peek a ts = both (check a) (peek_is ts)"

text \<open>Take the text of the current token and move on.\<close>

definition take_text :: "string parser" where
  "take_text = do { t \<leftarrow> cur_text; advance; return t }"

text \<open>The live modes of the lexer.\<close>

definition overflow_check_active :: "bool parser" where
  "overflow_check_active = field (\<lambda>s. m_overflow (ps_modes s))"
definition range_check_active :: "bool parser" where
  "range_check_active = field (\<lambda>s. m_range (ps_modes s))"
definition packenum_active :: "nat parser" where
  "packenum_active = field (\<lambda>s. m_packenum (ps_modes s))"
definition interface_mode_active :: "interface_mode parser" where
  "interface_mode_active = field (\<lambda>s. m_interface (ps_modes s))"
definition long_strings_active :: "bool parser" where
  "long_strings_active = field (\<lambda>s. m_long_strings (ps_modes s))"

definition fresh_section_id :: "nat parser" where
  "fresh_section_id = do {
     i \<leftarrow> field next_type_section_id;
     modify (\<lambda>s. s\<lparr>next_type_section_id := Suc i\<rparr>);
     return i }"

definition act :: "action \<Rightarrow> unit parser" where
  "act a = modify (\<lambda>s. if has_actions s then s\<lparr>ps_actions := ps_actions s @ [a]\<rparr> else s)"

subsection \<open>Loops\<close>

text \<open>
  A round returns whether to go on, and the new values of the loop's variables. Without
  fuel the loop stops and marks the state.
\<close>

definition run_out :: "unit parser" where
  "run_out = modify (\<lambda>s. s\<lparr>out_of_fuel := True\<rparr>)"

primrec loop :: "nat \<Rightarrow> ('a \<Rightarrow> (bool \<times> 'a) parser) \<Rightarrow> 'a \<Rightarrow> 'a parser" where
  "loop 0 body a = do { run_out; return a }"
| "loop (Suc n) body a = do {
     r \<leftarrow> body a;
     if fst r then loop n body (snd r) else return (snd r) }"

text \<open>\<open>while (c) body;\<close> without loop variables, and with an accumulated list.\<close>

definition while_do :: "nat \<Rightarrow> bool parser \<Rightarrow> unit parser \<Rightarrow> unit parser" where
  "while_do n c body = loop n (\<lambda>u.
     branch c (do { body; return (True, ()) }) (return (False, ()))) ()"

definition while_collect :: "nat \<Rightarrow> bool parser \<Rightarrow> 'a parser \<Rightarrow> 'a list parser" where
  "while_collect n c item = loop n (\<lambda>out.
     branch c (do { x \<leftarrow> item; return (True, out @ [x]) }) (return (False, out))) []"

text \<open>\<open>while (accept(sep)) out.push_back(item);\<close>\<close>

definition while_accept :: "nat \<Rightarrow> tok \<Rightarrow> 'a parser \<Rightarrow> 'a list \<Rightarrow> 'a list parser" where
  "while_accept n sep item out = loop n (\<lambda>out. do {
     b \<leftarrow> accept sep;
     if b then do { x \<leftarrow> item; return (True, out @ [x]) } else return (False, out) }) out"

text \<open>
  \<open>while (!at_end() && !check_any(stops)) { out.push_back(item); if (!accept(sep)) break; }\<close>
\<close>

definition list_until :: "nat \<Rightarrow> tok list \<Rightarrow> tok \<Rightarrow> 'a parser \<Rightarrow> 'a list parser" where
  "list_until n stops sep item = loop n (\<lambda>out. do {
     e \<leftarrow> at_end;
     c \<leftarrow> check_any stops;
     if e \<or> c then return (False, out)
     else do {
       x \<leftarrow> item;
       b \<leftarrow> accept sep;
       return (b, out @ [x]) } }) []"

text \<open>
  A name list \<open>a, b, c\<close>, from the first name on:
  \<open>names.push_back(cur_.text); advance(); while (accept(Comma)) { if (cur_.kind != Ident) break; \<dots> }\<close>
\<close>

definition name_list :: "nat \<Rightarrow> string list parser" where
  "name_list n = do {
     first \<leftarrow> cur_text;
     advance;
     loop n (\<lambda>names. do {
       b \<leftarrow> accept Comma;
       i \<leftarrow> check Ident;
       if \<not> b \<or> \<not> i then return (False, names)
       else do { t \<leftarrow> cur_text; advance; return (True, names @ [t]) } }) [first] }"

definition parse_property_accessor_path :: "nat \<Rightarrow> string \<Rightarrow> string list parser" where
  "parse_property_accessor_path n ctx = do {
     first \<leftarrow> consume_name_or_directive ctx;
     while_accept n Dot (consume_name_or_directive ctx) [first] }"

definition sync_to :: "nat \<Rightarrow> tok list \<Rightarrow> unit parser" where
  "sync_to n stops = loop n (\<lambda>u. do {
     e \<leftarrow> at_end;
     c \<leftarrow> check_any stops;
     if e \<or> c then return (False, ())
     else do { advance; return (True, ()) } }) ()"

text \<open>The constructor of \<open>Parser\<close> reads the first token.\<close>

definition new_parser :: "lexed list \<Rightarrow> modes \<Rightarrow> bool \<Rightarrow> pstate" where
  "new_parser toks m0 actions =
     snd (run_state advance
       \<lparr>ps_rest = toks,
        ps_eof = (if toks = [] then no_location else tok_loc (fst (last toks))),
        ps_modes = m0, ps_cur = token_at Eof no_location [], ps_peek = None, ps_diags = [],
        decl_block_depth = 0, next_type_section_id = 1, has_actions = actions, ps_actions = [],
        partial_unit = None, out_of_fuel = False\<rparr>)"

end
