(* ===== verification/Parse_Expr.thy ===== *)
theory Parse_Expr
  imports Parse_Core
begin

text \<open>
  The expression part of \<open>Parser\<close> (\<open>src/parser.cc\<close>, lines 2074--2295): precedence climbing
  over relational, additive and multiplicative operators, unary prefixes, primaries and
  the postfix chain.

  A parse function gets the record \<open>R\<close> of the parsers one level of recursion below it;
  only calls that go back up in the grammar use it. \<open>Parse_Decl.knot\<close> ties it. Where C++
  leaves the order of argument evaluation open (\<open>make_shared<Unary>(\<dots>, parse_factor(),
  lex_.overflow_check_active())\<close>), arguments are evaluated from left to right.
\<close>

record parsers =
  r_fuel :: nat
  r_expr :: "expr parser"
  r_factor :: "expr parser"
  r_type :: "ty parser"
  r_stmt :: "stmt parser"
  r_const :: "ty option \<Rightarrow> expr parser"
  r_variant :: "ty variant_part option parser"
  r_decl_block :: "bool \<Rightarrow> decl list parser"

subsection \<open>Operator tables\<close>

definition relational_operator :: "tok \<Rightarrow> binop option" where
  "relational_operator t = map_of
     [(Eq, BEq), (NotEq, BNotEq), (Lt, BLt), (Gt, BGt), (LtEq, BLtEq), (GtEq, BGtEq),
      (KwIn, BIn), (KwIs, BIs), (KwAs, BAs)] t"

definition additive_operator :: "tok \<Rightarrow> binop option" where
  "additive_operator t = map_of
     [(Plus, BAdd), (Minus, BSub), (KwOr, BOr), (KwXor, BXor), (SymDiff, BSymDiff)] t"

definition multiplicative_operator :: "tok \<Rightarrow> binop option" where
  "multiplicative_operator t = map_of
     [(Star, BMul), (Slash, BRealDiv), (KwDiv, BIntDiv), (KwMod, BMod), (KwAnd, BAnd),
      (KwShl, BShl), (KwShr, BShr)] t"

subsection \<open>Sets, postfix chains, primaries\<close>

text \<open>An element \<open>e\<close> or \<open>lo..hi\<close>, as in set literals and case labels.\<close>

definition range_rest :: "expr parser \<Rightarrow> expr \<Rightarrow> expr parser" where
  "range_rest e lo = do {
     b \<leftarrow> accept DotDot;
     if b then do { hi \<leftarrow> e; return (ERange (expr_loc lo) lo hi) } else return lo }"

definition parse_set_literal :: "parsers \<Rightarrow> expr parser" where
  "parse_set_literal R = do {
     loc \<leftarrow> cur_loc;
     _ \<leftarrow> expect LBrack ''set literal'';
     elements \<leftarrow> list_until (r_fuel R) [RBrack] Comma
       (do { lo \<leftarrow> r_expr R; range_rest (r_expr R) lo });
     _ \<leftarrow> expect RBrack ''set literal'';
     return (ESetLit loc elements) }"

text \<open>A call argument \<open>e\<close>, \<open>e:width\<close> or \<open>e:width:precision\<close>.\<close>

definition parse_call_arg :: "parsers \<Rightarrow> (expr \<times> expr option \<times> expr option) parser" where
  "parse_call_arg R = do {
     a \<leftarrow> r_expr R;
     c \<leftarrow> accept Colon;
     if c then do {
       w \<leftarrow> r_expr R;
       d \<leftarrow> accept Colon;
       if d then do { p \<leftarrow> r_expr R; return (a, Some w, Some p) }
       else return (a, Some w, None) }
     else return (a, None, None) }"

definition parse_call_suffix :: "parsers \<Rightarrow> location \<Rightarrow> expr \<Rightarrow> expr parser" where
  "parse_call_suffix R loc lhs = do {
     args \<leftarrow> list_until (r_fuel R) [RParen] Comma (parse_call_arg R);
     _ \<leftarrow> expect RParen ''call'';
     ov \<leftarrow> overflow_check_active;
     rc \<leftarrow> range_check_active;
     return (ECall loc lhs (map fst args) (map (fst \<circ> snd) args) (map (snd \<circ> snd) args) ov rc) }"

definition parse_index_suffix :: "parsers \<Rightarrow> location \<Rightarrow> expr \<Rightarrow> expr parser" where
  "parse_index_suffix R loc lhs = do {
     first \<leftarrow> r_expr R;
     indices \<leftarrow> while_accept (r_fuel R) Comma (r_expr R) [first];
     _ \<leftarrow> expect RBrack ''index'';
     return (EIndex loc lhs indices) }"

text \<open>One round of the loop of \<open>parse_postfix\<close>.\<close>

definition postfix_step :: "parsers \<Rightarrow> expr \<Rightarrow> (bool \<times> expr) parser" where
  "postfix_step R lhs = do {
     loc \<leftarrow> cur_loc;
     dot \<leftarrow> accept Dot;
     if dot then do {
       m \<leftarrow> consume_name_or_directive ''member name'';
       return (True, EMember loc lhs m) }
     else do {
       caret \<leftarrow> accept Caret;
       if caret then return (True, EDeref loc lhs)
       else do {
         brack \<leftarrow> accept LBrack;
         if brack then do { e \<leftarrow> parse_index_suffix R loc lhs; return (True, e) }
         else do {
           paren \<leftarrow> accept LParen;
           if paren then do { e \<leftarrow> parse_call_suffix R loc lhs; return (True, e) }
           else return (False, lhs) } } } }"

definition parse_postfix :: "parsers \<Rightarrow> expr \<Rightarrow> expr parser" where
  "parse_postfix R lhs = loop (r_fuel R) (postfix_step R) lhs"

definition parse_inherited :: "parsers \<Rightarrow> location \<Rightarrow> expr parser" where
  "parse_inherited R loc = do {
     advance;
     i \<leftarrow> check Ident;
     if i then do {
       t \<leftarrow> cur_text;
       advance;
       parse_postfix R (EMember loc (EIdent loc ''inherited'') t) }
     else parse_postfix R (EIdent loc ''inherited'') }"

definition parse_primary :: "parsers \<Rightarrow> expr parser" where
  "parse_primary R = do {
     c \<leftarrow> cur;
     let loc = tok_loc c;
     let k = tok_kind c;
     let leaf = (\<lambda>e. do { advance; parse_postfix R e });
     if k = IntLit then leaf (EIntLit loc (tok_int c))
     else if k = RealLit then leaf (ERealLit loc (tok_text c))
     else if k = StringLit then leaf (EStringLit loc (tok_text c))
     else if k = KwNil then leaf (ENilLit loc)
     else if k = KwTrue \<or> k = KwFalse then leaf (EBoolLit loc (k = KwTrue))
     else if k = LParen then do {
       advance;
       e \<leftarrow> r_expr R;
       _ \<leftarrow> expect RParen ''parenthesised expression'';
       parse_postfix R e }
     else if k = LBrack then do { e \<leftarrow> parse_set_literal R; parse_postfix R e }
     else if k = KwInherited then parse_inherited R loc
     else if k = KwString \<or> k = KwShortstring then do {
       long \<leftarrow> long_strings_active;
       leaf (EIdent loc (if k = KwString \<and> long then ''ansistring'' else ''shortstring'')) }
     else if k = Ident \<or> k = KwSelf then leaf (EIdent loc (tok_text c))
     else do {
       report loc (''expected expression, got '' @ [quote] @ tok_text c @ [quote]);
       advance;
       return (EIntLit loc 0) } }"

subsection \<open>Operators\<close>

text \<open>A unary \<open>not\<close> keeps the node's default of no overflow check.\<close>

definition parse_factor :: "parsers \<Rightarrow> expr parser" where
  "parse_factor R = do {
     c \<leftarrow> cur;
     let loc = tok_loc c;
     let k = tok_kind c;
     if k = Plus \<or> k = Minus then do {
       advance;
       e \<leftarrow> r_factor R;
       ov \<leftarrow> overflow_check_active;
       return (EUnary loc (if k = Minus then UNeg else UPlus) e ov) }
     else if k = KwNot then do {
       advance;
       e \<leftarrow> r_factor R;
       return (EUnary loc UNot e False) }
     else if k = At \<or> k = AtAt then do {
       advance;
       e \<leftarrow> r_factor R;
       return (EAddrOf loc (k = AtAt) e) }
     else parse_primary R }"

text \<open>
  The common loop of \<open>parse_expr\<close>, \<open>parse_simple_expr\<close> and \<open>parse_term\<close>:
  \<open>for (;;) { const auto op = table(cur_.kind); if (!op) return lhs; \<dots> }\<close>
\<close>

definition binary_step ::
    "(tok \<Rightarrow> binop option) \<Rightarrow> expr parser \<Rightarrow> expr \<Rightarrow> (bool \<times> expr) parser" where
  "binary_step table operand lhs = do {
     c \<leftarrow> cur;
     case table (tok_kind c) of
       None \<Rightarrow> return (False, lhs)
     | Some op \<Rightarrow> do {
         advance;
         rhs \<leftarrow> operand;
         ov \<leftarrow> overflow_check_active;
         return (True, EBinary (tok_loc c) op lhs rhs ov) } }"

definition parse_term :: "parsers \<Rightarrow> expr parser" where
  "parse_term R = do {
     lhs \<leftarrow> parse_factor R;
     loop (r_fuel R) (binary_step multiplicative_operator (parse_factor R)) lhs }"

definition parse_simple_expr :: "parsers \<Rightarrow> expr parser" where
  "parse_simple_expr R = do {
     lhs \<leftarrow> parse_term R;
     loop (r_fuel R) (binary_step additive_operator (parse_term R)) lhs }"

definition parse_expr :: "parsers \<Rightarrow> expr parser" where
  "parse_expr R = do {
     lhs \<leftarrow> parse_simple_expr R;
     loop (r_fuel R) (binary_step relational_operator (parse_simple_expr R)) lhs }"

definition parse_subrange_bound :: "parsers \<Rightarrow> expr parser" where
  "parse_subrange_bound R = parse_simple_expr R"

end
