(* ===== verification/Parse_Stmt.thy ===== *)
theory Parse_Stmt
  imports Parse_Expr
begin

text \<open>
  The statement part of \<open>Parser\<close> (\<open>src/parser.cc\<close>, lines 476--488 and 1756--2072). A
  statement inside a statement is parsed by \<open>r_stmt R\<close>, one level of recursion below;
  expressions are parsed by \<open>parse_expr R\<close>, on the same level.
\<close>

subsection \<open>Statement lists\<close>

definition parse_stmt_list :: "parsers \<Rightarrow> tok list \<Rightarrow> stmt list parser" where
  "parse_stmt_list R stops = list_until (r_fuel R) stops Semi (r_stmt R)"

definition parse_statement_block_until :: "parsers \<Rightarrow> tok list \<Rightarrow> stmt parser" where
  "parse_statement_block_until R stops = do {
     loc \<leftarrow> cur_loc;
     body \<leftarrow> parse_stmt_list R stops;
     return (SCompound loc body) }"

definition parse_compound_statement :: "parsers \<Rightarrow> stmt parser" where
  "parse_compound_statement R = do {
     loc \<leftarrow> cur_loc;
     _ \<leftarrow> expect KwBegin ''compound statement'';
     body \<leftarrow> parse_stmt_list R [KwEnd];
     _ \<leftarrow> expect KwEnd ''compound statement'';
     return (SCompound loc body) }"

subsection \<open>Simple statements\<close>

definition parse_labeled_or_simple :: "parsers \<Rightarrow> stmt parser" where
  "parse_labeled_or_simple R = do {
     loc \<leftarrow> cur_loc;
     lhs \<leftarrow> parse_expr R;
     b \<leftarrow> accept Assign;
     if b then do {
       rhs \<leftarrow> parse_expr R;
       rc \<leftarrow> range_check_active;
       return (SAssign loc lhs rhs rc) }
     else return (SExprStmt loc lhs) }"

definition parse_goto :: "stmt parser" where
  "parse_goto = do {
     loc \<leftarrow> cur_loc;
     advance;
     b \<leftarrow> check_any [Ident, IntLit];
     if b then do { l \<leftarrow> take_text; return (SGoto loc l) }
     else do { _ \<leftarrow> expect Ident ''goto target''; return (SGoto loc []) } }"

text \<open>A label followed by a colon, which the caller has seen.\<close>

definition parse_labeled :: "parsers \<Rightarrow> stmt parser" where
  "parse_labeled R = do {
     lab \<leftarrow> cur_text;
     loc \<leftarrow> cur_loc;
     advance;
     advance;
     body \<leftarrow> r_stmt R;
     return (SLabeled loc lab body) }"

definition parse_raise :: "parsers \<Rightarrow> stmt parser" where
  "parse_raise R = do {
     loc \<leftarrow> cur_loc;
     _ \<leftarrow> expect KwRaise ''raise'';
     ends \<leftarrow> check_any [Semi, KwEnd, KwElse, KwUntil];
     e \<leftarrow> (if ends then return None else do { e \<leftarrow> parse_expr R; return (Some e) });
     at \<leftarrow> is_directive ''at'';
     only_if at (do {
       advance;
       _ \<leftarrow> parse_expr R;
       comma \<leftarrow> accept Comma;
       only_if comma (do { _ \<leftarrow> parse_expr R; return () }) });
     return (SRaise loc e) }"

definition parse_asm :: "parsers \<Rightarrow> stmt parser" where
  "parse_asm R = do {
     loc \<leftarrow> cur_loc;
     _ \<leftarrow> expect KwAsm ''asm'';
     _ \<leftarrow> loop (r_fuel R) (\<lambda>depth :: nat. do {
       e \<leftarrow> at_end;
       if e \<or> depth = 0 then return (False, depth)
       else do {
         k \<leftarrow> cur_kind;
         let depth = (if k = KwEnd then depth - 1 else if k = KwAsm then depth + 1 else depth);
         if depth = 0 then return (False, depth)
         else do { advance; return (True, depth) } } }) 1;
     _ \<leftarrow> expect KwEnd ''asm'';
     return (SAsm loc) }"

subsection \<open>Control flow\<close>

definition parse_if :: "parsers \<Rightarrow> stmt parser" where
  "parse_if R = do {
     loc \<leftarrow> cur_loc;
     _ \<leftarrow> expect KwIf ''if'';
     cond \<leftarrow> parse_expr R;
     _ \<leftarrow> expect KwThen ''if'';
     then_branch \<leftarrow> r_stmt R;
     else_branch \<leftarrow> optionally (accept KwElse) (r_stmt R);
     return (SIf loc cond then_branch else_branch) }"

definition parse_while :: "parsers \<Rightarrow> stmt parser" where
  "parse_while R = do {
     loc \<leftarrow> cur_loc;
     _ \<leftarrow> expect KwWhile ''while'';
     cond \<leftarrow> parse_expr R;
     _ \<leftarrow> expect KwDo ''while'';
     body \<leftarrow> r_stmt R;
     return (SWhile loc cond body) }"

definition parse_repeat :: "parsers \<Rightarrow> stmt parser" where
  "parse_repeat R = do {
     loc \<leftarrow> cur_loc;
     _ \<leftarrow> expect KwRepeat ''repeat'';
     body \<leftarrow> parse_stmt_list R [KwUntil];
     _ \<leftarrow> expect KwUntil ''repeat'';
     cond \<leftarrow> parse_expr R;
     return (SRepeat loc body cond) }"

definition parse_for_in :: "parsers \<Rightarrow> location \<Rightarrow> string \<Rightarrow> stmt parser" where
  "parse_for_in R loc var = do {
     in_expr \<leftarrow> parse_expr R;
     _ \<leftarrow> expect KwDo ''for'';
     body \<leftarrow> r_stmt R;
     return (SForIn loc var in_expr body) }"

definition parse_for_range :: "parsers \<Rightarrow> location \<Rightarrow> string \<Rightarrow> stmt parser" where
  "parse_for_range R loc var = do {
     _ \<leftarrow> expect Assign ''for'';
     start \<leftarrow> parse_expr R;
     up \<leftarrow> accept KwTo;
     downto \<leftarrow> (if up then return False
                else branch (accept KwDownto) (return True)
                       (do { _ \<leftarrow> expect KwTo ''for''; return False }));
     stop \<leftarrow> parse_expr R;
     _ \<leftarrow> expect KwDo ''for'';
     body \<leftarrow> r_stmt R;
     return (SFor loc var start stop downto body) }"

definition parse_for :: "parsers \<Rightarrow> stmt parser" where
  "parse_for R = do {
     loc \<leftarrow> cur_loc;
     _ \<leftarrow> expect KwFor ''for'';
     var \<leftarrow> consume_ident ''for variable'';
     branch (accept KwIn) (parse_for_in R loc var) (parse_for_range R loc var) }"

definition parse_case_label :: "parsers \<Rightarrow> expr parser" where
  "parse_case_label R = do { e \<leftarrow> parse_expr R; range_rest (parse_expr R) e }"

definition parse_case_arm :: "parsers \<Rightarrow> (expr list \<times> stmt) parser" where
  "parse_case_arm R = do {
     first \<leftarrow> parse_case_label R;
     labels \<leftarrow> while_accept (r_fuel R) Comma (parse_case_label R) [first];
     _ \<leftarrow> expect Colon ''case arm'';
     body \<leftarrow> r_stmt R;
     return (labels, body) }"

definition parse_case :: "parsers \<Rightarrow> stmt parser" where
  "parse_case R = do {
     loc \<leftarrow> cur_loc;
     _ \<leftarrow> expect KwCase ''case'';
     selector \<leftarrow> parse_expr R;
     _ \<leftarrow> expect KwOf ''case'';
     arms \<leftarrow> list_until (r_fuel R) [KwEnd, KwElse, KwOtherwise] Semi (parse_case_arm R);
     else_branch \<leftarrow> optionally (either (accept KwElse) (accept KwOtherwise))
       (parse_statement_block_until R [KwEnd]);
     _ \<leftarrow> expect KwEnd ''case'';
     return (SCase loc selector arms else_branch) }"

definition parse_with :: "parsers \<Rightarrow> stmt parser" where
  "parse_with R = do {
     loc \<leftarrow> cur_loc;
     _ \<leftarrow> expect KwWith ''with'';
     first \<leftarrow> parse_expr R;
     exprs \<leftarrow> while_accept (r_fuel R) Comma (parse_expr R) [first];
     _ \<leftarrow> expect KwDo ''with'';
     body \<leftarrow> r_stmt R;
     return (SWith loc exprs body) }"

subsection \<open>Exceptions\<close>

definition parse_handler :: "parsers \<Rightarrow> (string \<times> string \<times> stmt) parser" where
  "parse_handler R = do {
     advance;
     first \<leftarrow> consume_ident ''exception handler'';
     names \<leftarrow> branch (accept Colon)
       (do { c \<leftarrow> consume_ident ''exception class''; return (first, c) })
       (return ([], first));
     _ \<leftarrow> expect KwDo ''exception handler'';
     body \<leftarrow> r_stmt R;
     _ \<leftarrow> accept Semi;
     return (fst names, snd names, body) }"

text \<open>The part behind \<open>except\<close>: the handlers and the catch-all branch.\<close>

definition parse_except_part ::
    "parsers \<Rightarrow> ((string \<times> string \<times> stmt) list \<times> stmt option) parser" where
  "parse_except_part R =
     branch (is_directive ''on'')
       (do {
          handlers \<leftarrow> while_collect (r_fuel R) (is_directive ''on'') (parse_handler R);
          except_else \<leftarrow> optionally (accept KwElse) (parse_statement_block_until R [KwEnd]);
          return (handlers, except_else) })
       (do {
          except_else \<leftarrow> parse_statement_block_until R [KwEnd];
          return ([], Some except_else) })"

definition parse_try :: "parsers \<Rightarrow> stmt parser" where
  "parse_try R = do {
     loc \<leftarrow> cur_loc;
     _ \<leftarrow> expect KwTry ''try'';
     body \<leftarrow> parse_stmt_list R [KwExcept, KwFinally];
     r \<leftarrow> branch (accept KwFinally)
       (do { f \<leftarrow> parse_stmt_list R [KwEnd]; return (True, [], None, f) })
       (branch (accept KwExcept)
          (do { h \<leftarrow> parse_except_part R; return (False, fst h, snd h, []) })
          (do { _ \<leftarrow> expect KwExcept ''try''; return (False, [], None, []) }));
     _ \<leftarrow> expect KwEnd ''try'';
     return (case r of (is_finally, handlers, except_else, finally_body) \<Rightarrow>
       STry loc body is_finally handlers except_else finally_body) }"

subsection \<open>Statements\<close>

definition parse_statement_at :: "parsers \<Rightarrow> tok \<Rightarrow> stmt parser" where
  "parse_statement_at R k =
     (if k = KwBegin then parse_compound_statement R
      else if k = KwIf then parse_if R
      else if k = KwWhile then parse_while R
      else if k = KwRepeat then parse_repeat R
      else if k = KwFor then parse_for R
      else if k = KwCase then parse_case R
      else if k = KwWith then parse_with R
      else if k = KwGoto then parse_goto
      else if k = KwAsm then parse_asm R
      else if k = KwTry then parse_try R
      else if k = KwRaise then parse_raise R
      else if k \<in> {Semi, KwEnd, KwUntil, KwElse} then do { l \<leftarrow> cur_loc; return (SEmpty l) }
      else parse_labeled_or_simple R)"

definition parse_statement :: "parsers \<Rightarrow> stmt parser" where
  "parse_statement R =
     branch (cur_then_peek Ident [Colon]) (parse_labeled R)
       (branch (cur_then_peek IntLit [Colon]) (parse_labeled R)
          (do { k \<leftarrow> cur_kind; parse_statement_at R k }))"

end
