(* ===== verification/Parse_Proc.thy ===== *)
theory Parse_Proc
  imports Parse_Stmt
begin

text \<open>
  Routines (\<open>src/parser.cc\<close>, lines 95--192 and 803--1129): directives combined into one
  \<open>ProcModifiers\<close> value, formal parameters, headers, routine and operator declarations.
\<close>

subsection \<open>Procedure modifiers\<close>

definition no_modifiers :: proc_modifiers where
  "no_modifiers = \<lparr>is_virtual = False, is_abstract = False, is_override = False,
     is_final = False, is_forward = False, is_inline = False, is_cdecl = False,
     is_noreturn = False, is_external = False, is_assembler = False, is_overload = False,
     external_lib = [], external_name = []\<rparr>"

definition combine_proc_modifiers :: "proc_modifiers \<Rightarrow> proc_modifiers \<Rightarrow> proc_modifiers" where
  "combine_proc_modifiers base delta =
     \<lparr>is_virtual = (is_virtual base \<or> is_virtual delta),
      is_abstract = (is_abstract base \<or> is_abstract delta),
      is_override = (is_override base \<or> is_override delta),
      is_final = (is_final base \<or> is_final delta),
      is_forward = (is_forward base \<or> is_forward delta),
      is_inline = (is_inline base \<or> is_inline delta),
      is_cdecl = (is_cdecl base \<or> is_cdecl delta),
      is_noreturn = (is_noreturn base \<or> is_noreturn delta),
      is_external = (is_external base \<or> is_external delta),
      is_assembler = (is_assembler base \<or> is_assembler delta),
      is_overload = (is_overload base \<or> is_overload delta),
      external_lib = (if external_lib delta = [] then external_lib base else external_lib delta),
      external_name =
        (if external_name delta = [] then external_name base else external_name delta)\<rparr>"

datatype (plugins only: code size) proc_modifier_flag =
  Virtual | Abstract | Override | Final | Forward | Inline | Cdecl | Noreturn | Assembler | Overload

definition proc_modifier :: "proc_modifier_flag \<Rightarrow> proc_modifiers" where
  "proc_modifier f = no_modifiers
     \<lparr>is_virtual := (f = Virtual), is_abstract := (f = Abstract), is_override := (f = Override),
      is_final := (f = Final), is_forward := (f = Forward), is_inline := (f = Inline),
      is_cdecl := (f = Cdecl), is_noreturn := (f = Noreturn), is_assembler := (f = Assembler),
      is_overload := (f = Overload)\<rparr>"

definition external_proc_modifier :: "string \<Rightarrow> string \<Rightarrow> proc_modifiers" where
  "external_proc_modifier lib name =
     no_modifiers\<lparr>is_external := True, external_lib := lib, external_name := name\<rparr>"

text \<open>\<open>if (cur_.kind == StringLit) { x = cur_.text; advance(); }\<close>, with \<open>x\<close> empty before.\<close>

definition take_string_literal :: "string parser" where
  "take_string_literal = branch (check StringLit) take_text (return [])"

definition parse_external_modifier :: "proc_modifiers parser" where
  "parse_external_modifier = do {
     advance;
     lib \<leftarrow> take_string_literal;
     name \<leftarrow> branch (is_directive ''name'') (do { advance; take_string_literal }) (return []);
     return (external_proc_modifier lib name) }"

text \<open>Directives that set one flag, and those that are read and dropped.\<close>

definition flag_directives :: "(string \<times> proc_modifier_flag) list" where
  "flag_directives =
     [(''virtual'', Virtual), (''abstract'', Abstract), (''override'', Override),
      (''final'', Final), (''dynamic'', Virtual), (''forward'', Forward), (''inline'', Inline),
      (''cdecl'', Cdecl), (''noreturn'', Noreturn), (''assembler'', Assembler),
      (''overload'', Overload)]"

definition ignored_directives :: "string list" where
  "ignored_directives =
     [''far'', ''near'', ''pascal'', ''register'', ''stdcall'', ''safecall'', ''interrupt'',
      ''popstack'', ''export'', ''public'', ''static'', ''reintroduce'']"

definition hint_directives :: "string list" where
  "hint_directives = [''deprecated'', ''platform'', ''library'', ''experimental'']"

definition parse_directive_modifier :: "string \<Rightarrow> proc_modifiers option parser" where
  "parse_directive_modifier t =
     (case map_of flag_directives t of
        Some f \<Rightarrow> do { advance; return (Some (proc_modifier f)) }
      | None \<Rightarrow>
          if t = ''message'' then do {
            advance;
            b \<leftarrow> check_any [IntLit, Ident, StringLit];
            only_if b advance;
            return (Some (proc_modifier Virtual)) }
          else if t = ''external'' then do { m \<leftarrow> parse_external_modifier; return (Some m) }
          else if t = ''alias'' then do {
            advance;
            b \<leftarrow> accept Colon;
            only_if b skip_string_literal;
            return (Some no_modifiers) }
          else if t = ''name'' \<or> t \<in> set hint_directives then do {
            advance; skip_string_literal; return (Some no_modifiers) }
          else if t \<in> set ignored_directives then do { advance; return (Some no_modifiers) }
          else return None)"

text \<open>
  Behind the semicolon of a method, a word that starts the next member is no directive:
  \<open>public\<close>, or a name followed by a colon or comma.
\<close>

definition starts_next_member :: "bool parser" where
  "starts_next_member =
     either (is_directive ''public'') (cur_then_peek Ident [Colon, Comma])"

definition parse_proc_modifier :: "bool \<Rightarrow> proc_modifiers option parser" where
  "parse_proc_modifier in_type_member = do {
     stop \<leftarrow> (if in_type_member then starts_next_member else return False);
     c \<leftarrow> cur;
     if stop \<or> tok_kind c \<noteq> Ident then return None
     else parse_directive_modifier (tok_text c) }"

text \<open>The C++ function calls itself in tail position; the model is the loop.\<close>

definition parse_proc_modifiers ::
    "parsers \<Rightarrow> proc_modifiers \<Rightarrow> bool \<Rightarrow> proc_modifiers parser" where
  "parse_proc_modifiers R modifiers in_type_member = loop (r_fuel R) (\<lambda>ms. do {
     delta \<leftarrow> parse_proc_modifier in_type_member;
     case delta of
       None \<Rightarrow> return (False, ms)
     | Some d \<Rightarrow> do {
         _ \<leftarrow> accept Semi;
         return (True, combine_proc_modifiers ms d) } }) modifiers"

definition parse_proc_header_tail :: "parsers \<Rightarrow> string \<Rightarrow> bool \<Rightarrow> proc_modifiers parser" where
  "parse_proc_header_tail R ctx in_type_member =
     branch (accept Semi) (parse_proc_modifiers R no_modifiers in_type_member)
       (do {
          first \<leftarrow> parse_proc_modifier in_type_member;
          case first of
            None \<Rightarrow> do { _ \<leftarrow> expect Semi ctx; return no_modifiers }
          | Some f \<Rightarrow> do {
              _ \<leftarrow> accept Semi;
              parse_proc_modifiers R f in_type_member } })"

subsection \<open>Formal parameters\<close>

text \<open>\<open>constref\<close> and \<open>out\<close> are modes only in front of a parameter name.\<close>

definition soft_mode :: "string \<Rightarrow> bool parser" where
  "soft_mode w = both (is_directive w) (peek_is [Ident])"

definition parse_param_mode :: "param_mode parser" where
  "parse_param_mode =
     branch (accept KwVar) (return ByVar)
       (branch (accept KwConst) (return ByConst)
          (branch (soft_mode ''constref'') (do { advance; return ByConstRef })
             (branch (soft_mode ''out'') (do { advance; return ByOut })
                (return ByValue))))"

definition parse_param_type :: "parsers \<Rightarrow> ty parser" where
  "parse_param_type R =
     branch (check KwArray)
       (do {
          loc \<leftarrow> cur_loc;
          advance;
          _ \<leftarrow> expect KwOf ''open array parameter'';
          t \<leftarrow> r_type R;
          return (TyArray loc [] t False Open) })
       (r_type R)"

definition parse_param :: "parsers \<Rightarrow> ty param parser" where
  "parse_param R = do {
     mode \<leftarrow> parse_param_mode;
     names \<leftarrow> branch (check Ident) (name_list (r_fuel R)) (return []);
     type \<leftarrow> optionally (accept Colon) (parse_param_type R);
     default_value \<leftarrow> optionally (accept Eq) (parse_expr R);
     return (Param mode names type default_value) }"

definition parse_param_list :: "parsers \<Rightarrow> tok \<Rightarrow> ty param list parser" where
  "parse_param_list R close = list_until (r_fuel R) [close] Semi (parse_param R)"

text \<open>The list in parentheses, if there is one.\<close>

definition parse_optional_params :: "parsers \<Rightarrow> string \<Rightarrow> ty param list parser" where
  "parse_optional_params R ctx =
     branch (accept LParen)
       (do { ps \<leftarrow> parse_param_list R RParen; _ \<leftarrow> expect RParen ctx; return ps })
       (return [])"

subsection \<open>Routine declarations\<close>

text \<open>\<open>A.B.c\<close>: the last segment is the name, the others are the type.\<close>

definition join_dots :: "string list \<Rightarrow> string" where
  "join_dots segments =
     foldl (\<lambda>acc seg. (if acc = [] then [] else acc @ ''.'') @ seg) [] segments"

definition param_count :: "ty param list \<Rightarrow> nat" where
  "param_count ps = sum_list (map (\<lambda>p. if param_names p = [] then 1 else length (param_names p)) ps)"

definition check_class_lifecycle ::
    "location \<Rightarrow> proc_kind \<Rightarrow> bool \<Rightarrow> ty param list \<Rightarrow> ty option \<Rightarrow> unit parser" where
  "check_class_lifecycle loc pk is_class_method ps ret =
     only_if (is_class_method \<and> (pk = PConstructor \<or> pk = PDestructor)) (do {
       only_if (param_count ps \<noteq> 0)
         (report loc ''class constructors and destructors cannot have parameters'');
       only_if (ret \<noteq> None)
         (report loc ''class constructors cannot have a return type'') })"

definition parse_return_type :: "parsers \<Rightarrow> proc_kind \<Rightarrow> ty option parser" where
  "parse_return_type R pk =
     (if pk = PFunction then do {
        _ \<leftarrow> expect Colon ''function return type'';
        t \<leftarrow> r_type R;
        return (Some t) }
      else if pk = PConstructor then optionally (accept Colon) (r_type R)
      else return None)"

text \<open>Locals and body of a routine that has them.\<close>

definition parse_routine_body ::
    "parsers \<Rightarrow> bool \<Rightarrow> proc_modifiers \<Rightarrow> string \<Rightarrow> (decl list \<times> stmt option) parser" where
  "parse_routine_body R in_interface ms ctx =
     (if in_interface \<or> is_forward ms \<or> is_external ms \<or> is_abstract ms then return ([], None)
      else do {
        locals \<leftarrow> r_decl_block R False;
        k \<leftarrow> cur_kind;
        if k = KwBegin then do {
          b \<leftarrow> parse_compound_statement R; _ \<leftarrow> expect Semi ctx; return (locals, Some b) }
        else if k = KwAsm then do {
          b \<leftarrow> parse_asm R; _ \<leftarrow> expect Semi ctx; return (locals, Some b) }
        else return (locals, None) })"

definition parse_proc_decl ::
    "parsers \<Rightarrow> proc_kind \<Rightarrow> bool \<Rightarrow> bool \<Rightarrow> bool \<Rightarrow> (ty, decl) proc_decl parser" where
  "parse_proc_decl R pk in_interface is_class_method in_type_member = do {
     loc \<leftarrow> cur_loc;
     advance;
     path \<leftarrow> parse_property_accessor_path (r_fuel R) ''routine name'';
     ps \<leftarrow> parse_optional_params R ''parameter list'';
     ret \<leftarrow> parse_return_type R pk;
     check_class_lifecycle loc pk is_class_method ps ret;
     ms \<leftarrow> parse_proc_header_tail R ''routine header'' in_type_member;
     b \<leftarrow> parse_routine_body R in_interface ms ''routine body'';
     return (ProcDecl loc pk (last path) False [] NoIntrinsic (join_dots (butlast path))
       is_class_method ps ret ms (fst b) (snd b)) }"

definition operator_decl_token_text :: "token \<Rightarrow> string" where
  "operator_decl_token_text t =
     (case map_of
        [(Assign, '':=''), (Plus, ''+''), (Minus, ''-''), (Star, ''*''), (Slash, ''/''),
         (Eq, ''=''), (Lt, ''<''), (Gt, ''>''), (LtEq, ''<=''), (GtEq, ''>=''),
         (NotEq, ''<>''), (KwDiv, ''div''), (KwMod, ''mod''), (KwAnd, ''and''),
         (KwOr, ''or''), (KwXor, ''xor''), (KwShl, ''shl''), (KwShr, ''shr'')] (tok_kind t) of
        Some s \<Rightarrow> s
      | None \<Rightarrow> if tok_kind t = Ident \<and> tok_text t = ''enumerator'' then ''enumerator'' else [])"

definition parse_operator_decl :: "parsers \<Rightarrow> bool \<Rightarrow> (ty, decl) proc_decl parser" where
  "parse_operator_decl R in_interface = do {
     loc \<leftarrow> cur_loc;
     advance;
     c \<leftarrow> cur;
     let op_text = operator_decl_token_text c;
     (if op_text = [] then report (tok_loc c) (''expected operator token after '' @ [quote] @ ''operator'' @ [quote])
      else advance);
     ps \<leftarrow> parse_optional_params R ''operator parameter list'';
     _ \<leftarrow> expect Colon ''operator return type'';
     ret \<leftarrow> r_type R;
     ms \<leftarrow> parse_proc_header_tail R ''operator header'' False;
     b \<leftarrow> parse_routine_body R in_interface ms ''operator body'';
     return (ProcDecl loc PFunction (''operator_'' @ op_text) True op_text NoIntrinsic []
       False ps (Some ret) ms (fst b) (snd b)) }"

end
