(* ===== verification/Parse_Type.thy ===== *)
theory Parse_Type
  imports Parse_Proc
begin

text \<open>
  Types (\<open>src/parser.cc\<close>, lines 14--46, 717--728 and 1162--1752): names, subranges,
  enumerations, arrays, records with variant parts, object, class and interface types,
  sets, files, procedural types.
\<close>

subsection \<open>Subranges and simple types\<close>

definition is_subrange_bound_intrinsic :: "string \<Rightarrow> bool" where
  "is_subrange_bound_intrinsic name \<longleftrightarrow>
     name \<in> {''low'', ''high'', ''pred'', ''succ'', ''sizeof'', ''ord''}"

fun is_constant_subrange_bound_expr :: "expr \<Rightarrow> bool" where
  "is_constant_subrange_bound_expr (EIdent _ _) = True"
| "is_constant_subrange_bound_expr (EIntLit _ _) = True"
| "is_constant_subrange_bound_expr (EStringLit _ _) = True"
| "is_constant_subrange_bound_expr (EBoolLit _ _) = True"
| "is_constant_subrange_bound_expr (EMember _ _ _) = True"
| "is_constant_subrange_bound_expr (EUnary _ _ e _) = is_constant_subrange_bound_expr e"
| "is_constant_subrange_bound_expr (EBinary _ _ a b _) =
     (is_constant_subrange_bound_expr a \<and> is_constant_subrange_bound_expr b)"
| "is_constant_subrange_bound_expr (ECall _ (EIdent _ f) [a] _ _ _ _) =
     (is_subrange_bound_intrinsic f \<and> is_constant_subrange_bound_expr a)"
| "is_constant_subrange_bound_expr _ = False"

definition check_bound :: "expr \<Rightarrow> unit parser" where
  "check_bound e = only_if (\<not> is_constant_subrange_bound_expr e)
     (report (expr_loc e) ''non-constant subrange bound'')"

definition parse_subrange_type :: "parsers \<Rightarrow> location \<Rightarrow> expr \<Rightarrow> ty parser" where
  "parse_subrange_type R loc lo = do {
     check_bound lo;
     _ \<leftarrow> expect DotDot ''subrange'';
     hi \<leftarrow> parse_subrange_bound R;
     check_bound hi;
     return (TySubrange loc lo hi) }"

definition parse_enum_member :: "parsers \<Rightarrow> enum_member parser" where
  "parse_enum_member R = do {
     name \<leftarrow> take_text;
     v \<leftarrow> optionally (either (accept Assign) (accept Eq)) (parse_expr R);
     return (EnumMember name v) }"

text \<open>\<open>static_cast<uint8_t>\<close> keeps the low byte.\<close>

definition parse_enum_type :: "parsers \<Rightarrow> location \<Rightarrow> ty parser" where
  "parse_enum_type R loc = do {
     members \<leftarrow> loop (r_fuel R) (\<lambda>ms.
       branch (check Ident)
         (do { m \<leftarrow> parse_enum_member R; c \<leftarrow> accept Comma; return (c, ms @ [m]) })
         (return (False, ms))) [];
     _ \<leftarrow> expect RParen ''enumeration'';
     p \<leftarrow> packenum_active;
     return (TyEnum loc (p mod 256) members) }"

definition parse_type_name :: "parsers \<Rightarrow> location \<Rightarrow> ty parser" where
  "parse_type_name R loc = do {
     first \<leftarrow> take_text;
     name \<leftarrow> loop (r_fuel R) (\<lambda>name.
       branch (both (accept Dot) (check Ident))
         (do { t \<leftarrow> take_text; return (True, name @ ''.'' @ t) })
         (return (False, name))) first;
     return (TyName loc name) }"

text \<open>A name starts a subrange in front of \<open>..\<close>, or as an ordinal intrinsic before \<open>(\<close>.\<close>

definition starts_bound :: "bool parser" where
  "starts_bound = do {
     t \<leftarrow> cur_text;
     either (peek_is [DotDot])
       (both (peek_is [LParen]) (return (is_subrange_bound_intrinsic t))) }"

definition parse_simple_type :: "parsers \<Rightarrow> ty parser" where
  "parse_simple_type R = do {
     loc \<leftarrow> cur_loc;
     branch (accept LParen) (parse_enum_type R loc)
       (branch (both (check Ident) (do { b \<leftarrow> starts_bound; return (\<not> b) }))
          (parse_type_name R loc)
          (do { lo \<leftarrow> parse_subrange_bound R; parse_subrange_type R loc lo })) }"

definition parse_array_type :: "parsers \<Rightarrow> bool \<Rightarrow> ty parser" where
  "parse_array_type R packed = do {
     loc \<leftarrow> cur_loc;
     _ \<leftarrow> expect KwArray ''array'';
     dims \<leftarrow> branch (accept LBrack)
       (do {
          ds \<leftarrow> list_until (r_fuel R) [RBrack] Comma (parse_simple_type R);
          _ \<leftarrow> expect RBrack ''array dimensions'';
          return (Fixed, ds) })
       (return (Dynamic, []));
     _ \<leftarrow> expect KwOf ''array'';
     t \<leftarrow> r_type R;
     return (TyArray loc (snd dims) t packed (fst dims)) }"

subsection \<open>Records\<close>

definition parse_type_decl_from_current_ident ::
    "parsers \<Rightarrow> string \<Rightarrow> nat \<Rightarrow> ty type_decl parser" where
  "parse_type_decl_from_current_ident R ctx section_id = do {
     loc \<leftarrow> cur_loc;
     name \<leftarrow> consume_ident ctx;
     _ \<leftarrow> expect Eq ctx;
     t \<leftarrow> r_type R;
     _ \<leftarrow> expect Semi ctx;
     return (TypeDecl loc name t section_id) }"

text \<open>\<open>a, b : T\<close>, the names and the type of a field.\<close>

definition parse_field :: "parsers \<Rightarrow> string \<Rightarrow> (string list \<times> ty) parser" where
  "parse_field R ctx = do {
     names \<leftarrow> name_list (r_fuel R);
     _ \<leftarrow> expect Colon ctx;
     t \<leftarrow> r_type R;
     return (names, t) }"

definition parse_case_fields :: "parsers \<Rightarrow> ty record_field list parser" where
  "parse_case_fields R = loop (r_fuel R) (\<lambda>fs. do {
     k \<leftarrow> cur_kind;
     if k \<in> {Eof, RParen, KwCase} \<or> k \<noteq> Ident then return (False, fs)
     else do {
       f \<leftarrow> parse_field R ''variant field'';
       more \<leftarrow> accept Semi;
       return (more, fs @ [RecordField (fst f) (snd f)]) } }) []"

definition parse_variant_case :: "parsers \<Rightarrow> ty variant_case parser" where
  "parse_variant_case R = do {
     first \<leftarrow> parse_expr R;
     labels \<leftarrow> while_accept (r_fuel R) Comma (parse_expr R) [first];
     _ \<leftarrow> expect Colon ''variant case'';
     _ \<leftarrow> expect LParen ''variant case'';
     fields \<leftarrow> parse_case_fields R;
     nested \<leftarrow> r_variant R;
     _ \<leftarrow> expect RParen ''variant case'';
     return (VariantCase labels fields nested) }"

definition parse_variant_part :: "parsers \<Rightarrow> ty variant_part option parser" where
  "parse_variant_part R = optionally (accept KwCase) (do {
     tag_name \<leftarrow> branch (cur_then_peek Ident [Colon])
       (do { t \<leftarrow> take_text; advance; return t })
       (return []);
     tag_type \<leftarrow> r_type R;
     _ \<leftarrow> expect KwOf ''variant record'';
     cases \<leftarrow> list_until (r_fuel R) [KwEnd, RParen] Semi (parse_variant_case R);
     return (VariantPart tag_name tag_type cases) })"

text \<open>The loop variables of \<open>parse_record_type\<close>; \<open>in_type_block\<close> is \<open>member_block == Type\<close>.\<close>

record record_loop =
  in_type_block :: bool
  rl_section :: nat
  rl_fields :: "ty record_field list"
  rl_types :: "ty type_decl list"
  rl_order :: "(record_member_kind \<times> nat) list"

text \<open>
  \<open>private\<close>, \<open>protected\<close>, \<open>public\<close>, \<open>published\<close>, \<open>strict private\<close>, \<open>strict protected\<close>:
  read as a marker, kept nowhere.
\<close>

definition skip_record_visibility :: "bool parser" where
  "skip_record_visibility =
     branch (is_any_directive [''private'', ''protected'', ''public'', ''published''])
       (do { advance; return True })
       (branch (is_directive ''strict'')
          (do {
             advance;
             b \<leftarrow> is_any_directive [''private'', ''protected''];
             only_if b advance;
             return True })
          (return False))"

definition record_field_step :: "parsers \<Rightarrow> record_loop \<Rightarrow> (bool \<times> record_loop) parser" where
  "record_field_step R a = do {
     f \<leftarrow> parse_field R ''record field'';
     more \<leftarrow> accept Semi;
     return (more, a\<lparr>rl_fields := rl_fields a @ [RecordField (fst f) (snd f)],
                     rl_order := rl_order a @ [(FieldMember, length (rl_fields a))]\<rparr>) }"

definition record_type_step :: "parsers \<Rightarrow> record_loop \<Rightarrow> (bool \<times> record_loop) parser" where
  "record_type_step R a = do {
     d \<leftarrow> parse_type_decl_from_current_ident R ''nested record type decl'' (rl_section a);
     return (True, a\<lparr>rl_types := rl_types a @ [d],
                     rl_order := rl_order a @ [(TypeMember, length (rl_types a))]\<rparr>) }"

definition record_step :: "parsers \<Rightarrow> record_loop \<Rightarrow> (bool \<times> record_loop) parser" where
  "record_step R a =
     branch (check_any [Eof, KwEnd, KwCase]) (return (False, a))
      (branch (accept KwType)
         (do { i \<leftarrow> fresh_section_id; return (True, a\<lparr>in_type_block := True, rl_section := i\<rparr>) })
       (branch (accept KwVar) (return (True, a\<lparr>in_type_block := False\<rparr>))
        (branch skip_record_visibility (return (True, a\<lparr>in_type_block := False\<rparr>))
         (branch (check Ident)
            (do {
               ends \<leftarrow> identifier_ends_nested_type_block;
               if in_type_block a \<and> \<not> ends then record_type_step R a
               else record_field_step R a })
            (return (False, a))))))"

definition parse_record_type :: "parsers \<Rightarrow> bool \<Rightarrow> ty parser" where
  "parse_record_type R packed = do {
     loc \<leftarrow> cur_loc;
     _ \<leftarrow> expect KwRecord ''record'';
     a \<leftarrow> loop (r_fuel R) (record_step R)
       \<lparr>in_type_block = False, rl_section = 0, rl_fields = [], rl_types = [], rl_order = []\<rparr>;
     v \<leftarrow> parse_variant_part R;
     _ \<leftarrow> expect KwEnd ''record'';
     return (TyRecord loc (rl_fields a) (rl_types a) (rl_order a) v packed) }"

end
