(* ===== verification/Parse_Object.thy ===== *)
theory Parse_Object
  imports Parse_Type
begin

text \<open>
  Object, class and interface types (\<open>src/parser.cc\<close>, lines 1418--1705), the remaining
  type forms and the dispatcher \<open>parse_type\<close> (lines 1162--1218, 1707--1752).
\<close>

subsection \<open>Loop variables of \<open>parse_object_type\<close>\<close>

record object_loop =
  ol_vis :: visibility
  ol_class_var :: bool
  ol_in_type :: bool
  ol_section :: nat
  ol_members :: "(ty, decl) object_member list"

definition add_member :: "location \<Rightarrow> (ty, decl) member_content \<Rightarrow> object_loop \<Rightarrow> object_loop" where
  "add_member loc c a = a\<lparr>ol_members := ol_members a @ [ObjectMember loc (ol_vis a) c]\<rparr>"

text \<open>A visibility marker ends a type section and a \<open>class var\<close> section.\<close>

definition set_vis :: "visibility \<Rightarrow> object_loop \<Rightarrow> object_loop" where
  "set_vis v a = a\<lparr>ol_vis := v, ol_class_var := False, ol_in_type := False\<rparr>"

subsection \<open>Members\<close>

definition strict_step :: "object_loop \<Rightarrow> (bool \<times> object_loop) parser" where
  "strict_step a = do {
     strict_loc \<leftarrow> cur_loc;
     advance;
     v \<leftarrow> branch (is_directive ''private'') (do { advance; return StrictPrivate })
       (branch (is_directive ''protected'') (do { advance; return StrictProtected })
          (do {
             report strict_loc (''expected `private'' @ [quote] @ '' or `protected'' @ [quote] @ '' after `strict'' @ [quote]);
             return (ol_vis a) }));
     return (True, set_vis v a) }"

text \<open>The kind a routine keyword stands for; other words never reach the last case.\<close>

definition proc_kind_of :: "tok \<Rightarrow> proc_kind" where
  "proc_kind_of k =
     (if k = KwFunction then PFunction
      else if k = KwConstructor then PConstructor
      else if k = KwDestructor then PDestructor
      else PProcedure)"

abbreviation routine_keywords :: "tok list" where
  "routine_keywords \<equiv> [KwProcedure, KwFunction, KwConstructor, KwDestructor]"

definition method_step :: "parsers \<Rightarrow> bool \<Rightarrow> object_loop \<Rightarrow> (bool \<times> object_loop) parser" where
  "method_step R is_class_method a = do {
     k \<leftarrow> cur_kind;
     loc \<leftarrow> cur_loc;
     d \<leftarrow> parse_proc_decl R (proc_kind_of k) True is_class_method True;
     return (True, add_member loc (MethodContent d) a) }"

text \<open>\<open>class var\<close>, or a class method; anything else behind \<open>class\<close> leaves the body.\<close>

definition class_member_step ::
    "parsers \<Rightarrow> bool \<Rightarrow> object_loop \<Rightarrow> (bool \<times> object_loop) parser" where
  "class_member_step R is_reference_type a = do {
     class_loc \<leftarrow> cur_loc;
     advance;
     branch (check KwVar)
       (do {
          advance;
          if \<not> is_reference_type then do {
            report class_loc (''`class var'' @ [quote] @ '' is only valid in class types'');
            return (True, a) }
          else return (True, a\<lparr>ol_class_var := True, ol_in_type := False\<rparr>) })
       (branch (check_any routine_keywords)
          (method_step R True a)
          (do {
             l \<leftarrow> cur_loc;
             report l (''expected `procedure'' @ [quote] @ '', `function'' @ [quote] @
               '', `constructor'' @ [quote] @ '', `destructor'' @ [quote] @
               '', or `var'' @ [quote] @ '' after `class'' @ [quote]);
             return (False, a) })) }"

text \<open>The accessors of a property: \<open>read\<close> and \<open>write\<close>, each at most once, in any order.\<close>

definition accessor_step ::
    "parsers \<Rightarrow> string list option \<times> string list option \<Rightarrow>
     (bool \<times> (string list option \<times> string list option)) parser" where
  "accessor_step R acc =
     branch (if fst acc = None then is_directive ''read'' else return False)
       (do {
          advance;
          p \<leftarrow> parse_property_accessor_path (r_fuel R) ''property read accessor'';
          return (True, (Some p, snd acc)) })
       (branch (if snd acc = None then is_directive ''write'' else return False)
          (do {
             advance;
             p \<leftarrow> parse_property_accessor_path (r_fuel R) ''property write accessor'';
             return (True, (fst acc, Some p)) })
          (return (False, acc)))"

text \<open>An accessor that is not there is the empty path; a property needs one of them.\<close>

definition parse_accessors :: "parsers \<Rightarrow> (string list \<times> string list) parser" where
  "parse_accessors R = do {
     acc \<leftarrow> loop (r_fuel R) (accessor_step R) (None, None);
     l \<leftarrow> cur_loc;
     only_if (acc = (None, None)) (report l ''expected property accessor in declaration'');
     return (case fst acc of None \<Rightarrow> [] | Some p \<Rightarrow> p,
             case snd acc of None \<Rightarrow> [] | Some p \<Rightarrow> p) }"

text \<open>
  The tail \<open>; [default;]\<close>. The pair says whether a semicolon and whether \<open>default\<close> was read.
\<close>

definition property_tail :: "parsers \<Rightarrow> bool parser" where
  "property_tail R = do {
     r \<leftarrow> loop (r_fuel R) (\<lambda>(semi, dflt).
       branch (accept Semi)
         (branch (is_directive ''default'')
            (do { advance; return (True, (True, True)) })
            (return (False, (True, dflt))))
         (return (False, (semi, dflt)))) (False, False);
     only_if (\<not> fst r) (do { _ \<leftarrow> expect Semi ''property''; return () });
     return (snd r) }"

definition parse_index_params :: "parsers \<Rightarrow> ty param list parser" where
  "parse_index_params R = branch (accept LBrack)
     (do {
        ps \<leftarrow> parse_param_list R RBrack;
        _ \<leftarrow> expect RBrack ''property index list'';
        return ps })
     (return [])"

definition parse_property :: "parsers \<Rightarrow> (location \<times> ty property_decl) parser" where
  "parse_property R = do {
     advance;
     loc \<leftarrow> cur_loc;
     name \<leftarrow> consume_name_or_directive ''property name'';
     ps \<leftarrow> parse_index_params R;
     _ \<leftarrow> expect Colon ''property'';
     t \<leftarrow> r_type R;
     acc \<leftarrow> parse_accessors R;
     dflt \<leftarrow> property_tail R;
     return (loc, PropertyDecl name ps t (fst acc) (snd acc) dflt) }"

definition property_step :: "parsers \<Rightarrow> object_loop \<Rightarrow> (bool \<times> object_loop) parser" where
  "property_step R a = do {
     p \<leftarrow> parse_property R;
     return (True, add_member (fst p) (PropertyContent (snd p)) a) }"

definition object_field_step :: "parsers \<Rightarrow> object_loop \<Rightarrow> (bool \<times> object_loop) parser" where
  "object_field_step R a = do {
     loc \<leftarrow> cur_loc;
     f \<leftarrow> parse_field R ''object field'';
     more \<leftarrow> accept Semi;
     return (more, add_member loc (FieldContent (fst f) (snd f) (ol_class_var a)) a) }"

definition object_type_step :: "parsers \<Rightarrow> object_loop \<Rightarrow> (bool \<times> object_loop) parser" where
  "object_type_step R a = do {
     loc \<leftarrow> cur_loc;
     d \<leftarrow> parse_type_decl_from_current_ident R ''nested object type decl'' (ol_section a);
     return (True, add_member loc (TypeContent d) a) }"

definition skip_and :: "'a \<Rightarrow> 'a parser" where
  "skip_and a = do { advance; return a }"

text \<open>The markers tried first in a round: visibility, \<open>type\<close>, \<open>var\<close>.\<close>

definition object_marker_step ::
    "object_loop \<Rightarrow> (bool \<times> object_loop) parser \<Rightarrow> (bool \<times> object_loop) parser" where
  "object_marker_step a other =
     branch (is_directive ''public'') (skip_and (True, set_vis Public a))
      (branch (is_directive ''private'') (skip_and (True, set_vis Private a))
       (branch (is_directive ''protected'') (skip_and (True, set_vis Protected a))
        (branch (is_directive ''strict'') (strict_step a)
         (branch (is_directive ''published'') (skip_and (True, set_vis Public a))
          (branch (accept KwType)
             (do {
                i \<leftarrow> fresh_section_id;
                return (True, a\<lparr>ol_class_var := False, ol_in_type := True, ol_section := i\<rparr>) })
           (branch (accept KwVar)
              (return (True, a\<lparr>ol_class_var := False, ol_in_type := False\<rparr>))
              other))))))"

definition object_step ::
    "parsers \<Rightarrow> bool \<Rightarrow> object_loop \<Rightarrow> (bool \<times> object_loop) parser" where
  "object_step R is_reference_type a =
     branch (check_any [Eof, KwEnd]) (return (False, a))
      (object_marker_step a (do {
         ident \<leftarrow> check Ident;
         ends \<leftarrow> identifier_ends_nested_type_block;
         if ol_in_type a \<and> ident \<and> \<not> ends then object_type_step R a
         else
           branch (check KwClass) (class_member_step R is_reference_type a)
            (branch (check_any routine_keywords) (method_step R False a)
             (branch (is_directive ''property'') (property_step R a)
              (branch (check Ident) (object_field_step R a)
                 (return (False, a))))) }))"

subsection \<open>Object and class types\<close>

text \<open>\<open>class\<close>, \<open>class abstract\<close> or \<open>object\<close>: reference type and abstractness.\<close>

definition parse_object_keyword :: "(bool \<times> bool) parser" where
  "parse_object_keyword =
     branch (check KwClass)
       (do {
          _ \<leftarrow> expect KwClass ''class'';
          branch (is_directive ''abstract'') (skip_and (True, True)) (return (True, False)) })
       (do { _ \<leftarrow> expect KwObject ''object''; return (False, False) })"

definition parse_parents :: "parsers \<Rightarrow> (string \<times> string list) parser" where
  "parse_parents R =
     branch (accept LParen)
       (do {
          parent \<leftarrow> consume_ident ''parent class'';
          interfaces \<leftarrow>
            while_accept (r_fuel R) Comma (consume_ident ''implemented interface'') [];
          _ \<leftarrow> expect RParen ''parent class'';
          return (parent, interfaces) })
       (return ([], []))"

definition parse_object_type :: "parsers \<Rightarrow> ty parser" where
  "parse_object_type R = do {
     loc \<leftarrow> cur_loc;
     kw \<leftarrow> parse_object_keyword;
     ps \<leftarrow> parse_parents R;
     semi \<leftarrow> check Semi;
     if fst kw \<and> semi then
       return (TyObject loc (fst ps) (snd ps) [] (fst kw) (snd kw) (fst ps = []))
     else do {
       a \<leftarrow> loop (r_fuel R) (object_step R (fst kw))
         \<lparr>ol_vis = Public, ol_class_var = False, ol_in_type = False, ol_section = 0,
          ol_members = []\<rparr>;
       _ \<leftarrow> expect KwEnd ''object'';
       return (TyObject loc (fst ps) (snd ps) (ol_members a) (fst kw) (snd kw) False) } }"

subsection \<open>Interfaces\<close>

definition parse_interface_metadata :: "string parser" where
  "parse_interface_metadata =
     branch (accept LBrack)
       (do {
          m \<leftarrow> branch (check StringLit) take_text
            (do { l \<leftarrow> cur_loc; report l ''expected interface metadata string''; return [] });
          _ \<leftarrow> expect RBrack ''interface metadata'';
          return m })
       (return [])"

definition interface_step ::
    "parsers \<Rightarrow> (ty, decl) object_member list \<Rightarrow> (bool \<times> (ty, decl) object_member list) parser" where
  "interface_step R ms =
     branch (check_any [Eof, KwEnd]) (return (False, ms))
       (branch (check_any [KwProcedure, KwFunction])
          (do {
             k \<leftarrow> cur_kind;
             loc \<leftarrow> cur_loc;
             d \<leftarrow> parse_proc_decl R (proc_kind_of k) True False True;
             return (True, ms @ [ObjectMember loc Public (MethodContent d)]) })
          (do {
             l \<leftarrow> cur_loc;
             report l ''expected interface method declaration'';
             return (False, ms) }))"

definition parse_interface_type :: "parsers \<Rightarrow> ty parser" where
  "parse_interface_type R = do {
     loc \<leftarrow> cur_loc;
     _ \<leftarrow> expect KwInterface ''interface'';
     m \<leftarrow> interface_mode_active;
     only_if (m \<noteq> Corba)
       (report loc ''COM/refcounted interfaces are unsupported; use {$interfaces corba}'');
     metadata \<leftarrow> parse_interface_metadata;
     members \<leftarrow> loop (r_fuel R) (interface_step R) [];
     _ \<leftarrow> expect KwEnd ''interface'';
     return (TyInterface loc metadata members) }"

subsection \<open>Other types\<close>

definition parse_set_type :: "parsers \<Rightarrow> ty parser" where
  "parse_set_type R = do {
     loc \<leftarrow> cur_loc;
     _ \<leftarrow> expect KwSet ''set'';
     _ \<leftarrow> expect KwOf ''set'';
     t \<leftarrow> parse_simple_type R;
     return (TySet loc t) }"

definition parse_file_type :: "parsers \<Rightarrow> ty parser" where
  "parse_file_type R = do {
     loc \<leftarrow> cur_loc;
     _ \<leftarrow> expect KwFile ''file'';
     t \<leftarrow> optionally (accept KwOf) (r_type R);
     return (TyFile loc t) }"

definition parse_procedural_type :: "parsers \<Rightarrow> ty parser" where
  "parse_procedural_type R = do {
     loc \<leftarrow> cur_loc;
     is_function \<leftarrow> check KwFunction;
     advance;
     ps \<leftarrow> parse_optional_params R ''procedural type'';
     ret \<leftarrow> (if is_function then do {
         _ \<leftarrow> expect Colon ''function type''; t \<leftarrow> r_type R; return (Some t) }
       else return None);
     is_method \<leftarrow> branch (accept KwOf)
       (do { _ \<leftarrow> expect KwObject ''procedural type''; return True }) (return False);
     is_cdecl \<leftarrow> loop (r_fuel R) (\<lambda>cd.
       branch (is_any_directive [''cdecl'', ''pascal'', ''stdcall''])
         (do { c \<leftarrow> is_directive ''cdecl''; advance; return (True, cd \<or> c) })
         (return (False, cd))) False;
     return (TyProcedural loc is_function ps ret is_cdecl is_method) }"

definition parse_string_type :: "parsers \<Rightarrow> location \<Rightarrow> ty parser" where
  "parse_string_type R loc = do {
     string_keyword \<leftarrow> check KwString;
     advance;
     branch (accept LBrack)
       (do {
          e \<leftarrow> parse_expr R;
          _ \<leftarrow> expect RBrack ''string length'';
          return (TyString loc (Some e)) })
       (do {
          long \<leftarrow> long_strings_active;
          return (TyName loc
            (if string_keyword \<and> long then ''ansistring'' else ''shortstring'')) }) }"

text \<open>\<open>class of T\<close> is a metaclass, any other \<open>class\<close> starts a class type.\<close>

definition parse_class_type :: "parsers \<Rightarrow> ty parser" where
  "parse_class_type R =
     branch (peek_is [KwOf])
       (do {
          mloc \<leftarrow> cur_loc;
          advance;
          advance;
          t \<leftarrow> consume_ident ''metaclass target'';
          return (TyMetaclass mloc t) })
       (parse_object_type R)"

definition parse_type_at :: "parsers \<Rightarrow> location \<Rightarrow> bool \<Rightarrow> tok \<Rightarrow> ty parser" where
  "parse_type_at R loc packed k =
     (if k = KwArray then parse_array_type R packed
      else if k = KwRecord then parse_record_type R packed
      else if k = KwObject then parse_object_type R
      else if k = KwInterface then parse_interface_type R
      else if k = KwClass then parse_class_type R
      else if k = KwSet then parse_set_type R
      else if k = KwFile then parse_file_type R
      else if k = KwProcedure \<or> k = KwFunction then parse_procedural_type R
      else if k = KwString \<or> k = KwShortstring then parse_string_type R loc
      else parse_simple_type R)"

definition parse_type :: "parsers \<Rightarrow> ty parser" where
  "parse_type R = do {
     loc \<leftarrow> cur_loc;
     branch (accept Caret) (do { t \<leftarrow> r_type R; return (TyPointer loc t) })
       (branch (accept KwType) (do { t \<leftarrow> r_type R; return (TyDistinct loc t) })
          (do {
             packed \<leftarrow> accept KwPacked;
             k \<leftarrow> cur_kind;
             parse_type_at R loc packed k })) }"

end
