(* ===== verification/Parse_Decl.thy ===== *)
theory Parse_Decl
  imports Parse_Object
begin

text \<open>
  Declarations and compilation units (\<open>src/parser.cc\<close>, lines 310--800), and the knot that
  ties the recursion of the grammar.
\<close>

subsection \<open>Typed constants\<close>

text \<open>
  The type of the elements of an array constant: the element type, or the array without
  its first dimension. No other target type passes anything on.
\<close>

fun element_target :: "ty option \<Rightarrow> ty option" where
  "element_target (Some (TyArray loc dims e packed k)) =
     (if length dims > 1 then Some (TyArray loc (tl dims) e packed k) else Some e)"
| "element_target _ = None"

fun is_array_type :: "ty option \<Rightarrow> bool" where
  "is_array_type (Some (TyArray _ _ _ _ _)) = True"
| "is_array_type _ = False"

definition parse_record_const :: "parsers \<Rightarrow> location \<Rightarrow> expr parser" where
  "parse_record_const R loc = do {
     fields \<leftarrow> list_until (r_fuel R) [RParen] Semi (do {
       fname \<leftarrow> consume_name_or_directive ''record-constant field'';
       _ \<leftarrow> expect Colon ''record-constant field'';
       v \<leftarrow> r_const R None;
       return (fname, v) });
     _ \<leftarrow> expect RParen ''record constant'';
     return (ERecordConst loc fields) }"

definition parse_array_const :: "parsers \<Rightarrow> location \<Rightarrow> ty option \<Rightarrow> expr parser" where
  "parse_array_const R loc target = do {
     let elem = element_target target;
     first \<leftarrow> r_const R elem;
     comma \<leftarrow> accept Comma;
     if comma then do {
       second \<leftarrow> r_const R elem;
       elements \<leftarrow> while_accept (r_fuel R) Comma (r_const R elem) [first, second];
       _ \<leftarrow> expect RParen ''array constant'';
       return (EArrayConst loc elements) }
     else if is_array_type target then do {
       _ \<leftarrow> expect RParen ''array constant'';
       return (EArrayConst loc [first]) }
     else do {
       _ \<leftarrow> expect RParen ''parenthesised constant'';
       return first } }"

definition parse_const_value :: "parsers \<Rightarrow> ty option \<Rightarrow> expr parser" where
  "parse_const_value R target = do {
     p \<leftarrow> check LParen;
     if \<not> p then parse_expr R
     else do {
       loc \<leftarrow> cur_loc;
       advance;
       branch (cur_then_peek Ident [Colon]) (parse_record_const R loc)
         (branch (accept RParen) (return (EArrayConst loc []))
            (parse_array_const R loc target)) } }"

subsection \<open>Sections\<close>

definition parse_const_decl :: "parsers \<Rightarrow> decl parser" where
  "parse_const_decl R = do {
     loc \<leftarrow> cur_loc;
     name \<leftarrow> take_text;
     type \<leftarrow> optionally (accept Colon) (r_type R);
     _ \<leftarrow> expect Eq ''const decl'';
     v \<leftarrow> (if type = None then parse_expr R else parse_const_value R type);
     while_do (r_fuel R) (is_any_directive hint_directives)
       (do { advance; skip_string_literal });
     _ \<leftarrow> expect Semi ''const decl'';
     return (ConstDecl loc name type v) }"

definition parse_const_section :: "parsers \<Rightarrow> decl list parser" where
  "parse_const_section R = do {
     _ \<leftarrow> expect KwConst ''const section'';
     while_collect (r_fuel R) (check Ident) (parse_const_decl R) }"

definition parse_type_section :: "parsers \<Rightarrow> decl list parser" where
  "parse_type_section R = do {
     _ \<leftarrow> expect KwType ''type section'';
     i \<leftarrow> fresh_section_id;
     ds \<leftarrow> while_collect (r_fuel R) (check Ident)
       (parse_type_decl_from_current_ident R ''type decl'' i);
     return (map TypeDeclD ds) }"

text \<open>
  The tail of a variable: initialiser, \<open>absolute\<close> and its target, or \<open>external\<close> with
  library and name.
\<close>

record var_tail =
  vt_init :: "expr option"
  vt_absolute :: bool
  vt_external :: bool
  vt_target :: string
  vt_name :: "expr option"
  vt_lib :: string

definition no_tail :: var_tail where
  "no_tail = \<lparr>vt_init = None, vt_absolute = False, vt_external = False, vt_target = [],
     vt_name = None, vt_lib = []\<rparr>"

definition parse_absolute_tail :: "var_tail parser" where
  "parse_absolute_tail = do {
     advance;
     t \<leftarrow> branch (check Ident) take_text (do {
       l \<leftarrow> cur_loc;
       report l (''expected identifier after '' @ [quote] @ ''absolute'' @ [quote]);
       return [] });
     return (no_tail\<lparr>vt_absolute := True, vt_target := t\<rparr>) }"

definition parse_external_tail :: "var_tail parser" where
  "parse_external_tail = do {
     advance;
     lib \<leftarrow> take_string_literal;
     name \<leftarrow> branch (is_directive ''name'')
       (do {
          advance;
          optionally (check StringLit)
            (do { l \<leftarrow> cur_loc; t \<leftarrow> take_text; return (EStringLit l t) }) })
       (return None);
     return (no_tail\<lparr>vt_external := True, vt_name := name, vt_lib := lib\<rparr>) }"

definition parse_var_tail :: "parsers \<Rightarrow> ty \<Rightarrow> var_tail parser" where
  "parse_var_tail R t =
     branch (is_directive ''absolute'') parse_absolute_tail
       (branch (accept Eq)
          (do { e \<leftarrow> parse_const_value R (Some t); return (no_tail\<lparr>vt_init := Some e\<rparr>) })
          (branch (is_directive ''external'') parse_external_tail (return no_tail)))"

definition parse_var_decl :: "parsers \<Rightarrow> decl parser" where
  "parse_var_decl R = do {
     loc \<leftarrow> cur_loc;
     f \<leftarrow> parse_field R ''var decl'';
     v \<leftarrow> parse_var_tail R (snd f);
     _ \<leftarrow> expect Semi ''var decl'';
     return (VarDecl loc (fst f) (snd f) (vt_init v) (vt_absolute v) (vt_external v)
       (vt_target v) (vt_name v) (vt_lib v)) }"

definition parse_var_section :: "parsers \<Rightarrow> decl list parser" where
  "parse_var_section R = do {
     _ \<leftarrow> expect KwVar ''var section'';
     while_collect (r_fuel R) (check Ident) (parse_var_decl R) }"

definition parse_label_section :: "parsers \<Rightarrow> decl list parser" where
  "parse_label_section R = do {
     _ \<leftarrow> expect KwLabel ''label section'';
     loc \<leftarrow> cur_loc;
     labels \<leftarrow> loop (r_fuel R) (\<lambda>ls.
       branch (check_any [Ident, IntLit])
         (do { t \<leftarrow> take_text; c \<leftarrow> accept Comma; return (c, ls @ [t]) })
         (return (False, ls))) [];
     _ \<leftarrow> expect Semi ''label section'';
     return [LabelDecl loc labels] }"

subsection \<open>Declaration blocks\<close>

definition note_parsed_declaration :: "bool \<Rightarrow> decl \<Rightarrow> unit parser" where
  "note_parsed_declaration in_interface d = do {
     depth \<leftarrow> field decl_block_depth;
     only_if (depth = 1) (act (Declaration d in_interface)) }"

primrec note_all :: "bool \<Rightarrow> decl list \<Rightarrow> unit parser" where
  "note_all in_interface [] = return ()"
| "note_all in_interface (d # ds) = do {
     note_parsed_declaration in_interface d; note_all in_interface ds }"

text \<open>A section whose declarations are announced one by one.\<close>

definition section_step :: "bool \<Rightarrow> decl list parser \<Rightarrow> decl list \<Rightarrow> (bool \<times> decl list) parser" where
  "section_step in_interface p out = do {
     ds \<leftarrow> p;
     note_all in_interface ds;
     return (True, out @ ds) }"

definition type_section_step :: "parsers \<Rightarrow> bool \<Rightarrow> decl list \<Rightarrow> (bool \<times> decl list) parser" where
  "type_section_step R in_interface out = do {
     ds \<leftarrow> parse_type_section R;
     depth \<leftarrow> field decl_block_depth;
     only_if (depth = 1) (act (TypeSection ds in_interface));
     return (True, out @ ds) }"

definition routine_step ::
    "bool \<Rightarrow> (ty, decl) proc_decl parser \<Rightarrow> decl list \<Rightarrow> (bool \<times> decl list) parser" where
  "routine_step in_interface p out = do {
     d \<leftarrow> p;
     note_parsed_declaration in_interface (ProcDeclD d);
     return (True, out @ [ProcDeclD d]) }"

definition class_routine_step :: "parsers \<Rightarrow> bool \<Rightarrow> decl list \<Rightarrow> (bool \<times> decl list) parser" where
  "class_routine_step R in_interface out =
     branch (peek_is routine_keywords)
       (routine_step in_interface (do {
          advance;
          k \<leftarrow> cur_kind;
          parse_proc_decl R (proc_kind_of k) in_interface True False }) out)
       (return (False, out))"

definition decl_block_step :: "parsers \<Rightarrow> bool \<Rightarrow> decl list \<Rightarrow> (bool \<times> decl list) parser" where
  "decl_block_step R in_interface out = do {
     k \<leftarrow> cur_kind;
     if k = KwConst then section_step in_interface (parse_const_section R) out
     else if k = KwType then type_section_step R in_interface out
     else if k = KwVar then section_step in_interface (parse_var_section R) out
     else if k = KwLabel then section_step in_interface (parse_label_section R) out
     else if k = KwOperator then routine_step in_interface (parse_operator_decl R in_interface) out
     else if k = KwClass then class_routine_step R in_interface out
     else if k \<in> set routine_keywords then
       routine_step in_interface (parse_proc_decl R (proc_kind_of k) in_interface False False) out
     else return (False, out) }"

definition change_depth :: "(nat \<Rightarrow> nat) \<Rightarrow> unit parser" where
  "change_depth f = modify (\<lambda>s. s\<lparr>decl_block_depth := f (decl_block_depth s)\<rparr>)"

text \<open>\<open>DepthGuard\<close> counts the block in on entry and out on exit.\<close>

definition parse_decl_block :: "parsers \<Rightarrow> bool \<Rightarrow> decl list parser" where
  "parse_decl_block R in_interface = do {
     change_depth Suc;
     out \<leftarrow> loop (r_fuel R) (decl_block_step R in_interface) [];
     change_depth (\<lambda>d. d - 1);
     return out }"

subsection \<open>The knot\<close>

primrec knot :: "nat \<Rightarrow> parsers" where
  "knot 0 =
     \<lparr>r_fuel = 1,
      r_expr = do { run_out; return (EIntLit no_location 0) },
      r_factor = do { run_out; return (EIntLit no_location 0) },
      r_type = do { run_out; return (TyName no_location []) },
      r_stmt = do { run_out; return (SEmpty no_location) },
      r_const = (\<lambda>_. do { run_out; return (EIntLit no_location 0) }),
      r_variant = do { run_out; return None },
      r_decl_block = (\<lambda>_. do { run_out; return [] })\<rparr>"
| "knot (Suc n) =
     (let R = knot n in
      \<lparr>r_fuel = Suc (Suc n),
       r_expr = parse_expr R,
       r_factor = parse_factor R,
       r_type = parse_type R,
       r_stmt = parse_statement R,
       r_const = parse_const_value R,
       r_variant = parse_variant_part R,
       r_decl_block = parse_decl_block R\<rparr>)"

subsection \<open>Compilation units\<close>

definition parse_uses_clause :: "parsers \<Rightarrow> string list parser" where
  "parse_uses_clause R = loop (r_fuel R) (\<lambda>out. do {
     e \<leftarrow> at_end;
     i \<leftarrow> check Ident;
     if e then return (False, out)
     else if \<not> i then do { _ \<leftarrow> expect Ident ''uses clause''; return (False, out) }
     else do {
       t \<leftarrow> take_text;
       b \<leftarrow> accept KwIn;
       only_if b skip_string_literal;
       c \<leftarrow> accept Comma;
       return (c, out @ [t]) } }) []"

definition parse_optional_uses :: "parsers \<Rightarrow> string \<Rightarrow> string list parser" where
  "parse_optional_uses R ctx =
     branch (check KwUses)
       (do { advance; us \<leftarrow> parse_uses_clause R; _ \<leftarrow> expect Semi ctx; return us })
       (return [])"

definition parse_program_params :: "parsers \<Rightarrow> unit parser" where
  "parse_program_params R = branch (accept LParen)
     (do {
        _ \<leftarrow> list_until (r_fuel R) [RParen] Comma (consume_ident ''program parameter'');
        _ \<leftarrow> expect RParen ''program parameters'';
        return () })
     (return ())"

definition parse_program :: "parsers \<Rightarrow> unit_node parser" where
  "parse_program R = do {
     loc \<leftarrow> cur_loc;
     _ \<leftarrow> expect KwProgram ''program header'';
     name \<leftarrow> consume_name_or_directive ''program name'';
     act (BeginUnit name True);
     parse_program_params R;
     _ \<leftarrow> expect Semi ''program header'';
     impl_uses \<leftarrow> parse_optional_uses R ''uses clause'';
     act (ImportUnits impl_uses False);
     impl_decls \<leftarrow> parse_decl_block R False;
     init_body \<leftarrow> optionally (check KwBegin) (parse_compound_statement R);
     _ \<leftarrow> expect Dot ''program tail'';
     let program = UnitNode loc name [] [] impl_uses impl_decls init_body None True;
     act (FinishUnit program);
     return program }"

definition parse_unit_interface :: "parsers \<Rightarrow> unit_node option parser" where
  "parse_unit_interface R = do {
     p \<leftarrow> field partial_unit;
     if p \<noteq> None then return p
     else do {
       loc \<leftarrow> cur_loc;
       _ \<leftarrow> expect KwUnit ''unit header'';
       name \<leftarrow> consume_name_or_directive ''unit name'';
       _ \<leftarrow> expect Semi ''unit header'';
       act (BeginUnit name False);
       _ \<leftarrow> expect KwInterface ''unit interface'';
       interface_uses \<leftarrow> parse_optional_uses R ''interface uses'';
       act (ImportUnits interface_uses True);
       interface_decls \<leftarrow> parse_decl_block R True;
       _ \<leftarrow> expect KwImplementation ''unit implementation'';
       let u = UnitNode loc name interface_uses interface_decls [] [] None None False;
       modify (\<lambda>s. s\<lparr>partial_unit := Some u\<rparr>);
       return (Some u) } }"

text \<open>The tail of a unit: initialisation and finalisation bodies.\<close>

definition parse_unit_tail :: "parsers \<Rightarrow> (stmt option \<times> stmt option) parser" where
  "parse_unit_tail R = do {
     k \<leftarrow> cur_kind;
     if k = KwBegin then do {
       b \<leftarrow> parse_compound_statement R;
       _ \<leftarrow> expect Dot ''unit tail'';
       return (Some b, None) }
     else if k = KwEnd then do {
       advance;
       _ \<leftarrow> expect Dot ''unit tail'';
       return (None, None) }
     else if k = KwInitialization \<or> k = KwFinalization then do {
       i \<leftarrow> optionally (accept KwInitialization)
         (parse_statement_block_until R [KwFinalization, KwEnd]);
       f \<leftarrow> optionally (accept KwFinalization) (parse_statement_block_until R [KwEnd]);
       _ \<leftarrow> expect KwEnd ''unit tail'';
       _ \<leftarrow> expect Dot ''unit tail'';
       return (i, f) }
     else do { _ \<leftarrow> expect KwEnd ''unit tail''; return (None, None) } }"

definition parse_unit_implementation :: "parsers \<Rightarrow> unit_node option parser" where
  "parse_unit_implementation R = do {
     p \<leftarrow> field partial_unit;
     case p of
       None \<Rightarrow> return None
     | Some u \<Rightarrow> do {
         impl_uses \<leftarrow> parse_optional_uses R ''implementation uses'';
         act (ImportUnits impl_uses False);
         impl_decls \<leftarrow> parse_decl_block R False;
         bodies \<leftarrow> parse_unit_tail R;
         let v = UnitNode (un_loc u) (un_name u) (un_interface_uses u) (un_interface_decls u)
           impl_uses impl_decls (fst bodies) (snd bodies) (un_is_program u);
         modify (\<lambda>s. s\<lparr>partial_unit := Some v\<rparr>);
         act (FinishUnit v);
         return (Some v) } }"

definition parse_unit :: "parsers \<Rightarrow> unit_node option parser" where
  "parse_unit R = do {
     i \<leftarrow> parse_unit_interface R;
     if i = None then return None else parse_unit_implementation R }"

text \<open>Sources that start with \<open>begin\<close> are programs without a header.\<close>

definition parse_body_only :: "parsers \<Rightarrow> unit_node parser" where
  "parse_body_only R = do {
     loc \<leftarrow> cur_loc;
     b \<leftarrow> parse_compound_statement R;
     d \<leftarrow> check Dot;
     only_if d advance;
     return (UnitNode loc [] [] [] [] [] (Some b) None True) }"

definition parse_source :: "parsers \<Rightarrow> unit_node option parser" where
  "parse_source R = do {
     k \<leftarrow> cur_kind;
     if k = KwUnit then parse_unit R
     else if k = KwProgram then do { p \<leftarrow> parse_program R; return (Some p) }
     else if k = KwBegin then do { p \<leftarrow> parse_body_only R; return (Some p) }
     else do {
       l \<leftarrow> cur_loc;
       report l (''expected '' @ [quote] @ ''program'' @ [quote] @ '' or '' @
                 [quote] @ ''unit'' @ [quote] @ '' at top of compilation unit'');
       return None } }"

text \<open>\<open>Parser(lex, actions).parse()\<close> with enough fuel for the stream.\<close>

definition parse :: "lexed list \<Rightarrow> modes \<Rightarrow> bool \<Rightarrow> unit_node option \<times> pstate" where
  "parse toks m0 actions =
     run_state (parse_source (knot (length toks))) (new_parser toks m0 actions)"

end
