(* ===== verification/Lexer_Stream.thy ===== *)
theory Lexer_Stream
  imports Lexer Parse_Decl
begin

text \<open>
  The bridge from the lexer to the parser: the tokens that repeated calls of \<open>Lexer::next\<close>
  yield, each with the modes the lexer has behind it and the reports made on the way, and
  the whole front end \<open>Lexer lex(file); Parser parser(lex); parser.parse()\<close>.
\<close>

definition lexed_entry :: "lexer \<Rightarrow> token \<Rightarrow> lexer \<Rightarrow> lexed" where
  "lexed_entry lx0 t lx1 =
     (t, modes_of lx1, drop (length (diags lx0)) (diags lx1))"

text \<open>\<open>n\<close> bounds the number of tokens, \<open>m\<close> the rounds of one call of \<open>next\<close>.\<close>

primrec lexer_stream :: "nat \<Rightarrow> nat \<Rightarrow> file_system \<Rightarrow> lexer \<Rightarrow> lexed list option" where
  "lexer_stream m 0 fs lx = None"
| "lexer_stream m (Suc n) fs lx =
     (case lex_next m fs lx of
        None \<Rightarrow> None
      | Some (t, lx') \<Rightarrow>
          if tok_kind t = Eof then Some [lexed_entry lx t lx']
          else map_option (Cons (lexed_entry lx t lx')) (lexer_stream m n fs lx'))"

definition front_end ::
    "nat \<Rightarrow> file_system \<Rightarrow> lexer \<Rightarrow> bool \<Rightarrow> (unit_node option \<times> pstate) option" where
  "front_end n fs lx actions =
     (case lexer_stream n n fs lx of
        None \<Rightarrow> None
      | Some toks \<Rightarrow> Some (parse toks (modes_of lx) actions))"

end
