(* ===== verification/Parse_Frame.thy ===== *)
theory Parse_Frame
  imports Parse_Decl
begin

text \<open>
  Relations between the states before and after a parser run. The parser touches its state
  through a few operations only; a reflexive and transitive relation that they respect is
  respected by every parser function. Three locales lift such a relation through the
  grammar: \<open>parser_frame\<close> through expressions, statements, types and sections,
  \<open>block_frame\<close> through declaration blocks, which announce what they parsed, and
  \<open>unit_frame\<close> through compilation units. \<open>Parse_Facts\<close> interprets them on what the parser
  never undoes: reports, actions, section numbers, tokens read, the nesting depth.
\<close>

subsection \<open>The contract\<close>

locale parser_frame =
  fixes rel :: "pstate \<Rightarrow> pstate \<Rightarrow> bool"
  assumes rel_refl: "rel s s"
    and rel_trans: "rel s t \<Longrightarrow> rel t v \<Longrightarrow> rel s v"
    and rel_advance: "rel s (snd (run_state advance s))"
    and rel_peek: "rel s (snd (run_state peek_token s))"
    and rel_report: "rel s (s\<lparr>ps_diags := ps_diags s @ [Err l m]\<rparr>)"
    and rel_fresh: "rel s (s\<lparr>next_type_section_id := Suc (next_type_section_id s)\<rparr>)"
    and rel_run_out: "rel s (s\<lparr>out_of_fuel := True\<rparr>)"
begin

text \<open>
  \<open>keeps m m'\<close>: \<open>m\<close> respects the relation, never clears the fuel mark, and \<open>m'\<close> (the same parser
  with more fuel) does the same as \<open>m\<close> from every state where \<open>m\<close> does not run out.
\<close>

definition keeps :: "'a parser \<Rightarrow> 'a parser \<Rightarrow> bool" where
  "keeps m m' \<longleftrightarrow> (\<forall>s. rel s (snd (run_state m s)) \<and>
     (out_of_fuel s \<longrightarrow> out_of_fuel (snd (run_state m s))) \<and>
     (out_of_fuel (snd (run_state m s)) \<or> run_state m' s = run_state m s))"

lemma keepsI:
  "(\<And>s. rel s (snd (run_state m s)) \<and>
     (out_of_fuel s \<longrightarrow> out_of_fuel (snd (run_state m s))) \<and>
     (out_of_fuel (snd (run_state m s)) \<or> run_state m' s = run_state m s)) \<Longrightarrow> keeps m m'"
  by (simp add: keeps_def)

lemma keepsD:
  "keeps m m' \<Longrightarrow> rel s (snd (run_state m s)) \<and>
     (out_of_fuel s \<longrightarrow> out_of_fuel (snd (run_state m s))) \<and>
     (out_of_fuel (snd (run_state m s)) \<or> run_state m' s = run_state m s)"
  by (simp add: keeps_def)

lemma keeps_bind [resp]:
  assumes "keeps m m'" "\<And>a. keeps (f a) (f' a)"
  shows "keeps (m \<bind> f) (m' \<bind> f')"
proof (rule keepsI)
  fix s
  obtain a t where r: "run_state m s = (a, t)" by (cases "run_state m s")
  from keepsD [OF assms(1), of s] keepsD [OF assms(2), of t a] r
  show "rel s (snd (run_state (m \<bind> f) s)) \<and>
     (out_of_fuel s \<longrightarrow> out_of_fuel (snd (run_state (m \<bind> f) s))) \<and>
     (out_of_fuel (snd (run_state (m \<bind> f) s)) \<or>
      run_state (m' \<bind> f') s = run_state (m \<bind> f) s)"
    by (auto intro: rel_trans)
qed

lemma fuel_mark [simp]:
  "out_of_fuel (snd (run_state advance s)) = out_of_fuel s"
  "out_of_fuel (snd (run_state peek_token s)) = out_of_fuel s"
  by (auto simp: advance_def peek_token_def field_def lex_pull_def
      split: option.splits list.splits)

lemma keeps_simple [resp]:
  "keeps (return x) (return x)"
  "keeps (field g) (field g)"
  "keeps advance advance"
  "keeps peek_token peek_token"
  "keeps (report l m) (report l m)"
  "keeps fresh_section_id fresh_section_id"
  by (auto simp: keeps_def field_def report_def fresh_section_id_def rel_refl rel_advance rel_peek
      rel_report rel_fresh)

lemma keeps_run_out: "keeps (do { run_out; return x }) m"
  by (auto simp: keeps_def run_out_def rel_run_out)

lemma keeps_split [resp]:
  "(b \<Longrightarrow> keeps m m') \<Longrightarrow> (\<not> b \<Longrightarrow> keeps q q') \<Longrightarrow>
    keeps (if b then m else q) (if b then m' else q')"
  "(x = None \<Longrightarrow> keeps m m') \<Longrightarrow> (\<And>a. keeps (g a) (g' a)) \<Longrightarrow>
    keeps (case x of None \<Rightarrow> m | Some a \<Rightarrow> g a) (case x of None \<Rightarrow> m' | Some a \<Rightarrow> g' a)"
  "(\<And>a b. keeps (h a b) (h' a b)) \<Longrightarrow>
    keeps (case p of (a, b) \<Rightarrow> h a b) (case p of (a, b) \<Rightarrow> h' a b)"
  "keeps (k z) (k' z) \<Longrightarrow> keeps (Let z k) (Let z k')"
  by (auto split: option.splits prod.splits)

lemma keeps_loop [resp]:
  assumes body: "\<And>a. keeps (body a) (body' a)"
  shows "n \<le> n' \<Longrightarrow> keeps (loop n body a) (loop n' body' a)"
proof (induction n arbitrary: n' a)
  case 0
  then show ?case by (simp add: keeps_run_out)
next
  case (Suc n)
  then obtain k where "n' = Suc k" "n \<le> k" by (cases n') auto
  with Suc.IH body show ?case by (auto intro!: resp)
qed

lemma keeps_reads [resp]:
  "keeps (cur) (cur)"
  "keeps (cur_kind) (cur_kind)"
  "keeps (cur_text) (cur_text)"
  "keeps (cur_loc) (cur_loc)"
  "keeps (check t) (check t)"
  "keeps (check_any ts) (check_any ts)"
  "keeps (at_end) (at_end)"
  "keeps (is_directive w) (is_directive w)"
  "keeps (is_any_directive ws) (is_any_directive ws)"
  "keeps (identifier_ends_nested_type_block) (identifier_ends_nested_type_block)"
  "keeps (overflow_check_active) (overflow_check_active)"
  "keeps (range_check_active) (range_check_active)"
  "keeps (packenum_active) (packenum_active)"
  "keeps (interface_mode_active) (interface_mode_active)"
  "keeps (long_strings_active) (long_strings_active)"
  "keeps (peek_kind) (peek_kind)"
  "keeps (peek_is ts) (peek_is ts)"
  by (auto intro!: resp simp:
    cur_def cur_kind_def cur_text_def cur_loc_def check_def check_any_def
    at_end_def is_directive_def is_any_directive_def
    identifier_ends_nested_type_block_def overflow_check_active_def
    range_check_active_def packenum_active_def interface_mode_active_def
    long_strings_active_def peek_kind_def peek_is_def)

lemma keeps_steps [resp]:
  "keeps (accept t) (accept t)"
  "keeps (expect t ctx) (expect t ctx)"
  "keeps (take_text) (take_text)"
  by (auto intro!: resp simp:
    accept_def expect_def take_text_def)

lemma keeps_names [resp]:
  "keeps (consume_ident ctx) (consume_ident ctx)"
  "keeps (consume_name_or_directive ctx) (consume_name_or_directive ctx)"
  by (auto intro!: resp simp:
    consume_ident_def consume_name_or_directive_def)

lemma keeps_combinators [resp]:
  "keeps m m' \<Longrightarrow> keeps (only_if b m) (only_if b m')"
  "keeps c c' \<Longrightarrow> keeps p p' \<Longrightarrow> keeps q q' \<Longrightarrow> keeps (branch c p q) (branch c' p' q')"
  "keeps c c' \<Longrightarrow> keeps d d' \<Longrightarrow> keeps (either c d) (either c' d')"
  "keeps c c' \<Longrightarrow> keeps d d' \<Longrightarrow> keeps (both c d) (both c' d')"
  "keeps c c' \<Longrightarrow> keeps p p' \<Longrightarrow> keeps (optionally c p) (optionally c' p')"
  "n \<le> n' \<Longrightarrow> keeps c c' \<Longrightarrow> keeps m m' \<Longrightarrow> keeps (while_do n c m) (while_do n' c' m')"
  "n \<le> n' \<Longrightarrow> keeps c c' \<Longrightarrow> keeps p p' \<Longrightarrow>
    keeps (while_collect n c p) (while_collect n' c' p')"
  "n \<le> n' \<Longrightarrow> keeps p p' \<Longrightarrow> keeps (while_accept n t p xs) (while_accept n' t p' xs)"
  "n \<le> n' \<Longrightarrow> keeps p p' \<Longrightarrow> keeps (list_until n ts t p) (list_until n' ts t p')"
  by (auto intro!: resp simp: only_if_def branch_def either_def both_def optionally_def
      while_do_def while_collect_def while_accept_def list_until_def)

lemma keeps_name_lists [resp]:
  "keeps (cur_then_peek t ts) (cur_then_peek t ts)"
  "keeps (skip_string_literal) (skip_string_literal)"
  "n \<le> n' \<Longrightarrow> keeps (name_list n) (name_list n')"
  "n \<le> n' \<Longrightarrow> keeps (sync_to n ts) (sync_to n' ts)"
  by (auto intro!: resp simp:
    cur_then_peek_def skip_string_literal_def name_list_def sync_to_def)

lemma keeps_path [resp]:
  "n \<le> n' \<Longrightarrow>
    keeps (parse_property_accessor_path n ctx) (parse_property_accessor_path n' ctx)"
  by (auto intro!: resp simp:
    parse_property_accessor_path_def)

text \<open>The parsers one level of recursion below.\<close>

definition stmts_keep :: "parsers \<Rightarrow> parsers \<Rightarrow> bool" where
  "stmts_keep R S \<longleftrightarrow> r_fuel R \<le> r_fuel S \<and> keeps (r_expr R) (r_expr S) \<and>
     keeps (r_factor R) (r_factor S) \<and> keeps (r_stmt R) (r_stmt S)"

definition parsers_keep :: "parsers \<Rightarrow> parsers \<Rightarrow> bool" where
  "parsers_keep R S \<longleftrightarrow> stmts_keep R S \<and> keeps (r_type R) (r_type S) \<and>
     (\<forall>t. keeps (r_const R t) (r_const S t)) \<and> keeps (r_variant R) (r_variant S) \<and>
     (\<forall>b. keeps (r_decl_block R b) (r_decl_block S b))"

lemma keeps_stmts_R [resp]:
  "stmts_keep R S \<Longrightarrow> r_fuel R \<le> r_fuel S"
  "stmts_keep R S \<Longrightarrow> keeps (r_expr R) (r_expr S)"
  "stmts_keep R S \<Longrightarrow> keeps (r_factor R) (r_factor S)"
  "stmts_keep R S \<Longrightarrow> keeps (r_stmt R) (r_stmt S)"
  by (auto simp: stmts_keep_def)

lemma keeps_R [resp]:
  "parsers_keep R S \<Longrightarrow> stmts_keep R S"
  "parsers_keep R S \<Longrightarrow> keeps (r_type R) (r_type S)"
  "parsers_keep R S \<Longrightarrow> keeps (r_const R t) (r_const S t)"
  "parsers_keep R S \<Longrightarrow> keeps (r_variant R) (r_variant S)"
  "parsers_keep R S \<Longrightarrow> keeps (r_decl_block R b) (r_decl_block S b)"
  by (auto simp: parsers_keep_def)

subsection \<open>Expressions\<close>

lemma keeps_range_rest [resp]: "keeps e e' \<Longrightarrow> keeps (range_rest e lo) (range_rest e' lo)"
  by (auto intro!: resp simp: range_rest_def)

lemma keeps_binary_step [resp]: "keeps p p' \<Longrightarrow> keeps (binary_step ops p e) (binary_step ops p' e)"
  by (auto intro!: resp simp: binary_step_def)

lemma keeps_arguments [resp]:
  "stmts_keep R S \<Longrightarrow> keeps (parse_set_literal R) (parse_set_literal S)"
  "stmts_keep R S \<Longrightarrow> keeps (parse_call_arg R) (parse_call_arg S)"
  "stmts_keep R S \<Longrightarrow> keeps (parse_index_suffix R l e) (parse_index_suffix S l e)"
  by (auto intro!: resp simp:
    parse_set_literal_def parse_call_arg_def parse_index_suffix_def)

lemma keeps_call_suffix [resp]:
  "stmts_keep R S \<Longrightarrow> keeps (parse_call_suffix R l e) (parse_call_suffix S l e)"
  by (auto intro!: resp simp:
    parse_call_suffix_def)

lemma keeps_postfix_step [resp]:
  "stmts_keep R S \<Longrightarrow> keeps (postfix_step R e) (postfix_step S e)"
  by (auto intro!: resp simp:
    postfix_step_def)

lemma keeps_postfix [resp]:
  "stmts_keep R S \<Longrightarrow> keeps (parse_postfix R e) (parse_postfix S e)"
  by (auto intro!: resp simp:
    parse_postfix_def)

lemma keeps_inherited [resp]:
  "stmts_keep R S \<Longrightarrow> keeps (parse_inherited R l) (parse_inherited S l)"
  by (auto intro!: resp simp:
    parse_inherited_def)

lemma keeps_primary [resp]:
  "stmts_keep R S \<Longrightarrow> keeps (parse_primary R) (parse_primary S)"
  by (auto intro!: resp simp:
    parse_primary_def)

lemma keeps_factor [resp]:
  "stmts_keep R S \<Longrightarrow> keeps (parse_factor R) (parse_factor S)"
  by (auto intro!: resp simp:
    parse_factor_def)

lemma keeps_term [resp]:
  "stmts_keep R S \<Longrightarrow> keeps (parse_term R) (parse_term S)"
  by (auto intro!: resp simp:
    parse_term_def)

lemma keeps_simple_expr [resp]:
  "stmts_keep R S \<Longrightarrow> keeps (parse_simple_expr R) (parse_simple_expr S)"
  by (auto intro!: resp simp:
    parse_simple_expr_def)

lemma keeps_expr [resp]:
  "stmts_keep R S \<Longrightarrow> keeps (parse_expr R) (parse_expr S)"
  "stmts_keep R S \<Longrightarrow> keeps (parse_subrange_bound R) (parse_subrange_bound S)"
  by (auto intro!: resp simp:
    parse_expr_def parse_subrange_bound_def)

subsection \<open>Statements\<close>

lemma keeps_stmt_list [resp]:
  "stmts_keep R S \<Longrightarrow> keeps (parse_stmt_list R ts) (parse_stmt_list S ts)"
  by (auto intro!: resp simp:
    parse_stmt_list_def)

lemma keeps_stmt_block [resp]:
  "stmts_keep R S \<Longrightarrow> keeps (parse_statement_block_until R ts) (parse_statement_block_until S ts)"
  "stmts_keep R S \<Longrightarrow> keeps (parse_compound_statement R) (parse_compound_statement S)"
  by (auto intro!: resp simp:
    parse_statement_block_until_def parse_compound_statement_def)

lemma keeps_stmt_parts [resp]:
  "stmts_keep R S \<Longrightarrow> keeps (parse_case_label R) (parse_case_label S)"
  "stmts_keep R S \<Longrightarrow> keeps (parse_for_in R l v) (parse_for_in S l v)"
  "stmts_keep R S \<Longrightarrow> keeps (parse_for_range R l v) (parse_for_range S l v)"
  "stmts_keep R S \<Longrightarrow> keeps (parse_handler R) (parse_handler S)"
  by (auto intro!: resp simp:
    parse_case_label_def parse_for_in_def parse_for_range_def parse_handler_def)

lemma keeps_stmt_arms [resp]:
  "stmts_keep R S \<Longrightarrow> keeps (parse_case_arm R) (parse_case_arm S)"
  "stmts_keep R S \<Longrightarrow> keeps (parse_except_part R) (parse_except_part S)"
  by (auto intro!: resp simp:
    parse_case_arm_def parse_except_part_def)

lemma keeps_goto [resp]:
  "keeps (parse_goto) (parse_goto)"
  by (auto intro!: resp simp:
    parse_goto_def)

lemma keeps_stmt_forms [resp]:
  "stmts_keep R S \<Longrightarrow> keeps (parse_labeled_or_simple R) (parse_labeled_or_simple S)"
  "stmts_keep R S \<Longrightarrow> keeps (parse_labeled R) (parse_labeled S)"
  "stmts_keep R S \<Longrightarrow> keeps (parse_raise R) (parse_raise S)"
  "stmts_keep R S \<Longrightarrow> keeps (parse_asm R) (parse_asm S)"
  "stmts_keep R S \<Longrightarrow> keeps (parse_if R) (parse_if S)"
  "stmts_keep R S \<Longrightarrow> keeps (parse_while R) (parse_while S)"
  "stmts_keep R S \<Longrightarrow> keeps (parse_repeat R) (parse_repeat S)"
  "stmts_keep R S \<Longrightarrow> keeps (parse_for R) (parse_for S)"
  "stmts_keep R S \<Longrightarrow> keeps (parse_case R) (parse_case S)"
  "stmts_keep R S \<Longrightarrow> keeps (parse_with R) (parse_with S)"
  "stmts_keep R S \<Longrightarrow> keeps (parse_try R) (parse_try S)"
  by (auto intro!: resp simp:
    parse_labeled_or_simple_def parse_labeled_def parse_raise_def parse_asm_def
    parse_if_def parse_while_def parse_repeat_def parse_for_def parse_case_def
    parse_with_def parse_try_def)

lemma keeps_statement_at [resp]:
  "stmts_keep R S \<Longrightarrow> keeps (parse_statement_at R k) (parse_statement_at S k)"
  by (auto intro!: resp simp:
    parse_statement_at_def)

lemma keeps_statement [resp]:
  "stmts_keep R S \<Longrightarrow> keeps (parse_statement R) (parse_statement S)"
  by (auto intro!: resp simp:
    parse_statement_def)

text \<open>The parts of a unit around its declarations.\<close>

lemma keeps_uses [resp]:
  "stmts_keep R S \<Longrightarrow> keeps (parse_uses_clause R) (parse_uses_clause S)"
  by (auto intro!: resp simp:
    parse_uses_clause_def)

lemma keeps_optional_uses [resp]:
  "stmts_keep R S \<Longrightarrow> keeps (parse_optional_uses R ctx) (parse_optional_uses S ctx)"
  "stmts_keep R S \<Longrightarrow> keeps (parse_program_params R) (parse_program_params S)"
  "stmts_keep R S \<Longrightarrow> keeps (parse_unit_tail R) (parse_unit_tail S)"
  "stmts_keep R S \<Longrightarrow> keeps (parse_body_only R) (parse_body_only S)"
  by (auto intro!: resp simp:
    parse_optional_uses_def parse_program_params_def parse_unit_tail_def
    parse_body_only_def)

lemma stmts_keep_knot: "n \<le> m \<Longrightarrow> stmts_keep (knot n) (knot m)"
proof (induction n arbitrary: m)
  case 0
  then show ?case by (cases m) (auto simp: stmts_keep_def Let_def intro!: keeps_run_out)
next
  case (Suc n)
  then obtain m' where m: "m = Suc m'" "n \<le> m'" by (cases m) auto
  from Suc.IH [OF m(2)] have "stmts_keep (knot n) (knot m')" .
  with m show ?case by (subst stmts_keep_def) (auto simp: Let_def intro!: resp)
qed

subsection \<open>Routines\<close>

lemma keeps_string_literal [resp]:
  "keeps (take_string_literal) (take_string_literal)"
  "keeps (starts_next_member) (starts_next_member)"
  "keeps (soft_mode w) (soft_mode w)"
  by (auto intro!: resp simp:
    take_string_literal_def starts_next_member_def soft_mode_def)

lemma keeps_modifier_parts [resp]:
  "keeps (parse_external_modifier) (parse_external_modifier)"
  "keeps (parse_param_mode) (parse_param_mode)"
  by (auto intro!: resp simp:
    parse_external_modifier_def parse_param_mode_def)

lemma keeps_directive [resp]:
  "keeps (parse_directive_modifier w) (parse_directive_modifier w)"
  by (auto intro!: resp simp:
    parse_directive_modifier_def)

lemma keeps_modifier [resp]:
  "keeps (parse_proc_modifier b) (parse_proc_modifier b)"
  by (auto intro!: resp simp:
    parse_proc_modifier_def)

lemma keeps_modifiers [resp]:
  "parsers_keep R S \<Longrightarrow> keeps (parse_proc_modifiers R ms b) (parse_proc_modifiers S ms b)"
  by (auto intro!: resp simp:
    parse_proc_modifiers_def)

lemma keeps_header_tail [resp]:
  "parsers_keep R S \<Longrightarrow> keeps (parse_proc_header_tail R ctx b) (parse_proc_header_tail S ctx b)"
  by (auto intro!: resp simp:
    parse_proc_header_tail_def)

lemma keeps_param_type [resp]:
  "parsers_keep R S \<Longrightarrow> keeps (parse_param_type R) (parse_param_type S)"
  "parsers_keep R S \<Longrightarrow> keeps (parse_return_type R pk) (parse_return_type S pk)"
  "parsers_keep R S \<Longrightarrow> keeps (parse_routine_body R b ms ctx) (parse_routine_body S b ms ctx)"
  by (auto intro!: resp simp:
    parse_param_type_def parse_return_type_def parse_routine_body_def)

lemma keeps_param [resp]:
  "parsers_keep R S \<Longrightarrow> keeps (parse_param R) (parse_param S)"
  by (auto intro!: resp simp:
    parse_param_def)

lemma keeps_params [resp]:
  "parsers_keep R S \<Longrightarrow> keeps (parse_param_list R t) (parse_param_list S t)"
  by (auto intro!: resp simp:
    parse_param_list_def)

lemma keeps_optional_params [resp]:
  "parsers_keep R S \<Longrightarrow> keeps (parse_optional_params R ctx) (parse_optional_params S ctx)"
  by (auto intro!: resp simp:
    parse_optional_params_def)

lemma keeps_lifecycle [resp]:
  "keeps (check_class_lifecycle l pk b ps t) (check_class_lifecycle l pk b ps t)"
  by (auto intro!: resp simp:
    check_class_lifecycle_def)

lemma keeps_proc_decl [resp]:
  "parsers_keep R S \<Longrightarrow> keeps (parse_proc_decl R pk a b c) (parse_proc_decl S pk a b c)"
  "parsers_keep R S \<Longrightarrow> keeps (parse_operator_decl R b) (parse_operator_decl S b)"
  by (auto intro!: resp simp:
    parse_proc_decl_def parse_operator_decl_def)

subsection \<open>Types\<close>

lemma keeps_bound [resp]:
  "keeps (check_bound e) (check_bound e)"
  "keeps (starts_bound) (starts_bound)"
  "keeps (skip_record_visibility) (skip_record_visibility)"
  by (auto intro!: resp simp:
    check_bound_def starts_bound_def skip_record_visibility_def)

lemma keeps_subrange [resp]:
  "parsers_keep R S \<Longrightarrow> keeps (parse_subrange_type R l e) (parse_subrange_type S l e)"
  "parsers_keep R S \<Longrightarrow> keeps (parse_enum_member R) (parse_enum_member S)"
  "parsers_keep R S \<Longrightarrow> keeps (parse_type_name R l) (parse_type_name S l)"
  by (auto intro!: resp simp:
    parse_subrange_type_def parse_enum_member_def parse_type_name_def)

lemma keeps_enum [resp]:
  "parsers_keep R S \<Longrightarrow> keeps (parse_enum_type R l) (parse_enum_type S l)"
  by (auto intro!: resp simp:
    parse_enum_type_def)

lemma keeps_simple_type [resp]:
  "parsers_keep R S \<Longrightarrow> keeps (parse_simple_type R) (parse_simple_type S)"
  by (auto intro!: resp simp:
    parse_simple_type_def)

lemma keeps_array [resp]:
  "parsers_keep R S \<Longrightarrow> keeps (parse_array_type R b) (parse_array_type S b)"
  by (auto intro!: resp simp:
    parse_array_type_def)

lemma keeps_fields [resp]:
  "parsers_keep R S \<Longrightarrow> keeps (parse_type_decl_from_current_ident R ctx i) (parse_type_decl_from_current_ident S ctx i)"
  "parsers_keep R S \<Longrightarrow> keeps (parse_field R ctx) (parse_field S ctx)"
  by (auto intro!: resp simp:
    parse_type_decl_from_current_ident_def parse_field_def)

lemma keeps_case_fields [resp]:
  "parsers_keep R S \<Longrightarrow> keeps (parse_case_fields R) (parse_case_fields S)"
  by (auto intro!: resp simp:
    parse_case_fields_def)

lemma keeps_variant_case [resp]:
  "parsers_keep R S \<Longrightarrow> keeps (parse_variant_case R) (parse_variant_case S)"
  by (auto intro!: resp simp:
    parse_variant_case_def)

lemma keeps_variant_part [resp]:
  "parsers_keep R S \<Longrightarrow> keeps (parse_variant_part R) (parse_variant_part S)"
  by (auto intro!: resp simp:
    parse_variant_part_def)

lemma keeps_record_member [resp]:
  "parsers_keep R S \<Longrightarrow> keeps (record_field_step R a) (record_field_step S a)"
  "parsers_keep R S \<Longrightarrow> keeps (record_type_step R a) (record_type_step S a)"
  by (auto intro!: resp simp:
    record_field_step_def record_type_step_def)

lemma keeps_record_step [resp]:
  "parsers_keep R S \<Longrightarrow> keeps (record_step R a) (record_step S a)"
  by (auto intro!: resp simp:
    record_step_def)

lemma keeps_record [resp]:
  "parsers_keep R S \<Longrightarrow> keeps (parse_record_type R b) (parse_record_type S b)"
  by (auto intro!: resp simp:
    parse_record_type_def)

subsection \<open>Objects and the remaining types\<close>

lemma keeps_object_marker_step [resp]: "keeps m m' \<Longrightarrow>
    keeps (object_marker_step a m) (object_marker_step a m')"
  by (auto intro!: resp simp: object_marker_step_def skip_and_def strict_step_def)

lemma keeps_skip_and [resp]:
  "keeps (skip_and x) (skip_and x)"
  by (auto intro!: resp simp:
    skip_and_def)

lemma keeps_object_keyword [resp]:
  "keeps (parse_object_keyword) (parse_object_keyword)"
  "keeps (parse_interface_metadata) (parse_interface_metadata)"
  by (auto intro!: resp simp:
    parse_object_keyword_def parse_interface_metadata_def)

lemma keeps_method [resp]:
  "parsers_keep R S \<Longrightarrow> keeps (method_step R b a) (method_step S b a)"
  "parsers_keep R S \<Longrightarrow> keeps (accessor_step R acc) (accessor_step S acc)"
  "parsers_keep R S \<Longrightarrow> keeps (property_tail R) (property_tail S)"
  "parsers_keep R S \<Longrightarrow> keeps (parse_index_params R) (parse_index_params S)"
  by (auto intro!: resp simp:
    method_step_def accessor_step_def property_tail_def parse_index_params_def)

lemma keeps_accessors [resp]: "parsers_keep R S \<Longrightarrow> keeps (parse_accessors R) (parse_accessors S)"
  by (auto intro!: resp simp: parse_accessors_def)

lemma keeps_class_member [resp]:
  "parsers_keep R S \<Longrightarrow> keeps (class_member_step R b a) (class_member_step S b a)"
  "parsers_keep R S \<Longrightarrow> keeps (parse_property R) (parse_property S)"
  by (auto intro!: resp simp:
    class_member_step_def parse_property_def)

lemma keeps_object_member [resp]:
  "parsers_keep R S \<Longrightarrow> keeps (property_step R a) (property_step S a)"
  "parsers_keep R S \<Longrightarrow> keeps (object_field_step R a) (object_field_step S a)"
  "parsers_keep R S \<Longrightarrow> keeps (object_type_step R a) (object_type_step S a)"
  by (auto intro!: resp simp:
    property_step_def object_field_step_def object_type_step_def)

lemma keeps_object_step [resp]:
  "parsers_keep R S \<Longrightarrow> keeps (object_step R b a) (object_step S b a)"
  "parsers_keep R S \<Longrightarrow> keeps (interface_step R ms) (interface_step S ms)"
  "parsers_keep R S \<Longrightarrow> keeps (parse_parents R) (parse_parents S)"
  by (auto intro!: resp simp:
    object_step_def interface_step_def parse_parents_def)

lemma keeps_object_types [resp]:
  "parsers_keep R S \<Longrightarrow> keeps (parse_object_type R) (parse_object_type S)"
  "parsers_keep R S \<Longrightarrow> keeps (parse_interface_type R) (parse_interface_type S)"
  "parsers_keep R S \<Longrightarrow> keeps (parse_set_type R) (parse_set_type S)"
  "parsers_keep R S \<Longrightarrow> keeps (parse_file_type R) (parse_file_type S)"
  "parsers_keep R S \<Longrightarrow> keeps (parse_procedural_type R) (parse_procedural_type S)"
  "parsers_keep R S \<Longrightarrow> keeps (parse_string_type R l) (parse_string_type S l)"
  by (auto intro!: resp simp:
    parse_object_type_def parse_interface_type_def parse_set_type_def
    parse_file_type_def parse_procedural_type_def parse_string_type_def)

lemma keeps_class_type [resp]:
  "parsers_keep R S \<Longrightarrow> keeps (parse_class_type R) (parse_class_type S)"
  by (auto intro!: resp simp:
    parse_class_type_def)

lemma keeps_type_at [resp]:
  "parsers_keep R S \<Longrightarrow> keeps (parse_type_at R l b k) (parse_type_at S l b k)"
  by (auto intro!: resp simp:
    parse_type_at_def)

lemma keeps_type [resp]:
  "parsers_keep R S \<Longrightarrow> keeps (parse_type R) (parse_type S)"
  by (auto intro!: resp simp:
    parse_type_def)

subsection \<open>Declarations\<close>

lemma keeps_consts [resp]:
  "parsers_keep R S \<Longrightarrow> keeps (parse_record_const R l) (parse_record_const S l)"
  "parsers_keep R S \<Longrightarrow> keeps (parse_array_const R l tt) (parse_array_const S l tt)"
  by (auto intro!: resp simp:
    parse_record_const_def parse_array_const_def)

lemma keeps_const_value [resp]:
  "parsers_keep R S \<Longrightarrow> keeps (parse_const_value R tt) (parse_const_value S tt)"
  by (auto intro!: resp simp:
    parse_const_value_def)

lemma keeps_const_decl [resp]:
  "parsers_keep R S \<Longrightarrow> keeps (parse_const_decl R) (parse_const_decl S)"
  by (auto intro!: resp simp:
    parse_const_decl_def)

lemma keeps_tails [resp]:
  "keeps (parse_absolute_tail) (parse_absolute_tail)"
  "keeps (parse_external_tail) (parse_external_tail)"
  by (auto intro!: resp simp:
    parse_absolute_tail_def parse_external_tail_def)

lemma keeps_var_tail [resp]:
  "parsers_keep R S \<Longrightarrow> keeps (parse_var_tail R tt) (parse_var_tail S tt)"
  by (auto intro!: resp simp:
    parse_var_tail_def)

lemma keeps_var_decl [resp]:
  "parsers_keep R S \<Longrightarrow> keeps (parse_var_decl R) (parse_var_decl S)"
  by (auto intro!: resp simp:
    parse_var_decl_def)

lemma keeps_sections [resp]:
  "parsers_keep R S \<Longrightarrow> keeps (parse_const_section R) (parse_const_section S)"
  "parsers_keep R S \<Longrightarrow> keeps (parse_type_section R) (parse_type_section S)"
  "parsers_keep R S \<Longrightarrow> keeps (parse_var_section R) (parse_var_section S)"
  "parsers_keep R S \<Longrightarrow> keeps (parse_label_section R) (parse_label_section S)"
  by (auto intro!: resp simp:
    parse_const_section_def parse_type_section_def parse_var_section_def
    parse_label_section_def)

end

subsection \<open>Declaration blocks\<close>

locale block_frame = parser_frame +
  assumes rel_note: "has_actions s \<Longrightarrow> decl_block_depth s = 1 \<Longrightarrow>
      rel s (s\<lparr>ps_actions := ps_actions s @ [a]\<rparr>)"
    and rel_block: "rel (s\<lparr>decl_block_depth := Suc (decl_block_depth s)\<rparr>) t \<Longrightarrow>
      rel s (t\<lparr>decl_block_depth := decl_block_depth t - 1\<rparr>)"
begin

lemma keeps_depth: "keeps m m' \<Longrightarrow>
    keeps (do { change_depth Suc; x \<leftarrow> m; change_depth (\<lambda>d. d - 1); return x })
      (do { change_depth Suc; x \<leftarrow> m'; change_depth (\<lambda>d. d - 1); return x })"
  by (rule keepsI, drule_tac s = "s\<lparr>decl_block_depth := Suc (decl_block_depth s)\<rparr>" in keepsD)
    (auto simp: change_depth_def intro!: rel_block [simplified] split: prod.splits)

lemma keeps_act_at_depth_1:
  "keeps (do { depth \<leftarrow> field decl_block_depth; only_if (depth = 1) (act a) })
     (do { depth \<leftarrow> field decl_block_depth; only_if (depth = 1) (act a) })"
  by (rule keepsI) (auto simp: field_def only_if_def act_def rel_refl intro: rel_note [simplified])

lemma keeps_act_then: "keeps m m' \<Longrightarrow>
    keeps (do { depth \<leftarrow> field decl_block_depth; only_if (depth = 1) (act a); m })
      (do { depth \<leftarrow> field decl_block_depth; only_if (depth = 1) (act a); m' })"
  using keeps_bind [OF keeps_act_at_depth_1, of "\<lambda>_. m" "\<lambda>_. m'"] by simp

lemma keeps_note [resp]:
  "keeps (note_parsed_declaration b d) (note_parsed_declaration b d)"
  unfolding note_parsed_declaration_def by (rule keeps_act_at_depth_1)

lemma keeps_note_all [resp]: "keeps (note_all b ds) (note_all b ds)"
  by (induction ds) (auto intro!: resp)

lemma keeps_section_steps [resp]:
  "keeps p p' \<Longrightarrow> keeps (section_step b p out) (section_step b p' out)"
  "keeps q q' \<Longrightarrow> keeps (routine_step b q out) (routine_step b q' out)"
  by (auto intro!: resp simp: section_step_def routine_step_def)

lemma keeps_type_section_step [resp]:
  "parsers_keep R S \<Longrightarrow> keeps (type_section_step R b out) (type_section_step S b out)"
  unfolding type_section_step_def
  by (rule keeps_bind [OF _ keeps_act_then]) (intro resp, assumption, intro resp)

lemma keeps_class_routine [resp]:
  "parsers_keep R S \<Longrightarrow> keeps (class_routine_step R b out) (class_routine_step S b out)"
  by (auto intro!: resp simp: class_routine_step_def)

lemma keeps_block_step [resp]:
  "parsers_keep R S \<Longrightarrow> keeps (decl_block_step R b out) (decl_block_step S b out)"
  by (auto intro!: resp simp:
    decl_block_step_def)

lemma keeps_decl_block [resp]: "parsers_keep R S \<Longrightarrow> keeps (parse_decl_block R b) (parse_decl_block S b)"
  unfolding parse_decl_block_def by (rule keeps_depth) (intro resp)

lemma parsers_keep_knot: "n \<le> m \<Longrightarrow> parsers_keep (knot n) (knot m)"
proof (induction n arbitrary: m)
  case 0
  with stmts_keep_knot [of 0 m] show ?case
    by (cases m) (auto simp: parsers_keep_def Let_def intro!: keeps_run_out)
next
  case (Suc n)
  then obtain m' where m: "m = Suc m'" "n \<le> m'" by (cases m) auto
  from Suc.IH [OF m(2)] have "parsers_keep (knot n) (knot m')" .
  with m stmts_keep_knot [OF Suc.prems] show ?case
    by (subst parsers_keep_def) (auto simp: Let_def intro!: resp)
qed

end

subsection \<open>Compilation units\<close>

locale unit_frame = block_frame +
  assumes rel_act: "has_actions s \<Longrightarrow> rel s (s\<lparr>ps_actions := ps_actions s @ [a]\<rparr>)"
    and rel_unit: "rel s (s\<lparr>partial_unit := u\<rparr>)"
begin

lemma keeps_unit_steps [resp]:
  "keeps (act a) (act a)"
  "keeps (modify (\<lambda>s. s\<lparr>partial_unit := u\<rparr>)) (modify (\<lambda>s. s\<lparr>partial_unit := u\<rparr>))"
  by (auto simp: keeps_def act_def rel_refl rel_act rel_unit)

lemma keeps_units [resp]:
  "parsers_keep R S \<Longrightarrow> keeps (parse_program R) (parse_program S)"
  "parsers_keep R S \<Longrightarrow> keeps (parse_unit_interface R) (parse_unit_interface S)"
  "parsers_keep R S \<Longrightarrow> keeps (parse_unit_implementation R) (parse_unit_implementation S)"
  by (auto intro!: resp simp:
    parse_program_def parse_unit_interface_def parse_unit_implementation_def)

lemma keeps_unit [resp]:
  "parsers_keep R S \<Longrightarrow> keeps (parse_unit R) (parse_unit S)"
  by (auto intro!: resp simp:
    parse_unit_def)

lemma keeps_source [resp]:
  "parsers_keep R S \<Longrightarrow> keeps (parse_source R) (parse_source S)"
  by (auto intro!: resp simp:
    parse_source_def)

text \<open>The whole parser, from the state its constructor leaves.\<close>

lemma parse_keeps: "rel (new_parser toks m b) (snd (parse toks m b))"
  using keeps_source [OF parsers_keep_knot, of "length toks" "length toks"]
  by (simp add: keeps_def parse_def)

text \<open>More fuel makes no difference to a run that had enough.\<close>

lemma parse_more_fuel:
  assumes "length toks \<le> k" "\<not> out_of_fuel (snd (parse toks m b))"
  shows "run_state (parse_source (knot k)) (new_parser toks m b) = parse toks m b"
  using keeps_source [OF parsers_keep_knot, OF assms(1)] assms(2)
  by (auto simp: keeps_def parse_def)

end

end
