(* ===== verification/Parse_Total.thy ===== *)
theory Parse_Total
  imports Parse_Decl
begin

text \<open>
  The parser terminates: fuel never runs out. Every call back up in the grammar, and every
  round of a loop, happens behind a token that has been read, so a parser whose fuel is the
  number of tokens left is as good as one without a bound.

  \<open>wp m Q s\<close> says that \<open>m\<close>, run in \<open>s\<close>, ends with a result and a state that satisfy \<open>Q\<close>.
  The rules of the collection \<open>wp\<close> reduce it along the statements of a function; what they
  keep of a state is its current token and the number of tokens left.
\<close>

subsection \<open>Tokens left\<close>

definition wp :: "'a parser \<Rightarrow> ('a \<Rightarrow> pstate \<Rightarrow> bool) \<Rightarrow> pstate \<Rightarrow> bool" where
  "wp m Q s = (case run_state m s of (a, t) \<Rightarrow> Q a t)"

definition stream :: "pstate \<Rightarrow> token list" where
  "stream s = ps_cur s # (case ps_peek s of None \<Rightarrow> [] | Some t \<Rightarrow> [t]) @ map fst (ps_rest s)"

definition left :: "pstate \<Rightarrow> nat" where
  "left s = length (filter (\<lambda>t. tok_kind t \<noteq> Eof) (stream s))"

abbreviation kind :: "pstate \<Rightarrow> tok" where "kind s \<equiv> tok_kind (ps_cur s)"
abbreviation ok :: "pstate \<Rightarrow> bool" where "ok s \<equiv> \<not> out_of_fuel s"

lemma left_pos: "kind s \<noteq> Eof \<Longrightarrow> 0 < left s"
  by (simp add: left_def stream_def)

lemma wp_mono: "wp m P s \<Longrightarrow> (\<And>a t. P a t \<Longrightarrow> Q a t) \<Longrightarrow> wp m Q s"
  by (auto simp: wp_def split: prod.splits)

subsection \<open>Primitives\<close>

lemma wp_return [wp]: "Q a s \<Longrightarrow> wp (return a) Q s"
  by (simp add: wp_def)

lemma wp_bind [wp]: "wp m (\<lambda>a. wp (f a) Q) s \<Longrightarrow> wp (m \<bind> f) Q s"
  by (auto simp: wp_def run_state_bind split: prod.splits)

lemma wp_field [wp]: "Q (f s) s \<Longrightarrow> wp (field f) Q s"
  by (simp add: wp_def field_def)

lemma wp_split [wp]:
  "(b \<Longrightarrow> wp m Q s) \<Longrightarrow> (\<not> b \<Longrightarrow> wp n Q s) \<Longrightarrow> wp (if b then m else n) Q s"
  "(x = None \<Longrightarrow> wp m Q s) \<Longrightarrow> (\<And>a. x = Some a \<Longrightarrow> wp (g a) Q s) \<Longrightarrow>
    wp (case x of None \<Rightarrow> m | Some a \<Rightarrow> g a) Q s"
  "(\<And>a b. p = (a, b) \<Longrightarrow> wp (h a b) Q s) \<Longrightarrow> wp (case p of (a, b) \<Rightarrow> h a b) Q s"
  "wp (k z) Q s \<Longrightarrow> wp (Let z k) Q s"
  by (auto split: option.splits prod.splits)

lemma wp_advance [wp]:
  assumes "ok s"
    and "\<And>t. ok t \<Longrightarrow> left t \<le> left s \<Longrightarrow> kind s \<noteq> Eof \<longrightarrow> left t < left s \<Longrightarrow> Q () t"
  shows "wp advance Q s"
proof -
  obtain t where t: "run_state advance s = ((), t)" by (cases "run_state advance s") auto
  have "ok t \<and> left t \<le> left s \<and> (kind s \<noteq> Eof \<longrightarrow> left t < left s)"
    using t assms(1)
    by (cases "ps_peek s"; cases "ps_rest s")
      (auto simp: advance_def field_def lex_pull_def left_def stream_def run_state_update)
  with assms(2) t show ?thesis by (simp add: wp_def)
qed

lemma wp_peek_token [wp]:
  assumes "ok s"
    and "\<And>x t. ok t \<Longrightarrow> left t = left s \<Longrightarrow> ps_cur t = ps_cur s \<Longrightarrow> Q x t"
  shows "wp peek_token Q s"
proof -
  obtain x t where t: "run_state peek_token s = (x, t)" by (cases "run_state peek_token s") auto
  then have "ok t \<and> left t = left s \<and> ps_cur t = ps_cur s"
    using assms(1)
    by (cases "ps_peek s"; cases "ps_rest s")
      (auto simp: peek_token_def field_def lex_pull_def left_def stream_def run_state_update)
  with assms(2) t show ?thesis by (simp add: wp_def)
qed

lemma wp_quiet [wp]:
  assumes "ok s"
    and "\<And>x t. ok t \<Longrightarrow> left t = left s \<Longrightarrow> ps_cur t = ps_cur s \<Longrightarrow> Q x t"
  shows "wp (report l m) Q s" "wp (act a) Q s"
    "wp (modify (\<lambda>s. s\<lparr>partial_unit := u\<rparr>)) Q s" "wp (change_depth f) Q s"
  using assms
  by (auto simp: wp_def report_def act_def change_depth_def left_def stream_def run_state_update)

lemma wp_fresh_section_id [wp]:
  assumes "ok s"
    and "\<And>x t. ok t \<Longrightarrow> left t = left s \<Longrightarrow> ps_cur t = ps_cur s \<Longrightarrow> Q x t"
  shows "wp fresh_section_id Q s"
  using assms
  by (auto simp: wp_def fresh_section_id_def field_def left_def stream_def run_state_update)

lemma wp_reads [wp]:
  "C (ps_cur s) s \<Longrightarrow> wp cur C s"
  "K (kind s) s \<Longrightarrow> wp cur_kind K s"
  "T (tok_text (ps_cur s)) s \<Longrightarrow> wp cur_text T s"
  "L (tok_loc (ps_cur s)) s \<Longrightarrow> wp cur_loc L s"
  "P (kind s = k) s \<Longrightarrow> wp (check k) P s"
  "P (kind s \<in> set ks) s \<Longrightarrow> wp (check_any ks) P s"
  "P (kind s = Eof) s \<Longrightarrow> wp at_end P s"
  "P (kind s = Ident \<and> tok_text (ps_cur s) = w) s \<Longrightarrow> wp (is_directive w) P s"
  "P (kind s = Ident \<and> tok_text (ps_cur s) \<in> set ws) s \<Longrightarrow> wp (is_any_directive ws) P s"
  by (simp_all add: wp_def field_def cur_def cur_kind_def cur_text_def cur_loc_def check_def
      check_any_def at_end_def is_directive_def is_any_directive_def)

lemma wp_modes [wp]:
  "(\<And>b. P b s) \<Longrightarrow> wp overflow_check_active P s"
  "(\<And>b. P b s) \<Longrightarrow> wp range_check_active P s"
  "(\<And>b. P b s) \<Longrightarrow> wp long_strings_active P s"
  "(\<And>n. P' n s) \<Longrightarrow> wp packenum_active P' s"
  "(\<And>m. P'' m s) \<Longrightarrow> wp interface_mode_active P'' s"
  by (simp_all add: wp_def field_def overflow_check_active_def range_check_active_def
      long_strings_active_def packenum_active_def interface_mode_active_def)

lemma wp_ends_nested [wp]:
  "(\<And>b. P b s) \<Longrightarrow> wp identifier_ends_nested_type_block P s"
  by (auto simp: identifier_ends_nested_type_block_def intro!: wp)

subsection \<open>Tokens taken\<close>

lemma wp_accept [wp]:
  assumes "ok s" "k \<noteq> Eof"
    and "\<And>t. kind s = k \<Longrightarrow> ok t \<Longrightarrow> left t < left s \<Longrightarrow> Q True t"
    and "kind s \<noteq> k \<Longrightarrow> Q False s"
  shows "wp (accept k) Q s"
  using assms by (auto simp: accept_def intro!: wp)

lemma wp_expect [wp]:
  assumes "ok s" "k \<noteq> Eof"
    and "\<And>t. kind s = k \<Longrightarrow> ok t \<Longrightarrow> left t < left s \<Longrightarrow> Q True t"
    and "\<And>t. kind s \<noteq> k \<Longrightarrow> ok t \<Longrightarrow> left t = left s \<Longrightarrow> ps_cur t = ps_cur s \<Longrightarrow> Q False t"
  shows "wp (expect k ctx) Q s"
  using assms by (auto simp: expect_def intro!: wp)

lemma wp_consume [wp]:
  assumes "ok s"
    and "\<And>x t. ok t \<Longrightarrow> left t \<le> left s \<Longrightarrow> kind s = Ident \<longrightarrow> left t < left s \<Longrightarrow> Q x t"
  shows "wp (consume_ident ctx) Q s" "wp (consume_name_or_directive ctx) Q s"
  using assms by (auto simp: consume_ident_def consume_name_or_directive_def intro!: wp)

lemma wp_take_text [wp]:
  assumes "ok s"
    and "\<And>x t. ok t \<Longrightarrow> left t \<le> left s \<Longrightarrow> kind s \<noteq> Eof \<longrightarrow> left t < left s \<Longrightarrow> Q x t"
  shows "wp take_text Q s"
  using assms by (auto simp: take_text_def intro!: wp)

lemma wp_peek_is [wp]:
  assumes "ok s"
    and "\<And>x t. ok t \<Longrightarrow> left t = left s \<Longrightarrow> ps_cur t = ps_cur s \<Longrightarrow> Q x t"
  shows "wp (peek_is ks) Q s"
  using assms by (auto simp: peek_is_def peek_kind_def intro!: wp)

lemma wp_branch [wp]: "wp c (\<lambda>b t. (b \<longrightarrow> wp m Q t) \<and> (\<not> b \<longrightarrow> wp n Q t)) s \<Longrightarrow> wp (branch c m n) Q s"
  unfolding branch_def by (intro wp) (erule wp_mono, auto)

lemma wp_conditions [wp]:
  "wp c (\<lambda>b t. (b \<longrightarrow> P True t) \<and> (\<not> b \<longrightarrow> wp d P t)) s \<Longrightarrow> wp (either c d) P s"
  "wp c (\<lambda>b t. (b \<longrightarrow> wp d P t) \<and> (\<not> b \<longrightarrow> P False t)) s \<Longrightarrow> wp (both c d) P s"
  by (auto simp: either_def both_def intro!: wp elim: wp_mono)

lemma wp_optionally [wp]:
  "wp c (\<lambda>b t. (b \<longrightarrow> wp m (\<lambda>x. Q (Some x)) t) \<and> (\<not> b \<longrightarrow> Q None t)) s \<Longrightarrow> wp (optionally c m) Q s"
  by (auto simp: optionally_def intro!: wp elim!: wp_mono)

lemma wp_only_if [wp]: "(b \<Longrightarrow> wp m Q s) \<Longrightarrow> (\<not> b \<Longrightarrow> Q () s) \<Longrightarrow> wp (only_if b m) Q s"
  by (auto simp: only_if_def intro!: wp)

subsection \<open>Loops\<close>

text \<open>Fuel above the number of tokens left is enough when every further round reads a token.\<close>

lemma wp_loop:
  assumes "ok s" "left s < f"
    and body: "\<And>a t. ok t \<Longrightarrow> left t \<le> left s \<Longrightarrow>
      wp (body a) (\<lambda>r u. ok u \<and> left u \<le> left t \<and> (fst r \<longrightarrow> left u < left t)) t"
    and Q: "\<And>a t. ok t \<Longrightarrow> left t \<le> left s \<Longrightarrow> Q a t"
  shows "wp (loop f body a) Q s"
  using assms(1,2) body Q
proof (induction f arbitrary: a s)
  case 0
  then show ?case by simp
next
  case (Suc f)
  have "wp (loop f body b) Q u" if "ok u" "left u < left s" for b u
    using that Suc.prems(2) by (intro Suc.IH) (auto intro: Suc.prems(3,4))
  then show ?case using Suc.prems(3) [of s a] Suc.prems(1,4)
    by (auto intro!: wp elim!: wp_mono)
qed

text \<open>
  The contract of a parser function: from a state with at most \<open>n\<close> tokens left and a current
  token in \<open>T\<close> it ends, and it reads at least one token if its result and that token satisfy \<open>P\<close>.
\<close>

definition good :: "nat \<Rightarrow> tok set \<Rightarrow> ('a \<Rightarrow> tok \<Rightarrow> bool) \<Rightarrow> 'a parser \<Rightarrow> bool" where
  "good n T P m \<longleftrightarrow> (\<forall>s. ok s \<longrightarrow> left s \<le> n \<longrightarrow> kind s \<in> T \<longrightarrow>
     wp m (\<lambda>x t. ok t \<and> left t \<le> left s \<and> (P x (kind s) \<longrightarrow> left t < left s)) s)"

abbreviation fine :: "nat \<Rightarrow> 'a parser \<Rightarrow> bool" where
  "fine n m \<equiv> good n UNIV (\<lambda>_ _. False) m"

abbreviation eats :: "nat \<Rightarrow> 'a parser \<Rightarrow> bool" where
  "eats n m \<equiv> good n UNIV (\<lambda>_ k. k \<noteq> Eof) m"

abbreviation starts :: "nat \<Rightarrow> tok set \<Rightarrow> 'a parser \<Rightarrow> bool" where
  "starts n T m \<equiv> good n T (\<lambda>_ _. True) m"

abbreviation steps :: "nat \<Rightarrow> tok set \<Rightarrow> (bool \<times> 'a) parser \<Rightarrow> bool" where
  "steps n T m \<equiv> good n T (\<lambda>r _. fst r) m"

lemma goodI:
  "(\<And>s. ok s \<Longrightarrow> left s \<le> n \<Longrightarrow> kind s \<in> T \<Longrightarrow>
     wp m (\<lambda>x t. ok t \<and> left t \<le> left s \<and> (P x (kind s) \<longrightarrow> left t < left s)) s) \<Longrightarrow>
   good n T P m"
  by (simp add: good_def)

lemma good_wp:
  assumes "good n T P m" "ok s" "left s \<le> n" "kind s \<in> T"
    and "\<And>x t. ok t \<Longrightarrow> left t \<le> left s \<Longrightarrow> P x (kind s) \<longrightarrow> left t < left s \<Longrightarrow> Q x t"
  shows "wp m Q s"
  using assms by (auto simp: good_def elim!: wp_mono)

lemma wp_list_until:
  assumes "ok s" "left s < f" "sep \<noteq> Eof"
    and item: "good (left s) (- insert Eof (set stops)) (\<lambda>_ _. False) item"
    and "\<And>a t. ok t \<Longrightarrow> left t \<le> left s \<Longrightarrow> Q a t"
  shows "wp (list_until f stops sep item) Q s"
  unfolding list_until_def using assms(1-3,5)
  by (intro wp_loop) (auto intro!: wp good_wp [OF item])

lemma wp_while_accept:
  assumes "ok s" "left s < f" "sep \<noteq> Eof"
    and item: "\<And>k. k < left s \<Longrightarrow> fine k item"
    and "\<And>a t. ok t \<Longrightarrow> left t \<le> left s \<Longrightarrow> Q a t"
  shows "wp (while_accept f sep item out) Q s"
  unfolding while_accept_def using assms(1-3,5)
  by (intro wp_loop) (auto intro!: wp good_wp [OF item])

text \<open>\<open>while (c)\<close> for a test \<open>c\<close> of the current token, true for tokens in \<open>T\<close> only.\<close>

definition tests :: "tok set \<Rightarrow> bool parser \<Rightarrow> bool" where
  "tests T c \<longleftrightarrow> (\<forall>t. snd (run_state c t) = t \<and> (fst (run_state c t) \<longrightarrow> kind t \<in> T))"

lemma tests_simple:
  "tests {k} (check k)" "tests {Ident} (is_directive w)" "tests {Ident} (is_any_directive ws)"
  by (simp_all add: tests_def field_def check_def is_directive_def is_any_directive_def)

lemma tests_wp: "tests T c \<Longrightarrow> (\<And>b. b \<longrightarrow> kind t \<in> T \<Longrightarrow> Q b t) \<Longrightarrow> wp c Q t"
  by (auto simp: tests_def wp_def split: prod.splits) (metis fst_conv snd_conv)

lemma wp_while_collect:
  assumes test: "tests T c" and "ok s" "left s < f"
    and item: "starts (left s) T item"
    and "\<And>a t. ok t \<Longrightarrow> left t \<le> left s \<Longrightarrow> Q a t"
  shows "wp (while_collect f c item) Q s"
  unfolding while_collect_def using assms(2,3,5)
  by (intro wp_loop) (auto intro!: wp tests_wp [OF test] good_wp [OF item])

lemma wp_while_do:
  assumes test: "tests T c" and "ok s" "left s < f"
    and item: "starts (left s) T item"
    and "\<And>t. ok t \<Longrightarrow> left t \<le> left s \<Longrightarrow> Q () t"
  shows "wp (while_do f c item) Q s"
  unfolding while_do_def using assms(2,3,5)
  by (intro wp_loop) (auto intro!: wp tests_wp [OF test] good_wp [OF item])

lemmas while_tests =
  tests_simple [THEN wp_while_collect] tests_simple [THEN wp_while_do]

subsection \<open>Small parsers\<close>

lemma wp_skip_string_literal [wp]:
  assumes "ok s" "\<And>t. ok t \<Longrightarrow> left t \<le> left s \<Longrightarrow> Q () t"
  shows "wp skip_string_literal Q s"
  using assms by (auto simp: skip_string_literal_def intro!: wp)

lemma name_list_starts: "n < f \<Longrightarrow> starts n (- {Eof}) (name_list f)"
  by (rule goodI, unfold name_list_def) (auto intro!: wp wp_loop)

lemma path_fine: "n < f \<Longrightarrow> fine n (parse_property_accessor_path f ctx)"
  by (rule goodI, unfold parse_property_accessor_path_def)
    (auto intro!: wp wp_while_accept goodI)

subsection \<open>The grammar\<close>

text \<open>
  What a parse function may use of the level below: its parsers end as long as fewer than
  \<open>n\<close> tokens are left. What it promises in return: it ends with up to \<open>n\<close> tokens left.
\<close>

locale parsers_ok =
  fixes R :: parsers and n :: nat
  assumes fuel: "n < r_fuel R"
    and below: "k < n \<Longrightarrow> fine k (r_expr R)" "k < n \<Longrightarrow> fine k (r_factor R)"
      "k < n \<Longrightarrow> fine k (r_type R)" "k < n \<Longrightarrow> fine k (r_stmt R)"
      "k < n \<Longrightarrow> fine k (r_const R tt)" "k < n \<Longrightarrow> fine k (r_variant R)"
      "k < n \<Longrightarrow> fine k (r_decl_block R b)"
begin

lemma fuel_left [simp]: "k \<le> n \<Longrightarrow> k < r_fuel R"
  using fuel by simp

lemma wp_below [wp]:
  assumes "ok s" "left s < n"
  shows "(\<And>x t. ok t \<Longrightarrow> left t \<le> left s \<Longrightarrow> E x t) \<Longrightarrow> wp (r_expr R) E s"
    "(\<And>x t. ok t \<Longrightarrow> left t \<le> left s \<Longrightarrow> E x t) \<Longrightarrow> wp (r_factor R) E s"
    "(\<And>x t. ok t \<Longrightarrow> left t \<le> left s \<Longrightarrow> T x t) \<Longrightarrow> wp (r_type R) T s"
    "(\<And>x t. ok t \<Longrightarrow> left t \<le> left s \<Longrightarrow> S x t) \<Longrightarrow> wp (r_stmt R) S s"
    "(\<And>x t. ok t \<Longrightarrow> left t \<le> left s \<Longrightarrow> E x t) \<Longrightarrow> wp (r_const R tt) E s"
    "(\<And>x t. ok t \<Longrightarrow> left t \<le> left s \<Longrightarrow> V x t) \<Longrightarrow> wp (r_variant R) V s"
    "(\<And>x t. ok t \<Longrightarrow> left t \<le> left s \<Longrightarrow> D x t) \<Longrightarrow> wp (r_decl_block R b) D s"
  using assms by (auto intro: good_wp [OF below(1)] good_wp [OF below(2)] good_wp [OF below(3)]
      good_wp [OF below(4)] good_wp [OF below(5)] good_wp [OF below(6)] good_wp [OF below(7)])

lemmas loops = wp_loop wp_list_until wp_while_accept while_tests goodI

lemmas name_list_wp [wp] = name_list_starts [of n "r_fuel R", THEN good_wp, simplified]
lemmas path_wp [wp] = path_fine [of n "r_fuel R", THEN good_wp, simplified]

subsubsection \<open>Expressions\<close>

lemma range_rest_fine: "fine n (range_rest (r_expr R) e)"
  by (auto simp: range_rest_def intro!: wp loops)

lemmas range_rest_wp [wp] = range_rest_fine [THEN good_wp]

lemma call_arg_fine: "k < n \<Longrightarrow> fine k (parse_call_arg R)"
  by (auto simp: parse_call_arg_def intro!: wp loops)

lemmas call_arg_wp [wp] = call_arg_fine [THEN good_wp]

lemma set_literal_starts: "starts n {LBrack} (parse_set_literal R)"
  by (auto simp: parse_set_literal_def intro!: wp loops)

lemmas set_literal_wp [wp] = set_literal_starts [THEN good_wp]

lemma suffixes_fine:
  "k < n \<Longrightarrow> fine k (parse_index_suffix R l e)"
  "k < n \<Longrightarrow> fine k (parse_call_suffix R l e)"
  by (auto simp: parse_index_suffix_def parse_call_suffix_def intro!: wp loops)

lemmas suffixes_wp [wp] = suffixes_fine [THEN good_wp]

lemma postfix_step_steps: "steps n UNIV (postfix_step R e)"
  by (auto simp: postfix_step_def intro!: wp loops)

lemmas postfix_step_wp [wp] = postfix_step_steps [THEN good_wp]

lemma postfix_fine: "fine n (parse_postfix R e)"
  by (auto simp: parse_postfix_def intro!: wp loops)

lemmas postfix_wp [wp] = postfix_fine [THEN good_wp]

lemma inherited_starts: "starts n (- {Eof}) (parse_inherited R l)"
  by (auto simp: parse_inherited_def intro!: wp loops)

lemmas inherited_wp [wp] = inherited_starts [THEN good_wp]

lemma primary_eats: "eats n (parse_primary R)"
  by (auto simp: parse_primary_def intro!: wp loops)

lemmas primary_wp [wp] = primary_eats [THEN good_wp]

lemma factor_eats: "eats n (parse_factor R)"
  by (auto simp: parse_factor_def intro!: wp loops)

lemmas factor_wp [wp] = factor_eats [THEN good_wp]

lemma binary_step_steps:
  "table Eof = None \<Longrightarrow> eats n p \<Longrightarrow> steps n UNIV (binary_step table p e)"
  by (auto simp: binary_step_def intro!: wp loops elim!: good_wp)

lemma operator_tables_Eof [simp]:
  "multiplicative_operator Eof = None" "additive_operator Eof = None"
  "relational_operator Eof = None"
  by (simp_all add: multiplicative_operator_def additive_operator_def relational_operator_def)

lemma term_eats: "eats n (parse_term R)"
  by (auto simp: parse_term_def intro!: wp loops good_wp [OF binary_step_steps] factor_eats)

lemmas term_wp [wp] = term_eats [THEN good_wp]

lemma simple_expr_eats: "eats n (parse_simple_expr R)"
  by (auto simp: parse_simple_expr_def intro!: wp loops good_wp [OF binary_step_steps] term_eats)

lemmas simple_expr_wp [wp] = simple_expr_eats [THEN good_wp]

lemma expr_eats: "eats n (parse_expr R)"
  by (auto simp: parse_expr_def intro!: wp loops good_wp [OF binary_step_steps] simple_expr_eats)

lemmas expr_wp [wp] = expr_eats [THEN good_wp] simple_expr_eats [folded parse_subrange_bound_def, THEN good_wp]

subsubsection \<open>Statements\<close>

lemma stmt_list_fine:
  "k < n \<Longrightarrow> fine k (parse_stmt_list R ts)"
  by (auto simp: parse_stmt_list_def intro!: wp loops)

lemmas stmt_list_wp [wp] = stmt_list_fine [THEN good_wp]

lemma stmt_block_fine:
  "k < n \<Longrightarrow> fine k (parse_statement_block_until R ts)"
  by (auto simp: parse_statement_block_until_def intro!: wp loops)

lemmas stmt_block_wp [wp] = stmt_block_fine [THEN good_wp]

lemma compound_starts: "starts n {KwBegin} (parse_compound_statement R)"
  by (auto simp: parse_compound_statement_def intro!: wp loops)

lemmas compound_wp [wp] = compound_starts [THEN good_wp]

lemma simple_stmt_fine: "fine n (parse_labeled_or_simple R)" "fine n parse_goto"
  by (auto simp: parse_labeled_or_simple_def parse_goto_def intro!: wp loops)

lemmas simple_stmt_wp [wp] = simple_stmt_fine [THEN good_wp]

lemma keyword_stmts_start:
  "starts n (- {Eof}) (parse_labeled R)"
  "starts n {KwRaise} (parse_raise R)"
  "starts n {KwAsm} (parse_asm R)"
  "starts n {KwIf} (parse_if R)"
  "starts n {KwWhile} (parse_while R)"
  "starts n {KwRepeat} (parse_repeat R)"
  "starts n {KwWith} (parse_with R)"
  by (auto simp: parse_labeled_def parse_raise_def parse_asm_def parse_if_def parse_while_def
      parse_repeat_def parse_with_def intro!: wp loops)

lemmas keyword_stmts_wp [wp] = keyword_stmts_start [THEN good_wp]

lemma for_parts_fine:
  "k < n \<Longrightarrow> fine k (parse_for_in R l v)"
  "k < n \<Longrightarrow> fine k (parse_for_range R l v)"
  by (auto simp: parse_for_in_def parse_for_range_def intro!: wp loops)

lemmas for_parts_wp [wp] = for_parts_fine [THEN good_wp]

lemma for_starts: "starts n {KwFor} (parse_for R)"
  by (auto simp: parse_for_def intro!: wp loops)

lemmas for_wp [wp] = for_starts [THEN good_wp]

lemma case_label_eats: "eats n (parse_case_label R)"
  by (auto simp: parse_case_label_def range_rest_def intro!: wp loops)

lemmas case_label_wp [wp] = case_label_eats [THEN good_wp]

lemma case_arm_starts: "starts n (- {Eof}) (parse_case_arm R)"
  by (auto simp: parse_case_arm_def intro!: wp loops)

lemmas case_arm_wp [wp] = case_arm_starts [THEN good_wp]

lemma case_starts: "starts n {KwCase} (parse_case R)"
  by (auto simp: parse_case_def intro!: wp loops)

lemmas case_wp [wp] = case_starts [THEN good_wp]

lemma handler_starts: "starts n {Ident} (parse_handler R)"
  by (auto simp: parse_handler_def intro!: wp loops)

lemmas handler_wp [wp] = handler_starts [THEN good_wp]

lemma except_part_fine: "k < n \<Longrightarrow> fine k (parse_except_part R)"
  by (auto simp: parse_except_part_def intro!: wp loops)

lemmas except_part_wp [wp] = except_part_fine [THEN good_wp]

lemma try_starts: "starts n {KwTry} (parse_try R)"
  by (auto simp: parse_try_def intro!: wp loops)

lemmas try_wp [wp] = try_starts [THEN good_wp]

lemma statement_at_fine: "good n {k} (\<lambda>_ _. False) (parse_statement_at R k)"
  by (auto simp: parse_statement_at_def intro!: wp loops)

lemmas statement_at_wp [wp] = statement_at_fine [THEN good_wp]

lemma cur_then_peek_wp [wp]:
  assumes "ok s"
    and "\<And>b t. ok t \<Longrightarrow> left t = left s \<Longrightarrow> ps_cur t = ps_cur s \<Longrightarrow> b \<longrightarrow> kind s = k \<Longrightarrow> Q b t"
  shows "wp (cur_then_peek k ks) Q s"
  using assms by (auto simp: cur_then_peek_def intro!: wp)

lemma statement_fine: "fine n (parse_statement R)"
  by (auto simp: parse_statement_def intro!: wp loops)

lemmas statement_wp [wp] = statement_fine [THEN good_wp]

end

end
