(* ===== verification/Parse_Total_Types.thy ===== *)
theory Parse_Total_Types
  imports Parse_Total
begin

text \<open>
  Routines, types, objects and declarations end: the lemmas of \<open>parsers_ok\<close> go on from
  \<open>Parse_Total\<close>, up to the knot, which satisfies the contract at every level.
\<close>

context parsers_ok
begin

subsection \<open>Routines\<close>

lemma starts_next_member_wp [wp]:
  assumes "ok s"
    and "\<And>b t. ok t \<Longrightarrow> left t = left s \<Longrightarrow> ps_cur t = ps_cur s \<Longrightarrow> Q b t"
  shows "wp starts_next_member Q s"
  using assms by (auto simp: starts_next_member_def intro!: wp)

lemma soft_mode_wp [wp]:
  assumes "ok s"
    and "\<And>b t. ok t \<Longrightarrow> left t = left s \<Longrightarrow> ps_cur t = ps_cur s \<Longrightarrow> b \<longrightarrow> kind s = Ident \<Longrightarrow> Q b t"
  shows "wp (soft_mode w) Q s"
  using assms by (auto simp: soft_mode_def intro!: wp)

lemma string_literal_fine: "fine n take_string_literal"
  by (auto simp: take_string_literal_def intro!: wp loops)

lemmas string_literal_wp [wp] = string_literal_fine [THEN good_wp]

lemma external_starts: "starts n {Ident} parse_external_modifier"
  by (auto simp: parse_external_modifier_def intro!: wp loops)

lemmas external_wp [wp] = external_starts [THEN good_wp]

lemma directive_modifier_eats:
  "good n {Ident} (\<lambda>r _. r \<noteq> None) (parse_directive_modifier w)"
  by (rule goodI, unfold parse_directive_modifier_def, intro wp) simp_all

lemmas directive_modifier_wp [wp] = directive_modifier_eats [THEN good_wp]

lemma proc_modifier_eats: "good n UNIV (\<lambda>r _. r \<noteq> None) (parse_proc_modifier b)"
  by (auto simp: parse_proc_modifier_def intro!: wp loops)

lemmas proc_modifier_wp [wp] = proc_modifier_eats [THEN good_wp]

lemma proc_modifiers_fine: "fine n (parse_proc_modifiers R ms b)"
  by (auto simp: parse_proc_modifiers_def intro!: wp loops)

lemmas proc_modifiers_wp [wp] = proc_modifiers_fine [THEN good_wp]

lemma header_tail_fine: "fine n (parse_proc_header_tail R ctx b)"
  by (auto simp: parse_proc_header_tail_def intro!: wp loops)

lemmas header_tail_wp [wp] = header_tail_fine [THEN good_wp]

lemma param_mode_fine: "fine n parse_param_mode"
  by (auto simp: parse_param_mode_def intro!: wp loops)

lemmas param_mode_wp [wp] = param_mode_fine [THEN good_wp]

lemma routine_parts_fine:
  "k < n \<Longrightarrow> fine k (parse_param_type R)"
  "k < n \<Longrightarrow> fine k (parse_return_type R pk)"
  "k < n \<Longrightarrow> fine k (parse_routine_body R b ms ctx)"
  by (auto simp: parse_param_type_def parse_return_type_def parse_routine_body_def
      intro!: wp loops)

lemmas routine_parts_wp [wp] = routine_parts_fine [THEN good_wp]

lemma param_fine: "fine n (parse_param R)"
  by (auto simp: parse_param_def intro!: wp loops)

lemmas param_wp [wp] = param_fine [THEN good_wp]

lemma params_fine: "fine n (parse_param_list R t)"
  by (auto simp: parse_param_list_def intro!: wp loops)

lemmas params_wp [wp] = params_fine [THEN good_wp]

lemma optional_params_fine: "fine n (parse_optional_params R ctx)"
  by (auto simp: parse_optional_params_def intro!: wp loops)

lemmas optional_params_wp [wp] = optional_params_fine [THEN good_wp]

lemma lifecycle_fine: "fine n (check_class_lifecycle l pk b ps tt)"
  by (auto simp: check_class_lifecycle_def intro!: wp loops)

lemmas lifecycle_wp [wp] = lifecycle_fine [THEN good_wp]

text \<open>A routine header starts with its keyword, or behind a \<open>class\<close> that has been read.\<close>

lemma proc_decl_wp [wp]:
  assumes "ok s" "left s \<le> n" "kind s = Eof \<longrightarrow> left s < n"
    and "\<And>x t. ok t \<Longrightarrow> left t \<le> left s \<Longrightarrow> kind s \<noteq> Eof \<longrightarrow> left t < left s \<Longrightarrow> Q x t"
  shows "wp (parse_proc_decl R pk a b c) Q s"
  using assms by (auto simp: parse_proc_decl_def intro!: wp)

lemma operator_decl_starts: "starts n {KwOperator} (parse_operator_decl R b)"
  by (auto simp: parse_operator_decl_def intro!: wp loops)

lemmas operator_decl_wp [wp] = operator_decl_starts [THEN good_wp]

subsection \<open>Types\<close>

lemma check_bound_fine: "fine n (check_bound e)"
  by (auto simp: check_bound_def intro!: wp loops)

lemmas check_bound_wp [wp] = check_bound_fine [THEN good_wp]

lemma starts_bound_wp [wp]:
  assumes "ok s"
    and "\<And>b t. ok t \<Longrightarrow> left t = left s \<Longrightarrow> ps_cur t = ps_cur s \<Longrightarrow> Q b t"
  shows "wp starts_bound Q s"
  using assms by (auto simp: starts_bound_def intro!: wp)

lemma subrange_fine: "fine n (parse_subrange_type R l e)"
  by (auto simp: parse_subrange_type_def intro!: wp loops)

lemmas subrange_wp [wp] = subrange_fine [THEN good_wp]

lemma enum_member_starts: "starts n {Ident} (parse_enum_member R)"
  by (auto simp: parse_enum_member_def intro!: wp loops)

lemmas enum_member_wp [wp] = enum_member_starts [THEN good_wp]

lemma enum_fine: "fine n (parse_enum_type R l)"
  by (auto simp: parse_enum_type_def intro!: wp loops)

lemmas enum_wp [wp] = enum_fine [THEN good_wp]

lemma type_name_starts: "starts n {Ident} (parse_type_name R l)"
  by (auto simp: parse_type_name_def intro!: wp loops)

lemmas type_name_wp [wp] = type_name_starts [THEN good_wp]

lemma simple_type_fine: "fine n (parse_simple_type R)"
  by (auto simp: parse_simple_type_def intro!: wp loops)

lemmas simple_type_wp [wp] = simple_type_fine [THEN good_wp]

lemma array_starts: "starts n {KwArray} (parse_array_type R b)"
  by (auto simp: parse_array_type_def intro!: wp loops)

lemmas array_wp [wp] = array_starts [THEN good_wp]

lemma fields_start:
  "starts n {Ident} (parse_type_decl_from_current_ident R ctx i)"
  "starts n {Ident} (parse_field R ctx)"
  by (auto simp: parse_type_decl_from_current_ident_def parse_field_def intro!: wp loops)

lemmas fields_wp [wp] = fields_start [THEN good_wp]

lemma case_fields_fine: "fine n (parse_case_fields R)"
  by (auto simp: parse_case_fields_def intro!: wp loops)

lemmas case_fields_wp [wp] = case_fields_fine [THEN good_wp]

lemma variant_case_starts: "starts n (- {Eof}) (parse_variant_case R)"
  by (auto simp: parse_variant_case_def intro!: wp loops)

lemmas variant_case_wp [wp] = variant_case_starts [THEN good_wp]

lemma variant_part_fine: "fine n (parse_variant_part R)"
  by (auto simp: parse_variant_part_def intro!: wp loops)

lemmas variant_part_wp [wp] = variant_part_fine [THEN good_wp]

lemma record_visibility_eats: "good n UNIV (\<lambda>r _. r) skip_record_visibility"
  by (auto simp: skip_record_visibility_def intro!: wp loops)

lemmas record_visibility_wp [wp] = record_visibility_eats [THEN good_wp]

lemma record_members_start:
  "starts n {Ident} (record_field_step R a)"
  "starts n {Ident} (record_type_step R a)"
  by (auto simp: record_field_step_def record_type_step_def intro!: wp loops)

lemmas record_members_wp [wp] = record_members_start [THEN good_wp]

lemma record_step_steps: "steps n UNIV (record_step R a)"
  by (auto simp: record_step_def intro!: wp loops)

lemmas record_step_wp [wp] = record_step_steps [THEN good_wp]

lemma record_starts: "starts n {KwRecord} (parse_record_type R b)"
  by (auto simp: parse_record_type_def intro!: wp loops)

lemmas record_wp [wp] = record_starts [THEN good_wp]

subsection \<open>Objects and the remaining types\<close>

lemma object_parts_start:
  "starts n {Ident} (strict_step a)"
  "starts n (set routine_keywords) (method_step R b a)"
  by (auto simp: strict_step_def method_step_def intro!: wp loops)

lemmas object_parts_wp [wp] = object_parts_start [THEN good_wp]

lemma class_member_steps: "steps n {KwClass} (class_member_step R b a)"
  by (auto simp: class_member_step_def intro!: wp loops)

lemmas class_member_wp [wp] = class_member_steps [THEN good_wp]

lemma accessor_steps: "steps n UNIV (accessor_step R acc)"
  by (auto simp: accessor_step_def intro!: wp loops)

lemmas accessor_wp [wp] = accessor_steps [THEN good_wp]

lemma property_tail_fine: "fine n (property_tail R)" "fine n (parse_index_params R)"
  by (auto simp: property_tail_def parse_index_params_def intro!: wp loops)

lemma accessors_fine: "fine n (parse_accessors R)"
  by (rule goodI, unfold parse_accessors_def, intro wp wp_loop) (auto intro!: wp wp_loop)

lemmas property_tail_wp [wp] = property_tail_fine [THEN good_wp] accessors_fine [THEN good_wp]

lemma property_starts: "starts n {Ident} (parse_property R)"
  by (auto simp: parse_property_def intro!: wp loops)

lemmas property_wp [wp] = property_starts [THEN good_wp]

lemma object_members_start:
  "starts n {Ident} (property_step R a)"
  "starts n {Ident} (object_field_step R a)"
  "starts n {Ident} (object_type_step R a)"
  by (auto simp: property_step_def object_field_step_def object_type_step_def intro!: wp loops)

lemmas object_members_wp [wp] = object_members_start [THEN good_wp]

lemma object_step_steps: "steps n UNIV (object_step R b a)"
  by (auto simp: object_step_def object_marker_step_def skip_and_def intro!: wp loops)

lemmas object_step_wp [wp] = object_step_steps [THEN good_wp]

lemma interface_step_steps: "steps n UNIV (interface_step R ms)"
  by (auto simp: interface_step_def intro!: wp loops)

lemmas interface_step_wp [wp] = interface_step_steps [THEN good_wp]

lemma object_headers:
  "starts n {KwObject, KwClass} parse_object_keyword"
  "fine n (parse_parents R)"
  "fine n parse_interface_metadata"
  by (auto simp: parse_object_keyword_def skip_and_def parse_parents_def
      parse_interface_metadata_def intro!: wp loops)

lemmas object_headers_wp [wp] = object_headers [THEN good_wp]

lemma object_type_starts: "starts n {KwObject, KwClass} (parse_object_type R)"
  by (rule goodI, unfold parse_object_type_def, intro wp wp_loop) (auto intro!: wp wp_loop)

lemma interface_starts: "starts n {KwInterface} (parse_interface_type R)"
  by (rule goodI, unfold parse_interface_type_def, intro wp wp_loop) (auto intro!: wp wp_loop)

lemma procedural_starts: "starts n {KwProcedure, KwFunction} (parse_procedural_type R)"
  by (rule goodI, unfold parse_procedural_type_def, intro wp wp_loop) (auto intro!: wp wp_loop)

lemma small_types_start:
  "starts n {KwSet} (parse_set_type R)"
  "starts n {KwFile} (parse_file_type R)"
  "starts n {KwString, KwShortstring} (parse_string_type R l)"
  by (auto simp: parse_set_type_def parse_file_type_def parse_string_type_def intro!: wp loops)

lemmas types_wp [wp] = object_type_starts [THEN good_wp] interface_starts [THEN good_wp]
  procedural_starts [THEN good_wp] small_types_start [THEN good_wp]

lemma class_type_starts: "starts n {KwClass} (parse_class_type R)"
  by (auto simp: parse_class_type_def intro!: wp loops)

lemmas class_type_wp [wp] = class_type_starts [THEN good_wp]

lemma type_at_fine: "good n {k} (\<lambda>_ _. False) (parse_type_at R l b k)"
  by (auto simp: parse_type_at_def intro!: wp loops)

lemmas type_at_wp [wp] = type_at_fine [THEN good_wp]

lemma type_fine: "fine n (parse_type R)"
  by (auto simp: parse_type_def intro!: wp loops)

lemmas type_wp [wp] = type_fine [THEN good_wp]

end

end
