(* ===== verification/Parse_Total_Decl.thy ===== *)
theory Parse_Total_Decl
  imports Parse_Total_Types
begin

text \<open>
  Declarations end, the knot satisfies the contract of \<open>parsers_ok\<close> at every level, and a
  parser run on a token stream never runs out of fuel.
\<close>

context parsers_ok
begin

lemma consts_fine:
  "k < n \<Longrightarrow> fine k (parse_record_const R l)"
  "k < n \<Longrightarrow> fine k (parse_array_const R l tt)"
  by (auto simp: parse_record_const_def parse_array_const_def intro!: wp loops)

lemmas consts_wp [wp] = consts_fine [THEN good_wp]

lemma const_value_fine: "fine n (parse_const_value R tt)"
  by (auto simp: parse_const_value_def intro!: wp loops)

lemmas const_value_wp [wp] = const_value_fine [THEN good_wp]

lemma const_decl_starts: "starts n {Ident} (parse_const_decl R)"
  by (auto simp: parse_const_decl_def intro!: wp loops)

lemmas const_decl_wp [wp] = const_decl_starts [THEN good_wp]

lemma tails_start: "starts n {Ident} parse_absolute_tail" "starts n {Ident} parse_external_tail"
  by (auto simp: parse_absolute_tail_def parse_external_tail_def intro!: wp loops)

lemmas tails_wp [wp] = tails_start [THEN good_wp]

lemma var_tail_fine: "fine n (parse_var_tail R tt)"
  by (auto simp: parse_var_tail_def intro!: wp loops)

lemmas var_tail_wp [wp] = var_tail_fine [THEN good_wp]

lemma var_decl_starts: "starts n {Ident} (parse_var_decl R)"
  by (auto simp: parse_var_decl_def intro!: wp loops)

lemmas var_decl_wp [wp] = var_decl_starts [THEN good_wp]

lemma sections_start:
  "starts n {KwConst} (parse_const_section R)"
  "starts n {KwType} (parse_type_section R)"
  "starts n {KwVar} (parse_var_section R)"
  "starts n {KwLabel} (parse_label_section R)"
  by (auto simp: parse_const_section_def parse_type_section_def parse_var_section_def
      parse_label_section_def intro!: wp loops)

lemmas sections_wp [wp] = sections_start [THEN good_wp]

lemma note_fine: "fine k (note_parsed_declaration b d)"
  by (auto simp: note_parsed_declaration_def intro!: wp loops)

lemma note_all_wp [wp]:
  "ok s \<Longrightarrow> (\<And>t. ok t \<Longrightarrow> left t \<le> left s \<Longrightarrow> Q () t) \<Longrightarrow> wp (note_all b ds) Q s"
proof (induction ds arbitrary: s)
  case Nil
  then show ?case by (auto intro!: wp)
next
  case (Cons d ds)
  then show ?case by (auto intro!: wp good_wp [OF note_fine])
qed

lemmas note_wp [wp] = note_fine [THEN good_wp]

lemma section_step_starts: "starts n T p \<Longrightarrow> starts n T (section_step b p out)"
  by (auto simp: section_step_def intro!: wp loops elim!: good_wp)

lemma routine_step_starts: "starts n T p \<Longrightarrow> starts n T (routine_step b p out)"
  by (auto simp: routine_step_def intro!: wp loops elim!: good_wp)

lemma type_section_step_starts: "starts n {KwType} (type_section_step R b out)"
  by (auto simp: type_section_step_def intro!: wp loops)

lemmas type_section_step_wp [wp] = type_section_step_starts [THEN good_wp]

lemma class_routine_steps: "steps n {KwClass} (class_routine_step R b out)"
  by (auto simp: class_routine_step_def routine_step_def intro!: wp loops)

lemmas class_routine_wp [wp] = class_routine_steps [THEN good_wp]

lemma decl_block_step_steps: "steps n UNIV (decl_block_step R b out)"
  by (auto simp: decl_block_step_def section_step_def routine_step_def intro!: wp loops)

lemmas decl_block_step_wp [wp] = decl_block_step_steps [THEN good_wp]

lemma decl_block_fine: "fine n (parse_decl_block R b)"
  by (auto simp: parse_decl_block_def intro!: wp loops)

lemmas decl_block_wp [wp] = decl_block_fine [THEN good_wp]

lemma all_fine:
  "fine n (parse_expr R)" "fine n (parse_factor R)" "fine n (parse_type R)"
  "fine n (parse_statement R)" "fine n (parse_const_value R tt)" "fine n (parse_variant_part R)"
  "fine n (parse_decl_block R b)"
  using expr_eats factor_eats type_fine statement_fine const_value_fine variant_part_fine
    decl_block_fine
  by (auto simp: good_def elim!: wp_mono)

subsection \<open>Compilation units\<close>

lemma uses_fine: "fine n (parse_uses_clause R)"
  by (auto simp: parse_uses_clause_def intro!: wp loops)

lemmas uses_wp [wp] = uses_fine [THEN good_wp]

lemma unit_parts_fine:
  "fine n (parse_optional_uses R ctx)"
  "fine n (parse_program_params R)"
  "starts n {KwBegin} (parse_body_only R)"
  by (auto simp: parse_optional_uses_def parse_program_params_def parse_body_only_def
      intro!: wp loops)

lemma unit_tail_fine: "fine n (parse_unit_tail R)"
  by (auto simp: parse_unit_tail_def intro!: wp loops)

lemmas unit_parts_wp [wp] = unit_parts_fine [THEN good_wp] unit_tail_fine [THEN good_wp]

lemma program_fine: "fine n (parse_program R)"
  by (rule goodI, unfold parse_program_def, intro wp) (auto intro!: wp)

lemma unit_interface_fine: "fine n (parse_unit_interface R)"
  by (rule goodI, unfold parse_unit_interface_def, intro wp) (auto intro!: wp)

lemma unit_implementation_fine: "fine n (parse_unit_implementation R)"
  by (rule goodI, unfold parse_unit_implementation_def, intro wp) (auto intro!: wp)

lemmas units_wp [wp] = program_fine [THEN good_wp] unit_interface_fine [THEN good_wp]
  unit_implementation_fine [THEN good_wp]

lemma source_fine: "fine n (parse_source R)"
  by (auto simp: parse_source_def parse_unit_def intro!: wp loops)

end

subsection \<open>The knot\<close>

lemma good_less: "good n T P m \<Longrightarrow> k \<le> n \<Longrightarrow> good k T P m"
  by (auto simp: good_def)

lemma parsers_ok_knot: "parsers_ok (knot n) n"
proof (induction n)
  case 0
  show ?case by unfold_locales auto
next
  case (Suc n)
  from parsers_ok.all_fine [OF Suc] show ?case
    by unfold_locales (auto simp: Let_def less_Suc_eq_le intro: good_less)
qed

interpretation knot: parsers_ok "knot n" n for n
  by (rule parsers_ok_knot)

lemma left_new_parser: "left (new_parser toks m b) \<le> length toks"
  "out_of_fuel (new_parser toks m b) = False"
proof -
  let ?t = "new_parser toks m b"
  have "wp advance (\<lambda>_ t. ok t \<and> left t \<le> length toks)
      \<lparr>ps_rest = toks, ps_eof = (if toks = [] then no_location else tok_loc (fst (last toks))),
       ps_modes = m, ps_cur = token_at Eof no_location [], ps_peek = None, ps_diags = [],
       decl_block_depth = 0, next_type_section_id = 1, has_actions = b, ps_actions = [],
       partial_unit = None, out_of_fuel = False\<rparr>"
    by (rule wp_advance)
      (auto simp: left_def stream_def intro: order_trans [OF _ order_trans [OF length_filter_le]])
  then show "left ?t \<le> length toks" "out_of_fuel ?t = False"
    by (auto simp: new_parser_def wp_def split: prod.splits)
qed

end
