(* ===== verification/Parse_Facts.thy ===== *)
theory Parse_Facts
  imports Parse_Frame Parse_Total_Decl "HOL-Library.Sublist"
begin

text \<open>
  What a run of the parser does to its state as a whole: it ends with fuel to spare, it
  keeps every report of the lexer, it restores the nesting depth, and the semantic actions
  are told exactly what ends up in the tree.
\<close>

subsection \<open>Termination\<close>

lemma parse_not_out_of_fuel: "\<not> out_of_fuel (snd (parse toks m b))"
proof -
  let ?s = "new_parser toks m b"
  have "fine (length toks) (parse_source (knot (length toks)))"
    by (rule knot.source_fine)
  from good_wp [OF this, of ?s "\<lambda>_ t. ok t"] left_new_parser [of toks m b] show ?thesis
    by (auto simp: parse_def wp_def split: prod.splits)
qed

subsection \<open>Reports, tokens, section numbers\<close>

text \<open>The reports the lexer made while it scanned these tokens.\<close>

definition lexer_reports :: "lexed list \<Rightarrow> diag list" where
  "lexer_reports toks = concat (map (\<lambda>(_, _, ds). ds) toks)"

definition progressed :: "pstate \<Rightarrow> pstate \<Rightarrow> bool" where
  "progressed s t \<longleftrightarrow> next_type_section_id s \<le> next_type_section_id t \<and>
     decl_block_depth t = decl_block_depth s \<and>
     (\<exists>k ds. ps_rest t = drop k (ps_rest s) \<and> ps_diags t = ps_diags s @ ds \<and>
        subseq (lexer_reports (take k (ps_rest s))) ds)"

lemma progressedI:
  "next_type_section_id s \<le> next_type_section_id t \<Longrightarrow> decl_block_depth t = decl_block_depth s \<Longrightarrow>
   ps_rest t = drop k (ps_rest s) \<Longrightarrow> ps_diags t = ps_diags s @ ds \<Longrightarrow>
   subseq (lexer_reports (take k (ps_rest s))) ds \<Longrightarrow> progressed s t"
  by (auto simp: progressed_def)

lemma lexer_reports_append: "lexer_reports (a @ b) = lexer_reports a @ lexer_reports b"
  by (simp add: lexer_reports_def)

lemma progressed_trans: "progressed s t \<Longrightarrow> progressed t u \<Longrightarrow> progressed s u"
  unfolding progressed_def
proof (elim conjE exE, intro conjI exI)
  fix k ds j es
  assume *: "ps_rest t = drop k (ps_rest s)" "ps_diags t = ps_diags s @ ds"
    "subseq (lexer_reports (take k (ps_rest s))) ds"
    "ps_rest u = drop j (ps_rest t)" "ps_diags u = ps_diags t @ es"
    "subseq (lexer_reports (take j (ps_rest t))) es"
  then show "ps_rest u = drop (k + j) (ps_rest s)" "ps_diags u = ps_diags s @ (ds @ es)"
    by (simp_all add: add.commute)
  from * show "subseq (lexer_reports (take (k + j) (ps_rest s))) (ds @ es)"
    by (simp add: take_add lexer_reports_append list_emb_append_mono)
qed auto

lemma progressed_lex_pull: "progressed s (snd (run_state lex_pull s))"
proof (cases "ps_rest s")
  case Nil
  then show ?thesis
    by (intro progressedI [of _ _ 0 "[]"]) (auto simp: lex_pull_def lexer_reports_def)
next
  case (Cons x xs)
  obtain a b c where "x = (a, b, c)" by (cases x) auto
  with Cons show ?thesis
    by (intro progressedI [of _ _ 1 c]) (auto simp: lex_pull_def lexer_reports_def)
qed

lemma progressed_same:
  "next_type_section_id s \<le> next_type_section_id t \<Longrightarrow> decl_block_depth t = decl_block_depth s \<Longrightarrow>
   ps_rest t = ps_rest s \<Longrightarrow> ps_diags t = ps_diags s @ ds \<Longrightarrow> progressed s t"
  by (intro progressedI [of _ _ 0 ds]) (auto simp: lexer_reports_def)

interpretation progress: unit_frame progressed
proof unfold_locales
  fix s t u
  show "progressed s s" by (rule progressed_same [of _ _ "[]"]) auto
  show "progressed s t \<Longrightarrow> progressed t u \<Longrightarrow> progressed s u" by (rule progressed_trans)
next
  fix s
  show "progressed s (snd (run_state advance s))"
  proof (cases "ps_peek s")
    case None
    moreover have "progressed (snd (run_state lex_pull s))
        ((snd (run_state lex_pull s))\<lparr>ps_cur := fst (run_state lex_pull s)\<rparr>)"
      by (rule progressed_same [of _ _ "[]"]) auto
    ultimately show ?thesis
      using progressed_trans [OF progressed_lex_pull [of s]]
      by (auto simp: advance_def field_def split: prod.splits)
  next
    case (Some x)
    then show ?thesis
      by (intro progressed_same [of _ _ "[]"]) (auto simp: advance_def field_def)
  qed
  show "progressed s (snd (run_state peek_token s))"
  proof (cases "ps_peek s")
    case None
    moreover have "progressed (snd (run_state lex_pull s))
        ((snd (run_state lex_pull s))\<lparr>ps_peek := Some (fst (run_state lex_pull s))\<rparr>)"
      by (rule progressed_same [of _ _ "[]"]) auto
    ultimately show ?thesis
      using progressed_trans [OF progressed_lex_pull [of s]]
      by (auto simp: peek_token_def field_def split: prod.splits)
  next
    case (Some x)
    then show ?thesis
      by (intro progressed_same [of _ _ "[]"]) (auto simp: peek_token_def field_def)
  qed
next
  fix s t :: pstate
  assume "progressed (s\<lparr>decl_block_depth := Suc (decl_block_depth s)\<rparr>) t"
  then show "progressed s (t\<lparr>decl_block_depth := decl_block_depth t - 1\<rparr>)"
    by (auto simp: progressed_def)
qed (auto intro: progressed_same)

subsection \<open>Properties\<close>

text \<open>
  C1. The parser terminates on every token stream, whatever its errors: the fuel \<open>parse\<close>
  passes never runs out, and no amount of further fuel changes the result, so the result is
  that of the unbounded recursion and of the unbounded loops of the source.
\<close>

theorem parse_terminates:
  "\<not> out_of_fuel (snd (parse toks m b)) \<and>
   run_state (parse_source (knot (length toks + k))) (new_parser toks m b) = parse toks m b"
  using parse_not_out_of_fuel [of toks m b] progress.parse_more_fuel [of toks "length toks + k" m b]
  by simp

text \<open>
  No report of the lexer is lost: what the parser has read is a prefix of the stream,
  and the reports that came with it are in the parser's log, in order. The next type section
  number is at least 1 and every declaration block that was entered is left again.
\<close>

theorem lexer_reports_kept:
  "let t = snd (parse toks m b) in
     (\<exists>k. ps_rest t = drop k toks \<and> subseq (lexer_reports (take k toks)) (ps_diags t)) \<and>
     1 \<le> next_type_section_id t \<and> decl_block_depth t = 0"
proof -
  let ?i = "\<lparr>ps_rest = toks, ps_eof = (if toks = [] then no_location else tok_loc (fst (last toks))),
    ps_modes = m, ps_cur = token_at Eof no_location [], ps_peek = None, ps_diags = [],
    decl_block_depth = 0, next_type_section_id = 1, has_actions = b, ps_actions = [],
    partial_unit = None, out_of_fuel = False\<rparr>"
  have "progressed ?i (new_parser toks m b)"
    unfolding new_parser_def by (rule progress.rel_advance)
  then have "progressed ?i (snd (parse toks m b))"
    using progress.parse_keeps by (rule progressed_trans)
  then show ?thesis by (auto simp: progressed_def Let_def)
qed

end
