(* ===== verification/Parse_Actions.thy ===== *)
theory Parse_Actions
  imports Parse_Facts
begin

text \<open>
  The semantic actions mirror the tree: the declarations announced to
  \<open>ParserSemanticActions\<close> are those of the finished unit, in order, each once, and only the
  ones of the outermost block of a section. Nested blocks (locals of routines, types in
  object bodies) announce nothing, because the nesting depth is not 1 there.
\<close>

subsection \<open>What is announced\<close>

fun announced :: "bool \<Rightarrow> action \<Rightarrow> decl list option" where
  "announced b (Declaration d c) = (if b = c then Some [d] else None)"
| "announced b (TypeSection ds c) = (if b = c then Some ds else None)"
| "announced b _ = None"

definition announcements :: "bool \<Rightarrow> action list \<Rightarrow> decl list option" where
  "announcements b as = map_option concat (those (map (announced b) as))"

lemma those_append: "those (xs @ ys) =
    (case (those xs, those ys) of (Some a, Some b) \<Rightarrow> Some (a @ b) | _ \<Rightarrow> None)"
  by (induction xs) (auto split: option.splits)

lemma announcements_append:
  "announcements b as = Some ds \<Longrightarrow> announcements b cs = Some es \<Longrightarrow>
   announcements b (as @ cs) = Some (ds @ es)"
  by (auto simp: announcements_def those_append)

lemma announcements_simps [simp]:
  "announcements b [] = Some []"
  "announcements b [Declaration d b] = Some [d]"
  "announcements b [TypeSection ds b] = Some ds"
  by (simp_all add: announcements_def)

text \<open>The log of a program and of a unit.\<close>

definition program_log :: "unit_node \<Rightarrow> action list \<Rightarrow> bool" where
  "program_log p as \<longleftrightarrow> (\<exists>ds.
     as = [BeginUnit (un_name p) True, ImportUnits (un_impl_uses p) False] @ ds @ [FinishUnit p] \<and>
     announcements False ds = Some (un_impl_decls p))"

definition unit_log :: "unit_node \<Rightarrow> action list \<Rightarrow> bool" where
  "unit_log u as \<longleftrightarrow> (\<exists>ds es.
     as = [BeginUnit (un_name u) False, ImportUnits (un_interface_uses u) True] @ ds @
          [ImportUnits (un_impl_uses u) False] @ es @ [FinishUnit u] \<and>
     announcements True ds = Some (un_interface_decls u) \<and>
     announcements False es = Some (un_impl_decls u))"

subsection \<open>Where nothing is announced\<close>

abbreviation same_depth :: "pstate \<Rightarrow> pstate \<Rightarrow> bool" where
  "same_depth s t \<equiv> decl_block_depth t = decl_block_depth s \<and> has_actions t = has_actions s \<and>
     partial_unit t = partial_unit s"

text \<open>Statements and expressions announce nothing.\<close>

definition silent :: "pstate \<Rightarrow> pstate \<Rightarrow> bool" where
  "silent s t \<longleftrightarrow> same_depth s t \<and> ps_actions t = ps_actions s"

text \<open>Below depth 1 nothing is announced.\<close>

definition silent_from :: "nat \<Rightarrow> pstate \<Rightarrow> pstate \<Rightarrow> bool" where
  "silent_from k s t \<longleftrightarrow>
     same_depth s t \<and> (k \<le> decl_block_depth s \<longrightarrow> ps_actions t = ps_actions s)"

lemma frame_advance:
  "silent s (snd (run_state advance s))" "silent s (snd (run_state peek_token s))"
  by (auto simp: silent_def advance_def peek_token_def field_def lex_pull_def
      split: option.splits list.splits)

lemma silent_from: "silent s t \<Longrightarrow> silent_from k s t"
  by (simp add: silent_def silent_from_def)

interpretation quiet: parser_frame silent
  by unfold_locales (auto intro: frame_advance, auto simp: silent_def)

interpretation shallow: parser_frame "silent_from (Suc 0)"
  by unfold_locales (auto intro: silent_from frame_advance, auto simp: silent_from_def)

interpretation deep: block_frame "silent_from 2"
  by unfold_locales (auto intro: silent_from frame_advance, auto simp: silent_from_def)

lemma shallow_decl_block:
  "shallow.keeps (parse_decl_block (knot n) b) (parse_decl_block (knot n) b)"
proof (rule shallow.keepsI)
  fix s :: pstate
  let ?m = "loop (r_fuel (knot n)) (decl_block_step (knot n) b) []"
  let ?s = "s\<lparr>decl_block_depth := Suc (decl_block_depth s)\<rparr>"
  have "deep.keeps ?m ?m"
    using deep.parsers_keep_knot [of n n] by (auto intro!: deep.keeps_loop deep.keeps_block_step)
  from deep.keepsD [OF this, of ?s]
  have "silent_from 2 ?s (snd (run_state ?m ?s))"
    "out_of_fuel ?s \<longrightarrow> out_of_fuel (snd (run_state ?m ?s))" by auto
  then show "silent_from (Suc 0) s (snd (run_state (parse_decl_block (knot n) b) s)) \<and>
    (out_of_fuel s \<longrightarrow> out_of_fuel (snd (run_state (parse_decl_block (knot n) b) s))) \<and>
    (out_of_fuel (snd (run_state (parse_decl_block (knot n) b) s)) \<or>
     run_state (parse_decl_block (knot n) b) s = run_state (parse_decl_block (knot n) b) s)"
    by (auto simp: parse_decl_block_def change_depth_def silent_from_def split: prod.splits)
qed

lemma shallow_knot: "shallow.parsers_keep (knot n) (knot n)"
proof (induction n)
  case 0
  with shallow.stmts_keep_knot [of 0 0] show ?case
    by (auto simp: shallow.parsers_keep_def intro!: shallow.keeps_run_out)
next
  case (Suc n)
  with shallow.stmts_keep_knot [of "Suc n" "Suc n"] show ?case
    by (subst shallow.parsers_keep_def)
      (auto simp: Let_def intro: shallow.keeps_type shallow.keeps_const_value
        shallow.keeps_variant_part shallow_decl_block)
qed

subsection \<open>What a block announces\<close>

definition announces :: "bool \<Rightarrow> decl list \<Rightarrow> pstate \<Rightarrow> pstate \<Rightarrow> bool" where
  "announces b ds s t \<longleftrightarrow> same_depth s t \<and>
     (\<exists>as. ps_actions t = ps_actions s @ as \<and> announcements b as = Some ds)"

lemma announces_silent:
  "announces b ds s t \<Longrightarrow> silent t u \<Longrightarrow> announces b ds s u"
  "silent s t \<Longrightarrow> announces b ds t u \<Longrightarrow> announces b ds s u"
  "silent s t \<Longrightarrow> announces b [] s t"
  by (auto simp: announces_def silent_def)

lemma announces_trans: "announces b ds s t \<Longrightarrow> announces b es t u \<Longrightarrow> announces b (ds @ es) s u"
  unfolding announces_def by (metis announcements_append append_assoc)

lemma shallow_wp:
  assumes "shallow.keeps m m" "1 \<le> decl_block_depth s" "\<And>a t. silent s t \<Longrightarrow> Q a t"
  shows "wp m Q s"
  using shallow.keepsD [OF assms(1), of s] assms(2,3)
  by (auto simp: wp_def silent_def silent_from_def split: prod.splits)

lemma quiet_wp:
  assumes "quiet.keeps m m" "\<And>a t. silent s t \<Longrightarrow> Q a t"
  shows "wp m Q s"
  using quiet.keepsD [OF assms(1), of s] assms(2) by (auto simp: wp_def split: prod.splits)

lemma note_wp:
  assumes "decl_block_depth s = 1" "has_actions s"
    and "\<And>t. announces b [d] s t \<Longrightarrow> Q () t"
  shows "wp (note_parsed_declaration b d) Q s"
  using assms by (auto simp: note_parsed_declaration_def wp_def field_def only_if_def act_def
      announces_def)

lemma note_all_announces:
  assumes "decl_block_depth s = 1" "has_actions s"
    and "\<And>t. announces b ds s t \<Longrightarrow> Q () t"
  shows "wp (note_all b ds) Q s"
  using assms
proof (induction ds arbitrary: s)
  case Nil
  then show ?case by (auto simp: announces_def intro!: wp_return)
next
  case (Cons d ds)
  have "wp (note_all b ds) Q t" if t: "announces b [d] s t" for t
  proof (rule Cons.IH)
    from t Cons.prems show "decl_block_depth t = 1" "has_actions t" by (auto simp: announces_def)
    show "Q () u" if "announces b ds t u" for u
      using announces_trans [OF t that] by (intro Cons.prems(3)) simp
  qed
  with Cons.prems(1,2) show ?case by (auto intro!: wp_bind note_wp)
qed

lemma section_announces:
  assumes "shallow.keeps p p" "decl_block_depth s = 1" "has_actions s"
  shows "wp (section_step b p out) (\<lambda>r t. \<exists>ds. announces b ds s t \<and> snd r = out @ ds) s"
  unfolding section_step_def using assms
  by (intro wp_bind shallow_wp [OF assms(1)] note_all_announces wp_return)
    (auto simp: silent_def announces_def)

lemma routine_announces:
  assumes "shallow.keeps p p" "decl_block_depth s = 1" "has_actions s"
  shows "wp (routine_step b p out) (\<lambda>r t. \<exists>ds. announces b ds s t \<and> snd r = out @ ds) s"
  unfolding routine_step_def using assms
  by (intro wp_bind shallow_wp [OF assms(1)] note_wp wp_return)
    (auto simp: silent_def announces_def)

lemma type_section_announces:
  assumes "decl_block_depth s = 1" "has_actions s"
  shows "wp (type_section_step (knot n) b out)
    (\<lambda>r t. \<exists>ds. announces b ds s t \<and> snd r = out @ ds) s"
  unfolding type_section_step_def
  by (intro wp_bind shallow_wp [OF shallow.keeps_sections(2) [OF shallow_knot]])
    (use assms in \<open>auto simp: wp_def field_def only_if_def act_def announces_def silent_def\<close>)

lemma nothing_announced:
  assumes "silent s t"
  shows "wp (return (go, out)) (\<lambda>r t. \<exists>ds. announces b ds s t \<and> snd r = out @ ds) t"
  using assms by (auto intro!: wp_return intro: announces_silent)

lemma class_routine_announces:
  assumes "decl_block_depth s = 1" "has_actions s"
  shows "wp (class_routine_step (knot n) b out)
    (\<lambda>r t. \<exists>ds. announces b ds s t \<and> snd r = out @ ds) s"
proof -
  let ?m = "do { advance; k \<leftarrow> cur_kind;
    parse_proc_decl (knot n) (proc_kind_of k) b True False }"
  have m: "shallow.keeps ?m ?m"
    using shallow_knot by (auto intro!: shallow.keeps_bind shallow.keeps_simple
        shallow.keeps_reads shallow.keeps_proc_decl)
  have "wp (routine_step b ?m out) (\<lambda>r u. \<exists>ds. announces b ds s u \<and> snd r = out @ ds) t"
    if "silent s t" for t
    using routine_announces [OF m, of t b out] assms that
    by (auto simp: silent_def announces_def elim!: wp_mono)
  then show ?thesis
    unfolding class_routine_step_def
    by (intro wp_branch quiet_wp [OF quiet.keeps_reads(17)])
      (auto intro!: nothing_announced [THEN wp_mono])
qed

lemma block_step_announces:
  assumes "decl_block_depth s = 1" "has_actions s"
  shows "wp (decl_block_step (knot n) b out)
    (\<lambda>r t. \<exists>ds. announces b ds s t \<and> snd r = out @ ds) s"
  unfolding decl_block_step_def using assms shallow_knot [of n]
  by (intro wp_bind wp_reads wp_split section_announces type_section_announces
      routine_announces class_routine_announces)
    (auto intro!: nothing_announced shallow.keeps_sections shallow.keeps_proc_decl
      simp: silent_def)

lemma block_loop_announces:
  assumes "decl_block_depth s = 1" "has_actions s"
  shows "wp (loop k (decl_block_step (knot n) b) out)
    (\<lambda>r t. \<exists>ds. announces b ds s t \<and> r = out @ ds) s"
  using assms
proof (induction k arbitrary: out s)
  case 0
  then show ?case by (auto simp: run_out_def wp_def announces_def)
next
  case (Suc k)
  have "wp (loop k (decl_block_step (knot n) b) (out @ ds))
      (\<lambda>r u. \<exists>ds. announces b ds s u \<and> r = out @ ds) t" if t: "announces b ds s t" for ds t
  proof -
    from t Suc.prems have "decl_block_depth t = 1" "has_actions t" by (auto simp: announces_def)
    from Suc.IH [OF this] show ?thesis
      by (rule wp_mono) (use announces_trans [OF t] in auto)
  qed
  with Suc.prems show ?case
    by (auto intro!: wp_bind wp_split wp_return block_step_announces [THEN wp_mono])
qed

lemma decl_block_announces:
  assumes "decl_block_depth s = 0" "has_actions s"
  shows "wp (parse_decl_block (knot n) b) (\<lambda>ds t. announces b ds s t) s"
proof -
  let ?s = "s\<lparr>decl_block_depth := 1\<rparr>"
  have "wp (loop (r_fuel (knot n)) (decl_block_step (knot n) b) [])
      (\<lambda>r t. \<exists>ds. announces b ds ?s t \<and> r = [] @ ds) ?s"
    using assms by (intro block_loop_announces) auto
  with assms show ?thesis
    by (auto simp: parse_decl_block_def wp_def change_depth_def announces_def split: prod.splits)
qed

subsection \<open>Units\<close>

lemmas quiet_stmts = quiet.stmts_keep_knot [OF order_refl]

lemma quiet_unit_parts:
  "quiet.keeps (parse_optional_uses (knot n) ctx) (parse_optional_uses (knot n) ctx)"
  "quiet.keeps (parse_program_params (knot n)) (parse_program_params (knot n))"
  "quiet.keeps (parse_unit_tail (knot n)) (parse_unit_tail (knot n))"
  "quiet.keeps (parse_body_only (knot n)) (parse_body_only (knot n))"
  "quiet.keeps (optionally (check k) (parse_compound_statement (knot n)))
     (optionally (check k) (parse_compound_statement (knot n)))"
  using quiet_stmts [of n]
  by (auto intro!: quiet.keeps_optional_uses quiet.keeps_combinators quiet.keeps_reads
      quiet.keeps_stmt_block)

lemmas quiet_rules = quiet.keeps_reads [THEN quiet_wp] quiet.keeps_steps [THEN quiet_wp]
  quiet.keeps_names [THEN quiet_wp] quiet_unit_parts [THEN quiet_wp]

lemma act_wp:
  "has_actions s \<Longrightarrow> (\<And>t. same_depth s t \<Longrightarrow> ps_actions t = ps_actions s @ [a] \<Longrightarrow> Q () t) \<Longrightarrow>
   wp (act a) Q s"
  by (simp add: wp_def act_def)

lemma block_wp:
  "decl_block_depth s = 0 \<Longrightarrow> has_actions s \<Longrightarrow> (\<And>ds t. announces b ds s t \<Longrightarrow> Q ds t) \<Longrightarrow>
   wp (parse_decl_block (knot n) b) Q s"
  using decl_block_announces by (rule wp_mono)

lemma program_actions:
  assumes "decl_block_depth s = 0" "has_actions s" "ps_actions s = []"
  shows "wp (parse_program (knot n)) (\<lambda>p t. program_log p (ps_actions t)) s"
  unfolding parse_program_def Let_def
  by (intro wp_bind quiet_rules act_wp block_wp wp_return)
    (use assms in \<open>auto simp: silent_def announces_def program_log_def\<close>)

text \<open>The part of a unit's log that its interface section makes.\<close>

definition interface_log :: "unit_node \<Rightarrow> action list \<Rightarrow> bool" where
  "interface_log u as \<longleftrightarrow> (\<exists>ds.
     as = [BeginUnit (un_name u) False, ImportUnits (un_interface_uses u) True] @ ds \<and>
     announcements True ds = Some (un_interface_decls u))"

lemma modify_wp: "Q () (f s) \<Longrightarrow> wp (modify f) Q s"
  by (simp add: wp_def)

lemma unit_log_intro:
  "interface_log u as \<Longrightarrow> announcements False es = Some ds \<Longrightarrow>
   v = UnitNode l (un_name u) (un_interface_uses u) (un_interface_decls u) us ds i f b \<Longrightarrow>
   unit_log v (as @ ImportUnits us False # es @ [FinishUnit v])"
  unfolding interface_log_def unit_log_def by (elim exE conjE, intro exI conjI) auto

lemma interface_actions:
  assumes "decl_block_depth s = 0" "has_actions s" "ps_actions s = []" "partial_unit s = None"
  shows "wp (parse_unit_interface (knot n)) (\<lambda>r t. \<exists>u. r = Some u \<and> partial_unit t = Some u \<and>
    interface_log u (ps_actions t) \<and> decl_block_depth t = 0 \<and> has_actions t) s"
  unfolding parse_unit_interface_def Let_def
  by (intro wp_bind wp_field wp_split quiet_rules act_wp block_wp modify_wp wp_return)
    (use assms in \<open>auto simp: silent_def announces_def interface_log_def\<close>)

lemma implementation_actions:
  assumes "decl_block_depth s = 0" "has_actions s" "partial_unit s = Some u"
    "interface_log u (ps_actions s)"
  shows "wp (parse_unit_implementation (knot n))
    (\<lambda>r t. \<exists>v. r = Some v \<and> unit_log v (ps_actions t)) s"
  unfolding parse_unit_implementation_def Let_def
  by (intro wp_bind wp_field wp_split quiet_rules act_wp block_wp modify_wp wp_return)
    (use assms in \<open>auto simp: silent_def announces_def intro!: unit_log_intro\<close>)

definition source_log :: "tok \<Rightarrow> unit_node \<Rightarrow> action list \<Rightarrow> bool" where
  "source_log k u as \<longleftrightarrow>
     (if k = KwUnit then unit_log u as
      else if k = KwProgram then program_log u as
      else as = [])"

lemma source_actions:
  assumes "decl_block_depth s = 0" "has_actions s" "ps_actions s = []" "partial_unit s = None"
  shows "wp (parse_source (knot n))
    (\<lambda>r t. \<forall>u. r = Some u \<longrightarrow> source_log (kind s) u (ps_actions t)) s"
proof -
  have unit: "wp (parse_unit (knot n)) (\<lambda>r t. \<forall>u. r = Some u \<longrightarrow> unit_log u (ps_actions t)) s"
    unfolding parse_unit_def using assms
    by (intro wp_bind interface_actions [THEN wp_mono])
      (auto intro!: wp_split wp_return implementation_actions [THEN wp_mono])
  show ?thesis unfolding parse_source_def
    by (intro wp_bind wp_reads wp_split quiet_rules)
      (use assms unit program_actions [OF assms(1-3)] in
        \<open>auto simp: source_log_def silent_def wp_def report_def\<close>)
qed

lemma new_parser_fields:
  "decl_block_depth (new_parser toks m b) = 0" "has_actions (new_parser toks m b) = b"
  "ps_actions (new_parser toks m b) = []" "partial_unit (new_parser toks m b) = None"
  using frame_advance(1) by (auto simp: new_parser_def silent_def)

text \<open>
  C7. A listener is told exactly what ends up in the tree. For a unit the log is: the begin
  of the unit, the interface imports, its interface declarations, the implementation
  imports, its implementation declarations, the finished unit; for a program the same with
  one section. The announced declarations, concatenated, are those of the tree, each once and
  in order. A source without a header announces nothing.
\<close>

theorem actions_mirror_tree:
  "case parse toks m True of (r, t) \<Rightarrow>
     (case r of
        None \<Rightarrow> True
      | Some u \<Rightarrow> source_log (tok_kind (ps_cur (new_parser toks m True))) u (ps_actions t))"
  using source_actions [of "new_parser toks m True" "length toks"]
  by (auto simp: new_parser_fields parse_def wp_def split: prod.splits option.splits)

end
