(* ===== verification/Unit_Graph.thy ===== *)
theory Unit_Graph
  imports Ast "HOL-Library.DAList" "HOL-Library.List_Lexorder" "HOL-Library.Char_ord"
begin

text \<open>
  The graph of compilation units: the part of \<open>UnitGraph\<close> (\<open>src/units.h\<close>, \<open>src/units.cc\<close>,
  lines 310--457) that runs when every unit has been parsed. It propagates failures along
  the \<open>uses\<close> clauses and sorts the units so that each one follows the interfaces it uses.

  \<open>units_\<close> is an \<open>unordered_map\<close>. The model keeps its entries in the order an iteration over
  it visits them, as an association list without duplicate keys; no theorem depends on
  that order. \<open>std::string\<close> compares its bytes from the left, which is the lexicographic
  order of the library on lists of characters.
\<close>

subsection \<open>Units\<close>

record parsed_unit =
  pu_name :: string
  pu_path :: string
  pu_ast :: "unit_node option"
  pu_ok :: bool

type_synonym units = "(string, parsed_unit) alist"

definition entries :: "units \<Rightarrow> (string \<times> parsed_unit) list" where
  "entries us = DAList.impl_of us"

definition unit_keys :: "units \<Rightarrow> string list" where
  "unit_keys us = map fst (entries us)"

definition lookup_unit :: "units \<Rightarrow> string \<Rightarrow> parsed_unit option" where
  "lookup_unit us name = DAList.lookup us (lower name)"

lemma distinct_unit_keys [simp]: "distinct (unit_keys us)"
  by (simp add: unit_keys_def entries_def)

subsection \<open>Failure of dependencies\<close>

text \<open>The \<open>uses\<close> lists of a unit that has a tree; the others are never looked at.\<close>

definition all_uses :: "parsed_unit \<Rightarrow> string list" where
  "all_uses pu = (case pu_ast pu of
     None \<Rightarrow> []
   | Some a \<Rightarrow> map lower (un_interface_uses a @ un_impl_uses a))"

type_synonym ok_map = "string \<Rightarrow> bool"

definition dependency_failed :: "string list \<Rightarrow> ok_map \<Rightarrow> string list \<Rightarrow> bool" where
  "dependency_failed keys ok uses = list_ex (\<lambda>d. d \<in> set keys \<and> \<not> ok d) uses"

text \<open>One visit of a unit in the loop over \<open>units_\<close>; the flag is \<open>changed\<close>.\<close>

definition visit_unit ::
    "string list \<Rightarrow> string \<times> parsed_unit \<Rightarrow> bool \<times> ok_map \<Rightarrow> bool \<times> ok_map" where
  "visit_unit keys e st =
     (let (name, pu) = e; (changed, ok) = st
      in if \<not> ok name \<or> pu_ast pu = None then st
         else if dependency_failed keys ok (all_uses pu) then (True, ok(name := False))
         else st)"

definition failure_round :: "(string \<times> parsed_unit) list \<Rightarrow> ok_map \<Rightarrow> bool \<times> ok_map" where
  "failure_round es ok = fold (visit_unit (map fst es)) es (False, ok)"

text \<open>A visit only turns a unit that was fine into a failed one.\<close>

definition fine_units :: "(string \<times> parsed_unit) list \<Rightarrow> ok_map \<Rightarrow> string set" where
  "fine_units es ok = {n \<in> set (map fst es). ok n}"

lemma finite_fine_units [simp]: "finite (fine_units es ok)"
  by (simp add: fine_units_def)

lemma visits_shrink:
  "set xs \<subseteq> set es \<Longrightarrow>
   (case fold (visit_unit keys) xs (c, ok) of (c', ok') \<Rightarrow>
      (c \<longrightarrow> c') \<and> fine_units es ok' \<subseteq> fine_units es ok \<and>
      (c' \<and> \<not> c \<longrightarrow> fine_units es ok' \<subset> fine_units es ok))"
proof (induction xs arbitrary: c ok)
  case Nil
  then show ?case by simp
next
  case (Cons e xs)
  obtain n pu where e: "e = (n, pu)" by (cases e)
  with Cons.prems have n: "n \<in> set (map fst es)" by force
  show ?case
  proof (cases "\<not> ok n \<or> pu_ast pu = None \<or> \<not> dependency_failed keys ok (all_uses pu)")
    case True
    then have "visit_unit keys e (c, ok) = (c, ok)" by (auto simp: visit_unit_def e)
    with Cons show ?thesis by simp
  next
    case False
    then have v: "visit_unit keys e (c, ok) = (True, ok(n := False))"
      by (auto simp: visit_unit_def e)
    have "fine_units es (ok(n := False)) \<subset> fine_units es ok"
      using False n by (auto simp: fine_units_def)
    moreover obtain c' ok' where r: "fold (visit_unit keys) xs (True, ok(n := False)) = (c', ok')"
      by (cases "fold (visit_unit keys) xs (True, ok(n := False))")
    moreover from Cons.IH [of True "ok(n := False)"] Cons.prems r
    have "c' \<and> fine_units es ok' \<subseteq> fine_units es (ok(n := False))"
      by (simp del: fun_upd_apply)
    ultimately show ?thesis using v by auto
  qed
qed

lemma failure_round_shrinks:
  "failure_round es ok = (True, ok') \<Longrightarrow> card (fine_units es ok') < card (fine_units es ok)"
  using visits_shrink [of es es False ok "map fst es"]
  by (auto simp: failure_round_def psubset_card_mono)

text \<open>\<open>do { \<dots> } while (changed)\<close>\<close>

function propagate :: "(string \<times> parsed_unit) list \<Rightarrow> ok_map \<Rightarrow> ok_map" where
  "propagate es ok =
     (let (changed, ok') = failure_round es ok in if changed then propagate es ok' else ok')"
  by pat_completeness auto
termination
  by (relation "measure (\<lambda>(es, ok). card (fine_units es ok))")
    (auto simp: failure_round_shrinks dest: sym)

declare propagate.simps [simp del]

definition initial_ok :: "units \<Rightarrow> ok_map" where
  "initial_ok us n = (case DAList.lookup us n of None \<Rightarrow> False | Some pu \<Rightarrow> pu_ok pu)"

definition propagate_failures :: "units \<Rightarrow> ok_map" where
  "propagate_failures us = propagate (entries us) (initial_ok us)"

subsection \<open>Topological order\<close>

text \<open>
  The dependencies that order the units: \<open>interface uses\<close>, and for a program its only
  \<open>uses\<close> clause.
\<close>

definition topo_uses :: "parsed_unit \<Rightarrow> string list" where
  "topo_uses pu = (case pu_ast pu of
     None \<Rightarrow> []
   | Some a \<Rightarrow> un_interface_uses a @ (if un_is_program a then un_impl_uses a else []))"

type_synonym graph = "(string \<Rightarrow> string list) \<times> (string \<Rightarrow> nat)"

definition add_topo_dependency :: "string list \<Rightarrow> string \<Rightarrow> string \<Rightarrow> graph \<Rightarrow> graph" where
  "add_topo_dependency keys from to g =
     (let (deps, indeg) = g; c = lower to
      in if c \<notin> set keys \<or> c \<in> set (deps from) then g
         else (deps(from := deps from @ [c]), indeg(from := Suc (indeg from))))"

definition build_graph :: "(string \<times> parsed_unit) list \<Rightarrow> graph" where
  "build_graph es =
     fold (\<lambda>(n, pu). fold (add_topo_dependency (map fst es) n) (topo_uses pu)) es
       (\<lambda>_. [], \<lambda>_. 0)"

text \<open>One dependent \<open>k\<close> of an emitted unit: \<open>if (d > 0) { --d; if (d == 0) ready.push_back(k); }\<close>\<close>

definition release :: "string \<Rightarrow> (string \<Rightarrow> nat) \<times> string list \<Rightarrow> (string \<Rightarrow> nat) \<times> string list" where
  "release k st =
     (let (indeg, ready) = st
      in if indeg k > 0
         then (indeg(k := indeg k - 1), if indeg k = 1 then ready @ [k] else ready)
         else st)"

definition dependents :: "string list \<Rightarrow> (string \<Rightarrow> string list) \<Rightarrow> string \<Rightarrow> string list" where
  "dependents keys deps n = filter (\<lambda>k. n \<in> set (deps k)) keys"

definition waiting :: "string list \<Rightarrow> (string \<Rightarrow> nat) \<Rightarrow> string set" where
  "waiting keys indeg = {k \<in> set keys. indeg k > 0}"

lemma release_step:
  assumes "k \<in> set keys" "release k (indeg, ready) = (i, r)"
  shows "length r + card (waiting keys i) \<le> length ready + card (waiting keys indeg)"
proof -
  have fin: "finite (waiting keys f)" for f by (simp add: waiting_def)
  consider "indeg k = 0" | "indeg k = 1" | "indeg k > 1" by linarith
  then show ?thesis
  proof cases
    case 1
    then show ?thesis using assms by (simp add: release_def)
  next
    case 2
    have "waiting keys (indeg(k := 0)) = waiting keys indeg - {k}"
      by (auto simp: waiting_def)
    moreover have "k \<in> waiting keys indeg" using 2 assms by (simp add: waiting_def)
    ultimately have "Suc (card (waiting keys (indeg(k := 0)))) = card (waiting keys indeg)"
      using fin card_Suc_Diff1 by metis
    then show ?thesis using 2 assms by (auto simp: release_def)
  next
    case 3
    then have "waiting keys (indeg(k := indeg k - 1)) = waiting keys indeg"
      by (auto simp: waiting_def)
    then show ?thesis using 3 assms by (auto simp: release_def)
  qed
qed

lemma release_measure:
  assumes "set ks \<subseteq> set keys"
  shows "(case fold release ks (indeg, ready) of (indeg', ready') \<Rightarrow>
    length ready' + card (waiting keys indeg') \<le> length ready + card (waiting keys indeg))"
  using assms
proof (induction ks arbitrary: indeg ready)
  case (Cons k ks)
  obtain i r where st: "release k (indeg, ready) = (i, r)" by fastforce
  have "length r + card (waiting keys i) \<le> length ready + card (waiting keys indeg)"
    by (rule release_step [OF _ st]) (use Cons.prems in simp)
  then show ?case using Cons.IH [of r i] Cons.prems st by (auto split: prod.splits)
qed simp

text \<open>The loop: the smallest ready name is emitted, its dependents are released.\<close>

function kahn ::
    "string list \<Rightarrow> (string \<Rightarrow> string list) \<Rightarrow> string list \<Rightarrow> string list \<Rightarrow> (string \<Rightarrow> nat)
      \<Rightarrow> string list \<times> (string \<Rightarrow> nat)" where
  "kahn keys deps ready order indeg =
     (case sort ready of
        [] \<Rightarrow> (order, indeg)
      | n # ready1 \<Rightarrow>
          let (indeg', ready') = fold release (dependents keys deps n) (indeg, ready1)
          in kahn keys deps ready' (order @ [n]) indeg')"
  by pat_completeness auto
termination
proof (relation "measure (\<lambda>(keys, deps, ready, order, indeg).
    length ready + card (waiting keys indeg))", goal_cases)
  case (2 keys deps ready order indeg n ready1 x indeg' ready')
  have "length ready = Suc (length ready1)"
    using arg_cong [OF 2(1), of length] by simp
  moreover have "set (dependents keys deps n) \<subseteq> set keys" by (auto simp: dependents_def)
  from release_measure [OF this, of ready1 indeg] 2(2,3)
  have "length ready' + card (waiting keys indeg') \<le> length ready1 + card (waiting keys indeg)"
    by auto
  ultimately show ?case by simp
qed simp

declare kahn.simps [simp del]

text \<open>Edges out of the units that could not be emitted.\<close>

definition cycle_edges ::
    "string list \<Rightarrow> (string \<Rightarrow> string list) \<Rightarrow> (string \<Rightarrow> nat) \<Rightarrow> (string \<times> string) list" where
  "cycle_edges keys deps indeg =
     concat (map (\<lambda>k. if indeg k > 0 then map (Pair k) (deps k) else []) keys)"

definition topo_sort :: "units \<Rightarrow> string list \<times> (string \<times> string) list" where
  "topo_sort us =
     (let keys = unit_keys us;
          (deps, indeg) = build_graph (entries us);
          (order, indeg') = kahn keys deps (filter (\<lambda>k. indeg k = 0) keys) [] indeg
      in (order, cycle_edges keys deps indeg'))"

end
