(* ===== verification/Unit_Facts.thy ===== *)
theory Unit_Facts
  imports Unit_Graph
begin

text \<open>
  What the two passes over the graph of units compute: which units are still usable after
  failures have been propagated, and which order the units are translated in.
\<close>

subsection \<open>Propagation of failures\<close>

text \<open>The units a unit names in its \<open>uses\<close> clauses, as far as they were parsed.\<close>

inductive needs :: "(string \<times> parsed_unit) list \<Rightarrow> string \<Rightarrow> string \<Rightarrow> bool"
  for es where
  "(x, pu) \<in> set es \<Longrightarrow> pu_ast pu = Some a \<Longrightarrow>
   u \<in> set (un_interface_uses a) \<union> set (un_impl_uses a) \<Longrightarrow> lower u \<in> set (map fst es) \<Longrightarrow>
   needs es x (lower u)"

lemma in_all_uses:
  "y \<in> set (all_uses pu) \<longleftrightarrow> (\<exists>a u. pu_ast pu = Some a \<and> y = lower u \<and>
     u \<in> set (un_interface_uses a) \<union> set (un_impl_uses a))"
  by (cases "pu_ast pu") (auto simp: all_uses_def)

lemma needs_iff:
  "needs es x y \<longleftrightarrow> (\<exists>pu. (x, pu) \<in> set es \<and> y \<in> set (all_uses pu)) \<and> y \<in> set (map fst es)"
  unfolding in_all_uses needs.simps by blast

definition needed_units :: "(string \<times> parsed_unit) list \<Rightarrow> string \<Rightarrow> string set" where
  "needed_units es x = {y. (needs es)\<^sup>*\<^sup>* x y}"

lemma needed_units_refl [simp]: "x \<in> needed_units es x"
  by (simp add: needed_units_def)

lemma needed_fine: "needed_units es x \<subseteq> Collect ok \<Longrightarrow> ok x"
  using needed_units_refl by fastforce

lemma needed_units_trans:
  "needs es x y \<Longrightarrow> needed_units es y \<subseteq> needed_units es x"
  by (auto simp: needed_units_def intro: converse_rtranclp_into_rtranclp)

text \<open>
  A round loses no unit all of whose needed units are fine, and revives none. A round that
  changes nothing leaves every fine unit with fine dependencies.
\<close>

definition sound_failures ::
    "(string \<times> parsed_unit) list \<Rightarrow> ok_map \<Rightarrow> ok_map \<Rightarrow> bool" where
  "sound_failures es ok ok' \<longleftrightarrow>
     (\<forall>x. (ok' x \<longrightarrow> ok x) \<and> (needed_units es x \<subseteq> Collect ok \<longrightarrow> ok' x))"

lemma sound_failures_refl: "sound_failures es ok ok"
  by (auto simp: sound_failures_def dest: needed_fine)

lemma sound_failures_trans:
  assumes "sound_failures es a b" "sound_failures es b c"
  shows "sound_failures es a c"
proof -
  have "needed_units es x \<subseteq> Collect b" if "needed_units es x \<subseteq> Collect a" for x
  proof
    fix y assume "y \<in> needed_units es x"
    then have "needed_units es y \<subseteq> needed_units es x"
      by (auto simp: needed_units_def)
    with that assms(1) show "y \<in> Collect b" by (auto simp: sound_failures_def)
  qed
  with assms show ?thesis by (auto simp: sound_failures_def)
qed

lemma sound_failure:
  assumes "(x, pu) \<in> set es" "dependency_failed (map fst es) ok (all_uses pu)"
  shows "sound_failures es ok (ok(x := False))"
proof -
  from assms(2) obtain d
    where "d \<in> set (all_uses pu)" "d \<in> set (map fst es)" and bad: "\<not> ok d"
    by (auto simp: dependency_failed_def list_ex_iff)
  with assms(1) have "needs es x d" by (auto simp: needs_iff)
  then have "d \<in> needed_units es x" by (auto simp: needed_units_def)
  with bad show ?thesis by (auto simp: sound_failures_def dest: needed_fine)
qed

lemma visits_sound:
  "set xs \<subseteq> set es \<Longrightarrow>
   sound_failures es ok (snd (fold (visit_unit (map fst es)) xs (c, ok)))"
proof (induction xs arbitrary: c ok)
  case Nil
  then show ?case by (simp add: sound_failures_refl)
next
  case (Cons e xs)
  obtain c1 ok1 where v: "visit_unit (map fst es) e (c, ok) = (c1, ok1)" by fastforce
  have "sound_failures es ok ok1"
    using v Cons.prems
    by (cases e) (auto simp: visit_unit_def sound_failures_refl intro: sound_failure split: if_splits)
  then show ?case using Cons.IH [of ok1 c1] Cons.prems v
    by (auto intro: sound_failures_trans)
qed

lemma quiet_visits:
  assumes "fold (visit_unit keys) xs (False, ok) = (False, ok')"
  shows "ok' = ok \<and> (\<forall>(x, pu) \<in> set xs. ok x \<longrightarrow> pu_ast pu \<noteq> None \<longrightarrow>
           \<not> dependency_failed keys ok (all_uses pu))"
  using assms
proof (induction xs)
  case (Cons e xs)
  have stays: "fst (fold (visit_unit keys) ys (True, f))" for ys f
    using visits_shrink [of ys ys True f keys] by (auto split: prod.splits)
  obtain x pu where e: "e = (x, pu)" by (cases e)
  have "\<not> (ok x \<and> pu_ast pu \<noteq> None \<and> dependency_failed keys ok (all_uses pu))"
  proof
    assume "ok x \<and> pu_ast pu \<noteq> None \<and> dependency_failed keys ok (all_uses pu)"
    then have "visit_unit keys e (False, ok) = (True, ok(x := False))"
      by (auto simp: e visit_unit_def)
    with Cons.prems stays [of xs "ok(x := False)"] show False by simp
  qed
  then have "visit_unit keys e (False, ok) = (False, ok)"
    by (auto simp: e visit_unit_def)
  with Cons e \<open>\<not> (ok x \<and> _)\<close> show ?case by auto
qed simp

lemma propagate_correct:
  "sound_failures es ok (propagate es ok) \<and>
   (\<forall>x y. propagate es ok x \<longrightarrow> needs es x y \<longrightarrow> propagate es ok y)"
proof (induction es ok rule: propagate.induct)
  case (1 es ok)
  obtain c ok' where r: "failure_round es ok = (c, ok')" by fastforce
  then have s: "sound_failures es ok ok'"
    using visits_sound [of es es ok False] by (simp add: failure_round_def)
  show ?case
  proof (cases c)
    case True
    then show ?thesis
      using 1 [OF r [symmetric] refl] s r sound_failures_trans
      by (metis (mono_tags, lifting) case_prod_conv propagate.simps)
  next
    case False
    then have "ok' = ok" and fine: "\<forall>(x, pu) \<in> set es. ok x \<longrightarrow> pu_ast pu \<noteq> None \<longrightarrow>
        \<not> dependency_failed (map fst es) ok (all_uses pu)"
      using quiet_visits [of "map fst es" es ok ok'] r by (auto simp: failure_round_def)
    moreover have "ok y" if "ok x" "needs es x y" for x y
    proof -
      from that(2) obtain pu
        where pu: "(x, pu) \<in> set es" "y \<in> set (all_uses pu)" "y \<in> fst ` set es"
        by (auto simp: needs_iff)
      then have "pu_ast pu \<noteq> None" by (cases "pu_ast pu") (auto simp: all_uses_def)
      with fine pu that(1) show "ok y" by (force simp: dependency_failed_def list_ex_iff)
    qed
    ultimately show ?thesis using r False s by (auto simp: propagate.simps)
  qed
qed

lemma usable_iff_needed:
  "propagate_failures us x \<longleftrightarrow> needed_units (entries us) x \<subseteq> Collect (initial_ok us)"
proof -
  let ?p = "propagate_failures us"
  have closed: "?p y" if "(needs (entries us))\<^sup>*\<^sup>* x y" "?p x" for y
    using that by (induction rule: rtranclp_induct)
      (use propagate_correct [of "entries us" "initial_ok us"] in
        \<open>auto simp: propagate_failures_def\<close>)
  have "sound_failures (entries us) (initial_ok us) ?p"
    using propagate_correct by (simp add: propagate_failures_def)
  with closed show ?thesis by (auto simp: sound_failures_def needed_units_def)
qed

text \<open>
  C13. After discovery a unit is usable exactly when it was parsed without errors and so was
  every unit it needs through any chain of \<open>uses\<close> clauses, of interface and implementation
  alike and through cycles. The result depends neither on the order in which the hash map is
  iterated nor on the number of rounds.
\<close>

theorem failures_reach_importers:
  "propagate_failures us x \<longleftrightarrow> needed_units (entries us) x \<subseteq> Collect (initial_ok us)"
  by (rule usable_iff_needed)

end
