(* ===== verification/Topo_Facts.thy ===== *)
theory Topo_Facts
  imports Unit_Graph
begin

text \<open>
  The topological sort of the units: the locale \<open>dep_graph\<close> holds what the loop of
  \<open>topo_sort\<close> relies on, a graph with finitely many nodes and duplicate-free successor
  lists inside the graph; it is interpreted on the graph \<open>build_graph\<close> makes.
\<close>

subsection \<open>Releasing the dependents of an emitted unit\<close>

lemma fold_release:
  "distinct ks \<Longrightarrow> fold release ks (indeg, ready) =
     (\<lambda>k. if k \<in> set ks then indeg k - 1 else indeg k,
      ready @ filter (\<lambda>k. indeg k = 1) ks)"
proof (induction ks arbitrary: indeg ready)
  case (Cons k ks)
  have "filter (\<lambda>j. (indeg(k := indeg k - 1)) j = 1) ks = filter (\<lambda>j. indeg j = 1) ks"
    using Cons.prems by (intro filter_cong) auto
  with Cons show ?case by (auto simp: release_def fun_eq_iff)
qed simp

subsection \<open>Orders that respect the dependencies\<close>

definition ordered :: "('a \<Rightarrow> 'a list) \<Rightarrow> 'a list \<Rightarrow> bool" where
  "ordered deps xs \<longleftrightarrow> (\<forall>i < length xs. set (deps (xs ! i)) \<subseteq> set (take i xs))"

text \<open>Each element is the least of those that could come next.\<close>

definition greedy :: "'a::linorder list \<Rightarrow> ('a \<Rightarrow> 'a list) \<Rightarrow> 'a list \<Rightarrow> bool" where
  "greedy keys deps xs \<longleftrightarrow> (\<forall>i < length xs. xs ! i =
     Min {k \<in> set keys - set (take i xs). set (deps k) \<subseteq> set (take i xs)})"

lemma ordered_Nil [simp]: "ordered deps []" and greedy_Nil [simp]: "greedy keys deps []"
  by (simp_all add: ordered_def greedy_def)

lemma ordered_snoc:
  "ordered deps xs \<Longrightarrow> set (deps x) \<subseteq> set xs \<Longrightarrow> ordered deps (xs @ [x])"
  by (auto simp: ordered_def nth_append less_Suc_eq)

lemma greedy_snoc:
  "greedy keys deps xs \<Longrightarrow> x = Min {k \<in> set keys - set xs. set (deps k) \<subseteq> set xs} \<Longrightarrow>
   greedy keys deps (xs @ [x])"
  by (auto simp: greedy_def nth_append less_Suc_eq)

locale dep_graph =
  fixes keys :: "string list" and deps :: "string \<Rightarrow> string list"
  assumes distinct_keys: "distinct keys"
    and distinct_deps: "distinct (deps k)"
    and deps_keys: "set (deps k) \<subseteq> set keys"
begin

definition edge :: "(string \<times> string) set" where
  "edge = {(x, y). x \<in> set keys \<and> y \<in> set (deps x)}"

definition loops_below :: "string \<Rightarrow> bool" where
  "loops_below x \<longleftrightarrow> (\<exists>y. (x, y) \<in> edge\<^sup>* \<and> (y, y) \<in> edge\<^sup>+)"

definition kahn_inv :: "string list \<Rightarrow> string list \<Rightarrow> (string \<Rightarrow> nat) \<Rightarrow> bool" where
  "kahn_inv ready order indeg \<longleftrightarrow>
     distinct (order @ ready) \<and>
     set (order @ ready) = {k \<in> set keys. set (deps k) \<subseteq> set order} \<and>
     (\<forall>k \<in> set keys. indeg k = card (set (deps k) - set order)) \<and>
     ordered deps order \<and> greedy keys deps order"

lemma kahn_inv_step:
  assumes inv: "kahn_inv ready order indeg" and s: "sort ready = n # ready1"
    and r: "fold release (dependents keys deps n) (indeg, ready1) = (indeg', ready')"
  shows "kahn_inv ready' (order @ [n]) indeg'"
proof -
  let ?O = "set order" and ?D = "dependents keys deps n"
  note inv = inv [unfolded kahn_inv_def]
  have ready: "set ready = insert n (set ready1)" "distinct (n # ready1)"
    using inv arg_cong [OF s, of set] arg_cong [OF s, of distinct] by auto
  have n: "n \<in> set keys" "set (deps n) \<subseteq> ?O" "n \<notin> ?O" using inv ready by auto
  have D: "set ?D = {k \<in> set keys. n \<in> set (deps k)}" "distinct ?D"
    using distinct_keys by (auto simp: dependents_def)
  have i': "indeg' = (\<lambda>k. if k \<in> set ?D then indeg k - 1 else indeg k)"
    and r': "ready' = ready1 @ filter (\<lambda>k. indeg k = 1) ?D"
    using r fold_release [OF D(2)] by auto
  have drop_one: "indeg' k = card (set (deps k) - insert n ?O)" if "k \<in> set keys" for k
  proof -
    have "set (deps k) - insert n ?O = set (deps k) - ?O - {n}" by auto
    then show ?thesis using inv that n D i' by (auto simp: card_Diff_singleton_if)
  qed
  have new: "set (deps k) \<subseteq> insert n ?O \<longleftrightarrow> set (deps k) \<subseteq> ?O" 
    if "k \<in> set keys" "k \<notin> set ?D" for k using that D by auto
  have one: "indeg k = 1 \<longleftrightarrow> set (deps k) \<subseteq> insert n ?O" if "k \<in> set ?D" for k
  proof -
    have "indeg k = Suc (card (set (deps k) - insert n ?O))"
    proof -
      have "indeg k = card (set (deps k) - ?O)" and "n \<in> set (deps k) - ?O"
        using inv that n D by auto
      moreover have "set (deps k) - insert n ?O = set (deps k) - ?O - {n}" by auto
      ultimately show ?thesis by (metis card_Suc_Diff1 finite_Diff List.finite_set)
    qed
    then show ?thesis by auto
  qed
  have late: "k \<notin> ?O \<union> set ready" if "k \<in> set ?D" for k
    using that D n inv by auto
  have "set ((order @ [n]) @ ready') = {k \<in> set keys. set (deps k) \<subseteq> set (order @ [n])}"
    (is "?L = ?R")
  proof -
    have "?L = ?O \<union> set ready \<union> {k \<in> set ?D. indeg k = 1}" using r' ready by auto
    also have "\<dots> = {k \<in> set keys. set (deps k) \<subseteq> ?O} \<union> {k \<in> set ?D. set (deps k) \<subseteq> insert n ?O}"
      using inv one by auto
    also have "\<dots> = ?R" using new D by auto
    finally show ?thesis .
  qed
  moreover have "distinct ((order @ [n]) @ ready')"
  proof -
    have "distinct (order @ n # ready1)" using inv ready by auto
    moreover have "set ?D \<inter> set (order @ n # ready1) = {}" using late ready by auto
    ultimately show ?thesis using D(2) r' by auto
  qed
  moreover have "n = Min {k \<in> set keys - ?O. set (deps k) \<subseteq> ?O}"
  proof -
    have "{k \<in> set keys - ?O. set (deps k) \<subseteq> ?O} = set ready" using inv by auto
    moreover have "sorted (n # ready1)" using sorted_sort [of ready] s by simp
    ultimately show ?thesis using ready(1) by (simp add: Min_insert2)
  qed
  then have "greedy keys deps (order @ [n])" using inv by (intro greedy_snoc) simp_all
  moreover have "ordered deps (order @ [n])" using inv n by (intro ordered_snoc) simp_all
  ultimately show ?thesis using drop_one by (auto simp: kahn_inv_def)
qed

lemma kahn_inv_result:
  "kahn_inv ready order indeg \<Longrightarrow> kahn keys deps ready order indeg = (order', indeg') \<Longrightarrow>
   kahn_inv [] order' indeg'"
proof (induction "length keys - length order" arbitrary: ready order indeg rule: less_induct)
  case less
  show ?case
  proof (cases "sort ready")
    case Nil
    then have "ready = []" by (metis length_0_conv length_sort)
    with less.prems show ?thesis by (simp add: kahn.simps [of _ _ "[]"])
  next
    case (Cons n ready1)
    obtain i r where st: "fold release (dependents keys deps n) (indeg, ready1) = (i, r)"
      by fastforce
    have step: "kahn_inv r (order @ [n]) i" using kahn_inv_step [OF less.prems(1) Cons st] .
    then have "distinct (order @ [n])" "set (order @ [n]) \<subseteq> set keys"
      by (auto simp: kahn_inv_def)
    then have "length (order @ [n]) \<le> length keys"
      using distinct_card [of "order @ [n]"] card_mono [of "set keys"] distinct_card [OF distinct_keys]
      by (metis List.finite_set)
    then show ?thesis
      using less.hyps [OF _ step] less.prems(2) Cons st
      by (simp add: kahn.simps [of _ _ ready])
  qed
qed

subsection \<open>What is emitted\<close>

lemma ordered_no_loop:
  assumes "ordered deps xs" "distinct xs" "x \<in> set xs" "x \<in> set keys"
  shows "\<not> loops_below x"
proof -
  have earlier: "\<exists>j < i. j < length xs \<and> xs ! j = y"
    if "i < length xs" "(xs ! i, y) \<in> edge" for i y
  proof -
    have "y \<in> set (take i xs)" using that assms(1) by (auto simp: ordered_def edge_def)
    then show ?thesis using that by (auto simp: in_set_conv_nth)
  qed
  have at_or_earlier: "\<exists>j \<le> i. j < length xs \<and> xs ! j = y"
    if "(z, y) \<in> edge\<^sup>*" "i < length xs" "z = xs ! i" for i y z
    using that
  proof (induction arbitrary: i rule: converse_rtrancl_induct)
    case (step a b)
    then obtain j where j: "j < i" "j < length xs" "xs ! j = b" using earlier [of i b] by auto
    with step.IH [of j] show ?case by (meson le_less_trans less_imp_le_nat)
  qed auto
  have strict: "\<exists>j < i. j < length xs \<and> xs ! j = y"
    if "(xs ! i, y) \<in> edge\<^sup>+" "i < length xs" for i y
  proof -
    from that(1) obtain z where z: "(xs ! i, z) \<in> edge" "(z, y) \<in> edge\<^sup>*"
      by (blast dest: tranclD)
    from earlier [OF that(2) z(1)] obtain j where j: "j < i" "j < length xs" "xs ! j = z"
      by auto
    with at_or_earlier [OF z(2) j(2)] show ?thesis by (meson le_less_trans)
  qed
  have "(y, y) \<notin> edge\<^sup>+" if "(x, y) \<in> edge\<^sup>*" for y
  proof
    assume loop: "(y, y) \<in> edge\<^sup>+"
    from assms(3) obtain a where "a < length xs" "x = xs ! a" by (metis in_set_conv_nth)
    from at_or_earlier [OF that this] obtain i where i: "i < length xs" "xs ! i = y" by auto
    with strict [of i y] loop obtain j where "j < i" "j < length xs" "xs ! j = y" by auto
    with i assms(2) show False using nth_eq_iff_index_eq [of xs i j] by auto
  qed
  then show ?thesis by (auto simp: loops_below_def)
qed

lemma finite_edge: "finite edge"
proof (rule finite_subset)
  show "edge \<subseteq> set keys \<times> set keys" using deps_keys by (auto simp: edge_def)
qed simp

lemma no_loop_emitted:
  assumes closed: "\<And>k. k \<in> set keys \<Longrightarrow> set (deps k) \<subseteq> S \<Longrightarrow> k \<in> S"
    and x: "x \<in> set keys" "\<not> loops_below x"
  shows "x \<in> S"
proof -
  let ?E = "Restr edge (edge\<^sup>* `` {x})"
  have "?E\<^sup>+ \<subseteq> edge\<^sup>+" by (intro trancl_mono_subset) auto
  moreover have "y \<in> edge\<^sup>* `` {x}" if "(y, z) \<in> ?E\<^sup>+" for y z
    using tranclD [OF that] by auto
  ultimately have "acyclic ?E"
    using x(2) unfolding acyclic_def loops_below_def by blast
  then have "wf (?E\<inverse>)"
    using finite_edge by (intro finite_acyclic_wf_converse) auto
  then have "y \<in> edge\<^sup>* `` {x} \<Longrightarrow> y \<in> set keys \<Longrightarrow> y \<in> S" for y
  proof (induction y rule: wf_induct_rule)
    case (less y)
    have "z \<in> S" if "z \<in> set (deps y)" for z
    proof -
      have e: "(y, z) \<in> edge" using less.prems that by (simp add: edge_def)
      then have "z \<in> edge\<^sup>* `` {x}" using less.prems by (auto intro: rtrancl_into_rtrancl)
      with e less show ?thesis using deps_keys that by auto
    qed
    then show ?case using closed less.prems by auto
  qed
  then show ?thesis using x by auto
qed

lemma inv_emits:
  assumes "kahn_inv [] order indeg"
  shows "set order = {k \<in> set keys. \<not> loops_below k}"
proof -
  from assms have o: "set order = {k \<in> set keys. set (deps k) \<subseteq> set order}"
    "ordered deps order" "distinct order" by (auto simp: kahn_inv_def)
  then show ?thesis using ordered_no_loop no_loop_emitted [of "set order"] by blast
qed

lemma loops_below_acyclic: "(\<forall>k \<in> set keys. \<not> loops_below k) \<longleftrightarrow> acyclic edge"
proof -
  have "y \<in> set keys" if "(y, y) \<in> edge\<^sup>+" for y
    using tranclD [OF that] by (auto simp: edge_def)
  moreover have "\<not> loops_below k" if "acyclic edge" for k
    using that by (auto simp: loops_below_def acyclic_def)
  ultimately show ?thesis unfolding acyclic_def loops_below_def by blast
qed

lemma inv_cycle_edges:
  assumes "kahn_inv [] order indeg"
  shows "set (cycle_edges keys deps indeg) = {(x, y) \<in> edge. loops_below x}"
proof -
  have "indeg k > 0 \<longleftrightarrow> loops_below k" if "k \<in> set keys" for k
    using assms that inv_emits [OF assms] deps_keys by (auto simp: kahn_inv_def card_gt_0_iff)
  then show ?thesis by (auto simp: cycle_edges_def edge_def)
qed

lemma inv_cycle_free:
  assumes "kahn_inv [] order indeg"
  shows "cycle_edges keys deps indeg = [] \<longleftrightarrow> acyclic edge"
proof -
  have "loops_below x \<longleftrightarrow> (\<exists>y. (x, y) \<in> edge \<and> loops_below x)" for x
    unfolding loops_below_def by (metis converse_rtranclE tranclD)
  then have "(\<exists>x \<in> set keys. loops_below x) \<longleftrightarrow> set (cycle_edges keys deps indeg) \<noteq> {}"
    unfolding inv_cycle_edges [OF assms] by (force simp: edge_def)
  then show ?thesis using loops_below_acyclic by auto
qed

lemma kahn_inv_start:
  assumes "\<And>k. k \<in> set keys \<Longrightarrow> indeg k = length (deps k)"
  shows "kahn_inv (filter (\<lambda>k. indeg k = 0) keys) [] indeg"
  using assms distinct_keys distinct_deps
  by (auto simp: kahn_inv_def distinct_card)

end

subsection \<open>The graph of the units\<close>

definition unit_deps :: "units \<Rightarrow> string \<Rightarrow> string list" where
  "unit_deps us = fst (build_graph (entries us))"

definition good_graph :: "string list \<Rightarrow> graph \<Rightarrow> bool" where
  "good_graph keys g \<longleftrightarrow> (\<forall>k. distinct (fst g k) \<and> set (fst g k) \<subseteq> set keys \<and>
     snd g k = length (fst g k))"

lemma good_add: "good_graph keys g \<Longrightarrow> good_graph keys (add_topo_dependency keys a b g)"
  by (cases g) (auto simp: good_graph_def add_topo_dependency_def Let_def)

lemma good_adds: "good_graph keys g \<Longrightarrow> good_graph keys (fold (add_topo_dependency keys a) bs g)"
  by (induction bs arbitrary: g) (simp_all add: good_add)

lemma good_build: "good_graph (map fst es) (build_graph es)"
proof -
  have "good_graph keys (fold (\<lambda>(n, pu). fold (add_topo_dependency keys n) (topo_uses pu)) xs g)"
    if "good_graph keys g" for keys xs g
    using that by (induction xs arbitrary: g) (simp_all add: good_adds split: prod.split)
  moreover have "good_graph (map fst es) (\<lambda>_. [], \<lambda>_. 0)" by (simp add: good_graph_def)
  ultimately show ?thesis by (simp add: build_graph_def)
qed

lemma set_adds:
  "set (fst (fold (add_topo_dependency keys a) bs g) k) =
     set (fst g k) \<union> (if k = a then {c \<in> set keys. \<exists>b \<in> set bs. c = lower b} else {})"
proof (induction bs arbitrary: g)
  case (Cons b bs)
  have "set (fst (add_topo_dependency keys a b g) k) =
      set (fst g k) \<union> (if k = a then {c \<in> set keys. c = lower b} else {})"
    by (cases g) (auto simp: add_topo_dependency_def Let_def)
  with Cons show ?case by auto
qed simp

text \<open>The dependencies, read off the \<open>uses\<close> clauses.\<close>

definition compiled_after :: "units \<Rightarrow> (string \<times> string) set" where
  "compiled_after us = {(x, y). y \<in> set (unit_keys us) \<and>
     (\<exists>pu a u. (x, pu) \<in> set (entries us) \<and> pu_ast pu = Some a \<and> y = lower u \<and>
        (u \<in> set (un_interface_uses a) \<or> un_is_program a \<and> u \<in> set (un_impl_uses a)))}"

lemma in_topo_uses:
  "u \<in> set (topo_uses pu) \<longleftrightarrow> (\<exists>a. pu_ast pu = Some a \<and>
     (u \<in> set (un_interface_uses a) \<or> un_is_program a \<and> u \<in> set (un_impl_uses a)))"
  by (cases "pu_ast pu") (auto simp: topo_uses_def)

lemma compiled_after_eq:
  "compiled_after us = {(x, y). y \<in> set (unit_keys us) \<and>
     (\<exists>pu u. (x, pu) \<in> set (entries us) \<and> u \<in> set (topo_uses pu) \<and> y = lower u)}"
  unfolding compiled_after_def in_topo_uses by blast

lemma set_unit_deps: "set (unit_deps us k) = {y. (k, y) \<in> compiled_after us}"
proof -
  have "set (fst (fold (\<lambda>(n, pu). fold (add_topo_dependency keys n) (topo_uses pu)) xs g) k) =
     set (fst g k) \<union> {c \<in> set keys. \<exists>pu b. (k, pu) \<in> set xs \<and> b \<in> set (topo_uses pu) \<and> c = lower b}"
    for keys xs g
  proof (induction xs arbitrary: g)
    case (Cons e xs)
    obtain n pu where "e = (n, pu)" by fastforce
    with Cons show ?case by (cases "k = n") (auto simp: set_adds)
  qed simp
  then show ?thesis
    by (auto simp: unit_deps_def build_graph_def compiled_after_eq unit_keys_def)
qed

interpretation topo: dep_graph "unit_keys us" "unit_deps us" for us
  by unfold_locales
    (use good_build [of "entries us"] in
      \<open>simp_all add: good_graph_def unit_deps_def flip: unit_keys_def\<close>)

lemma topo_edge [simp]: "topo.edge us = compiled_after us"
proof -
  have "x \<in> set (unit_keys us)" if "(x, y) \<in> compiled_after us" for x y
    using that by (force simp: compiled_after_def unit_keys_def)
  then show ?thesis by (auto simp: topo.edge_def set_unit_deps)
qed

lemma topo_sort_inv:
  obtains indeg where "topo.kahn_inv us [] (fst (topo_sort us)) indeg"
    "snd (topo_sort us) = cycle_edges (unit_keys us) (unit_deps us) indeg"
proof -
  obtain indeg where g: "build_graph (entries us) = (unit_deps us, indeg)"
    by (metis prod.collapse unit_deps_def)
  then have "indeg k = length (unit_deps us k)" for k
    using good_build [of "entries us"] by (simp add: good_graph_def)
  then have start: "topo.kahn_inv us (filter (\<lambda>k. indeg k = 0) (unit_keys us)) [] indeg"
    by (rule topo.kahn_inv_start)
  obtain xs i where k: "kahn (unit_keys us) (unit_deps us)
      (filter (\<lambda>k. indeg k = 0) (unit_keys us)) [] indeg = (xs, i)" by fastforce
  have "topo_sort us = (xs, cycle_edges (unit_keys us) (unit_deps us) i)"
    using g k by (simp add: topo_sort_def)
  with topo.kahn_inv_result [OF start k] that show thesis by simp
qed

subsection \<open>The sort\<close>

text \<open>Whatever an element of the list is compiled after stands before it.\<close>

definition follows :: "(string \<times> string) set \<Rightarrow> string list \<Rightarrow> bool" where
  "follows r xs \<longleftrightarrow> (\<forall>i < length xs. \<forall>y. (xs ! i, y) \<in> r \<longrightarrow> y \<in> set (take i xs))"

lemma ordered_follows: "ordered (unit_deps us) xs \<longleftrightarrow> follows (compiled_after us) xs"
  by (auto simp: ordered_def follows_def set_unit_deps)

text \<open>
  C2. The order \<open>topo_sort\<close> returns lists units of the graph, none twice, and every unit comes
  after all the units its interface uses (a program: after all units it uses).
\<close>

theorem topo_sort_ordered:
  "distinct (fst (topo_sort us)) \<and> set (fst (topo_sort us)) \<subseteq> set (unit_keys us) \<and>
   follows (compiled_after us) (fst (topo_sort us))"
  by (rule topo_sort_inv [of us]) (auto simp: topo.kahn_inv_def ordered_follows)

lemma sort_emits:
  "set (fst (topo_sort us)) = {k \<in> set (unit_keys us).
     \<not> (\<exists>y. (k, y) \<in> (compiled_after us)\<^sup>* \<and> (y, y) \<in> (compiled_after us)\<^sup>+)}"
  by (rule topo_sort_inv [of us]) (use topo.inv_emits in \<open>simp add: topo.loops_below_def\<close>)

lemma sort_cycles: "snd (topo_sort us) = [] \<longleftrightarrow> acyclic (compiled_after us)"
  by (rule topo_sort_inv [of us])
    (use topo.inv_cycle_edges topo.inv_cycle_free in \<open>simp add: topo.loops_below_def\<close>)

lemma acyclic_emits_all:
  assumes "acyclic (compiled_after us)"
  shows "set (fst (topo_sort us)) = set (unit_keys us)"
  using assms unfolding sort_emits acyclic_def by blast

text \<open>
  C3. A unit is left out of the order exactly when it is on a cycle of interface uses or uses,
  through any chain, a unit on one: the dependents of a cycle are dropped with it and nothing
  else is. So on an acyclic graph the order lists every unit, and then no cycle edge is
  reported; on a cyclic one some edge is.
\<close>

theorem topo_sort_complete:
  "set (fst (topo_sort us)) = {k \<in> set (unit_keys us).
     \<not> (\<exists>y. (k, y) \<in> (compiled_after us)\<^sup>* \<and> (y, y) \<in> (compiled_after us)\<^sup>+)} \<and>
   (if acyclic (compiled_after us)
    then set (fst (topo_sort us)) = set (unit_keys us) \<and> snd (topo_sort us) = []
    else snd (topo_sort us) \<noteq> [])"
  using sort_emits [of us] sort_cycles [of us] acyclic_emits_all [of us] by simp

text \<open>
  C8. \<open>topo_sort\<close> reports cycle edges exactly when the interface uses are cyclic, and the edges
  it reports are those that leave a unit that is on a cycle or above one.
\<close>

theorem topo_sort_reports_cycles:
  "(snd (topo_sort us) = [] \<longleftrightarrow> acyclic (compiled_after us)) \<and>
   set (snd (topo_sort us)) = {(x, y) \<in> compiled_after us.
     \<exists>z. (x, z) \<in> (compiled_after us)\<^sup>* \<and> (z, z) \<in> (compiled_after us)\<^sup>+}"
  by (rule topo_sort_inv [of us])
    (use topo.inv_cycle_edges topo.inv_cycle_free in \<open>simp add: topo.loops_below_def\<close>)

lemma greedy_unique:
  assumes "greedy keys deps xs" "greedy keys' deps' ys"
    and "set keys = set keys'" "\<And>k. set (deps k) = set (deps' k)" "length xs = length ys"
  shows "xs = ys"
proof -
  have "take i xs = take i ys" if "i \<le> length xs" for i
    using that
  proof (induction i)
    case (Suc i)
    then show ?case using assms
      by (simp add: take_Suc_conv_app_nth greedy_def)
  qed simp
  from this [of "length xs"] assms(5) show ?thesis by simp
qed

text \<open>
  C17. The order is reproducible: it depends on the names of the units and on what they use
  alone, not on the iteration order of the hash maps nor on the order of the names in a
  \<open>uses\<close> clause.
\<close>

theorem topo_sort_deterministic:
  assumes "set (unit_keys us) = set (unit_keys us')" "compiled_after us = compiled_after us'"
  shows "fst (topo_sort us) = fst (topo_sort us')"
proof (rule greedy_unique)
  show "greedy (unit_keys us) (unit_deps us) (fst (topo_sort us))"
    by (rule topo_sort_inv [of us]) (simp add: topo.kahn_inv_def)
  show "greedy (unit_keys us') (unit_deps us') (fst (topo_sort us'))"
    by (rule topo_sort_inv [of us']) (simp add: topo.kahn_inv_def)
  have emitted: "distinct (fst (topo_sort v)) \<and> set (fst (topo_sort v)) =
      {k \<in> set (unit_keys v). \<not> (\<exists>y. (k, y) \<in> (compiled_after v)\<^sup>* \<and> (y, y) \<in> (compiled_after v)\<^sup>+)}"
    for v
  proof (rule topo_sort_inv [of v])
    fix indeg assume inv: "topo.kahn_inv v [] (fst (topo_sort v)) indeg"
    then have "distinct (fst (topo_sort v))" by (simp add: topo.kahn_inv_def)
    with topo.inv_emits [OF inv] show ?thesis by (simp add: topo.loops_below_def)
  qed
  from emitted [of us] emitted [of us'] assms
  show "length (fst (topo_sort us)) = length (fst (topo_sort us'))"
    by (metis distinct_card)
qed (use assms in \<open>auto simp: set_unit_deps\<close>)

text \<open>A unit \<open>a\<close> that uses \<open>b\<close>, in two hash maps with different iteration orders.\<close>

definition sample_unit :: "string \<Rightarrow> string list \<Rightarrow> parsed_unit" where
  "sample_unit n uses = \<lparr>pu_name = n, pu_path = n @ ''.pas'',
     pu_ast = Some (UnitNode no_location n uses [] [] [] None None False),
     pu_ok = True\<rparr>"

definition a_then_b :: units where
  "a_then_b = DAList.update ''a'' (sample_unit ''a'' [''B'', ''b''])
     (DAList.update ''b'' (sample_unit ''b'' []) DAList.empty)"

definition b_then_a :: units where
  "b_then_a = DAList.update ''b'' (sample_unit ''b'' [])
     (DAList.update ''a'' (sample_unit ''a'' [''b'']) DAList.empty)"

lemma sample_entries:
  "entries a_then_b = [(''b'', sample_unit ''b'' []), (''a'', sample_unit ''a'' [''B'', ''b''])]"
  "entries b_then_a = [(''a'', sample_unit ''a'' [''b'']), (''b'', sample_unit ''b'' [])]"
  by (simp_all add: a_then_b_def b_then_a_def entries_def DAList.update.rep_eq DAList.empty.rep_eq)

lemma lower_samples: "lower ''B'' = ''b''" "lower ''b'' = ''b''"
  by code_simp+

lemma sample_uses: "topo_uses (sample_unit n us) = us"
  by (simp add: topo_uses_def sample_unit_def)

lemma sample_edges:
  "compiled_after a_then_b = {(''a'', ''b'')}" "compiled_after b_then_a = {(''a'', ''b'')}"
  by (auto simp: compiled_after_eq sample_entries unit_keys_def sample_uses lower_samples)
    (intro exI [of _ "''b''"] conjI; simp add: lower_samples)

theorem topo_sort_deterministic_witness:
  "entries a_then_b \<noteq> entries b_then_a \<and>
   fst (topo_sort a_then_b) = fst (topo_sort b_then_a)"
proof
  show "entries a_then_b \<noteq> entries b_then_a" by (simp add: sample_entries)
  show "fst (topo_sort a_then_b) = fst (topo_sort b_then_a)"
  proof (rule topo_sort_deterministic)
    show "set (unit_keys a_then_b) = set (unit_keys b_then_a)"
      by (auto simp: unit_keys_def sample_entries)
    show "compiled_after a_then_b = compiled_after b_then_a" by (simp add: sample_edges)
  qed
qed

end
