(* ===== verification/Makefile_Emit.thy ===== *)
theory Makefile_Emit
  imports Tp_Prelude "HOL-Library.List_Lexorder" "HOL-Library.Char_ord"
begin

text \<open>
  The makefile a translation leaves beside its C++ files (\<open>src/emit_makefile.h\<close>,
  \<open>src/emit_makefile.cc\<close>). \<open>std::sort\<close> on strings is \<open>sort\<close> with the lexicographic order on
  characters, \<open>std::unique\<close> on a sorted range is \<open>remdups_adj\<close>. The output stream is the
  string that has been written.
\<close>

record build_manifest =
  cc_sources :: "string list"
  headers :: "string list"
  pas_sources :: "string list"
  tp2cc_program :: string
  include_dirs :: "string list"
  tp2cc_args :: "string list"
  program_name :: string

abbreviation backslash :: char where "backslash \<equiv> CHR 0x5C"
abbreviation dquote :: char where "dquote \<equiv> CHR 0x22"

definition sort_unique :: "string list \<Rightarrow> string list" where
  "sort_unique items = remdups_adj (sort items)"

text \<open>Include directories keep their order of first use: the search order matters.\<close>

definition first_uses :: "string list \<Rightarrow> string list" where
  "first_uses dirs = fold (\<lambda>d seen. if d \<in> set seen then seen else seen @ [d]) dirs []"

fun list_lines :: "string list \<Rightarrow> string" where
  "list_lines [] = ''''"
| "list_lines [x] = ''  '' @ x @ [nl]"
| "list_lines (x # xs) = ''  '' @ x @ '' '' @ [backslash, nl] @ list_lines xs"

definition write_list :: "string \<Rightarrow> string list \<Rightarrow> string" where
  "write_list name items = name @ '' :='' @
     (if items = [] then [nl] else '' '' @ [backslash, nl] @ list_lines items)"

definition quote_char :: "char \<Rightarrow> string" where
  "quote_char c = (if c = quote then [quote, dquote, quote, dquote, quote] else [c])"

definition shell_quote :: "string \<Rightarrow> string" where
  "shell_quote s = quote # concat (map quote_char s) @ [quote]"

definition quoted_args :: "string list \<Rightarrow> string" where
  "quoted_args args = concat (map (\<lambda>a. '' '' @ shell_quote a) args)"

definition lines :: "string list \<Rightarrow> string" where
  "lines ls = concat (map (\<lambda>l. l @ [nl]) ls)"

definition header_lines :: "string list" where
  "header_lines =
     [''# generated by tp2cc'',
      ''# Regeneration rules intentionally omit -m so normal Pascal source'',
      ''# updates do not rewrite this generated Makefile and trigger GNU make'' @ [quote] @ ''s'',
      ''# makefile-remake restart path.'',
      ''# The runtime header lives under include/tp2cc_rt both in-tree and'',
      ''# after install; use the concrete include roots captured when tp2cc'',
      ''# generated this file.'',
      ''CXX = g++'',
      ''CC = gcc'']"

definition variable_lines :: "build_manifest \<Rightarrow> string" where
  "variable_lines m =
     lines [''TP2CC = '' @ (if tp2cc_program m = [] then ''tp2cc'' else tp2cc_program m),
       ''CPPFLAGS = -I.'' @ concat (map (\<lambda>d. '' -I'' @ d) (first_uses (include_dirs m))),
       ''CXXFLAGS = -std=gnu++20 -O0 -pipe -Wno-narrowing'',
       ''CFLAGS = -std=gnu11 -O0 -pipe'',
       ''EXTRA_OBJS ='',
       ''LDFLAGS ='',
       ''LDLIBS = -lm'',
       '''']"

definition source_lines :: "build_manifest \<Rightarrow> string" where
  "source_lines m =
     write_list ''CC_SRCS'' (sort_unique (cc_sources m)) @
     write_list ''HDRS'' (sort_unique (headers m)) @
     write_list ''PAS_SRCS'' (sort_unique (pas_sources m)) @
     lines [''CC_OBJS := $(CC_SRCS:.cc=.o)''] @
     (if program_name m = [] then [] else lines [''PROGRAM = '' @ program_name m]) @
     lines ['''']"

definition regenerate_rule :: "build_manifest \<Rightarrow> string" where
  "regenerate_rule m =
     (if sort_unique (pas_sources m) = [] \<or> tp2cc_args m = [] then []
      else lines [''$(CC_SRCS) $(HDRS): $(PAS_SRCS)'',
        [tab] @ ''$(TP2CC)'' @ quoted_args (tp2cc_args m), ''''])"

definition rule_lines :: "build_manifest \<Rightarrow> string" where
  "rule_lines m =
     lines [''.PHONY: all objects clean'',
       (if program_name m = [] then ''all: objects'' else ''all: $(PROGRAM)''),
       ''objects: $(CC_OBJS)'', ''''] @
     regenerate_rule m @
     lines [''p_%.o: p_%.cc $(HDRS)'',
       [tab] @ ''$(CXX) $(CPPFLAGS) $(CXXFLAGS) -c $< -o $@'', ''''] @
     (if program_name m = [] then []
      else lines [''$(PROGRAM): $(CC_OBJS) $(EXTRA_OBJS)'',
        [tab] @ ''$(CXX) $(CXXFLAGS) $(LDFLAGS) $^ $(LDLIBS) -o $@'', '''']) @
     lines [''clean:'',
       [tab] @ ''rm -f $(CC_OBJS)'' @ (if program_name m = [] then [] else '' $(PROGRAM)'')]"

definition emit_makefile :: "build_manifest \<Rightarrow> string" where
  "emit_makefile m = lines header_lines @ variable_lines m @ source_lines m @ rule_lines m"

subsection \<open>Quoting\<close>

text \<open>
  How a POSIX shell reads one word made of quoted parts: \<open>'\<dots>'\<close> takes every character up to
  the next apostrophe as it is, \<open>"\<dots>"\<close> is read here only when it holds none of the
  characters that stay special between double quotes; a word ends at a blank, a newline or
  the end, and every other unquoted character that is special to the shell is refused.
\<close>

definition shell_special :: "char \<Rightarrow> bool" where
  "shell_special c \<longleftrightarrow> c \<in> set ''|&;<>()$`*?[]#~=%!{}'' \<or> c = backslash"

datatype shell_mode = Plain | Single | Double

fun shell_word :: "shell_mode \<Rightarrow> string \<Rightarrow> (string \<times> string) option" where
  "shell_word Plain [] = Some ([], [])"
| "shell_word Plain (c # cs) =
     (if c = quote then shell_word Single cs
      else if c = dquote then shell_word Double cs
      else if is_blank c \<or> c = nl then Some ([], c # cs)
      else if shell_special c then None
      else map_option (\<lambda>(w, r). (c # w, r)) (shell_word Plain cs))"
| "shell_word Single [] = None"
| "shell_word Single (c # cs) =
     (if c = quote then shell_word Plain cs
      else map_option (\<lambda>(w, r). (c # w, r)) (shell_word Single cs))"
| "shell_word Double [] = None"
| "shell_word Double (c # cs) =
     (if c = dquote then shell_word Plain cs
      else if c \<in> {CHR ''$'', CHR 0x60, backslash, CHR ''!''} then None
      else map_option (\<lambda>(w, r). (c # w, r)) (shell_word Double cs))"

lemma shell_word_quoted:
  "shell_word Single (concat (map quote_char s) @ quote # r) =
     map_option (\<lambda>(w, r). (s @ w, r)) (shell_word Plain r)"
proof (induction s)
  case Nil
  show ?case by (cases "shell_word Plain r") auto
next
  case (Cons c s)
  then show ?case by (cases "shell_word Plain r") (auto simp: quote_char_def)
qed

fun shell_words :: "nat \<Rightarrow> string \<Rightarrow> string list option" where
  "shell_words 0 _ = None"
| "shell_words (Suc n) cs =
     (case dropWhile is_blank cs of
       [] \<Rightarrow> Some []
     | c # cs' \<Rightarrow>
         if c = nl then Some []
         else case shell_word Plain (c # cs') of
           None \<Rightarrow> None
         | Some (w, r) \<Rightarrow> map_option ((#) w) (shell_words n r))"

lemma shell_word_arg:
  assumes "shell_word Plain r = Some ([], r)"
  shows "shell_word Plain (shell_quote a @ r) = Some (a, r)"
  using shell_word_quoted [of a r] assms by (simp add: shell_quote_def)

lemma shell_word_stops:
  "shell_word Plain (quoted_args args @ [nl]) = Some ([], quoted_args args @ [nl])"
  by (cases args) (auto simp: quoted_args_def is_blank_def)

text \<open>
  C14. The argument vector of the regeneration rule survives the shell: reading the recipe line
  back as a shell does gives exactly the arguments tp2cc was called with, whatever characters
  they hold, apostrophes included. (What \<open>make\<close> does to the line before the shell sees it is
  outside the statement: a \<open>$\<close> in an argument is not doubled.)
\<close>

theorem shell_quote_roundtrip:
  "shell_words (Suc (length args)) (quoted_args args @ [nl]) = Some args"
proof (induction args)
  case Nil
  show ?case by (simp add: quoted_args_def is_blank_def)
next
  case (Cons a args)
  let ?r = "quoted_args args @ [nl]"
  have split: "quoted_args (a # args) @ [nl] = CHR '' '' # shell_quote a @ ?r"
    by (simp add: quoted_args_def)
  have "dropWhile is_blank (CHR '' '' # shell_quote a @ ?r) = shell_quote a @ ?r"
    by (simp add: shell_quote_def is_blank_def)
  then have "shell_words (Suc (length (a # args))) (quoted_args (a # args) @ [nl]) =
      map_option ((#) a) (shell_words (Suc (length args)) ?r)"
    unfolding split
    using shell_word_arg [OF shell_word_stops, of a args]
    by (simp add: shell_quote_def del: shell_word.simps)
  with Cons show ?case by simp
qed

subsection \<open>Order of the sources\<close>

lemma distinct_remdups_adj_sorted: "sorted xs \<Longrightarrow> distinct (remdups_adj (xs :: string list))"
  by (induction xs rule: remdups_adj.induct) (auto simp: order_antisym)

lemma sort_unique_eq_sorted_list_of_set: "sort_unique xs = sorted_list_of_set (set xs)"
  unfolding sort_unique_def
  by (rule sorted_distinct_set_unique)
    (simp_all add: distinct_remdups_adj_sorted)

text \<open>
  The makefile is reproducible: it depends on which sources were emitted, not on the order
  the units were emitted in nor on how often a source was recorded.
\<close>

theorem makefile_deterministic:
  assumes "set (cc_sources m) = set cc" "set (headers m) = set hh" "set (pas_sources m) = set pp"
  shows "emit_makefile (m\<lparr>cc_sources := cc, headers := hh, pas_sources := pp\<rparr>) = emit_makefile m"
  using assms
  by (simp add: emit_makefile_def variable_lines_def source_lines_def rule_lines_def
    regenerate_rule_def sort_unique_eq_sorted_list_of_set)

definition sample_manifest :: build_manifest where
  "sample_manifest = \<lparr>cc_sources = [''p_b.cc'', ''p_a.cc''], headers = [''p_a.h''],
     pas_sources = [''b.pas'', ''a.pas'', ''b.pas''], tp2cc_program = [],
     include_dirs = [''/inc''], tp2cc_args = [''a.pas''], program_name = ''a''\<rparr>"

theorem makefile_deterministic_witness:
  "emit_makefile (sample_manifest\<lparr>cc_sources := [''p_a.cc'', ''p_b.cc'', ''p_a.cc''],
     headers := [''p_a.h''], pas_sources := [''a.pas'', ''b.pas'']\<rparr>) = emit_makefile sample_manifest"
  by (rule makefile_deterministic) (auto simp: sample_manifest_def)

end
