(* ===== verification/Word_Facts.thy ===== *)
theory Word_Facts
  imports Tp_Prelude
begin

text \<open>
  Machine integers: when the signed and unsigned readings of a word are exact, how a range
  test on words reads on integers, and what a mask keeps. The emitter folds constants on
  64-bit values; the run-time library computes at every width.
\<close>

unbundle bit_operations_syntax

subsection \<open>Signed ranges\<close>

definition signed_range :: "nat \<Rightarrow> int set" where
  "signed_range n = {-(2 ^ (n - 1)) ..< 2 ^ (n - 1)}"

definition unsigned_range :: "nat \<Rightarrow> int set" where
  "unsigned_range n = {0 ..< 2 ^ n}"

lemma sint_in_range [simp]: "sint (w :: 'a::len word) \<in> signed_range LENGTH('a)"
  using sint_ge [of w] sint_lt [of w] by (simp add: signed_range_def)

lemma uint_in_range [simp]: "uint (w :: 'a::len word) \<in> unsigned_range LENGTH('a)"
  by (simp add: unsigned_range_def)

lemma signed_take_bit_range:
  "signed_take_bit (n - 1) k = k \<longleftrightarrow> k \<in> signed_range n"
  by (simp add: signed_range_def signed_take_bit_int_eq_self_iff)

lemma take_bit_range: "take_bit n k = k \<longleftrightarrow> k \<in> unsigned_range n" for k :: int
  by (simp add: unsigned_range_def take_bit_int_eq_self_iff)

lemma sint_add_exact:
  "sint (a + b :: 'a::len word) = sint a + sint b \<longleftrightarrow> sint a + sint b \<in> signed_range LENGTH('a)"
  by (simp only: sint_word_add signed_take_bit_range)

lemma sint_diff_exact:
  "sint (a - b :: 'a::len word) = sint a - sint b \<longleftrightarrow> sint a - sint b \<in> signed_range LENGTH('a)"
  by (simp only: sint_word_diff signed_take_bit_range)

lemma sint_mult_exact:
  "sint (a * b :: 'a::len word) = sint a * sint b \<longleftrightarrow> sint a * sint b \<in> signed_range LENGTH('a)"
  by (simp only: sint_word_mult signed_take_bit_range)

lemma sint_minus_exact:
  "sint (- a :: 'a::len word) = - sint a \<longleftrightarrow> - sint a \<in> signed_range LENGTH('a)"
  by (simp only: sint_word_minus signed_take_bit_range)


lemma sint_nonneg: "0 \<le> sint w \<Longrightarrow> sint w = uint w" for w :: "'a::len word"
proof -
  assume "0 \<le> sint w"
  moreover have "sint w < 2 ^ LENGTH('a)"
    using sint_lt [of w] power_increasing [of "LENGTH('a) - 1" "LENGTH('a)" "2::int"]
    by (simp del: power_increasing_iff)
  ultimately have "take_bit LENGTH('a) (sint w) = sint w" by (simp add: take_bit_int_eq_self)
  then show ?thesis by (simp add: uint_sint)
qed

subsection \<open>Values narrower than their word\<close>

lemma sint_signed_take_bit:
  assumes "0 < n" "n \<le> LENGTH('a)"
  shows "sint (signed_take_bit (n - 1) w :: 'a::len word) = signed_take_bit (n - 1) (uint w)"
proof (rule bit_eqI)
  fix i
  have "min (n - 1) (min (LENGTH('a) - 1) i) = min (n - 1) i" using assms by linarith
  moreover have "min (LENGTH('a) - 1) i < LENGTH('a)"
    using len_gt_0 [where 'a = 'a] by linarith
  ultimately show "bit (sint (signed_take_bit (n - 1) w)) i = bit (signed_take_bit (n - 1) (uint w)) i"
    by (simp add: bit_signed_iff bit_signed_take_bit_iff bit_unsigned_iff)
qed

lemma take_bit_uint_sint:
  "n \<le> LENGTH('a) \<Longrightarrow> take_bit n (uint w) = take_bit n (sint w)" for w :: "'a::len word"
  by (simp add: uint_sint take_bit_take_bit min_absorb1)

lemma take_bit_times: "take_bit n (take_bit n a * b) = take_bit n (a * b)" for a b :: int
  by (simp add: take_bit_eq_mod mod_mult_left_eq)

end
