(* ===== verification/Emit_Support.thy ===== *)
theory Emit_Support
  imports Ast
begin

text \<open>
  The tables and text helpers the emitter shares (\<open>src/emit_support.h\<close>,
  \<open>src/emit_support.cc\<close>, \<open>src/target_info.h\<close>): names of generated C++ entities, operators,
  the table of primitive types, integer ranges, integer literals, and the arithmetic that
  folds constants.

  \<open>uint64_t\<close> and \<open>int64_t\<close> are \<open>64 word\<close>, read with \<open>uint\<close> and \<open>sint\<close>; a \<open>uint8_t\<close> width is
  a \<open>nat\<close> that is only compared and used as a shift amount. A thrown \<open>std::logic_error\<close> is
  \<open>Inl\<close> with its message. A null \<open>PrimitiveInfo\<close> pointer is \<open>None\<close>.
\<close>

unbundle bit_operations_syntax

type_synonym i64 = "64 word"

type_synonym 'a checked = "string + 'a"

subsection \<open>Names\<close>

definition mangle :: "string \<Rightarrow> string" where
  "mangle name = ''p_'' @ name"

definition type_mangle :: "string \<Rightarrow> string" where
  "type_mangle name = ''t_'' @ name"

definition ascii_lower :: "string \<Rightarrow> string" where
  "ascii_lower text = map (\<lambda>c. if is_upper c then char_of (code c + 32) else c) text"

definition hex_digit :: "nat \<Rightarrow> char" where
  "hex_digit n = (if n < 10 then char_of (48 + n) else char_of (87 + n))"

definition hex2 :: "char \<Rightarrow> string" where
  "hex2 c = [hex_digit (code c div 16), hex_digit (code c mod 16)]"

abbreviation bslash :: char where "bslash \<equiv> CHR 0x5C"

definition char_literal_body_to_cxx :: "char \<Rightarrow> string" where
  "char_literal_body_to_cxx c =
     (if c = bslash then [bslash, bslash]
      else if c = nl then [bslash, CHR ''n'']
      else if c = cr then [bslash, CHR ''r'']
      else if c = tab then [bslash, CHR ''t'']
      else if c = nul then [bslash, CHR ''0'']
      else if c = quote then [bslash, quote]
      else if code c < 32 \<or> 127 \<le> code c then [bslash, CHR ''x''] @ hex2 c
      else [c])"

definition attach_named_cxx_type :: "string \<Rightarrow> string \<Rightarrow> string \<Rightarrow> string" where
  "attach_named_cxx_type t name prefix =
     (if prefix = ''const &''
      then ''const '' @ t @ ''&'' @ (if name = [] then [] else '' '' @ name)
      else if name = [] then (if prefix = [] then t else t @ '' '' @ prefix)
      else t @ '' '' @ prefix @ name)"

definition nested_result_slot_name :: "string \<Rightarrow> string" where
  "nested_result_slot_name fn = ''tp2cc_result_'' @ mangle fn"

definition is_pascal_result_ident :: "string \<Rightarrow> bool" where
  "is_pascal_result_ident name \<longleftrightarrow> ascii_lower name = ''result''"

definition encode_helper_char :: "char \<Rightarrow> string" where
  "encode_helper_char c =
     (if is_upper c then [char_of (code c + 32)]
      else if is_lower c \<or> is_digit c then [c]
      else if c = CHR ''_'' then ''_u''
      else CHR ''x'' # hex2 c)"

definition encode_helper_ident :: "string \<Rightarrow> string" where
  "encode_helper_ident name =
     (if name = [] then ''empty'' else concat (map encode_helper_char name))"

fun encode_helper_param_mode :: "param_mode \<Rightarrow> string" where
  "encode_helper_param_mode ByValue = ''value''"
| "encode_helper_param_mode ByVar = ''var''"
| "encode_helper_param_mode ByConst = ''const''"
| "encode_helper_param_mode ByConstRef = ''constref''"
| "encode_helper_param_mode ByOut = ''out''"

definition enum_bound_name :: "string \<Rightarrow> string \<Rightarrow> string" where
  "enum_bound_name type_name which = ''tp2cc_enum_'' @ which @ ''_'' @ encode_helper_ident type_name"

definition unit_namespace_prefix :: "string \<Rightarrow> string" where
  "unit_namespace_prefix u = (if u = ''__rt__'' then ''::rt::'' else ''::'' @ mangle u @ ''::'')"

subsection \<open>Numbers as text\<close>

fun decimal :: "nat \<Rightarrow> string" where
  "decimal n = (if n < 10 then [char_of (48 + n)] else decimal (n div 10) @ [char_of (48 + n mod 10)])"

declare decimal.simps [simp del]

definition uint64_literal_text :: "u64 \<Rightarrow> string" where
  "uint64_literal_text v = decimal (unat v) @ (if v > 0x7FFFFFFFFFFFFFFF then ''ULL'' else [])"

subsection \<open>Types and parameter lists in helper names\<close>

text \<open>
  The type registry is asked for two things here: the symbol a bound type expression denotes
  and the target of a metaclass. Both are arguments.
\<close>

record type_names =
  bound_symbol :: "ty \<Rightarrow> string option"
  metaclass_target :: "ty \<Rightarrow> string option"

definition bound_or :: "type_names \<Rightarrow> ty \<Rightarrow> string \<Rightarrow> string" where
  "bound_or reg t s = (case bound_symbol reg t of
     Some n \<Rightarrow> ''name_'' @ encode_helper_ident n | None \<Rightarrow> s)"

definition underscored :: "string list \<Rightarrow> string" where
  "underscored xs = fold (\<lambda>x out. if out = [] then x else out @ ''_'' @ x) xs []"

definition param_codes :: "string param \<Rightarrow> string list" where
  "param_codes p =
     replicate (if param_names p = [] then 1 else length (param_names p))
       (encode_helper_param_mode (param_mode p) @ ''_'' @
        (case param_type p of Some c \<Rightarrow> c | None \<Rightarrow> ''untyped''))"

text \<open>\<open>encode_helper_params\<close>, given the parameters with their types already encoded.\<close>

definition encoded_params :: "string param list \<Rightarrow> string" where
  "encoded_params ps =
     (if ps = [] then ''noargs'' else underscored (concat (map param_codes ps)))"

definition encoded_array :: "array_kind \<Rightarrow> nat \<Rightarrow> string" where
  "encoded_array k dims = (case k of Open \<Rightarrow> ''openarr'' | Dynamic \<Rightarrow> ''dynarr''
     | Fixed \<Rightarrow> ''arr'' @ decimal dims) @ ''_''"

definition encoded_procedural :: "bool \<Rightarrow> bool \<Rightarrow> string param list \<Rightarrow> string option \<Rightarrow> string" where
  "encoded_procedural fn meth ps r =
     (if meth then ''method'' else ''proc'') @ (if fn then ''_fn_'' else ''_proc_'') @
     encoded_params ps @ ''_ret_'' @ (case r of Some c \<Rightarrow> if fn then c else ''void'' | None \<Rightarrow> ''void'')"

primrec encode_helper_type :: "type_names \<Rightarrow> ty \<Rightarrow> string" where
  "encode_helper_type reg (TyName l n) = bound_or reg (TyName l n) ''unbound''"
| "encode_helper_type reg (TyArray l dims el p k) = bound_or reg (TyArray l dims el p k)
     (encoded_array k (length dims) @ encode_helper_type reg el)"
| "encode_helper_type reg (TyRecord l fs ts ms v p) = bound_or reg (TyRecord l fs ts ms v p) ''record''"
| "encode_helper_type reg (TyObject l n ps ms r a b) = bound_or reg (TyObject l n ps ms r a b)
     (if r then ''class'' else ''object'')"
| "encode_helper_type reg (TyInterface l n ms) = bound_or reg (TyInterface l n ms) ''interface''"
| "encode_helper_type reg (TySet l el) = bound_or reg (TySet l el)
     (''set_'' @ encode_helper_type reg el)"
| "encode_helper_type reg (TyFile l el) = bound_or reg (TyFile l el)
     (case map_option (encode_helper_type reg) el of
        None \<Rightarrow> ''file_untyped'' | Some c \<Rightarrow> ''file_'' @ c)"
| "encode_helper_type reg (TyPointer l t) = bound_or reg (TyPointer l t)
     (''ptr_'' @ encode_helper_type reg t)"
| "encode_helper_type reg (TyProcedural l fn ps r c m) = bound_or reg (TyProcedural l fn ps r c m)
     (encoded_procedural fn m (map (map_param (encode_helper_type reg)) ps)
        (map_option (encode_helper_type reg) r))"
| "encode_helper_type reg (TyEnum l k ms) = bound_or reg (TyEnum l k ms) ''enum''"
| "encode_helper_type reg (TySubrange l a b) = bound_or reg (TySubrange l a b) ''subrange''"
| "encode_helper_type reg (TyString l n) = bound_or reg (TyString l n)
     (if n = None then ''string'' else ''string_sized'')"
| "encode_helper_type reg (TyMetaclass l n) = bound_or reg (TyMetaclass l n)
     (case metaclass_target reg (TyMetaclass l n) of
        Some t \<Rightarrow> ''metaclass_'' @ encode_helper_ident t | None \<Rightarrow> ''metaclass_unbound'')"
| "encode_helper_type reg (TyDistinct l t) = bound_or reg (TyDistinct l t)
     (''distinct_'' @ encode_helper_type reg t)"

definition encode_helper_params :: "type_names \<Rightarrow> ty param list \<Rightarrow> string" where
  "encode_helper_params reg ps = encoded_params (map (map_param (encode_helper_type reg)) ps)"

definition procedural_param_count :: "ty param list \<Rightarrow> nat" where
  "procedural_param_count ps =
     fold (\<lambda>p n. n + (if param_names p = [] then 1 else length (param_names p))) ps 0"

subsection \<open>Operators\<close>

fun binary_pascal_operator_token :: "binop \<Rightarrow> string" where
  "binary_pascal_operator_token BAdd = ''+''"
| "binary_pascal_operator_token BSub = ''-''"
| "binary_pascal_operator_token BMul = ''*''"
| "binary_pascal_operator_token BRealDiv = ''/''"
| "binary_pascal_operator_token BIntDiv = ''div''"
| "binary_pascal_operator_token BMod = ''mod''"
| "binary_pascal_operator_token BShl = ''shl''"
| "binary_pascal_operator_token BShr = ''shr''"
| "binary_pascal_operator_token BAnd = ''and''"
| "binary_pascal_operator_token BOr = ''or''"
| "binary_pascal_operator_token BXor = ''xor''"
| "binary_pascal_operator_token BEq = ''=''"
| "binary_pascal_operator_token BNotEq = ''<>''"
| "binary_pascal_operator_token BLt = ''<''"
| "binary_pascal_operator_token BGt = ''>''"
| "binary_pascal_operator_token BLtEq = ''<=''"
| "binary_pascal_operator_token BGtEq = ''>=''"
| "binary_pascal_operator_token _ = []"

definition cxx_operators :: "(string \<times> string) list" where
  "cxx_operators =
     [(''+'', ''+''), (''-'', ''-''), (''*'', ''*''), (''/'', ''/''), (''mod'', ''%''), (''='', ''==''),
      (''<>'', ''!=''), (''<'', ''<''), (''>'', ''>''), (''<='', ''<=''), (''>='', ''>=''),
      (''and'', ''&''), (''or'', ''|''), (''xor'', ''^''), (''shl'', ''<<''), (''shr'', ''>>'')]"

definition pascal_operator_cxx_token :: "string \<Rightarrow> string" where
  "pascal_operator_cxx_token op = (case map_of cxx_operators op of Some t \<Rightarrow> t | None \<Rightarrow> [])"

definition pascal_operator_decl_uses_named_helper :: "(ty, decl) proc_decl \<Rightarrow> bool" where
  "pascal_operator_decl_uses_named_helper pd \<longleftrightarrow> pd_is_operator pd \<and>
     (pd_operator_token pd = '':='' \<or> pascal_operator_cxx_token (pd_operator_token pd) = [])"

definition params_and_return :: "type_names \<Rightarrow> (ty, decl) proc_decl \<Rightarrow> string" where
  "params_and_return reg pd =
     ''_params_'' @ encode_helper_params reg (pd_params pd) @ ''_ret_'' @
     (case pd_return pd of Some t \<Rightarrow> encode_helper_type reg t | None \<Rightarrow> ''void'')"

definition pascal_operator_named_helper_name ::
    "type_names \<Rightarrow> (ty, decl) proc_decl \<Rightarrow> string" where
  "pascal_operator_named_helper_name reg pd =
     ''tp2cc_operator_'' @ encode_helper_ident (pd_operator_token pd) @ params_and_return reg pd"

definition pascal_assignment_operator_helper_name ::
    "type_names \<Rightarrow> (ty, decl) proc_decl \<Rightarrow> string" where
  "pascal_assignment_operator_helper_name reg pd =
     ''tp2cc_operator_assign'' @ params_and_return reg pd"

definition pascal_operator_decl_name_to_cxx ::
    "type_names \<Rightarrow> (ty, decl) proc_decl \<Rightarrow> string" where
  "pascal_operator_decl_name_to_cxx reg pd =
     (if \<not> pd_is_operator pd then mangle (pd_name pd)
      else if pd_operator_token pd = '':='' then pascal_assignment_operator_helper_name reg pd
      else if pascal_operator_decl_uses_named_helper pd
      then pascal_operator_named_helper_name reg pd
      else let op = pascal_operator_cxx_token (pd_operator_token pd)
           in if op = [] then mangle (pd_name pd) else ''operator'' @ op)"

subsection \<open>Primitive types\<close>

datatype (plugins only: code) primitive_int_kind = NoInt | SignedInt | UnsignedInt
datatype (plugins only: code) primitive_float_tier = NoTier | SingleTier | DoubleTier | ExtendedTier
datatype (plugins only: code) primitive_kind =
    KLongInt | KLongWord | KSmallInt | KWord | KShortInt | KByte | KChar | KWideChar | KBoolean
  | KByteBool | KWordBool | KLongBool | KQWordBool | KSingle | KDouble | KReal | KExtended | KComp
  | KPointer | KPChar | KText | KInt64 | KQWord | KCurrency | KPtrInt | KPtrUInt | KSizeInt
  | KSizeUInt | KShortString | KAnsiString | KUtf8String
datatype (plugins only: code) primitive_family =
    FamOther | FamInteger | FamReal | FamBool | FamChar | FamWideChar | FamString | FamPointer | FamText

record primitive_info =
  prim_kind :: primitive_kind
  prim_cxx :: string
  prim_family :: primitive_family
  int_kind :: primitive_int_kind
  float_tier :: primitive_float_tier
  prim_bits :: nat
  pointer_sized :: bool
  is_ordinal_integer :: bool

definition prim :: "primitive_kind \<Rightarrow> string \<Rightarrow> primitive_family \<Rightarrow> primitive_info" where
  "prim k c f = \<lparr>prim_kind = k, prim_cxx = c, prim_family = f, int_kind = NoInt, float_tier = NoTier,
     prim_bits = 0, pointer_sized = False, is_ordinal_integer = False\<rparr>"

fun float_rank :: "primitive_float_tier \<Rightarrow> nat" where
  "float_rank SingleTier = 1"
| "float_rank DoubleTier = 2"
| "float_rank ExtendedTier = 3"
| "float_rank NoTier = 0"

definition primitive_type_map :: "(string \<times> primitive_info) list" where
  "primitive_type_map =
   [(''longint'', (prim KLongInt ''int32_t'' FamInteger)
       \<lparr>int_kind := SignedInt, prim_bits := 32, is_ordinal_integer := True\<rparr>),
    (''longword'', (prim KLongWord ''uint32_t'' FamInteger)
       \<lparr>int_kind := UnsignedInt, prim_bits := 32, is_ordinal_integer := True\<rparr>),
    (''smallint'', (prim KSmallInt ''int16_t'' FamInteger)
       \<lparr>int_kind := SignedInt, prim_bits := 16, is_ordinal_integer := True\<rparr>),
    (''word'', (prim KWord ''uint16_t'' FamInteger)
       \<lparr>int_kind := UnsignedInt, prim_bits := 16, is_ordinal_integer := True\<rparr>),
    (''shortint'', (prim KShortInt ''int8_t'' FamInteger)
       \<lparr>int_kind := SignedInt, prim_bits := 8, is_ordinal_integer := True\<rparr>),
    (''byte'', (prim KByte ''uint8_t'' FamInteger)
       \<lparr>int_kind := UnsignedInt, prim_bits := 8, is_ordinal_integer := True\<rparr>),
    (''char'', prim KChar ''::rt::p_char'' FamChar),
    (''widechar'', (prim KWideChar ''uint16_t'' FamWideChar)
       \<lparr>int_kind := UnsignedInt, prim_bits := 16\<rparr>),
    (''boolean'', prim KBoolean ''bool'' FamBool),
    (''bytebool'', (prim KByteBool ''uint8_t'' FamBool)
       \<lparr>int_kind := UnsignedInt, prim_bits := 8\<rparr>),
    (''wordbool'', (prim KWordBool ''uint16_t'' FamBool)
       \<lparr>int_kind := UnsignedInt, prim_bits := 16\<rparr>),
    (''longbool'', (prim KLongBool ''uint32_t'' FamBool)
       \<lparr>int_kind := UnsignedInt, prim_bits := 32\<rparr>),
    (''qwordbool'', (prim KQWordBool ''uint64_t'' FamBool)
       \<lparr>int_kind := UnsignedInt, prim_bits := 64\<rparr>),
    (''single'', (prim KSingle ''float'' FamReal)
       \<lparr>float_tier := SingleTier\<rparr>),
    (''double'', (prim KDouble ''double'' FamReal)
       \<lparr>float_tier := DoubleTier\<rparr>),
    (''real'', (prim KReal ''double'' FamReal)
       \<lparr>float_tier := DoubleTier\<rparr>),
    (''extended'', (prim KExtended ''long double'' FamReal)
       \<lparr>float_tier := ExtendedTier\<rparr>),
    (''comp'', (prim KComp ''long double'' FamReal)
       \<lparr>float_tier := ExtendedTier\<rparr>),
    (''pointer'', prim KPointer ''void*'' FamPointer),
    (''pchar'', prim KPChar ''::rt::p_char*'' FamPointer),
    (''text'', prim KText ''::rt::tp2cc_TextFile'' FamText),
    (''int64'', (prim KInt64 ''int64_t'' FamInteger)
       \<lparr>int_kind := SignedInt, prim_bits := 64, is_ordinal_integer := True\<rparr>),
    (''qword'', (prim KQWord ''uint64_t'' FamInteger)
       \<lparr>int_kind := UnsignedInt, prim_bits := 64, is_ordinal_integer := True\<rparr>),
    (''currency'', (prim KCurrency ''::rt::t_currency'' FamInteger)
       \<lparr>int_kind := SignedInt, prim_bits := 64\<rparr>),
    (''ptrint'', (prim KPtrInt ''::rt::t_ptrint'' FamInteger)
       \<lparr>int_kind := SignedInt, pointer_sized := True\<rparr>),
    (''ptruint'', (prim KPtrUInt ''::rt::t_ptruint'' FamInteger)
       \<lparr>int_kind := UnsignedInt, pointer_sized := True\<rparr>),
    (''sizeint'', (prim KSizeInt ''::rt::t_sizeint'' FamInteger)
       \<lparr>int_kind := SignedInt, pointer_sized := True\<rparr>),
    (''sizeuint'', (prim KSizeUInt ''::rt::t_sizeuint'' FamInteger)
       \<lparr>int_kind := UnsignedInt, pointer_sized := True\<rparr>),
    (''shortstring'', prim KShortString ''::rt::tp2cc_ShortString<>'' FamString),
    (''ansistring'', prim KAnsiString ''::rt::tp2cc_AnsiString'' FamString),
    (''utf8string'', prim KUtf8String ''::rt::tp2cc_AnsiString'' FamString)]"

definition find_primitive :: "string \<Rightarrow> primitive_info option" where
  "find_primitive lowname = map_of primitive_type_map lowname"

subsection \<open>Widths and ranges\<close>

definition valid_width :: "nat \<Rightarrow> bool" where
  "valid_width bits \<longleftrightarrow> \<not> (bits = 0 \<or> bits > 64)"

definition bad_width :: "string \<Rightarrow> nat \<Rightarrow> string" where
  "bad_width f bits = f @ '': bit width '' @ decimal bits @ '' out of range [1, 64]''"

definition low_bits :: "u64 \<Rightarrow> nat \<Rightarrow> u64 checked" where
  "low_bits value bits =
     (if \<not> valid_width bits then Inl (bad_width ''low_bits'' bits)
      else Inr (if bits = 64 then value else value AND (push_bit bits 1 - 1)))"

definition primitive_bits :: "primitive_info \<Rightarrow> nat \<Rightarrow> nat checked" where
  "primitive_bits info target =
     (if int_kind info = NoInt
      then Inl ''primitive_bits: non-integer primitive has no integer bit width''
      else if pointer_sized info
      then (if target \<noteq> 32 \<and> target \<noteq> 64
            then Inl (''primitive_bits: target pointer width must be 32 or 64, got '' @ decimal target)
            else Inr target)
      else if prim_bits info = 0 \<or> prim_bits info > 64
      then Inl (''primitive_bits: fixed-width integer primitive has invalid width '' @
             decimal (prim_bits info))
      else Inr (prim_bits info))"

definition unsigned_mask_for_bits :: "nat \<Rightarrow> u64 checked" where
  "unsigned_mask_for_bits bits =
     (if \<not> valid_width bits then Inl (bad_width ''unsigned_mask_for_bits'' bits)
      else Inr (if bits = 64 then 0xFFFFFFFFFFFFFFFF else push_bit bits 1 - 1))"

definition signed_min_for_bits :: "nat \<Rightarrow> i64 checked" where
  "signed_min_for_bits bits =
     (if \<not> valid_width bits then Inl (bad_width ''signed_min_for_bits'' bits)
      else Inr (if bits = 64 then 0x8000000000000000 else - push_bit (bits - 1) 1))"

definition signed_max_for_bits :: "nat \<Rightarrow> i64 checked" where
  "signed_max_for_bits bits =
     (if \<not> valid_width bits then Inl (bad_width ''signed_max_for_bits'' bits)
      else Inr (if bits = 64 then 0x7FFFFFFFFFFFFFFF else push_bit (bits - 1) 1 - 1))"

definition signed_bits_literal_text :: "u64 \<Rightarrow> nat \<Rightarrow> string \<Rightarrow> string checked" where
  "signed_bits_literal_text bits width cxx =
     (if \<not> valid_width width then Inl (bad_width ''signed_bits_literal_text'' width)
      else let sign_bit = push_bit (width - 1) 1 in
      if bits AND sign_bit = 0 then Inr (uint64_literal_text bits)
      else if width = 64 \<and> bits = sign_bit then Inr (''::std::numeric_limits<'' @ cxx @ ''>::min()'')
      else (case (if width = 64 then Inr (0 - bits) else low_bits (NOT bits + 1) width) of
              Inl e \<Rightarrow> Inl e
            | Inr magnitude \<Rightarrow> Inr (''-'' @ uint64_literal_text magnitude)))"

definition primitive_low_high_expr :: "primitive_info option \<Rightarrow> bool \<Rightarrow> string" where
  "primitive_low_high_expr p want_low = (case p of
     None \<Rightarrow> []
   | Some info \<Rightarrow>
       if prim_family info = FamChar
       then (if want_low then ''::rt::p_char{0}'' else ''::rt::p_char{255}'')
       else if prim_family info = FamBool then (if want_low then ''false'' else ''true'')
       else if int_kind info = NoInt then []
       else if want_low
       then (if int_kind info = UnsignedInt then ''0''
             else ''::std::numeric_limits<'' @ prim_cxx info @ ''>::min()'')
       else ''::std::numeric_limits<'' @ prim_cxx info @ ''>::max()'')"

text \<open>
  \<open>TypeRegistry::primitive_info_storage\<close> is filled from \<open>primitive_type_map\<close>; the map is
  unordered, so the storage is an argument here.
\<close>

definition ordinal_integer_primitive ::
    "primitive_info list \<Rightarrow> primitive_int_kind \<Rightarrow> nat \<Rightarrow> primitive_info option" where
  "ordinal_integer_primitive storage k bits =
     List.find (\<lambda>c. is_ordinal_integer c \<and> int_kind c = k \<and> prim_bits c = bits) storage"

definition primitive_info_for_value :: "primitive_info list \<Rightarrow> i64 \<Rightarrow> primitive_info option" where
  "primitive_info_for_value storage value =
     (if -128 \<le>s value \<and> value \<le>s 127 then ordinal_integer_primitive storage SignedInt 8
      else if 0 \<le>s value \<and> value \<le>s 255 then ordinal_integer_primitive storage UnsignedInt 8
      else if -32768 \<le>s value \<and> value \<le>s 32767 then ordinal_integer_primitive storage SignedInt 16
      else if 0 \<le>s value \<and> value \<le>s 65535 then ordinal_integer_primitive storage UnsignedInt 16
      else if -2147483648 \<le>s value \<and> value \<le>s 2147483647
      then ordinal_integer_primitive storage SignedInt 32
      else if 0 \<le>s value \<and> value \<le> 4294967295 then ordinal_integer_primitive storage UnsignedInt 32
      else ordinal_integer_primitive storage SignedInt 64)"

definition shift_carrier_primitive ::
    "primitive_info list \<Rightarrow> primitive_info option \<Rightarrow> nat \<Rightarrow> primitive_info option checked" where
  "shift_carrier_primitive storage p target = (case p of
     None \<Rightarrow> Inr None
   | Some info \<Rightarrow>
       if int_kind info = NoInt then Inr None
       else case primitive_bits info target of
         Inl e \<Rightarrow> Inl e
       | Inr b \<Rightarrow> Inr (if b \<ge> 64 then Some info else ordinal_integer_primitive storage (int_kind info) 32))"

subsection \<open>Folding of integer constants\<close>

definition checked_add_int64 :: "i64 \<Rightarrow> i64 \<Rightarrow> i64 option" where
  "checked_add_int64 a b =
     (if (0 <s b \<and> 0x7FFFFFFFFFFFFFFF - b <s a) \<or> (b <s 0 \<and> a <s 0x8000000000000000 - b)
      then None else Some (a + b))"

definition checked_sub_int64 :: "i64 \<Rightarrow> i64 \<Rightarrow> i64 option" where
  "checked_sub_int64 a b =
     (if (b <s 0 \<and> 0x7FFFFFFFFFFFFFFF + b <s a) \<or> (0 <s b \<and> a <s 0x8000000000000000 + b)
      then None else Some (a - b))"

definition shift_amount :: "i64 \<Rightarrow> nat \<Rightarrow> nat" where
  "shift_amount shift bits = unat (shift AND word_of_nat (bits - 1))"

definition sign_extended :: "nat \<Rightarrow> u64 \<Rightarrow> i64" where
  "sign_extended bits shifted =
     (if shifted AND push_bit (bits - 1) 1 = 0 then shifted
      else shifted OR NOT (0xFFFFFFFFFFFFFFFF AND (push_bit bits 1 - 1)))"

definition checked_pascal_shift_int64 ::
    "bool \<Rightarrow> i64 \<Rightarrow> primitive_info option \<Rightarrow> i64 \<Rightarrow> nat \<Rightarrow> i64 option checked" where
  "checked_pascal_shift_int64 shift_left a carrier shift target = (case carrier of
     None \<Rightarrow> Inr None
   | Some info \<Rightarrow>
       if int_kind info = NoInt then Inr None
       else case primitive_bits info target of
         Inl e \<Rightarrow> Inl e
       | Inr b \<Rightarrow>
           let bits = max b 32; amount = shift_amount shift bits in
           case low_bits a bits of
             Inl e \<Rightarrow> Inl e
           | Inr value_bits \<Rightarrow>
               (case (if shift_left then low_bits (push_bit amount value_bits) bits
                      else Inr (drop_bit amount value_bits)) of
                  Inl e \<Rightarrow> Inl e
                | Inr shifted \<Rightarrow>
                    Inr (Some (if int_kind info = UnsignedInt \<or> bits = 64 then shifted
                               else sign_extended bits shifted))))"

definition checked_pascal_shl_int64 ::
    "i64 \<Rightarrow> primitive_info option \<Rightarrow> i64 \<Rightarrow> nat \<Rightarrow> i64 option checked" where
  "checked_pascal_shl_int64 = checked_pascal_shift_int64 True"

definition checked_pascal_shr_int64 ::
    "i64 \<Rightarrow> primitive_info option \<Rightarrow> i64 \<Rightarrow> nat \<Rightarrow> i64 option checked" where
  "checked_pascal_shr_int64 = checked_pascal_shift_int64 False"

end
