(* ===== verification/Support_Facts.thy ===== *)
theory Support_Facts
  imports Word_Facts Emit_Support
begin

text \<open>
  The contracts of the emitter's shared helpers: generated names are legal and do not clash,
  literals read back as the value they were printed from, the carrier chosen for a constant
  is the smallest that holds it, and folded arithmetic is exact or refused.
\<close>

subsection \<open>Helper names\<close>

fun decode_helper :: "string \<Rightarrow> string" where
  "decode_helper [] = []"
| "decode_helper [c] = [c]"
| "decode_helper (c # d # s) =
     (if c = CHR ''_'' \<and> d = CHR ''u'' then c # decode_helper s else c # decode_helper (d # s))"

lemma decode_helper_char:
  assumes "is_ident_cont c"
  shows "decode_helper (encode_helper_char c @ s) =
    (if is_upper c then char_of (code c + 32) else c) # decode_helper s"
proof -
  have no_underscore: "decode_helper (d # s) = d # decode_helper s" if "d \<noteq> CHR ''_''" for d
    using that by (cases s) auto
  have no_class: "\<not> is_upper (CHR ''_'')" "\<not> is_lower (CHR ''_'')" "\<not> is_digit (CHR ''_'')"
    by (simp_all add: is_upper_def is_lower_def is_digit_def code_def)
  moreover have "char_of (code c + 32) \<noteq> CHR ''_''" if "is_upper c"
    using is_lower_lower_char [OF that] that no_class(2) unfolding lower_char_def by metis
  ultimately show ?thesis using assms no_underscore
    by (auto simp: encode_helper_char_def is_ident_cont_def is_ident_start_def)
qed

lemma decode_helper_encode:
  "list_all is_ident_cont s \<Longrightarrow> decode_helper (concat (map encode_helper_char s)) = ascii_lower s"
  by (induction s) (simp_all add: decode_helper_char ascii_lower_def)

lemma encode_helper_char_lower:
  "encode_helper_char (if is_upper c then char_of (code c + 32) else c) = encode_helper_char c"
proof (cases "is_upper c")
  case True
  then have "is_lower (lower_char c)" by (rule is_lower_lower_char)
  with True show ?thesis
    using not_upper_lower_char [of c] by (auto simp: encode_helper_char_def lower_char_def)
qed simp

text \<open>
  C15. Two non-empty Pascal identifiers get the same helper-name component exactly when they are
  the same identifier to Pascal, that is up to letter case: the encoding never merges two
  identifiers and never separates two spellings of one. The claim is about one component, not
  about the whole names, which join several.
\<close>

theorem helper_ident_injective:
  assumes "a \<noteq> []" "b \<noteq> []" "list_all is_ident_cont a" "list_all is_ident_cont b"
  shows "encode_helper_ident a = encode_helper_ident b \<longleftrightarrow> ascii_lower a = ascii_lower b"
proof
  assume "encode_helper_ident a = encode_helper_ident b"
  then have "decode_helper (concat (map encode_helper_char a)) =
      decode_helper (concat (map encode_helper_char b))"
    using assms by (simp add: encode_helper_ident_def)
  then show "ascii_lower a = ascii_lower b" using assms by (simp add: decode_helper_encode)
next
  have lower: "concat (map encode_helper_char (ascii_lower s)) = concat (map encode_helper_char s)" for s
    by (simp add: ascii_lower_def encode_helper_char_lower comp_def)
  assume "ascii_lower a = ascii_lower b"
  then have "concat (map encode_helper_char a) = concat (map encode_helper_char b)"
    by (metis lower)
  then show "encode_helper_ident a = encode_helper_ident b"
    using assms by (simp add: encode_helper_ident_def)
qed

theorem helper_ident_injective_witness:
  "encode_helper_ident ''Foo_U'' = encode_helper_ident ''foo_u'' \<and>
   encode_helper_ident ''Foo_U'' \<noteq> encode_helper_ident ''foo__u''"
proof -
  have ident: "list_all is_ident_cont ''Foo_U''" "list_all is_ident_cont ''foo_u''"
    "list_all is_ident_cont ''foo__u''"
    by code_simp+
  have "ascii_lower ''Foo_U'' = ''foo_u''" "ascii_lower ''foo_u'' = ''foo_u''"
    "ascii_lower ''foo__u'' = ''foo__u''" by code_simp+
  then show ?thesis
    using helper_ident_injective [of "''Foo_U''" "''foo_u''"]
      helper_ident_injective [of "''Foo_U''" "''foo__u''"] ident by simp
qed

definition ident_text :: "string \<Rightarrow> bool" where
  "ident_text s \<longleftrightarrow> s \<noteq> [] \<and> list_all (\<lambda>c. is_lower c \<or> is_digit c \<or> c = CHR ''_'') s"

subsection \<open>Characters in C++ literals\<close>

text \<open>
  What a C++ compiler reads between the apostrophes of a character literal: a simple escape,
  a hexadecimal escape of two digits, an octal \<open>\\0\<close>, or one printable character that is
  neither an apostrophe nor a backslash.
\<close>

definition read_cxx_char :: "string \<Rightarrow> char option" where
  "read_cxx_char s = (case s of
     [c] \<Rightarrow> if c = quote \<or> c = bslash \<or> code c < 32 \<or> 127 \<le> code c then None else Some c
   | [b, e] \<Rightarrow>
       if b \<noteq> bslash then None
       else map_of [(CHR ''n'', nl), (CHR ''r'', cr), (CHR ''t'', tab), (CHR ''0'', nul),
         (bslash, bslash), (quote, quote)] e
   | [b, x, h, l] \<Rightarrow>
       if b = bslash \<and> x = CHR ''x'' \<and> is_hex h \<and> is_hex l
       then Some (char_of (16 * hex_val h + hex_val l)) else None
   | _ \<Rightarrow> None)"

text \<open>
  Every one of the 256 characters survives the trip through a C++ character literal.
\<close>

theorem char_literal_roundtrip:
  "read_cxx_char (char_literal_body_to_cxx c) = Some c"
proof (cases "c \<in> {bslash, nl, cr, tab, nul, quote}")
  case True
  then show ?thesis by (auto simp: char_literal_body_to_cxx_def read_cxx_char_def)
next
  case False
  have hex: "is_hex (hex_digit n) \<and> hex_val (hex_digit n) = n" if "n < 16" for n
    using that by (simp add: hex_digit_def is_hex_def hex_val_def is_digit_def code_char_of)
  have "code c div 16 < 16" by (rule less_mult_imp_div_less) simp
  with False hex [of "code c div 16"] hex [of "code c mod 16"] show ?thesis
    by (simp add: char_literal_body_to_cxx_def read_cxx_char_def hex2_def)
qed

subsection \<open>Integer literals\<close>

definition digits_value :: "string \<Rightarrow> nat" where
  "digits_value = foldl (\<lambda>n c. 10 * n + digit_val c) 0"

definition nat_literal :: "string \<Rightarrow> nat option" where
  "nat_literal s =
     (let ds = takeWhile is_digit s; rest = dropWhile is_digit s
      in if ds \<noteq> [] \<and> (rest = [] \<or> rest = ''ULL'') then Some (digits_value ds) else None)"

definition cxx_literal_value :: "string \<Rightarrow> int option" where
  "cxx_literal_value s = (case s of
     c # r \<Rightarrow> if c = CHR ''-'' then map_option (\<lambda>n. - int n) (nat_literal r)
              else map_option int (nat_literal s)
   | [] \<Rightarrow> None)"

lemma digit_char: "d < 10 \<Longrightarrow> is_digit (char_of (48 + d)) \<and> digit_val (char_of (48 + d)) = d"
  by (simp add: is_digit_def digit_val_def code_char_of)

lemma decimal_digits: "list_all is_digit (decimal n) \<and> decimal n \<noteq> [] \<and> digits_value (decimal n) = n"
proof (induction n rule: decimal.induct)
  case (1 n)
  then show ?case
    by (cases "n < 10") (simp_all add: decimal.simps [of n] digits_value_def digit_char)
qed

lemma takeWhile_digits:
  "list_all P xs \<Longrightarrow> takeWhile P (xs @ ys) = xs @ takeWhile P ys \<and> dropWhile P (xs @ ys) = dropWhile P ys"
  by (simp add: list_all_iff)

lemma nat_literal_decimal: "nat_literal (decimal n @ s) =
    (if s = [] \<or> s = ''ULL'' then Some n else nat_literal (decimal n @ s))"
proof -
  have "takeWhile is_digit ''ULL'' = [] \<and> dropWhile is_digit ''ULL'' = ''ULL''"
    by (simp add: is_digit_def code_def)
  then show ?thesis
    using decimal_digits [of n] takeWhile_digits [of is_digit "decimal n" s]
    by (auto simp: nat_literal_def Let_def)
qed

lemma uint64_literal_value: "nat_literal (uint64_literal_text v) = Some (unat v)"
  using nat_literal_decimal [of "unat v" "''ULL''"] nat_literal_decimal [of "unat v" "[]"]
  by (simp add: uint64_literal_text_def)

lemma not_minus_decimal: "decimal n @ s = c # r \<Longrightarrow> c \<noteq> CHR ''-''"
  using decimal_digits [of n] by (cases "decimal n") (auto simp: is_digit_def code_def)

lemma cxx_literal_uint64: "cxx_literal_value (uint64_literal_text v) = Some (int (unat v))"
proof (cases "uint64_literal_text v")
  case Nil
  then show ?thesis using decimal_digits by (simp add: uint64_literal_text_def)
next
  case (Cons c r)
  then have "c \<noteq> CHR ''-''" using not_minus_decimal by (metis uint64_literal_text_def)
  with Cons uint64_literal_value [of v] show ?thesis by (simp add: cxx_literal_value_def)
qed

lemma valid_width_iff: "valid_width n \<longleftrightarrow> 0 < n \<and> n \<le> 64"
  by (auto simp: valid_width_def)

lemma low_bits_eq: "valid_width n \<Longrightarrow> low_bits v n = Inr (take_bit n v)"
proof (cases "n = 64")
  case True
  have "take_bit 64 v = v" by (rule take_bit_word_eq_self) simp
  with True show ?thesis by (simp add: low_bits_def valid_width_def)
qed (simp add: low_bits_def take_bit_eq_mask mask_eq_exp_minus_1 push_bit_eq_mult)

lemma sign_bit_set: "0 < n \<Longrightarrow> v AND push_bit (n - 1) 1 = 0 \<longleftrightarrow> \<not> bit v (n - 1)" for v :: u64
  by (simp add: and_exp_eq_0_iff_not_bit flip: push_bit_eq_mult)

text \<open>
  A bit pattern of width \<open>w\<close> is printed as the signed number it stands for: the literal
  reads back as the two's complement value of the pattern. Only the least 64-bit number,
  which has no literal in C++, is printed by name.
\<close>

theorem signed_literal_value:
  assumes "valid_width w" "take_bit w v = v"
  shows "\<exists>t. signed_bits_literal_text v w cxx = Inr t \<and>
    (if w = 64 \<and> v = 0x8000000000000000 then t = ''::std::numeric_limits<'' @ cxx @ ''>::min()''
     else cxx_literal_value t = Some (signed_take_bit (w - 1) (uint v)))"
proof -
  obtain m where w: "w = Suc m" "m < 64"
    using assms(1) by (cases w) (simp_all add: valid_width_iff)
  have t: "take_bit w (uint v) = uint v"
    using assms(2) by (metis unsigned_take_bit_eq)
  then have bound: "uint v < 2 ^ w" by (metis take_bit_int_less_exp)
  have val: "signed_take_bit (w - 1) (uint v) = uint v - 2 ^ w * of_bool (bit v m)"
    using t w by (simp add: signed_take_bit_eq_take_bit_minus bit_unsigned_iff)
  have sign: "v AND push_bit (w - 1) 1 = 0 \<longleftrightarrow> \<not> bit v m" using sign_bit_set [of w v] w by simp
  show ?thesis
  proof (cases "bit v m")
    case False
    then have "signed_bits_literal_text v w cxx = Inr (uint64_literal_text v)"
      using assms(1) sign by (simp add: signed_bits_literal_text_def Let_def)
    moreover have "\<not> (w = 64 \<and> v = 0x8000000000000000)" using False w by auto
    ultimately show ?thesis using False val cxx_literal_uint64 [of v] by auto
  next
    case True
    then have "v \<noteq> 0" by auto
    then have pos: "0 < uint v" using uint_0_iff [of v] uint_ge_0 [of v] by linarith
    let ?m = "take_bit w (- v)"
    have "uint ?m = take_bit w (- uint v)"
      using w by (simp add: unsigned_take_bit_eq uint_word_arith_bintrs take_bit_take_bit)
    also have "\<dots> = 2 ^ w - uint v"
      using pos bound by (simp add: take_bit_eq_mod zmod_zminus1_eq_if mod_pos_pos_trivial)
    finally have mag: "cxx_literal_value (''-'' @ uint64_literal_text ?m) = Some (uint v - 2 ^ w)"
      using uint64_literal_value [of ?m] by (simp add: cxx_literal_value_def)
    have "signed_bits_literal_text v w cxx =
        (if w = 64 \<and> v = 0x8000000000000000 then Inr (''::std::numeric_limits<'' @ cxx @ ''>::min()'')
         else Inr (''-'' @ uint64_literal_text ?m))"
      using True sign assms(1) low_bits_eq [OF assms(1), of "- v"] w
      by (cases "w = 64")
        (simp_all add: signed_bits_literal_text_def Let_def take_bit_word_eq_self
          flip: minus_eq_not_plus_1)
    then show ?thesis using True val mag by simp
  qed
qed

theorem signed_literal_value_witness:
  "\<exists>t. signed_bits_literal_text 0x80 8 ''int8_t'' = Inr t \<and> cxx_literal_value t = Some (- 128)"
  using signed_literal_value [of 8 "0x80" "''int8_t''"] by (auto simp: valid_width_def)

subsection \<open>The carrier of a constant\<close>

definition int_range :: "primitive_int_kind \<times> nat \<Rightarrow> int set" where
  "int_range = (\<lambda>(k, b). if k = SignedInt then signed_range b else unsigned_range b)"

definition primitive_range :: "primitive_info \<Rightarrow> int set" where
  "primitive_range info = int_range (int_kind info, prim_bits info)"

lemma find_the:
  assumes "{c \<in> set xs. P c} = {x}"
  shows "List.find P xs = Some x"
proof (cases "List.find P xs")
  case None
  then show ?thesis using assms by (auto simp: find_None_iff)
next
  case (Some y)
  then have "y \<in> {c \<in> set xs. P c}" by (auto simp: find_Some_iff)
  with assms Some show ?thesis by simp
qed

abbreviation ordinals :: "(primitive_int_kind \<times> nat) list" where
  "ordinals \<equiv> [(SignedInt, 8), (UnsignedInt, 8), (SignedInt, 16), (UnsignedInt, 16),
     (SignedInt, 32), (UnsignedInt, 32), (SignedInt, 64), (UnsignedInt, 64)]"

lemma table_ordinals:
  "list_all (\<lambda>c. is_ordinal_integer c \<longrightarrow> (int_kind c, prim_bits c) \<in> set ordinals)
     (map snd primitive_type_map)"
  by code_simp

lemma table_ordinal:
  "list_all (\<lambda>(k, b). length (filter (\<lambda>c. is_ordinal_integer c \<and> int_kind c = k \<and> prim_bits c = b)
     (map snd primitive_type_map)) = 1) ordinals"
  by code_simp

lemma ordinal_found:
  assumes "set storage = snd ` set primitive_type_map" "(k, b) \<in> set ordinals"
  obtains info where "ordinal_integer_primitive storage k b = Some info"
    "is_ordinal_integer info" "int_kind info = k" "prim_bits info = b"
proof -
  have "length (filter (\<lambda>c. is_ordinal_integer c \<and> int_kind c = k \<and> prim_bits c = b)
      (map snd primitive_type_map)) = 1"
    using bspec [OF table_ordinal [unfolded list_all_iff] assms(2)] by simp
  then obtain info where "filter (\<lambda>c. is_ordinal_integer c \<and> int_kind c = k \<and> prim_bits c = b)
      (map snd primitive_type_map) = [info]"
    unfolding One_nat_def length_Suc_conv by auto
  then have "set (filter (\<lambda>c. is_ordinal_integer c \<and> int_kind c = k \<and> prim_bits c = b)
      (map snd primitive_type_map)) = {info}" by simp
  then have one: "{c \<in> set storage. is_ordinal_integer c \<and> int_kind c = k \<and> prim_bits c = b} = {info}"
    using assms(1) by simp
  then have "ordinal_integer_primitive storage k b = Some info"
    unfolding ordinal_integer_primitive_def by (rule find_the)
  with one that [of info] show thesis by blast
qed

definition smallest_carrier :: "primitive_info list \<Rightarrow> int \<Rightarrow> primitive_info \<Rightarrow> bool" where
  "smallest_carrier storage v info \<longleftrightarrow>
     is_ordinal_integer info \<and> v \<in> primitive_range info \<and>
     {c \<in> set storage. is_ordinal_integer c \<and> v \<in> primitive_range c} \<subseteq>
       {c. prim_bits info \<le> prim_bits c}"

lemma smallest_carrierI:
  assumes "set storage = snd ` set primitive_type_map" "(k, b) \<in> set ordinals"
    and "v \<in> int_range (k, b)"
    and "list_all (\<lambda>x. v \<in> int_range x \<longrightarrow> b \<le> snd x) ordinals"
  shows "\<exists>info. ordinal_integer_primitive storage k b = Some info \<and> smallest_carrier storage v info"
proof -
  obtain info where info: "ordinal_integer_primitive storage k b = Some info"
    "is_ordinal_integer info" "int_kind info = k" "prim_bits info = b"
    using ordinal_found [OF assms(1,2)] .
  have "b \<le> prim_bits c" if "c \<in> set storage" "is_ordinal_integer c" "v \<in> primitive_range c" for c
  proof -
    have "(int_kind c, prim_bits c) \<in> set ordinals"
      using table_ordinals [unfolded list_all_iff] that assms(1) by auto
    from bspec [OF assms(4) [unfolded list_all_iff] this] that(3) show ?thesis
      by (simp add: primitive_range_def)
  qed
  then show ?thesis using info assms(3) by (auto simp: smallest_carrier_def primitive_range_def)
qed

text \<open>
  The integer type chosen for a constant holds its value, and no ordinal integer type of
  the language that holds it is narrower; the choice does not depend on the order in which
  the registry interned the primitive types.
\<close>

theorem carrier_smallest:
  assumes "set storage = snd ` set primitive_type_map"
  shows "\<exists>info. primitive_info_for_value storage v = Some info \<and>
    smallest_carrier storage (sint v) info"
proof -
  note smallest = smallest_carrierI [OF assms]
  have v: "sint v \<in> signed_range 64" using sint_in_range [of v] by simp
  have u: "v \<le> 4294967295 \<longleftrightarrow> sint v \<le> 4294967295" if "0 \<le> sint v"
    using sint_nonneg [OF that] by (simp add: word_le_def)
  note defs = primitive_info_for_value_def word_sle_eq signed_range_def unsigned_range_def int_range_def
  consider (a) "- 128 \<le> sint v" "sint v \<le> 127"
    | (b) "128 \<le> sint v" "sint v \<le> 255"
    | (c) "- 32768 \<le> sint v" "sint v < - 128"
    | (d) "256 \<le> sint v" "sint v \<le> 32767"
    | (e) "32768 \<le> sint v" "sint v \<le> 65535"
    | (f) "- 2147483648 \<le> sint v" "sint v < - 32768"
    | (g) "65536 \<le> sint v" "sint v \<le> 2147483647"
    | (h) "2147483648 \<le> sint v" "sint v \<le> 4294967295"
    | (i) "- 9223372036854775808 \<le> sint v" "sint v < - 2147483648"
    | (j) "4294967296 \<le> sint v" "sint v < 9223372036854775808"
    using v unfolding signed_range_def by simp linarith
  then show ?thesis
  proof cases
    case a
    with smallest [of SignedInt 8 "sint v"] show ?thesis by (simp add: defs)
  next
    case b
    with smallest [of UnsignedInt 8 "sint v"] show ?thesis by (simp add: defs)
  next
    case c
    with smallest [of SignedInt 16 "sint v"] show ?thesis by (simp add: defs)
  next
    case d
    with smallest [of SignedInt 16 "sint v"] show ?thesis by (simp add: defs)
  next
    case e
    with smallest [of UnsignedInt 16 "sint v"] show ?thesis by (simp add: defs)
  next
    case f
    with smallest [of SignedInt 32 "sint v"] show ?thesis by (simp add: defs)
  next
    case g
    with smallest [of SignedInt 32 "sint v"] show ?thesis by (simp add: defs)
  next
    case h
    with smallest [of UnsignedInt 32 "sint v"] u show ?thesis by (simp add: defs)
  next
    case i
    with smallest [of SignedInt 64 "sint v"] u show ?thesis by (simp add: defs)
  next
    case j
    with smallest [of SignedInt 64 "sint v"] u show ?thesis by (simp add: defs)
  qed
qed

theorem carrier_smallest_witness:
  "\<exists>info. primitive_info_for_value (rev (map snd primitive_type_map)) 200 = Some info \<and>
    smallest_carrier (rev (map snd primitive_type_map)) 200 info"
  using carrier_smallest [of "rev (map snd primitive_type_map)" 200] by simp

subsection \<open>Folded arithmetic\<close>

lemma checked_add_int64_exact:
  "checked_add_int64 a b = (if sint a + sint b \<in> signed_range 64 then Some (a + b) else None)"
proof -
  have r: "sint a \<in> signed_range 64" "sint b \<in> signed_range 64"
    using sint_in_range [of a] sint_in_range [of b] by simp_all
  have 1: "sint (0x7FFFFFFFFFFFFFFF - b) = 0x7FFFFFFFFFFFFFFF - sint b" if "0 < sint b"
    using sint_diff_exact [of "0x7FFFFFFFFFFFFFFF" b] that r by (simp add: signed_range_def)
  have 2: "sint (0x8000000000000000 - b) = - 0x8000000000000000 - sint b" if "sint b < 0"
    using sint_diff_exact [of "0x8000000000000000" b] that r by (simp add: signed_range_def)
  show ?thesis
    using r 1 2 by (auto simp: checked_add_int64_def word_sless_alt signed_range_def)
qed

lemma checked_sub_int64_exact:
  "checked_sub_int64 a b = (if sint a - sint b \<in> signed_range 64 then Some (a - b) else None)"
proof -
  have r: "sint a \<in> signed_range 64" "sint b \<in> signed_range 64"
    using sint_in_range [of a] sint_in_range [of b] by simp_all
  have 1: "sint (0x7FFFFFFFFFFFFFFF + b) = 0x7FFFFFFFFFFFFFFF + sint b" if "sint b < 0"
    using sint_add_exact [of "0x7FFFFFFFFFFFFFFF" b] that r by (simp add: signed_range_def)
  have 2: "sint (0x8000000000000000 + b) = - 0x8000000000000000 + sint b" if "0 < sint b"
    using sint_add_exact [of "0x8000000000000000" b] that r by (simp add: signed_range_def)
  show ?thesis
    using r 1 2 by (auto simp: checked_sub_int64_def word_sless_alt signed_range_def)
qed

text \<open>
  Folding a sum or a difference of constants gives the mathematical result, and gives
  nothing exactly when that result does not fit 64 bits.
\<close>

theorem folded_sum_exact:
  "map_option sint (checked_add_int64 a b) =
     (if sint a + sint b \<in> signed_range 64 then Some (sint a + sint b) else None) \<and>
   map_option sint (checked_sub_int64 a b) =
     (if sint a - sint b \<in> signed_range 64 then Some (sint a - sint b) else None)"
  using sint_add_exact [of a b] sint_diff_exact [of a b]
  by (simp add: checked_add_int64_exact checked_sub_int64_exact)

lemma shift_amount_mod:
  assumes "n = 32 \<or> n = 64"
  shows "shift_amount s n = unat s mod n"
proof -
  have "word_of_nat (n - 1) = (mask (if n = 32 then 5 else 6) :: u64)"
    using assms by (auto simp: mask_eq_exp_minus_1)
  then have "shift_amount s n = unat (take_bit (if n = 32 then 5 else 6) s)"
    by (simp add: shift_amount_def take_bit_eq_mask)
  then show ?thesis using assms by (auto simp: unsigned_take_bit_eq take_bit_eq_mod unat_mod)
qed

lemma sign_extended_eq:
  assumes "0 < n" "n < 64" "take_bit n x = x"
  shows "sign_extended n x = signed_take_bit (n - 1) x"
proof -
  have all: "0xFFFFFFFFFFFFFFFF AND (push_bit n 1 - 1) = (mask n :: u64)"
  proof -
    have "(0xFFFFFFFFFFFFFFFF :: u64) = - 1" by simp
    then show ?thesis by (simp only: mask_eq_exp_minus_1 push_bit_eq_mult) simp
  qed
  have small: "bit x i \<Longrightarrow> i < n" for i using assms(3) by (metis bit_take_bit_iff)
  obtain m where m: "n = Suc m" using assms(1) by (cases n) simp_all
  have "bit (sign_extended n x) i \<longleftrightarrow> bit (signed_take_bit (n - 1) x) i" if "i < 64" for i
  proof -
    have "m < i \<Longrightarrow> \<not> bit x i" using small [of i] m by auto
    then show ?thesis
      using that sign_bit_set [OF assms(1), of x] all
      by (cases i m rule: linorder_cases; cases "bit x m")
        (simp_all add: m sign_extended_def bit_simps min_def)
  qed
  then show ?thesis by (intro bit_word_eqI) simp
qed

lemma folded_shift_value:
  assumes "int_kind info \<noteq> NoInt" "primitive_bits info target = Inr b"
    and n: "n = max b 32" "n = 32 \<or> n = 64" and s: "s = unat shift mod n"
  shows "\<exists>l r. checked_pascal_shl_int64 a (Some info) shift target = Inr (Some l) \<and>
    checked_pascal_shr_int64 a (Some info) shift target = Inr (Some r) \<and>
    (if int_kind info = SignedInt
     then sint l = signed_take_bit (n - 1) (sint a * 2 ^ s) \<and>
          sint r = signed_take_bit (n - 1) (take_bit n (sint a) div 2 ^ s)
     else uint l = take_bit n (sint a * 2 ^ s) \<and> uint r = take_bit n (sint a) div 2 ^ s)"
proof -
  let ?l = "take_bit n (push_bit s (take_bit n a))" and ?r = "drop_bit s (take_bit n a)"
  let ?signed = "\<lambda>w. if int_kind info = SignedInt then signed_take_bit (n - 1) w else w"
  have ok: "valid_width n" using n by (auto simp: valid_width_def)
  have amount: "shift_amount shift n = s" using shift_amount_mod n s by auto
  have keep: "signed_take_bit 63 w = w" for w :: u64
    by (rule bit_word_eqI) (simp add: bit_simps)
  have dropped: "take_bit n ?r = ?r"
    by (rule bit_word_eqI) (auto simp: bit_simps)
  have result: "checked_pascal_shift_int64 left a (Some info) shift target =
      Inr (Some (?signed (if left then ?l else ?r)))" for left
  proof -
    have "max b 32 = n" by (rule n(1) [symmetric])
    then have "checked_pascal_shift_int64 left a (Some info) shift target =
        Inr (Some (if int_kind info = UnsignedInt \<or> n = 64 then (if left then ?l else ?r)
          else sign_extended n (if left then ?l else ?r)))"
      using assms(1,2) ok amount
      by (simp add: checked_pascal_shift_int64_def low_bits_eq)
    moreover have "sign_extended n w = signed_take_bit (n - 1) w" if "n \<noteq> 64" "take_bit n w = w" for w
      using that n by (intro sign_extended_eq) auto
    moreover have "take_bit n (if left then ?l else ?r) = (if left then ?l else ?r)"
      using dropped by simp
    moreover have "int_kind info = SignedInt \<or> int_kind info = UnsignedInt"
      using assms(1) by (cases "int_kind info") simp_all
    ultimately show ?thesis
      using keep by (cases "n = 64") (auto split: if_split_asm)
  qed
  have n': "0 < n" "n \<le> 64" using n by auto
  have l: "uint ?l = take_bit n (sint a * 2 ^ s)"
  proof -
    have "uint ?l = take_bit n (push_bit s (take_bit n (uint a)))"
      using n' by (simp add: unsigned_take_bit_eq unsigned_push_bit_eq take_bit_take_bit min_absorb1)
    then show ?thesis using n' take_bit_uint_sint [of n a]
      by (simp add: push_bit_eq_mult take_bit_times)
  qed
  have r: "uint ?r = take_bit n (sint a) div 2 ^ s"
  proof -
    have "uint ?r = drop_bit s (take_bit n (uint a))"
      using n' by (simp add: unsigned_take_bit_eq unsigned_drop_bit_eq min_absorb2)
    then show ?thesis using n' take_bit_uint_sint [of n a] by (simp add: drop_bit_eq_div)
  qed
  have "sint (signed_take_bit (n - 1) ?l) = signed_take_bit (n - 1) (sint a * 2 ^ s)"
    using n' sint_signed_take_bit [of n ?l] unfolding l
    by (cases n) (simp_all add: signed_take_bit_take_bit)
  moreover have "sint (signed_take_bit (n - 1) ?r) =
      signed_take_bit (n - 1) (take_bit n (sint a) div 2 ^ s)"
    using n' sint_signed_take_bit [of n ?r] r by simp
  ultimately show ?thesis using result l r
    by (simp add: checked_pascal_shl_int64_def checked_pascal_shr_int64_def)
qed

text \<open>
  Folded shifts follow Pascal: the left operand is taken in the carrier's width (at least
  32 bits), the amount modulo that width, \<open>shl\<close> multiplies by a power of two and wraps into
  the carrier, and \<open>shr\<close> shifts the carrier's bit pattern in zeros, reading the result with the
  carrier's sign.
\<close>

theorem folded_shift_wraps:
  assumes "int_kind info \<noteq> NoInt" "primitive_bits info target = Inr b"
    and n: "n = max b 32" "n = 32 \<or> n = 64" and s: "s = unat shift mod n"
  shows "\<exists>l r. checked_pascal_shl_int64 a (Some info) shift target = Inr (Some l) \<and>
    checked_pascal_shr_int64 a (Some info) shift target = Inr (Some r) \<and>
    (if int_kind info = SignedInt
     then sint l = signed_take_bit (n - 1) (sint a * 2 ^ s) \<and>
          sint r = signed_take_bit (n - 1) (take_bit n (sint a) div 2 ^ s)
     else uint l = take_bit n (sint a * 2 ^ s) \<and> uint r = take_bit n (sint a) div 2 ^ s)"
  using assms by (rule folded_shift_value)

theorem folded_shift_wraps_witness:
  "\<exists>l r. checked_pascal_shl_int64 (- 3) (find_primitive ''longint'') 33 64 = Inr (Some l) \<and>
    checked_pascal_shr_int64 (- 3) (find_primitive ''longint'') 33 64 = Inr (Some r) \<and>
    sint l = - 6 \<and> sint r = 2147483646"
proof -
  let ?i = "(prim KLongInt ''int32_t'' FamInteger)
    \<lparr>int_kind := SignedInt, prim_bits := 32, is_ordinal_integer := True\<rparr>"
  have "find_primitive ''longint'' = Some ?i"
    by (simp add: find_primitive_def primitive_type_map_def)
  then show ?thesis
    using folded_shift_wraps [of ?i 64 32 32 1 33 "- 3"]
    by (simp add: prim_def primitive_bits_def signed_take_bit_eq_take_bit_minus take_bit_eq_mod)
qed

end
