(* ===== verification/Runtime_Units.thy ===== *)
theory Runtime_Units
  imports Emit_Support
begin

text \<open>
  The units the run-time library stands in for (\<open>src/runtime_units.h\<close>,
  \<open>src/runtime_units.cc\<close>): a program may use them although no Pascal source is found for
  them. An export is a name, with the number of parameters and the result type where the
  table gives them.
\<close>

datatype (plugins only: code) export_kind = ExportType | ExportProc | ExportVar | ExportConst

record runtime_export =
  export_kind :: export_kind
  export_name :: string
  param_count :: int
  export_is_function :: bool
  return_type_name :: string

definition plain_export :: "export_kind \<Rightarrow> string \<Rightarrow> runtime_export" where
  "plain_export k n = \<lparr>export_kind = k, export_name = n, param_count = - 1,
     export_is_function = True, return_type_name = []\<rparr>"

definition function_export :: "export_kind \<Rightarrow> string \<Rightarrow> int \<Rightarrow> bool \<Rightarrow> string \<Rightarrow> runtime_export" where
  "function_export k n params fn ret = \<lparr>export_kind = k, export_name = n, param_count = params,
     export_is_function = fn, return_type_name = ret\<rparr>"

definition dos_exports :: "runtime_export list" where
  "dos_exports =
    [plain_export ExportType ''DateTime'',
     plain_export ExportType ''DirStr'',
     plain_export ExportType ''NameStr'',
     plain_export ExportType ''ExtStr'',
     plain_export ExportType ''PathStr'',
     plain_export ExportType ''SearchRec'',
     plain_export ExportType ''TSearchRec'',
     plain_export ExportConst ''ReadOnly'',
     plain_export ExportConst ''Hidden'',
     plain_export ExportConst ''SysFile'',
     plain_export ExportConst ''VolumeID'',
     plain_export ExportConst ''Directory'',
     plain_export ExportConst ''Archive'',
     plain_export ExportConst ''AnyFile'',
     plain_export ExportVar ''DosError'',
     plain_export ExportProc ''ChDir'',
     plain_export ExportProc ''DiskSize'',
     plain_export ExportProc ''DosExitCode'',
     plain_export ExportProc ''Exec'',
     plain_export ExportProc ''EpochToLocal'',
     plain_export ExportProc ''FExpand'',
     plain_export ExportProc ''FindClose'',
     plain_export ExportProc ''FindFirst'',
     plain_export ExportProc ''FindNext'',
     plain_export ExportProc ''FSearch'',
     plain_export ExportProc ''FSplit'',
     plain_export ExportProc ''GetDir'',
     plain_export ExportProc ''GetDate'',
     plain_export ExportProc ''GetEnv'',
     plain_export ExportProc ''GetFAttr'',
     plain_export ExportProc ''GetFTime'',
     plain_export ExportProc ''GetTime'',
     plain_export ExportProc ''MkDir'',
     plain_export ExportProc ''PackTime'',
     plain_export ExportProc ''RmDir'',
     plain_export ExportProc ''SetFTime'',
     plain_export ExportProc ''UnpackTime'']"

definition linux_exports :: "runtime_export list" where
  "linux_exports =
    [function_export ExportProc ''GetEnv'' 1 True ''pchar'',
     function_export ExportProc ''Shell'' 1 True ''longint'']"

definition unix_exports :: "runtime_export list" where
  "unix_exports =
    [function_export ExportProc ''GetEnv'' 1 True ''pchar'',
     function_export ExportProc ''Shell'' 1 True ''longint'',
     function_export ExportProc ''FpSystem'' 1 True ''longint'']"

definition baseunix_exports :: "runtime_export list" where
  "baseunix_exports =
    [function_export ExportProc ''FpGetEnv'' 1 True ''pchar'',
     function_export ExportProc ''FpChmod'' 2 True ''longint'']"

definition strings_exports :: "runtime_export list" where
  "strings_exports =
    [plain_export ExportProc ''StrLen'',
     plain_export ExportProc ''StrPCopy'',
     plain_export ExportProc ''StrPas'',
     plain_export ExportProc ''StrComp'',
     plain_export ExportProc ''StrRScan'',
     plain_export ExportProc ''StrNew'',
     plain_export ExportProc ''StrDispose'']"

definition sysutils_exports :: "runtime_export list" where
  "sysutils_exports =
    [plain_export ExportType ''HRESULT'',
     plain_export ExportType ''PAnsiString'',
     plain_export ExportType ''PDWord'',
     plain_export ExportType ''PLongWord'',
     plain_export ExportType ''PQWord'',
     plain_export ExportType ''PShortString'',
     plain_export ExportType ''TDateTime'',
     plain_export ExportType ''TExecuteFlags'',
     plain_export ExportType ''TSysCharSet'',
     plain_export ExportType ''TSystemTime'',
     plain_export ExportType ''Exception'',
     plain_export ExportType ''EExternal'',
     plain_export ExportType ''EIntError'',
     plain_export ExportType ''EInOutError'',
     plain_export ExportType ''EHeapMemoryError'',
     plain_export ExportType ''EHeapException'',
     plain_export ExportType ''EOutOfMemory'',
     plain_export ExportType ''EIntOverflow'',
     plain_export ExportType ''ERangeError'',
     plain_export ExportType ''EDivByZero'',
     plain_export ExportType ''EOSError'',
     plain_export ExportProc ''AnsiCompareFileName'',
     plain_export ExportProc ''ChangeFileExt'',
     plain_export ExportProc ''CompareText'',
     plain_export ExportProc ''Date'',
     plain_export ExportProc ''DecodeDate'',
     plain_export ExportProc ''DecodeTime'',
     plain_export ExportProc ''DirectoryExists'',
     plain_export ExportProc ''ExecuteProcess'',
     plain_export ExportProc ''ExpandFileName'',
     plain_export ExportProc ''FileAge'',
     plain_export ExportProc ''FileDateToDateTime'',
     plain_export ExportProc ''FileExists'',
     plain_export ExportProc ''FileGetDate'',
     plain_export ExportProc ''FileSetDate'',
     plain_export ExportProc ''GetEnvironmentVariable'',
     plain_export ExportProc ''GetFileHandle'',
     plain_export ExportProc ''GetLocalTime'',
     plain_export ExportProc ''IntToStr'',
     plain_export ExportProc ''RenameFile'',
     plain_export ExportProc ''SetDirSeparators'',
     plain_export ExportProc ''StrPas'',
     plain_export ExportProc ''StringOfChar'',
     plain_export ExportProc ''Time'',
     plain_export ExportProc ''Trim'']"

definition runtime_models :: "(string \<times> runtime_export list) list" where
  "runtime_models =
    [(''baseunix'', baseunix_exports),
     (''dos'', dos_exports),
     (''linux'', linux_exports),
     (''math'', []),
     (''strings'', strings_exports),
     (''sysutils'', sysutils_exports),
     (''unix'', unix_exports)]"

definition runtime_unit_model :: "string \<Rightarrow> runtime_export list option" where
  "runtime_unit_model name = map_of runtime_models (ascii_lower name)"

definition has_runtime_unit_model :: "string \<Rightarrow> bool" where
  "has_runtime_unit_model name \<longleftrightarrow> runtime_unit_model name \<noteq> None"

end
