(* ===== verification/Rt_Int.thy ===== *)
theory Rt_Int
  imports Word_Facts "HOL-Library.Signed_Division"
begin

text \<open>
  Integer arithmetic of the run-time library (\<open>include/tp2cc_rt/prelude.h\<close>): the templates the
  emitted C++ calls for checked and wrapping arithmetic, range-checked assignment,
  \<open>Inc\<close>/\<open>Dec\<close>, division, shifts, rotation, byte order and bit scans.

  A C++ integer type is a word type together with a flag: \<open>True\<close> for signed. The template
  parameters that are types become type variables and flags; the Boolean ones are
  arguments. \<open>cval\<close> is the value of a C++ integer, \<open>ccast\<close> is \<open>static_cast\<close> between integer
  types (modulo two to the width of the target), \<open>cless\<close> is \<open><\<close>. A Pascal exception is
  \<open>Inl\<close>.
\<close>

unbundle bit_operations_syntax

datatype (plugins only: code) rt_error = EIntOverflow | ERangeError | EDivByZero

type_synonym 'a rt = "rt_error + 'a"

abbreviation throw :: "rt_error \<Rightarrow> 'a rt" where
  "throw \<equiv> Inl"

subsection \<open>C++ integers\<close>

definition cval :: "bool \<Rightarrow> 'a::len word \<Rightarrow> int" where
  "cval sg w = (if sg then sint w else uint w)"

definition ccast :: "bool \<Rightarrow> 'a::len word \<Rightarrow> 'b::len word" where
  "ccast sg w = (if sg then scast w else ucast w)"

definition cless :: "bool \<Rightarrow> 'a::len word \<Rightarrow> 'a word \<Rightarrow> bool" where
  "cless sg a b = (if sg then a <s b else a < b)"

text \<open>\<open>numeric_limits\<close>\<close>

definition limits_min :: "bool \<Rightarrow> 'a::len word" where
  "limits_min sg = (if sg then push_bit (LENGTH('a) - 1) 1 else 0)"

definition limits_max :: "bool \<Rightarrow> 'a::len word" where
  "limits_max sg = (if sg then NOT (push_bit (LENGTH('a) - 1) 1) else - 1)"

definition crange :: "bool \<Rightarrow> nat \<Rightarrow> int set" where
  "crange sg n = (if sg then signed_range n else unsigned_range n)"

subsection \<open>Range-checked assignment\<close>

definition range_check_assign :: "bool \<Rightarrow> bool \<Rightarrow> 'src::len word \<Rightarrow> 'dst::len word rt" where
  "range_check_assign src_signed dst_signed src =
     (let min_dst = limits_min dst_signed :: 'dst word; max_dst = limits_max dst_signed :: 'dst word;
          max_src = ccast dst_signed max_dst :: 'src word
      in if src_signed = dst_signed
         then (if cless src_signed src (ccast dst_signed min_dst) \<or> cless src_signed max_src src
               then throw ERangeError else Inr (ccast src_signed src))
         else if src_signed
         then (if src <s 0 then throw ERangeError
               else if max_src < src then throw ERangeError
               else Inr (ccast src_signed src))
         else (if 0 \<le>s max_dst \<and> (ucast max_dst :: 'src word) < src then throw ERangeError
               else Inr (ccast src_signed src)))"

subsection \<open>Checked and wrapping arithmetic\<close>

text \<open>
  \<open>__builtin_add_overflow\<close> and its kin: the wrapped result, and whether the exact one does not
  fit the result type.
\<close>

definition builtin_overflow :: "bool \<Rightarrow> int \<Rightarrow> 'a::len word \<times> bool" where
  "builtin_overflow sg exact = (word_of_int exact, exact \<notin> crange sg LENGTH('a))"

definition int_checked :: "bool \<Rightarrow> int \<Rightarrow> 'a::len word rt" where
  "int_checked sg exact =
     (case builtin_overflow sg exact of (r, overflow) \<Rightarrow>
        if overflow \<and> sg then throw EIntOverflow else Inr r)"

definition add_checked :: "bool \<Rightarrow> 'a::len word \<Rightarrow> 'a word \<Rightarrow> 'a word rt" where
  "add_checked sg a b = int_checked sg (cval sg a + cval sg b)"

definition sub_checked :: "bool \<Rightarrow> 'a::len word \<Rightarrow> 'a word \<Rightarrow> 'a word rt" where
  "sub_checked sg a b = int_checked sg (cval sg a - cval sg b)"

definition mul_checked :: "bool \<Rightarrow> 'a::len word \<Rightarrow> 'a word \<Rightarrow> 'a word rt" where
  "mul_checked sg a b = int_checked sg (cval sg a * cval sg b)"

definition negate_checked :: "bool \<Rightarrow> 'a::len word \<Rightarrow> 'a word rt" where
  "negate_checked sg x =
     (if sg \<and> x = limits_min True then throw EIntOverflow else Inr (- x))"

definition wrap_negate :: "'a::len word \<Rightarrow> 'a word" where
  "wrap_negate x = 0 - x"

text \<open>The wrapping operations compute in \<open>uint64_t\<close> and cut the result down.\<close>

definition wrap_add :: "'a::len word \<Rightarrow> 'a word \<Rightarrow> 'a word" where
  "wrap_add a b = ucast (ucast a + ucast b :: u64)"

definition wrap_sub :: "'a::len word \<Rightarrow> 'a word \<Rightarrow> 'a word" where
  "wrap_sub a b = ucast (ucast a - ucast b :: u64)"

definition wrap_mul :: "'a::len word \<Rightarrow> 'a word \<Rightarrow> 'a word" where
  "wrap_mul a b = ucast (ucast a * ucast b :: u64)"

definition p_abs :: "bool \<Rightarrow> bool \<Rightarrow> 'a::len word \<Rightarrow> 'a word rt" where
  "p_abs sg check_overflow x =
     (if sg then
        if 0 \<le>s x then Inr x
        else if check_overflow then negate_checked sg x else Inr (wrap_negate x)
      else Inr (if x < 0 then - x else x))"

definition p_sqr :: "bool \<Rightarrow> bool \<Rightarrow> 'a::len word \<Rightarrow> 'a word rt" where
  "p_sqr sg check_overflow x =
     (if check_overflow then mul_checked sg x x else Inr (wrap_mul x x))"

subsection \<open>Inc and Dec\<close>

definition ordinal_from_carrier :: "bool \<Rightarrow> 'c::len word \<Rightarrow> 'r::len word" where
  "ordinal_from_carrier carrier_signed v = ccast carrier_signed v"

definition bool_from_carrier :: "'c::len word \<Rightarrow> bool" where
  "bool_from_carrier v \<longleftrightarrow> v AND 1 \<noteq> 0"

definition ordinal_range_check :: "bool \<Rightarrow> bool \<Rightarrow> 'c::len word \<Rightarrow> 'c word \<Rightarrow> 'c word \<Rightarrow> 'r::len word rt" where
  "ordinal_range_check carrier_signed check_range low high result =
     (if check_range \<and> (cless carrier_signed result low \<or> cless carrier_signed high result)
      then throw ERangeError
      else Inr (ordinal_from_carrier carrier_signed result))"

definition ordinal_add ::
    "bool \<Rightarrow> bool \<Rightarrow> bool \<Rightarrow> bool \<Rightarrow> 'r::len word \<Rightarrow> 'c::len word \<Rightarrow> 'c word \<Rightarrow> 'c word \<Rightarrow> 'r word rt" where
  "ordinal_add value_signed carrier_signed check_overflow check_range v delta low high =
     (let source = ccast value_signed v :: 'c word
      in case (if check_overflow then add_checked carrier_signed source delta
               else Inr (wrap_add source delta)) of
           Inl e \<Rightarrow> Inl e
         | Inr result \<Rightarrow> ordinal_range_check carrier_signed check_range low high result)"

definition ordinal_sub ::
    "bool \<Rightarrow> bool \<Rightarrow> bool \<Rightarrow> bool \<Rightarrow> 'r::len word \<Rightarrow> 'c::len word \<Rightarrow> 'c word \<Rightarrow> 'c word \<Rightarrow> 'r word rt" where
  "ordinal_sub value_signed carrier_signed check_overflow check_range v delta low high =
     (let source = ccast value_signed v :: 'c word
      in case (if check_overflow then sub_checked carrier_signed source delta
               else Inr (wrap_sub source delta)) of
           Inl e \<Rightarrow> Inl e
         | Inr result \<Rightarrow> ordinal_range_check carrier_signed check_range low high result)"

subsection \<open>Division\<close>

definition int_div :: "bool \<Rightarrow> bool \<Rightarrow> 'a::len word \<Rightarrow> 'a word \<Rightarrow> 'a word rt" where
  "int_div sg check_overflow a b =
     (if b = 0 then throw EDivByZero
      else if sg \<and> a = limits_min True \<and> b = - 1
      then (if check_overflow then throw EIntOverflow else Inr a)
      else Inr (word_of_int (cval sg a sdiv cval sg b)))"

definition int_mod :: "bool \<Rightarrow> 'a::len word \<Rightarrow> 'a word \<Rightarrow> 'a word rt" where
  "int_mod sg a b =
     (if b = 0 then throw EDivByZero
      else if sg \<and> a = limits_min True \<and> b = - 1 then Inr 0
      else Inr (word_of_int (cval sg a smod cval sg b)))"

subsection \<open>Shifts\<close>

definition rt_shift_amount :: "nat \<Rightarrow> bool \<Rightarrow> 's::len word \<Rightarrow> nat" where
  "rt_shift_amount bits shift_signed shift =
     unat ((ccast shift_signed shift :: u64) AND word_of_nat (bits - 1))"

definition p_shl :: "bool \<Rightarrow> bool \<Rightarrow> 't::len word \<Rightarrow> 's::len word \<Rightarrow> 'c::len word" where
  "p_shl value_signed shift_signed v shift =
     (let amount = rt_shift_amount LENGTH('c) shift_signed shift;
          bits = ucast (ccast value_signed v :: 'c word) :: u64
      in if LENGTH('c) = 64 then ucast (push_bit amount bits)
         else ucast ((ucast (push_bit amount (ucast bits :: u32)) :: u64)
                AND (push_bit LENGTH('c) 1 - 1)))"

definition p_shr :: "bool \<Rightarrow> bool \<Rightarrow> 't::len word \<Rightarrow> 's::len word \<Rightarrow> 'c::len word" where
  "p_shr value_signed shift_signed v shift =
     drop_bit (rt_shift_amount LENGTH('c) shift_signed shift) (ccast value_signed v)"

definition p_sarlongint :: "32 word \<Rightarrow> 8 word \<Rightarrow> 32 word" where
  "p_sarlongint v dist =
     (let s = unat (dist AND 31)
      in if s = 0 then v
         else let shifted = drop_bit s v
              in if v <s 0 then shifted OR push_bit (32 - s) (NOT 0) else shifted)"

subsection \<open>Rotation, halves and byte order\<close>

definition rt_ror :: "'a::len word \<Rightarrow> nat \<Rightarrow> 'a word" where
  "rt_ror v dist =
     (let shift = take_bit 32 dist AND (LENGTH('a) - 1)
      in if shift = 0 then v else drop_bit shift v OR push_bit (LENGTH('a) - shift) v)"

definition rt_rol :: "'a::len word \<Rightarrow> nat \<Rightarrow> 'a word" where
  "rt_rol v dist =
     (let shift = take_bit 32 dist AND (LENGTH('a) - 1)
      in if shift = 0 then v else push_bit shift v OR drop_bit (LENGTH('a) - shift) v)"

definition p_lo16 :: "16 word \<Rightarrow> 8 word" where "p_lo16 v = ucast (v AND 0xFF)"
definition p_lo32 :: "32 word \<Rightarrow> 16 word" where "p_lo32 v = ucast (v AND 0xFFFF)"
definition p_lo64 :: "64 word \<Rightarrow> 32 word" where "p_lo64 v = ucast (v AND 0xFFFFFFFF)"
definition p_hi16 :: "16 word \<Rightarrow> 8 word" where "p_hi16 v = ucast (drop_bit 8 v)"
definition p_hi32 :: "32 word \<Rightarrow> 16 word" where "p_hi32 v = ucast (drop_bit 16 v)"
definition p_hi64 :: "64 word \<Rightarrow> 32 word" where "p_hi64 v = ucast (drop_bit 32 v)"

definition p_swap16 :: "16 word \<Rightarrow> 16 word" where
  "p_swap16 w = drop_bit 8 w OR push_bit 8 w"

definition p_swap32 :: "32 word \<Rightarrow> 32 word" where
  "p_swap32 l = drop_bit 16 l OR push_bit 16 l"

text \<open>\<open>__builtin_bswap16/32/64\<close>: the bytes of a word in reverse order.\<close>

definition word_bytes :: "'a::len word \<Rightarrow> 8 word list" where
  "word_bytes w = map (\<lambda>i. ucast (drop_bit (8 * i) w)) [0 ..< LENGTH('a) div 8]"

definition word_from_bytes :: "8 word list \<Rightarrow> 'a::len word" where
  "word_from_bytes bs = foldr (\<lambda>b w. ucast b OR push_bit 8 w) bs 0"

definition p_swapendian :: "'a::len word \<Rightarrow> 'a word" where
  "p_swapendian v = (if LENGTH('a) = 8 then v else word_from_bytes (rev (word_bytes v)))"

text \<open>The targets are little-endian: \<open>LEtoN\<close> is the identity there, \<open>BEtoN\<close> swaps.\<close>

definition p_beton :: "bool \<Rightarrow> 'a::len word \<Rightarrow> 'a word" where
  "p_beton big_endian v = (if big_endian then v else p_swapendian v)"

definition p_leton :: "bool \<Rightarrow> 'a::len word \<Rightarrow> 'a word" where
  "p_leton big_endian v = (if big_endian then p_swapendian v else v)"

subsection \<open>Bit scans\<close>

lemma drop_bit_smaller: "b \<noteq> 0 \<Longrightarrow> unat (drop_bit 1 b) < unat b" for b :: "'a::len word"
proof -
  assume "b \<noteq> 0"
  then have "0 < unat b" by (simp add: unat_gt_0)
  moreover have "unat (drop_bit 1 b) = unat b div 2"
    unfolding unat_drop_bit_eq by (simp add: drop_bit_Suc)
  ultimately show ?thesis by simp
qed

function bsf_loop :: "'a::len word \<Rightarrow> nat \<Rightarrow> nat" where
  "bsf_loop bits result =
     (if bits \<noteq> 0 \<and> bits AND 1 = 0 then bsf_loop (drop_bit 1 bits) (Suc result) else result)"
  by pat_completeness auto
termination
  by (relation "measure (\<lambda>(bits, result). unat bits)")
    (simp_all add: drop_bit_smaller del: One_nat_def drop_bit_Suc)

declare bsf_loop.simps [simp del]

definition rt_bsf :: "'a::len word \<Rightarrow> nat" where
  "rt_bsf bits = (if bits = 0 then 0xFF else bsf_loop bits 0)"

function bsr_loop :: "'a::len word \<Rightarrow> nat \<Rightarrow> nat" where
  "bsr_loop bits result =
     (let bits' = drop_bit 1 bits in if bits' \<noteq> 0 then bsr_loop bits' (Suc result) else result)"
  by pat_completeness auto
termination
proof (relation "measure (\<lambda>(bits, result). unat bits)", goal_cases)
  case (2 bits result x)
  then have "bits \<noteq> 0" by auto
  with 2 show ?case using drop_bit_smaller [of bits] by simp
qed simp

declare bsr_loop.simps [simp del]

definition rt_bsr :: "'a::len word \<Rightarrow> nat" where
  "rt_bsr bits = (if bits = 0 then 0xFF else bsr_loop bits 0)"

subsection \<open>Alignment and currency\<close>

text \<open>\<open>upper % alignment\<close> is undefined behaviour for alignment 0, here 0.\<close>

definition p_align :: "'a::len word \<Rightarrow> 'a word \<Rightarrow> 'a word" where
  "p_align address alignment =
     (let upper = address + (alignment - 1) in upper - upper mod alignment)"

definition integer_to_currency :: "bool \<Rightarrow> bool \<Rightarrow> bool \<Rightarrow> 'a::len word \<Rightarrow> u64 rt" where
  "integer_to_currency sg check_overflow check_range v =
     (let (result, overflow) =
        (if sg then builtin_overflow True (sint (scast v :: u64) * 10000)
         else let (r, o') = builtin_overflow False (uint (ucast v :: u64) * 10000) :: u64 \<times> bool
              in (r, o' \<or> r > (limits_max True)))
      in if overflow \<and> check_overflow then throw EIntOverflow
         else if overflow \<and> check_range then throw ERangeError
         else if \<not> check_overflow \<and> \<not> check_range then Inr (ccast sg v * 10000)
         else Inr result)"

definition p_odd :: "bool \<Rightarrow> 'a::len word \<Rightarrow> bool" where
  "p_odd sg x \<longleftrightarrow> (ccast sg x :: u64) AND 1 \<noteq> 0"

definition p_not :: "bool \<Rightarrow> 'a::len word \<Rightarrow> 'a word" where
  "p_not sg x = ucast (NOT (ccast sg x :: u64))"

end
