(* ===== verification/Rt_Int_Facts.thy ===== *)
theory Rt_Int_Facts
  imports Rt_Int Support_Facts
begin

text \<open>
  What the integer templates of the run-time library compute, stated on the values of the
  C++ integers, and their agreement with the arithmetic the emitter folds at compile time.
\<close>

subsection \<open>Values of C++ integers\<close>

definition cwrap :: "bool \<Rightarrow> nat \<Rightarrow> int \<Rightarrow> int" where
  "cwrap sg n k = (if sg then signed_take_bit (n - 1) k else take_bit n k)"

lemma cwrap_exact: "cwrap sg n k = k \<longleftrightarrow> k \<in> crange sg n"
  unfolding cwrap_def crange_def using signed_take_bit_range take_bit_range by simp

lemma cval_of_int: "cval sg (word_of_int k :: 'a::len word) = cwrap sg LENGTH('a) k"
  by (simp add: cval_def cwrap_def sint_sbintrunc' uint_word_of_int_eq)

lemma ccast_of_int: "ccast sg w = word_of_int (cval sg w)"
  by (simp add: ccast_def cval_def)

lemma cval_ccast: "cval d (ccast s w :: 'b::len word) = cwrap d LENGTH('b) (cval s w)"
  by (simp add: ccast_of_int cval_of_int)

lemma cval_in_range [simp]: "cval sg w \<in> crange sg LENGTH('a)" for w :: "'a::len word"
  by (simp add: cval_def crange_def)

lemma cless_cval: "cless sg a b \<longleftrightarrow> cval sg a < cval sg b"
  by (simp add: cless_def cval_def word_sless_alt word_less_def)

lemma cval_unique: "cval sg a = cval sg b \<longleftrightarrow> a = b" for a b :: "'a::len word"
proof
  assume "cval sg a = cval sg b"
  then have "word_of_int (cval sg a) = (word_of_int (cval sg b) :: 'a word)" by simp
  then show "a = b" by (simp add: cval_def split: if_splits)
qed simp

lemma width_Suc: obtains m where "LENGTH('a::len) = Suc m"
  using len_gt_0 [where 'a = 'a] by (cases "LENGTH('a)") simp_all

lemma cval_limits_min:
  "cval sg (limits_min sg :: 'a::len word) = (if sg then - (2 ^ (LENGTH('a) - 1)) else 0)"
proof -
  obtain m where m: "LENGTH('a) = Suc m" by (rule width_Suc)
  have "limits_min True = (word_of_int (2 ^ m) :: 'a word)"
    using m by (simp add: limits_min_def push_bit_eq_mult)
  then show ?thesis
    using m cval_of_int [of True "2 ^ m", where 'a = 'a]
    by (cases sg) (simp_all add: cwrap_def signed_take_bit_eq_take_bit_shift take_bit_eq_mod
      cval_def [of False] limits_min_def [of False])
qed

lemma cval_limits_max:
  "cval sg (limits_max sg :: 'a::len word) =
     (if sg then 2 ^ (LENGTH('a) - 1) - 1 else 2 ^ LENGTH('a) - 1)"
proof -
  obtain m where m: "LENGTH('a) = Suc m" by (rule width_Suc)
  have "limits_max True = (word_of_int (- (2 ^ m) - 1) :: 'a word)"
    using m by (simp add: limits_max_def push_bit_eq_mult not_eq_complement)
  then show ?thesis
    using m cval_of_int [of True "- (2 ^ m) - 1", where 'a = 'a]
    by (cases sg) (simp_all add: cwrap_def signed_take_bit_eq_take_bit_shift take_bit_eq_mod
      zmod_minus1 cval_def [of False] limits_max_def [of False] unsigned_minus_1_eq_mask mask_eq_exp_minus_1)
qed

subsection \<open>Range checks\<close>

lemma crange_limits:
  "k \<in> crange sg LENGTH('a::len) \<longleftrightarrow>
     cval sg (limits_min sg :: 'a word) \<le> k \<and> k \<le> cval sg (limits_max sg :: 'a word)"
  by (auto simp: cval_limits_min cval_limits_max crange_def signed_range_def unsigned_range_def)

lemma crange_mono: "n \<le> m \<Longrightarrow> k \<in> crange sg n \<Longrightarrow> k \<in> crange sg m"
proof -
  assume "n \<le> m" "k \<in> crange sg n"
  moreover from this(1) have "(2::int) ^ n \<le> 2 ^ m" "(2::int) ^ (n - 1) \<le> 2 ^ (m - 1)"
    by (simp_all add: power_increasing del: power_increasing_iff)
  ultimately show "k \<in> crange sg m"
    unfolding crange_def signed_range_def unsigned_range_def
    by (cases sg) (simp_all del: power_increasing_iff)
qed

lemma above_mask:
  assumes "x < 2 ^ n"
  shows "2 ^ min n m - 1 < x \<longleftrightarrow> 2 ^ m \<le> (x :: int)"
proof (cases "m \<le> n")
  case False
  then have "(2::int) ^ n \<le> 2 ^ m" by (simp add: power_increasing del: power_increasing_iff)
  with False assms show ?thesis by (simp add: min_def del: power_increasing_iff)
qed (auto simp: min_def)

lemma take_bit_mask: "take_bit n (2 ^ m - 1 :: int) = 2 ^ min n m - 1"
  by (simp add: take_bit_of_mask flip: mask_eq_exp_minus_1)

lemma range_check_same_sign:
  assumes "LENGTH('b) \<le> LENGTH('a)"
  shows "range_check_assign s s (v :: 'a::len word) =
    (if cval s v \<in> crange s LENGTH('b) then Inr (ccast s v :: 'b::len word) else Inl ERangeError)"
proof -
  have "cval s (ccast s w :: 'a word) = cval s w" for w :: "'b word"
    using cwrap_exact crange_mono [OF assms cval_in_range] by (simp add: cval_ccast)
  then show ?thesis
    unfolding crange_limits by (auto simp: range_check_assign_def Let_def cless_cval)
qed

lemma range_check_to_unsigned:
  "range_check_assign True False (v :: 'a::len word) =
    (if cval True v \<in> crange False LENGTH('b) then Inr (ccast True v :: 'b::len word)
     else Inl ERangeError)"
proof -
  let ?m = "ccast False (limits_max False :: 'b word) :: 'a word"
  have m: "uint ?m = 2 ^ min LENGTH('a) LENGTH('b) - 1"
    using cval_ccast [of False False "limits_max False :: 'b word", where 'b = 'a]
    by (simp add: cval_limits_max cwrap_def take_bit_mask) (simp add: cval_def)
  have "?m < v \<longleftrightarrow> 2 ^ LENGTH('b) \<le> sint v" if "0 \<le> sint v"
  proof -
    have "sint v < 2 ^ LENGTH('a)" using sint_nonneg [OF that] uint_in_range [of v]
      by (simp add: unsigned_range_def)
    then show ?thesis
      using m sint_nonneg [OF that] above_mask by (simp add: word_less_def)
  qed
  then show ?thesis
    by (auto simp: range_check_assign_def Let_def word_sless_alt cval_def crange_def unsigned_range_def)
qed

lemma range_check_to_signed:
  "range_check_assign False True (v :: 'a::len word) =
    (if cval False v \<in> crange True LENGTH('b) then Inr (ccast False v :: 'b::len word)
     else Inl ERangeError)"
proof -
  let ?m = "ucast (limits_max True :: 'b word) :: 'a word"
  have pos: "sint (limits_max True :: 'b word) = 2 ^ (LENGTH('b) - 1) - 1"
    using cval_limits_max [of True, where 'a = 'b] by (simp add: cval_def)
  then have "uint (limits_max True :: 'b word) = 2 ^ (LENGTH('b) - 1) - 1"
    using sint_nonneg [of "limits_max True :: 'b word"] by simp
  then have m: "uint ?m = 2 ^ min LENGTH('a) (LENGTH('b) - 1) - 1"
    by (simp add: unsigned_ucast_eq take_bit_mask)
  have "?m < v \<longleftrightarrow> 2 ^ (LENGTH('b) - 1) \<le> uint v"
    unfolding word_less_def m using above_mask [OF uint_lt2p [of v]] by simp
  moreover have "- (2 ^ (LENGTH('b) - 1)) \<le> uint v"
    by (rule order_trans [of _ 0]) simp_all
  ultimately show ?thesis using pos
    by (auto simp: range_check_assign_def Let_def word_sle_eq cval_def crange_def signed_range_def)
qed

lemma range_check_exact:
  assumes "LENGTH('b) < LENGTH('a) \<or> s \<noteq> d"
  shows "range_check_assign s d (v :: 'a::len word) =
    (if cval s v \<in> crange d LENGTH('b) then Inr (ccast s v :: 'b::len word) else Inl ERangeError)"
  using assms range_check_same_sign [where 'a = 'a and 'b = 'b, of s v]
    range_check_to_unsigned [where 'a = 'a and 'b = 'b, of v]
    range_check_to_signed [where 'a = 'a and 'b = 'b, of v]
  by (cases s; cases d) auto

subsection \<open>Checked and wrapping arithmetic\<close>

lemma int_checked_eq:
  "int_checked sg k = (if sg \<and> k \<notin> crange sg LENGTH('a) then Inl EIntOverflow
     else Inr (word_of_int k :: 'a::len word))"
  by (cases sg) (simp_all add: int_checked_def builtin_overflow_def)

lemma int_checked_val:
  "map_sum id (cval sg) (int_checked sg k :: 'a::len word rt) =
     (if sg \<and> k \<notin> crange sg LENGTH('a) then Inl EIntOverflow else Inr (cwrap sg LENGTH('a) k))"
  by (cases sg) (simp_all add: int_checked_eq cval_of_int)

definition checked_result :: "bool \<Rightarrow> nat \<Rightarrow> int \<Rightarrow> int rt" where
  "checked_result sg n k =
     (if k \<in> crange sg n then Inr k else if sg then Inl EIntOverflow else Inr (k mod 2 ^ n))"

lemma int_checked_result:
  "map_sum id (cval sg) (int_checked sg k :: 'a::len word rt) = checked_result sg LENGTH('a) k"
  using int_checked_val [of sg k, where 'a = 'a] cwrap_exact [of sg "LENGTH('a)" k]
  by (auto simp: checked_result_def cwrap_def take_bit_eq_mod)

lemma limits_min_negated:
  "a = limits_min True \<longleftrightarrow> - sint a \<notin> crange True LENGTH('a)" for a :: "'a::len word"
  using cval_limits_min [of True, where 'a = 'a] sint_in_range [of a]
    cval_unique [of True a "limits_min True"]
  by (auto simp: cval_def crange_def signed_range_def)

lemma negate_checked_result:
  fixes a :: "'a::len word"
  shows "map_sum id (cval sg) (negate_checked sg a) = checked_result sg LENGTH('a) (- cval sg a)"
proof (cases sg)
  case True
  then show ?thesis using sint_minus_exact [of a] limits_min_negated [of a]
    by (simp add: negate_checked_def checked_result_def cval_def crange_def)
next
  case False
  have "- a = word_of_int (- cval False a)" by (simp add: cval_def)
  then have "cval False (- a) = cwrap False LENGTH('a) (- cval False a)" by (simp only: cval_of_int)
  then show ?thesis using False cwrap_exact [of False "LENGTH('a)" "- cval False a"]
    by (auto simp: negate_checked_def checked_result_def cwrap_def take_bit_eq_mod)
qed

text \<open>
  C5. \<open>{$Q+}\<close> arithmetic. Addition, subtraction, multiplication, negation, \<open>Abs\<close> and \<open>Sqr\<close> give the
  exact integer result when the carrier can represent it. When it cannot, they raise
  \<open>EIntOverflow\<close> on a signed carrier and wrap around modulo two to the width on an unsigned one.
\<close>

theorem checked_arithmetic_exact:
  fixes a b :: "'a::len word"
  shows "map_sum id (cval sg) (add_checked sg a b) = checked_result sg LENGTH('a) (cval sg a + cval sg b) \<and>
   map_sum id (cval sg) (sub_checked sg a b) = checked_result sg LENGTH('a) (cval sg a - cval sg b) \<and>
   map_sum id (cval sg) (mul_checked sg a b) = checked_result sg LENGTH('a) (cval sg a * cval sg b) \<and>
   map_sum id (cval sg) (negate_checked sg a) = checked_result sg LENGTH('a) (- cval sg a) \<and>
   map_sum id (cval sg) (p_abs sg True a) = checked_result sg LENGTH('a) \<bar>cval sg a\<bar> \<and>
   map_sum id (cval sg) (p_sqr sg True a) = checked_result sg LENGTH('a) ((cval sg a)\<^sup>2)"
proof -
  have "map_sum id (cval sg) (p_abs sg True a) = checked_result sg LENGTH('a) \<bar>cval sg a\<bar>"
  proof (cases "sg \<and> \<not> 0 \<le>s a")
    case True
    then show ?thesis using negate_checked_result [of sg a]
      by (auto simp: p_abs_def cval_def word_sle_eq)
  next
    case False
    then have "p_abs sg True a = Inr a" "\<bar>cval sg a\<bar> = cval sg a"
      by (auto simp: p_abs_def cval_def word_sle_eq)
    then show ?thesis using cval_in_range [of sg a] by (simp add: checked_result_def)
  qed
  then show ?thesis
    by (simp add: add_checked_def sub_checked_def mul_checked_def p_sqr_def int_checked_result
      negate_checked_result power2_eq_square)
qed

lemma wrapping_words:
  fixes a b :: "'a::len word"
  assumes "LENGTH('a) \<le> 64"
  shows "wrap_add a b = a + b" "wrap_sub a b = a - b" "wrap_mul a b = a * b"
proof -
  have cut: "ucast (word_of_int k :: u64) = (word_of_int k :: 'a word)" for k
    using assms by (simp add: unsigned_of_int word_of_int_eq_iff take_bit_take_bit min_absorb1)
  have "ucast a + ucast b = (word_of_int (uint a + uint b) :: u64)"
    "ucast a - ucast b = (word_of_int (uint a - uint b) :: u64)"
    "ucast a * ucast b = (word_of_int (uint a * uint b) :: u64)" by simp_all
  then have "wrap_add a b = word_of_int (uint a + uint b)"
    "wrap_sub a b = word_of_int (uint a - uint b)" "wrap_mul a b = word_of_int (uint a * uint b)"
    unfolding wrap_add_def wrap_sub_def wrap_mul_def using cut by metis+
  then show "wrap_add a b = a + b" "wrap_sub a b = a - b" "wrap_mul a b = a * b" by simp_all
qed

text \<open>
  \<open>{$Q-}\<close> arithmetic is arithmetic modulo two to the width: computing in \<open>uint64_t\<close> and
  cutting down loses nothing, at any width up to 64 and for signed and unsigned carriers
  alike; and arithmetic on an unsigned carrier never raises, checked or not.
\<close>

theorem wrapping_arithmetic_modular:
  fixes a b :: "'a::len word"
  assumes "LENGTH('a) \<le> 64"
  shows "wrap_add a b = a + b \<and> wrap_sub a b = a - b \<and> wrap_mul a b = a * b \<and>
    add_checked False a b = Inr (a + b) \<and> sub_checked False a b = Inr (a - b) \<and>
    mul_checked False a b = Inr (a * b)"
  by (simp add: wrapping_words [OF assms] add_checked_def sub_checked_def mul_checked_def
    int_checked_eq cval_def)

theorem wrapping_arithmetic_modular_witness:
  "wrap_add (200 :: 8 word) 100 = 44 \<and> wrap_mul (- 2 :: 16 word) 3 = - 6 \<and>
   add_checked False (200 :: 8 word) 100 = Inr 44"
  using wrapping_arithmetic_modular [of "200 :: 8 word" 100]
    wrapping_arithmetic_modular [of "- 2 :: 16 word" 3] by simp

subsection \<open>Inc and Dec\<close>

text \<open>
  The outcome of a step to \<open>k\<close> in a carrier of \<open>n\<close> bits: an overflow check that fails, then the range
  check on what is left in the carrier, then the conversion to the variable's type of \<open>m\<close> bits.
\<close>

definition stepped ::
  "bool \<Rightarrow> nat \<Rightarrow> bool \<Rightarrow> nat \<Rightarrow> bool \<Rightarrow> bool \<Rightarrow> int \<Rightarrow> int \<Rightarrow> int \<Rightarrow> int rt" where
  "stepped cs n d m check_overflow check_range low high k =
     (if check_overflow \<and> cs \<and> k \<notin> crange cs n then Inl EIntOverflow
      else let k = cwrap cs n k in
        if check_range \<and> \<not> (low \<le> k \<and> k \<le> high) then Inl ERangeError else Inr (cwrap d m k))"

definition bounded_step :: "nat \<Rightarrow> int \<Rightarrow> int \<Rightarrow> int \<Rightarrow> int rt" where
  "bounded_step n low high k =
     (if k \<notin> signed_range n then Inl EIntOverflow
      else if low \<le> k \<and> k \<le> high then Inr k else Inl ERangeError)"

lemma stepped_bounded:
  assumes "{low .. high} \<subseteq> crange d m"
  shows "stepped True n d m True True low high k = bounded_step n low high k"
proof -
  have "cwrap True n k = k" if "k \<in> signed_range n" using that cwrap_exact [of True n k] by (simp add: crange_def)
  moreover have "cwrap d m k = k" if "low \<le> k" "k \<le> high" using that assms cwrap_exact [of d m k] by auto
  ultimately show ?thesis by (auto simp: stepped_def bounded_step_def crange_def)
qed

lemma range_check_stepped:
  fixes low high r :: "'c::len word"
  assumes "cval cs r = cwrap cs LENGTH('c) k" "check_overflow \<and> cs \<Longrightarrow> k \<in> crange cs LENGTH('c)"
  shows "map_sum id (cval d) (ordinal_range_check cs check_range low high r :: 'r::len word rt) =
    stepped cs LENGTH('c) d LENGTH('r) check_overflow check_range (cval cs low) (cval cs high) k"
  using assms
  by (auto simp: stepped_def ordinal_range_check_def ordinal_from_carrier_def cless_cval cval_ccast)

lemma step_stepped:
  fixes low high r :: "'c::len word"
  assumes "r = word_of_int k"
  shows "map_sum id (cval d)
      (case if check_overflow then int_checked cs k else Inr r of Inl e \<Rightarrow> Inl e
       | Inr r \<Rightarrow> (ordinal_range_check cs check_range low high r :: 'r::len word rt)) =
    stepped cs LENGTH('c) d LENGTH('r) check_overflow check_range (cval cs low) (cval cs high) k"
proof (cases "check_overflow \<and> cs \<and> k \<notin> crange cs LENGTH('c)")
  case True
  then have "check_overflow" "cs" "k \<notin> crange cs LENGTH('c)" by auto
  then show ?thesis by (simp add: int_checked_eq stepped_def)
next
  case False
  then have "(if check_overflow then int_checked cs k else Inr r) = Inr r"
    by (auto simp: int_checked_eq assms)
  moreover have "map_sum id (cval d) (ordinal_range_check cs check_range low high r :: 'r word rt) =
    stepped cs LENGTH('c) d LENGTH('r) check_overflow check_range (cval cs low) (cval cs high) k"
    by (rule range_check_stepped) (use False in \<open>auto simp: assms cval_of_int\<close>)
  ultimately show ?thesis by simp
qed



subsection \<open>Division\<close>

lemma limits_min_iff: "a = limits_min True \<longleftrightarrow> sint a = - (2 ^ (LENGTH('a) - 1))"
  for a :: "'a::len word"
  using cval_limits_min [of True, where 'a = 'a] cval_unique [of True a "limits_min True"]
  by (simp add: cval_def)

lemma minus_one_iff: "b = - 1 \<longleftrightarrow> sint b = - 1" for b :: "'a::len word"
  using cval_unique [of True b "- 1"] by (simp add: cval_def)

lemma smod_sgn: "sgn (a smod b) \<in> {0, sgn a}" for a b :: int
proof (cases "b = 0")
  case False
  define m where "m = \<bar>a\<bar> mod \<bar>b\<bar>"
  then have "sgn m \<in> {0, 1}" using False by (simp add: sgn_if order_less_le)
  then show ?thesis by (auto simp: smod_int_alt_def sgn_mult simp flip: m_def)
qed simp

lemma cval_0_iff: "cval sg b = 0 \<longleftrightarrow> b = 0" for b :: "'a::len word"
  using cval_unique [of sg b 0] by (cases sg) (simp_all add: cval_def)

lemma smod_less: "b \<noteq> 0 \<Longrightarrow> \<bar>a smod b\<bar> < \<bar>b\<bar>" for a b :: int
  using smod_int_range [of b a] by auto

lemma div_range:
  fixes a b :: "'a::len word"
  assumes "b \<noteq> 0" "\<not> (sg \<and> sint a = - (2 ^ (LENGTH('a) - 1)) \<and> sint b = - 1)"
  shows "cval sg a sdiv cval sg b \<in> crange sg LENGTH('a)"
    and "cval sg a smod cval sg b \<in> crange sg LENGTH('a)"
proof -
  have "cval sg b \<noteq> 0" using assms(1) by (simp add: cval_0_iff)
  note small = smod_less [OF this, of "cval sg a"]
  show "cval sg a smod cval sg b \<in> crange sg LENGTH('a)"
  proof (cases sg)
    case True
    then show ?thesis using small sint_in_range [of b]
      by (auto simp: cval_def crange_def signed_range_def)
  next
    case False
    have "0 \<le> uint a smod uint b"
      using smod_sgn [of "uint a" "uint b"] uint_ge_0 [of a]
      by (auto simp: sgn_if not_less split: if_splits)
    then show ?thesis using small False
      by (auto simp: cval_def crange_def unsigned_range_def intro: less_trans [OF _ uint_lt2p])
  qed
  have quot: "\<bar>cval sg a sdiv cval sg b\<bar> \<le> \<bar>cval sg a\<bar>"
    using sdiv_int_range [of "cval sg a" "cval sg b"] by auto
  show "cval sg a sdiv cval sg b \<in> crange sg LENGTH('a)"
  proof (cases sg)
    case True
    have "sint a sdiv sint b \<noteq> 2 ^ (LENGTH('a) - 1)"
    proof
      assume q: "sint a sdiv sint b = 2 ^ (LENGTH('a) - 1)"
      then have "sint a = - (2 ^ (LENGTH('a) - 1))"
        using quot True sint_in_range [of a] by (auto simp: cval_def signed_range_def)
      then show False
        using q assms(2) True int_sdiv_negated_is_minus1 [of "sint a" "sint b"] by simp
    qed
    then show ?thesis using quot True sint_in_range [of a]
      by (auto simp: cval_def crange_def signed_range_def)
  next
    case False
    have "0 < uint b" using assms(1) uint_ge_0 [of b] uint_0_iff [of b] by linarith
    then have "0 \<le> uint a sdiv uint b"
      by (simp add: signed_divide_int_def sgn_if pos_imp_zdiv_nonneg_iff)
    moreover have "uint a sdiv uint b < 2 ^ LENGTH('a)"
      using quot False by (intro le_less_trans [OF _ uint_lt2p [of a]]) (simp add: cval_def)
    ultimately show ?thesis using False by (simp add: cval_def crange_def unsigned_range_def)
  qed
qed

text \<open>
  C6. \<open>div\<close> and \<open>mod\<close> truncate towards zero as Pascal's do: dividend = quotient * divisor +
  remainder, the remainder is smaller than the divisor and has the dividend's sign. A zero
  divisor raises \<open>EDivByZero\<close>; the one quotient that does not fit, the least number divided
  by -1, raises \<open>EIntOverflow\<close> when checked and wraps to the dividend when not.
\<close>

theorem division_truncates:
  fixes a b :: "'a::len word"
  shows "if b = 0 then int_div sg check a b = Inl EDivByZero \<and> int_mod sg a b = Inl EDivByZero
    else if sg \<and> sint a = - (2 ^ (LENGTH('a) - 1)) \<and> sint b = - 1
    then int_div sg check a b = (if check then Inl EIntOverflow else Inr a) \<and> int_mod sg a b = Inr 0
    else \<exists>q r. int_div sg check a b = Inr q \<and> int_mod sg a b = Inr r \<and>
      cval sg a = cval sg q * cval sg b + cval sg r \<and> \<bar>cval sg r\<bar> < \<bar>cval sg b\<bar> \<and>
      sgn (cval sg r) \<in> {0, sgn (cval sg a)}"
proof (cases "b = 0 \<or> sg \<and> sint a = - (2 ^ (LENGTH('a) - 1)) \<and> sint b = - 1")
  case True
  then show ?thesis by (auto simp: int_div_def int_mod_def limits_min_iff minus_one_iff)
next
  case False
  let ?q = "word_of_int (cval sg a sdiv cval sg b) :: 'a word"
  let ?r = "word_of_int (cval sg a smod cval sg b) :: 'a word"
  have b: "cval sg b \<noteq> 0" using False by (simp add: cval_0_iff)
  have "cval sg ?q = cval sg a sdiv cval sg b" "cval sg ?r = cval sg a smod cval sg b"
    using False div_range [of b sg a] cwrap_exact by (simp_all add: cval_of_int)
  moreover have "int_div sg check a b = Inr ?q" "int_mod sg a b = Inr ?r"
    using False by (auto simp: int_div_def int_mod_def limits_min_iff minus_one_iff)
  ultimately show ?thesis
    using False sdiv_mult_smod_eq [of "cval sg a" "cval sg b"] smod_less [OF b, of "cval sg a"]
      smod_sgn [of "cval sg a" "cval sg b"] by auto
qed

subsection \<open>Shifts\<close>

lemma p_shl_eq:
  assumes "LENGTH('c) \<le> 32 \<or> LENGTH('c) = 64"
  shows "(p_shl vs ss v shift :: 'c::len word) =
    push_bit (rt_shift_amount LENGTH('c) ss shift) (ccast vs v)"
  using assms by (intro bit_word_eqI) (auto simp: p_shl_def Let_def bit_simps simp flip: mask_eq_exp_minus_1)

lemma rt_shift_amount_mod:
  fixes shift :: "64 word"
  assumes "n = 32 \<or> n = 64"
  shows "rt_shift_amount n True shift = unat shift mod n"
  using shift_amount_mod [OF assms, of shift]
  by (simp add: rt_shift_amount_def shift_amount_def ccast_def)

lemma uint_runtime_shifts:
  fixes a shift :: "64 word"
  assumes "LENGTH('c::len) = 32 \<or> LENGTH('c) = 64" "s = unat shift mod LENGTH('c)"
  shows "uint (p_shl True True a shift :: 'c word) = take_bit LENGTH('c) (sint a * 2 ^ s)"
    "uint (p_shr True True a shift :: 'c word) = take_bit LENGTH('c) (sint a) div 2 ^ s"
proof -
  have amount: "rt_shift_amount LENGTH('c) True shift = s"
    using rt_shift_amount_mod [OF assms(1)] by (simp add: assms(2))
  have carrier: "LENGTH('c) \<le> 32 \<or> LENGTH('c) = 64" using assms(1) by auto
  have cast: "(ccast True a :: 'c word) = word_of_int (sint a)"
    by (simp add: ccast_of_int cval_def)
  have shl: "p_shl True True a shift = (push_bit s (word_of_int (sint a)) :: 'c word)"
    using p_shl_eq [where 'c = 'c, OF carrier, of True True a shift]
    unfolding amount cast .
  show "uint (p_shl True True a shift :: 'c word) = take_bit LENGTH('c) (sint a * 2 ^ s)"
    unfolding shl unsigned_push_bit_eq uint_word_of_int_eq unfolding push_bit_eq_mult
    by (rule take_bit_times)
  show "uint (p_shr True True a shift :: 'c word) = take_bit LENGTH('c) (sint a) div 2 ^ s"
    unfolding p_shr_def amount cast unsigned_drop_bit_eq uint_word_of_int_eq
    by (simp add: drop_bit_eq_div)
qed

lemma sint_runtime_shifts:
  fixes a shift :: "64 word"
  assumes "LENGTH('c::len) = 32 \<or> LENGTH('c) = 64" "s = unat shift mod LENGTH('c)"
  shows "sint (p_shl True True a shift :: 'c word) =
      signed_take_bit (LENGTH('c) - 1) (sint a * 2 ^ s)"
    "sint (p_shr True True a shift :: 'c word) =
      signed_take_bit (LENGTH('c) - 1) (take_bit LENGTH('c) (sint a) div 2 ^ s)"
  using uint_runtime_shifts [OF assms, of a]
  by (simp_all add: sint_uint signed_take_bit_take_bit)

lemma word_of_cval_eq:
  assumes "cval sg x = cval sg (y :: 'b::len word)"
  shows "x = ccast sg y"
proof -
  have "x = word_of_int (cval sg x)" by (simp add: cval_def)
  then show ?thesis using assms by (simp add: ccast_of_int)
qed

text \<open>
  C9. Compile time and run time agree on shifts: when the emitter folds \<open>shl\<close> or \<open>shr\<close> of
  constants, the constant it prints is the value the run-time template computes in the same
  carrier, for signed and unsigned carriers of 32 and 64 bits and for every shift amount,
  negative and oversized ones included.
\<close>

theorem folded_shift_is_runtime_shift:
  fixes a shift :: i64
  assumes "int_kind info \<noteq> NoInt" "primitive_bits info target = Inr b"
    and n: "LENGTH('c::len) = max b 32" "LENGTH('c) = 32 \<or> LENGTH('c) = 64"
  shows "checked_pascal_shl_int64 a (Some info) shift target =
      Inr (Some (ccast (int_kind info = SignedInt) (p_shl True True a shift :: 'c word))) \<and>
    checked_pascal_shr_int64 a (Some info) shift target =
      Inr (Some (ccast (int_kind info = SignedInt) (p_shr True True a shift :: 'c word)))"
proof -
  define s where "s = unat shift mod LENGTH('c)"
  let ?sg = "int_kind info = SignedInt"
  let ?l = "p_shl True True a shift :: 'c word" and ?r = "p_shr True True a shift :: 'c word"
  from folded_shift_value [OF assms(1,2) n s_def, of a] obtain x y where
    xy: "checked_pascal_shl_int64 a (Some info) shift target = Inr (Some x)"
      "checked_pascal_shr_int64 a (Some info) shift target = Inr (Some y)"
    and val: "if ?sg then sint x = signed_take_bit (LENGTH('c) - 1) (sint a * 2 ^ s) \<and>
          sint y = signed_take_bit (LENGTH('c) - 1) (take_bit LENGTH('c) (sint a) div 2 ^ s)
        else uint x = take_bit LENGTH('c) (sint a * 2 ^ s) \<and>
          uint y = take_bit LENGTH('c) (sint a) div 2 ^ s"
    by blast
  have "cval ?sg x = cval ?sg ?l" "cval ?sg y = cval ?sg ?r"
    using val sint_runtime_shifts [OF n(2) s_def, of a] uint_runtime_shifts [OF n(2) s_def, of a]
    by (auto simp: cval_def split: if_splits)
  then have "x = ccast ?sg ?l" "y = ccast ?sg ?r"
    by (auto intro: word_of_cval_eq)
  with xy show ?thesis by simp
qed

theorem folded_shift_is_runtime_shift_witness:
  "checked_pascal_shl_int64 (- 3) (find_primitive ''longint'') (- 31) 64 =
     Inr (Some (ccast True (p_shl True True (- 3 :: i64) (- 31 :: i64) :: 32 word))) \<and>
   checked_pascal_shr_int64 (- 3) (find_primitive ''longint'') (- 31) 64 =
     Inr (Some (ccast True (p_shr True True (- 3 :: i64) (- 31 :: i64) :: 32 word)))"
proof -
  let ?i = "(prim KLongInt ''int32_t'' FamInteger)
    \<lparr>int_kind := SignedInt, prim_bits := 32, is_ordinal_integer := True\<rparr>"
  have "find_primitive ''longint'' = Some ?i"
    by (simp add: find_primitive_def primitive_type_map_def)
  then show ?thesis
    using folded_shift_is_runtime_shift [where 'c = 32, of ?i 64 32 "- 3" "- 31"]
    by (simp add: prim_def primitive_bits_def)
qed

subsection \<open>Rotation\<close>

lemma rotation_amount:
  fixes n dist :: nat
  assumes "n = 2 ^ k" "k \<le> 32"
  shows "take_bit 32 dist AND (n - 1) = dist mod n"
proof -
  have "take_bit 32 dist AND (n - 1) = take_bit k (take_bit 32 dist)"
    using assms(1) by (simp add: take_bit_eq_mask mask_eq_exp_minus_1)
  then show ?thesis using assms by (simp add: min_def flip: take_bit_eq_mod)
qed

lemma rt_rotate_eq:
  fixes v :: "'a::len word"
  assumes "LENGTH('a) = 2 ^ k" "k \<le> 32"
  shows rt_ror_eq: "rt_ror v dist = (let shift = dist mod LENGTH('a)
      in if shift = 0 then v else drop_bit shift v OR push_bit (LENGTH('a) - shift) v)"
    and rt_rol_eq: "rt_rol v dist = (let shift = dist mod LENGTH('a)
      in if shift = 0 then v else push_bit shift v OR drop_bit (LENGTH('a) - shift) v)"
  unfolding rt_ror_def rt_rol_def rotation_amount [OF assms] by (rule refl)+

lemma rotation_bits:
  fixes v :: "'a::len word"
  assumes "LENGTH('a) = 2 ^ k" "k \<le> 32"
  shows "rt_ror v dist = word_rotr dist v" "rt_rol v dist = word_rotl dist v"
proof -
  have split: "(i + dist) mod LENGTH('a) =
      (if i + dist mod LENGTH('a) < LENGTH('a) then i + dist mod LENGTH('a)
       else i + dist mod LENGTH('a) - LENGTH('a))" if "i < LENGTH('a)" for i
  proof -
    have "i + dist mod LENGTH('a) < 2 * LENGTH('a)"
      using add_strict_mono [OF that mod_less_divisor [OF len_gt_0 [where 'a = 'a], of dist]] by simp
    then show ?thesis
      by (subst mod_add_right_eq [symmetric]) (simp add: le_mod_geq not_less)
  qed
  show "rt_ror v dist = word_rotr dist v"
    by (intro bit_word_eqI)
      (auto simp: rt_ror_eq [OF assms] Let_def bit_simps split algebra_simps
        dest: bit_imp_le_length)
  have split': "(i + LENGTH('a) - s) mod LENGTH('a) = (if s \<le> i then i - s else LENGTH('a) + i - s)"
    if "i < LENGTH('a)" for i s
  proof (cases "s \<le> i")
    case True
    then have "i + LENGTH('a) - s = i - s + LENGTH('a)" by simp
    then have "(i + LENGTH('a) - s) mod LENGTH('a) = (i - s) mod LENGTH('a)"
      by (simp only: mod_add_self2)
    then show ?thesis using True that by simp
  next
    case False
    then have "i + LENGTH('a) - s < LENGTH('a)" using that by linarith
    then show ?thesis using False by simp
  qed
  show "rt_rol v dist = word_rotl dist v"
    by (intro bit_word_eqI)
      (auto simp: rt_rol_eq [OF assms] Let_def bit_simps
        split' dest: bit_imp_le_length)
qed

text \<open>
  On a type of 8, 16, 32 or 64 bits (a power of two of at most 32), \<open>RorX\<close> and \<open>RolX\<close> rotate by
  the distance modulo the width, whatever the distance, and each undoes the other: no bit is
  lost, not even for a distance that is a multiple of the width.
\<close>

theorem rotation_roundtrip:
  fixes v :: "'a::len word"
  assumes "LENGTH('a) = 2 ^ k" "k \<le> 32"
  shows "rt_ror v dist = word_rotr dist v \<and> rt_rol v dist = word_rotl dist v \<and>
    rt_rol (rt_ror v dist) dist = v \<and> rt_ror (rt_rol v dist) dist = v"
  by (simp add: rotation_bits [OF assms])

theorem rotation_roundtrip_witness:
  "rt_ror (0x81 :: 8 word) 12 = 0x18 \<and> rt_rol (rt_ror (0x81 :: 8 word) 12) 12 = 0x81"
  using rotation_roundtrip [where 'a = 8, of 3 "0x81" 12]
  by (simp add: rt_ror_def)

subsection \<open>Bit scans\<close>

lemma halved_bits: "bit (drop_bit 1 w) i \<longleftrightarrow> bit w (Suc i)" for w :: "'a::len word"
  by (simp add: bit_drop_bit_eq del: drop_bit_Suc)

lemma word_0_bits: "w = 0 \<longleftrightarrow> (\<forall>i. \<not> bit w i)" for w :: "'a::len word"
  by (metis bit_0_eq bot_apply bot_bool_def bit_eqI)

lemma halved_0: "drop_bit 1 w = 0 \<longleftrightarrow> (\<forall>i. \<not> bit w (Suc i))" for w :: "'a::len word"
  unfolding word_0_bits halved_bits by simp

lemma nonzero_bits: "w \<noteq> 0 \<Longrightarrow> \<not> bit w 0 \<Longrightarrow> \<exists>i. bit w (Suc i)" for w :: "'a::len word"
  unfolding word_0_bits by (metis not0_implies_Suc)

lemma nonzero_single: "w \<noteq> 0 \<Longrightarrow> \<forall>i. \<not> bit w (Suc i) \<Longrightarrow> bit w 0" for w :: "'a::len word"
  using nonzero_bits by blast

lemma bsf_loop_bits:
  assumes "bits \<noteq> 0"
  shows "\<exists>n. bsf_loop bits result = result + n \<and> bit bits n \<and> (\<forall>i<n. \<not> bit bits i)"
  using assms
proof (induction bits result rule: bsf_loop.induct)
  case (1 bits result)
  show ?case
  proof (cases "bits AND 1 = 0")
    case True
    then have "\<not> bit bits 0" by (simp add: and_one_eq bit_0 odd_iff_mod_2_eq_one)
    then have "drop_bit 1 bits \<noteq> 0"
      using nonzero_bits [OF 1(2)] unfolding halved_0 by blast
    then obtain n where n: "bsf_loop (drop_bit 1 bits) (Suc result) = Suc result + n"
      "bit bits (Suc n)" "\<forall>i<n. \<not> bit bits (Suc i)"
      using 1(1) 1(2) True unfolding halved_bits by blast
    have "bsf_loop bits result = result + Suc n"
      using 1(2) True n(1) by (subst bsf_loop.simps) simp
    then show ?thesis
      using n(2,3) \<open>\<not> bit bits 0\<close> by (auto simp: less_Suc_eq_0_disj)
  next
    case False
    then show ?thesis
      by (subst bsf_loop.simps) (auto simp: and_one_eq bit_0 odd_iff_mod_2_eq_one)
  qed
qed

lemma bsr_loop_bits:
  assumes "bits \<noteq> 0"
  shows "\<exists>n. bsr_loop bits result = result + n \<and> bit bits n \<and> (\<forall>i>n. \<not> bit bits i)"
  using assms
proof (induction bits result rule: bsr_loop.induct)
  case (1 bits result)
  show ?case
  proof (cases "drop_bit 1 bits = 0")
    case True
    then have high: "\<forall>i. \<not> bit bits (Suc i)"
      unfolding halved_0 .
    then have "bit bits 0" by (rule nonzero_single [OF 1(2)])
    moreover have "bsr_loop bits result = result"
      using True by (subst bsr_loop.simps) simp
    ultimately show ?thesis using high by (auto simp: gr0_conv_Suc)
  next
    case False
    then obtain n where n: "bsr_loop (drop_bit 1 bits) (Suc result) = Suc result + n"
      "bit bits (Suc n)" "\<forall>i>n. \<not> bit bits (Suc i)"
      using 1(1) [OF refl] unfolding halved_bits by blast
    then have "bsr_loop bits result = result + Suc n"
      using False by (subst bsr_loop.simps) simp
    moreover have "\<not> bit bits i" if "i > Suc n" for i
      using n(3) that by (cases i) auto
    ultimately show ?thesis using n(2) by blast
  qed
qed

text \<open>
  C24. \<open>BsfX\<close> is the position of the lowest set bit and \<open>BsrX\<close> that of the highest; both answer
  255 for zero, which no position of a type of up to 64 bits equals.
\<close>

theorem bit_scans_find_bits:
  fixes v :: "'a::len word"
  shows "if v = 0 then rt_bsf v = 255 \<and> rt_bsr v = 255
    else rt_bsf v = Min {i. bit v i} \<and> rt_bsr v = Max {i. bit v i} \<and>
      rt_bsf v \<le> rt_bsr v \<and> rt_bsr v < LENGTH('a)"
proof (cases "v = 0")
  case True
  then show ?thesis by (simp add: rt_bsf_def rt_bsr_def)
next
  case False
  have fin: "finite {i. bit v i}"
    by (rule finite_subset [of _ "{..<LENGTH('a)}"]) (auto dest: bit_imp_le_length)
  obtain m n where "rt_bsf v = m" "bit v m" "\<forall>i<m. \<not> bit v i"
    "rt_bsr v = n" "bit v n" "\<forall>i>n. \<not> bit v i"
    using bsf_loop_bits [OF False, of 0] bsr_loop_bits [OF False, of 0] False
    by (auto simp: rt_bsf_def rt_bsr_def)
  then have "m = Min {i. bit v i}" "n = Max {i. bit v i}" "m \<le> n" "n < LENGTH('a)"
    using fin by (auto intro!: Min_eqI [symmetric] Max_eqI [symmetric] dest: bit_imp_le_length
      simp: not_less [symmetric])
  then show ?thesis using False \<open>rt_bsf v = m\<close> \<open>rt_bsr v = n\<close> by simp
qed

end
