(* ===== verification/Rt_Short.thy ===== *)
theory Rt_Short
  imports Tp_Prelude
begin

text \<open>
  Short strings of the run-time library (\<open>include/tp2cc_rt/prelude.h\<close>):
  \<open>tp2cc_ShortString<N>\<close>, a length byte followed by \<open>N\<close> content bytes, the live prefixes
  \<open>tp2cc_ShortStringPtrValue\<close> and \<open>tp2cc_ShortStringPtrRef\<close>, and the Pascal intrinsics on them.

  The template parameter \<open>N\<close> is the number of content bytes. The contents beyond the length are
  part of the state, as in the code, and loops write the bytes one at a time, in the order of the
  code. \<open>int\<close> arguments are integers: each operation clamps them before it computes with them.
  A C string is \<open>None\<close> for a null pointer and otherwise the bytes from the pointer on, with the
  terminating NUL behind the end of the list.
\<close>

record sstr =
  slen :: nat
  sdata :: string

abbreviation cap :: "sstr \<Rightarrow> nat" where
  "cap s \<equiv> length (sdata s)"

definition to_byte :: "nat \<Rightarrow> nat" where
  "to_byte n = n mod 256"

text \<open>\<open>tp2cc_ShortString<N> out{}\<close>\<close>

definition sstr_zero :: "nat \<Rightarrow> sstr" where
  "sstr_zero n = \<lparr>slen = 0, sdata = replicate n nul\<rparr>"

text \<open>\<open>for (i = 0; i < n; ++i) data[at + i] = src[from + i]\<close>, from two different arrays.\<close>

definition copy_loop :: "nat \<Rightarrow> nat \<Rightarrow> nat \<Rightarrow> string \<Rightarrow> string \<Rightarrow> string" where
  "copy_loop n at from src data = fold (\<lambda>i d. d[at + i := src ! (from + i)]) [0..<n] data"

subsection \<open>Construction and assignment\<close>

text \<open>\<open>while (s[n] && n < N) ++n\<close>\<close>

fun c_scan :: "nat \<Rightarrow> string \<Rightarrow> nat" where
  "c_scan 0 s = 0"
| "c_scan (Suc k) [] = 0"
| "c_scan (Suc k) (c # cs) = (if c = nul then 0 else Suc (c_scan k cs))"

definition sstr_filled :: "nat \<Rightarrow> nat \<Rightarrow> string \<Rightarrow> sstr" where
  "sstr_filled cp n src =
     \<lparr>slen = to_byte n, sdata = copy_loop n 0 0 src (sdata (sstr_zero cp))\<rparr>"

definition sstr_of_cstr :: "nat \<Rightarrow> string option \<Rightarrow> sstr" where
  "sstr_of_cstr cp s =
     (case s of None \<Rightarrow> sstr_filled cp 0 [] | Some m \<Rightarrow> sstr_filled cp (c_scan cp m) m)"

definition sstr_of_char :: "nat \<Rightarrow> char \<Rightarrow> sstr" where
  "sstr_of_char cp c = \<lparr>slen = 1, sdata = (sdata (sstr_zero cp))[0 := c]\<rparr>"

definition sstr_of_sstr :: "nat \<Rightarrow> sstr \<Rightarrow> sstr" where
  "sstr_of_sstr cp s = sstr_filled cp (if cp < slen s then cp else slen s) (sdata s)"

definition sstr_literal :: "nat \<Rightarrow> string \<Rightarrow> sstr" where
  "sstr_literal cp cs = sstr_filled cp (if length cs < cp then length cs else cp) cs"

definition sstr_set_char :: "char \<Rightarrow> sstr \<Rightarrow> sstr" where
  "sstr_set_char c s = \<lparr>slen = 1, sdata = (sdata s)[0 := c]\<rparr>"

text \<open>
  \<open>tp2cc_shortstring_assign\<close> is a template over its source, which it reads through
  \<open>tp2cc_string_length\<close> and \<open>tp2cc_string_bytes\<close>; the two results are its arguments here.
\<close>

definition sstr_assign :: "sstr \<Rightarrow> nat \<Rightarrow> string \<Rightarrow> sstr" where
  "sstr_assign dest len bytes =
     (let n = min len (cap dest) in
      \<lparr>slen = to_byte n, sdata = copy_loop n 0 0 bytes (sdata dest)\<rparr>)"

definition sstr_setlength :: "sstr \<Rightarrow> int \<Rightarrow> sstr" where
  "sstr_setlength s new_len =
     (let n = (if new_len < 0 then 0 else if int (cap s) < new_len then cap s else nat new_len) in
      \<lparr>slen = to_byte n, sdata = fold (\<lambda>i d. d[i := nul]) [slen s..<n] (sdata s)\<rparr>)"

definition setstring_length :: "int \<Rightarrow> nat \<Rightarrow> nat" where
  "setstring_length len cp = (if len \<le> 0 then 0 else if int cp < len then cp else nat len)"

definition sstr_setstring :: "sstr \<Rightarrow> string option \<Rightarrow> int \<Rightarrow> sstr" where
  "sstr_setstring dest src len =
     (let n = (case src of None \<Rightarrow> 0 | Some _ \<Rightarrow> setstring_length len (cap dest)) in
      \<lparr>slen = to_byte n,
       sdata = (case src of None \<Rightarrow> sdata dest | Some m \<Rightarrow> copy_loop n 0 0 m (sdata dest))\<rparr>)"

subsection \<open>Comparison\<close>

definition sstr_eq :: "sstr \<Rightarrow> sstr \<Rightarrow> bool" where
  "sstr_eq a b \<longleftrightarrow> slen a = slen b \<and> list_all (\<lambda>i. sdata a ! i = sdata b ! i) [0..<slen a]"

fun less_loop :: "string \<Rightarrow> string \<Rightarrow> nat list \<Rightarrow> bool option" where
  "less_loop a b [] = None"
| "less_loop a b (i # is) =
     (if code (a ! i) < code (b ! i) then Some True
      else if code (b ! i) < code (a ! i) then Some False
      else less_loop a b is)"

definition sstr_less :: "sstr \<Rightarrow> sstr \<Rightarrow> bool" where
  "sstr_less a b =
     (let n = (if slen a < slen b then slen a else slen b) in
      case less_loop (sdata a) (sdata b) [0..<n] of Some r \<Rightarrow> r | None \<Rightarrow> slen a < slen b)"

definition sstr_greater :: "sstr \<Rightarrow> sstr \<Rightarrow> bool" where
  "sstr_greater a b = sstr_less b a"

definition sstr_le :: "sstr \<Rightarrow> sstr \<Rightarrow> bool" where
  "sstr_le a b \<longleftrightarrow> \<not> sstr_less b a"

definition sstr_ge :: "sstr \<Rightarrow> sstr \<Rightarrow> bool" where
  "sstr_ge a b \<longleftrightarrow> \<not> sstr_less a b"

text \<open>\<open>tp2cc_string_compare\<close>, a template over two sources like \<open>sstr_assign\<close>.\<close>

definition string_compare :: "nat \<Rightarrow> string \<Rightarrow> nat \<Rightarrow> string \<Rightarrow> int" where
  "string_compare a_len a b_len b =
     (let limit = (if a_len < b_len then a_len else b_len) in
      case less_loop a b [0..<limit] of
        Some r \<Rightarrow> (if r then - 1 else 1)
      | None \<Rightarrow> (if a_len < b_len then - 1 else if b_len < a_len then 1 else 0))"

subsection \<open>Concatenation\<close>

definition concat_cap :: "nat \<Rightarrow> nat \<Rightarrow> nat" where
  "concat_cap n m = (if 255 < n + m then 255 else n + m)"

definition sstr_append :: "sstr \<Rightarrow> sstr \<Rightarrow> sstr" where
  "sstr_append a b =
     (let r = concat_cap (cap a) (cap b); n = slen a + slen b;
          d = copy_loop (min (slen a) r) 0 0 (sdata a) (sdata (sstr_zero r));
          off = slen a
      in \<lparr>slen = to_byte (if r < n then r else n),
          sdata = copy_loop (min (slen b) (r - off)) off 0 (sdata b) d\<rparr>)"

definition sstr_append_cstr :: "sstr \<Rightarrow> string option \<Rightarrow> sstr" where
  "sstr_append_cstr a b = sstr_of_sstr (cap a) (sstr_append a (sstr_of_cstr (cap a) b))"

definition sstr_append_char :: "sstr \<Rightarrow> char \<Rightarrow> sstr" where
  "sstr_append_char a c = sstr_append a (sstr_of_char 255 c)"

definition sstr_prepend_char :: "char \<Rightarrow> sstr \<Rightarrow> sstr" where
  "sstr_prepend_char c b = sstr_append (sstr_of_char 255 c) b"

definition char_append_char :: "char \<Rightarrow> char \<Rightarrow> sstr" where
  "char_append_char a b = \<lparr>slen = 2, sdata = (sdata (sstr_zero 255))[0 := a, 1 := b]\<rparr>"

subsection \<open>Character access\<close>

text \<open>
  \<open>s[0]\<close> is the length byte, \<open>s[i]\<close> the \<open>i\<close>-th content byte. An index outside the object is
  undefined behaviour in the code, \<open>None\<close> here.
\<close>

definition sstr_at :: "sstr \<Rightarrow> int \<Rightarrow> char option" where
  "sstr_at s i =
     (if i = 0 then Some (char_of (slen s))
      else if 1 \<le> i \<and> i \<le> int (cap s) then Some (sdata s ! nat (i - 1)) else None)"

definition sstr_put :: "sstr \<Rightarrow> int \<Rightarrow> char \<Rightarrow> sstr option" where
  "sstr_put s i c =
     (if i = 0 then Some (s\<lparr>slen := code c\<rparr>)
      else if 1 \<le> i \<and> i \<le> int (cap s) then Some (s\<lparr>sdata := (sdata s)[nat (i - 1) := c]\<rparr>)
      else None)"

subsection \<open>Live prefixes\<close>

text \<open>
  \<open>tp2cc_ShortStringPtrValue\<close> and \<open>tp2cc_ShortStringPtrRef\<close>: a pointer to a length byte and as
  many bytes as the caller allocated.
\<close>

type_synonym sptr = "string option"

definition pv_size :: "sptr \<Rightarrow> nat" where
  "pv_size p = (case p of None \<Rightarrow> 0 | Some m \<Rightarrow> code (m ! 0))"

definition pv_bytes :: "sptr \<Rightarrow> string" where
  "pv_bytes p = (case p of None \<Rightarrow> [] | Some m \<Rightarrow> drop 1 m)"

definition pv_at :: "sptr \<Rightarrow> nat \<Rightarrow> char option" where
  "pv_at p i = (case p of None \<Rightarrow> None | Some m \<Rightarrow> if i < length m then Some (m ! i) else None)"

definition pv_to_sstr :: "nat \<Rightarrow> sptr \<Rightarrow> sstr" where
  "pv_to_sstr cp p = sstr_filled cp (min (pv_size p) cp) (pv_bytes p)"

text \<open>Writing through the pointer, \<open>None\<close> when a write leaves the allocated bytes.\<close>

definition pr_fill :: "string \<Rightarrow> nat \<Rightarrow> string \<Rightarrow> string option" where
  "pr_fill storage n bytes =
     (if n < length storage
      then Some ((copy_loop n 1 0 bytes storage)[0 := char_of (to_byte n)]) else None)"

definition pr_assign :: "nat \<Rightarrow> string \<Rightarrow> nat \<Rightarrow> string \<Rightarrow> string option" where
  "pr_assign cp storage len bytes = pr_fill storage (min len cp) bytes"

definition pr_setlength :: "nat \<Rightarrow> string \<Rightarrow> int \<Rightarrow> string option" where
  "pr_setlength cp storage new_len =
     (let n = (if new_len < 0 then 0 else if int cp < new_len then cp else nat new_len);
          old_len = pv_size (Some storage)
      in if storage = [] \<or> (old_len < n \<and> length storage \<le> n) then None
         else Some ((fold (\<lambda>i d. d[Suc i := nul]) [old_len..<n] storage)[0 := char_of (to_byte n)]))"

definition pr_setstring :: "nat \<Rightarrow> string \<Rightarrow> string option \<Rightarrow> int \<Rightarrow> string option" where
  "pr_setstring cp storage src len =
     (case src of None \<Rightarrow> pr_fill storage 0 []
      | Some m \<Rightarrow> pr_fill storage (setstring_length len cp) m)"

subsection \<open>Intrinsics\<close>

text \<open>
  \<open>p_pos\<close>: the first \<open>i\<close> with \<open>i + needle length <= hay length\<close> at which all characters agree,
  plus one.
\<close>

definition matches_at :: "string \<Rightarrow> nat \<Rightarrow> string \<Rightarrow> nat \<Rightarrow> bool" where
  "matches_at needle nlen hay i = list_all (\<lambda>j. hay ! (i + j) = needle ! j) [0..<nlen]"

definition pos_loop :: "string \<Rightarrow> nat \<Rightarrow> string \<Rightarrow> nat \<Rightarrow> nat" where
  "pos_loop needle nlen hay hl =
     (case find (matches_at needle nlen hay) [0..<Suc hl - nlen] of Some i \<Rightarrow> i + 1 | None \<Rightarrow> 0)"

definition c_strlen :: "string \<Rightarrow> nat" where
  "c_strlen m = c_scan (length m) m"

definition p_strlen :: "string option \<Rightarrow> nat" where
  "p_strlen s = (case s of None \<Rightarrow> 0 | Some m \<Rightarrow> c_strlen m)"

definition pos_cstr :: "string \<Rightarrow> sstr \<Rightarrow> nat" where
  "pos_cstr needle hay = pos_loop needle (c_strlen needle) (sdata hay) (slen hay)"

definition pos_sstr :: "sstr \<Rightarrow> sstr \<Rightarrow> nat" where
  "pos_sstr needle hay = pos_loop (sdata needle) (slen needle) (sdata hay) (slen hay)"

definition pos_char :: "char \<Rightarrow> sstr \<Rightarrow> nat" where
  "pos_char c hay =
     (case find (\<lambda>i. sdata hay ! i = c) [0..<slen hay] of Some i \<Rightarrow> i + 1 | None \<Rightarrow> 0)"

definition sstr_copy :: "sstr \<Rightarrow> int \<Rightarrow> int \<Rightarrow> sstr" where
  "sstr_copy s start count =
     (let start = (if start < 1 then 1 else start);
          avail = int (slen s) - (start - 1);
          avail = (if avail < 0 then 0 else avail);
          count = (if avail < count then avail else count);
          count = (if count < 0 then 0 else count)
      in \<lparr>slen = to_byte (nat count),
          sdata = copy_loop (nat count) 0 (nat (start - 1)) (sdata s) (sdata (sstr_zero 255))\<rparr>)"

definition sstr_delete :: "sstr \<Rightarrow> int \<Rightarrow> int \<Rightarrow> sstr" where
  "sstr_delete s start count =
     (if start < 1 \<or> int (slen s) < start \<or> count \<le> 0 then s
      else
        let tail = int (slen s) - (start - 1) - count in
        if tail < 0 then s\<lparr>slen := to_byte (nat (start - 1))\<rparr>
        else
          let p = nat (start - 1); q = nat (start - 1 + count) in
          \<lparr>slen = to_byte (slen s - nat count),
           sdata = fold (\<lambda>i d. d[p + i := d ! (q + i)]) [0..<nat tail] (sdata s)\<rparr>)"

text \<open>
  \<open>p_insert\<close>, for a source that is not the destination. The first loop counts down from
  \<open>need - 1\<close>, the second copies the source as far as the capacity goes.
\<close>

definition sstr_insert :: "sstr \<Rightarrow> sstr \<Rightarrow> int \<Rightarrow> sstr" where
  "sstr_insert src dest ps =
     (let ps = (if ps < 1 then 1 else ps);
          ps = (if int (slen dest) + 1 < ps then int (slen dest) + 1 else ps);
          p = nat (ps - 1);
          need = slen dest + slen src;
          need = (if cap dest < need then cap dest else need);
          shift = need - slen dest;
          d = fold (\<lambda>i d. d[i := d ! (i - shift)]) (rev [p + slen src..<need]) (sdata dest)
      in \<lparr>slen = to_byte need,
          sdata = copy_loop (min (slen src) (cap dest - p)) p 0 (sdata src) d\<rparr>)"

text \<open>
  Both parameters are references: when a variable is inserted into itself the second loop reads
  bytes that the loops have already changed.
\<close>

definition sstr_insert_self :: "sstr \<Rightarrow> int \<Rightarrow> sstr" where
  "sstr_insert_self s ps =
     (let ps = (if ps < 1 then 1 else ps);
          ps = (if int (slen s) + 1 < ps then int (slen s) + 1 else ps);
          p = nat (ps - 1);
          need = slen s + slen s;
          need = (if cap s < need then cap s else need);
          shift = need - slen s;
          d = fold (\<lambda>i d. d[i := d ! (i - shift)]) (rev [p + slen s..<need]) (sdata s)
      in \<lparr>slen = to_byte need,
          sdata = fold (\<lambda>i d. d[p + i := d ! i]) [0..<min (slen s) (cap s - p)] d\<rparr>)"

definition sstr_insert_char :: "char \<Rightarrow> sstr \<Rightarrow> int \<Rightarrow> sstr" where
  "sstr_insert_char c dest ps = sstr_insert (sstr_of_cstr (cap dest) (Some [c])) dest ps"

text \<open>
  The overloads for live prefixes work on a short string of the same capacity, and write it back
  where they change it.
\<close>

definition pos_cstr_pv :: "string \<Rightarrow> nat \<Rightarrow> sptr \<Rightarrow> nat" where
  "pos_cstr_pv needle cp hay = pos_cstr needle (pv_to_sstr cp hay)"

definition pos_sstr_pv :: "sstr \<Rightarrow> nat \<Rightarrow> sptr \<Rightarrow> nat" where
  "pos_sstr_pv needle cp hay = pos_sstr needle (pv_to_sstr cp hay)"

definition pos_char_pv :: "char \<Rightarrow> nat \<Rightarrow> sptr \<Rightarrow> nat" where
  "pos_char_pv c cp hay = pos_char c (pv_to_sstr cp hay)"

definition copy_pv :: "nat \<Rightarrow> sptr \<Rightarrow> int \<Rightarrow> int \<Rightarrow> sstr" where
  "copy_pv cp s start count = sstr_copy (pv_to_sstr cp s) start count"

definition delete_pr :: "nat \<Rightarrow> string \<Rightarrow> int \<Rightarrow> int \<Rightarrow> string option" where
  "delete_pr cp storage start count =
     (let tmp = sstr_delete (pv_to_sstr cp (Some storage)) start count in
      pr_assign cp storage (slen tmp) (sdata tmp))"

definition insert_pv :: "nat \<Rightarrow> sptr \<Rightarrow> sstr \<Rightarrow> int \<Rightarrow> sstr" where
  "insert_pv cp src dest ps = sstr_insert (pv_to_sstr cp src) dest ps"

definition insert_pr :: "sstr \<Rightarrow> nat \<Rightarrow> string \<Rightarrow> int \<Rightarrow> string option" where
  "insert_pr src cp storage ps =
     (let tmp = sstr_insert src (pv_to_sstr cp (Some storage)) ps in
      pr_assign cp storage (slen tmp) (sdata tmp))"

definition p_upcase_char :: "char \<Rightarrow> char" where
  "p_upcase_char c =
     (let b = code c in char_of (if 97 \<le> b \<and> b \<le> 122 then b - 32 else b))"

definition p_lowercase_char :: "char \<Rightarrow> char" where
  "p_lowercase_char c =
     (let b = code c in char_of (if 65 \<le> b \<and> b \<le> 90 then b + 32 else b))"

definition sstr_upcase :: "sstr \<Rightarrow> sstr" where
  "sstr_upcase s = s\<lparr>sdata := fold (\<lambda>i d. d[i := p_upcase_char (d ! i)]) [0..<slen s] (sdata s)\<rparr>"

definition sstr_lowercase :: "sstr \<Rightarrow> sstr" where
  "sstr_lowercase s = s\<lparr>sdata := fold (\<lambda>i d. d[i := p_lowercase_char (d ! i)]) [0..<slen s] (sdata s)\<rparr>"

text \<open>\<open>p_octstr\<close> and \<open>p_hexstr\<close>. The digit buffer of \<open>p_octstr\<close> has 65 bytes; more is undefined.\<close>

function oct_digits :: "nat \<Rightarrow> string" where
  "oct_digits bits =
     char_of (48 + bits mod 8) # (if bits div 8 = 0 then [] else oct_digits (bits div 8))"
  by pat_completeness auto
termination by (relation "measure id") auto

declare oct_digits.simps [simp del]

definition p_octstr :: "'a::len word \<Rightarrow> int \<Rightarrow> sstr option" where
  "p_octstr v width =
     (let ds = oct_digits (unat v); buf = ds @ replicate (nat width - length ds) (CHR ''0'') in
      if 65 < length buf then None
      else Some (sstr_filled 255 (length buf) (rev buf)))"

definition hex_upper :: "nat \<Rightarrow> char" where
  "hex_upper nyb = char_of (if nyb < 10 then 48 + nyb else 65 + (nyb - 10))"

fun hex_digits :: "nat \<Rightarrow> u64 \<Rightarrow> string" where
  "hex_digits 0 bits = []"
| "hex_digits (Suc k) bits = hex_digits k (drop_bit 4 bits) @ [hex_upper (unat (take_bit 4 bits))]"

definition p_hexstr64 :: "u64 \<Rightarrow> nat \<Rightarrow> sstr" where
  "p_hexstr64 v cnt = sstr_of_cstr 255 (Some (hex_digits (if 16 < cnt then 16 else cnt) v))"

definition p_hexstr32 :: "u32 \<Rightarrow> nat \<Rightarrow> sstr" where
  "p_hexstr32 v cnt = p_hexstr64 (ucast v) cnt"

text \<open>C string routines: \<open>p_strpcopy\<close> into a buffer, \<open>p_strcomp\<close> of two terminated strings.\<close>

definition p_strpcopy :: "string \<Rightarrow> sstr \<Rightarrow> string" where
  "p_strpcopy dest src =
     (copy_loop (slen src) 0 0 (sdata src) dest)[slen src := nul]"

definition c_head :: "string \<Rightarrow> nat" where
  "c_head s = (case s of [] \<Rightarrow> 0 | c # _ \<Rightarrow> code c)"

function p_strcomp :: "string \<Rightarrow> string \<Rightarrow> int" where
  "p_strcomp a b =
     (let av = c_head a; bv = c_head b in
      if av \<noteq> bv then (if av < bv then - 1 else 1)
      else if av = 0 then 0 else p_strcomp (drop 1 a) (drop 1 b))"
  by pat_completeness auto
termination by (relation "measure (length \<circ> fst)") (auto simp: c_head_def split: list.splits)

declare p_strcomp.simps [simp del]

definition p_comparebyte :: "nat list \<Rightarrow> nat list \<Rightarrow> int \<Rightarrow> int" where
  "p_comparebyte a b count =
     (case find (\<lambda>i. a ! i \<noteq> b ! i) [0..<nat count] of
        None \<Rightarrow> 0 | Some i \<Rightarrow> if a ! i < b ! i then - 1 else 1)"

definition p_indexbyte :: "nat list \<Rightarrow> int \<Rightarrow> nat \<Rightarrow> int" where
  "p_indexbyte a count needle =
     (case find (\<lambda>i. a ! i = needle) [0..<nat count] of None \<Rightarrow> - 1 | Some i \<Rightarrow> int i)"

end
