(* ===== verification/Rt_Ansi.thy ===== *)
theory Rt_Ansi
  imports Rt_Short
begin

text \<open>
  Long strings of the run-time library: \<open>tp2cc_AnsiString\<close> in
  \<open>include/tp2cc_rt/prelude.h\<close>. A variable is one pointer. The bytes it points to lie in a block
  with a header that holds the length; assignment copies the pointer, every operation that
  changes bytes first moves the variable to a block of its own, and blocks are only freed when the
  program ends (\<open>tp2cc_ansistring_release_all\<close>). All empty strings share one static byte.

  The store is the list of allocated blocks and that byte. A pointer is null (storage that was
  zeroed without its constructor), the static byte, or a block. Lengths are \<open>int32_t\<close> in the code,
  and sums of lengths are computed there (\<open>a_len + b_len\<close>, \<open>old_len + src_len\<close>, \<open>len + 1\<close>): a sum
  beyond \<open>int32_t\<close> is undefined behaviour, as is a write outside the bytes of a block. Both are
  \<open>None\<close> here. \<open>malloc\<close> succeeds (the code aborts when it does not).
\<close>

datatype aptr = ANull | AEmpty | ABlk nat

record ablock =
  hdr_len :: nat
  payload :: string

record aheap =
  blocks :: "ablock list"
  empty_byte :: char

type_synonym astr = "aheap \<times> aptr"

text \<open>The result of a signed 32-bit computation, undefined on overflow.\<close>

definition int32_result :: "int \<Rightarrow> int option" where
  "int32_result k = (if - (2 ^ 31) \<le> k \<and> k < 2 ^ 31 then Some k else None)"

subsection \<open>Blocks\<close>

definition is_empty_bytes :: "aptr \<Rightarrow> bool" where
  "is_empty_bytes p \<longleftrightarrow> p = ANull \<or> p = AEmpty"

fun a_bytes :: "aheap \<Rightarrow> aptr \<Rightarrow> string" where
  "a_bytes h ANull = []"
| "a_bytes h AEmpty = [empty_byte h]"
| "a_bytes h (ABlk i) = payload (blocks h ! i)"

fun a_length :: "aheap \<Rightarrow> aptr \<Rightarrow> nat" where
  "a_length h ANull = 0"
| "a_length h AEmpty = 0"
| "a_length h (ABlk i) = hdr_len (blocks h ! i)"

definition a_new :: "aheap \<Rightarrow> nat \<Rightarrow> astr" where
  "a_new h len =
     (h\<lparr>blocks := blocks h @ [\<lparr>hdr_len = len, payload = replicate (len + 1) nul\<rparr>]\<rparr>,
      ABlk (length (blocks h)))"

definition alloc_bytes :: "aheap \<Rightarrow> int \<Rightarrow> astr option" where
  "alloc_bytes h len =
     (if len \<le> 0 then Some (h, AEmpty)
      else map_option (\<lambda>_. a_new h (nat len)) (int32_result (len + 1)))"

definition alloc_owned_empty :: "aheap \<Rightarrow> astr" where
  "alloc_owned_empty h = a_new h 0"

text \<open>A change of the bytes behind a pointer, by a function that keeps their number.\<close>

fun a_write :: "(string \<Rightarrow> string) \<Rightarrow> astr \<Rightarrow> astr" where
  "a_write f (h, ABlk i) =
     (h\<lparr>blocks := (blocks h)[i := (blocks h ! i)\<lparr>payload := f (payload (blocks h ! i))\<rparr>]\<rparr>, ABlk i)"
| "a_write f (h, AEmpty) = (h\<lparr>empty_byte := hd (f [empty_byte h])\<rparr>, AEmpty)"
| "a_write f (h, ANull) = (h, ANull)"

text \<open>\<open>memcpy\<close> and \<open>memmove\<close> of \<open>n\<close> bytes to position \<open>at\<close>.\<close>

definition mem_put :: "nat \<Rightarrow> string \<Rightarrow> string \<Rightarrow> string" where
  "mem_put at src d = take at d @ src @ drop (at + length src) d"

definition mem_move :: "nat \<Rightarrow> nat \<Rightarrow> nat \<Rightarrow> string \<Rightarrow> string" where
  "mem_move at from n d = mem_put at (take n (drop from d)) d"

subsection \<open>Members\<close>

definition a_clear :: "aheap \<Rightarrow> astr" where
  "a_clear h = (h, AEmpty)"

definition ensure_unique :: "astr \<Rightarrow> astr option" where
  "ensure_unique s =
     (case s of (h, p) \<Rightarrow>
        if is_empty_bytes p then Some (alloc_owned_empty h)
        else
          let len = a_length h p in
          map_option (a_write (mem_put 0 (take (len + 1) (a_bytes h p)))) (alloc_bytes h (int len)))"

definition set_length :: "astr \<Rightarrow> int \<Rightarrow> astr option" where
  "set_length s new_len =
     (case s of (h, p) \<Rightarrow>
        if new_len \<le> 0 then Some (a_clear h)
        else
          let old_len = a_length h p;
              keep = (if int old_len < new_len then old_len else nat new_len)
          in map_option
               (\<lambda>fresh. if 0 < keep then a_write (mem_put 0 (take keep (a_bytes h p))) fresh else fresh)
               (alloc_bytes h new_len))"

definition assign_bytes :: "aheap \<Rightarrow> string option \<Rightarrow> int \<Rightarrow> astr option" where
  "assign_bytes h src len =
     (case src of None \<Rightarrow> Some (a_clear h)
      | Some m \<Rightarrow>
        if len \<le> 0 then Some (a_clear h)
        else map_option (a_write (mem_put 0 (take (nat len) m))) (alloc_bytes h len))"

text \<open>
  \<open>assign_c_str\<close> casts the \<open>size_t\<close> of \<open>strlen\<close> to \<open>int32_t\<close>; \<open>assign_pascal_c_str\<close> counts in an
  \<open>int32_t\<close>.
\<close>

definition assign_c_str :: "aheap \<Rightarrow> string option \<Rightarrow> astr option" where
  "assign_c_str h s =
     (case s of None \<Rightarrow> Some (a_clear h)
      | Some m \<Rightarrow>
        if c_head m = 0 then Some (a_clear h)
        else assign_bytes h (Some m) (sint (word_of_nat (c_strlen m) :: 32 word)))"

definition assign_pascal_c_str :: "aheap \<Rightarrow> string option \<Rightarrow> astr option" where
  "assign_pascal_c_str h s =
     (case s of None \<Rightarrow> Some (a_clear h)
      | Some m \<Rightarrow>
        if c_head m = 0 then Some (a_clear h)
        else Option.bind (int32_result (int (c_strlen m))) (assign_bytes h (Some m)))"

definition assign_sstr :: "aheap \<Rightarrow> sstr \<Rightarrow> astr option" where
  "assign_sstr h s = assign_bytes h (Some (sdata s)) (int (slen s))"

definition assign_char :: "astr \<Rightarrow> char \<Rightarrow> astr option" where
  "assign_char s c = map_option (a_write (\<lambda>d. d[0 := c])) (set_length s 1)"

definition astr_to_sstr :: "nat \<Rightarrow> astr \<Rightarrow> sstr" where
  "astr_to_sstr cp s =
     (case s of (h, p) \<Rightarrow>
        sstr_filled cp (if cp < a_length h p then cp else a_length h p) (a_bytes h p))"

text \<open>\<open>s[i]\<close>, read and written.\<close>

definition a_at :: "astr \<Rightarrow> int \<Rightarrow> char option" where
  "a_at s i =
     (case s of (h, p) \<Rightarrow>
        if 1 \<le> i \<and> i \<le> int (length (a_bytes h p)) then Some (a_bytes h p ! nat (i - 1)) else None)"

definition a_put :: "astr \<Rightarrow> int \<Rightarrow> char \<Rightarrow> astr option" where
  "a_put s i c =
     Option.bind (ensure_unique s) (\<lambda>t.
       if 1 \<le> i \<and> i \<le> int (length (a_bytes (fst t) (snd t)))
       then Some (a_write (\<lambda>d. d[nat (i - 1) := c]) t) else None)"

subsection \<open>Operations\<close>

definition astr_of_astr :: "astr \<Rightarrow> astr" where
  "astr_of_astr s = s"

text \<open>\<open>tp2cc_concat_to_ansistring\<close>, generic in both operands.\<close>

definition concat_to_astr :: "aheap \<Rightarrow> nat \<Rightarrow> string \<Rightarrow> nat \<Rightarrow> string \<Rightarrow> astr option" where
  "concat_to_astr h a_len a b_len b =
     Option.bind (int32_result (int a_len + int b_len)) (\<lambda>len.
       map_option
         (\<lambda>out.
            let out = (if 0 < a_len then a_write (mem_put 0 (take a_len a)) out else out)
            in if 0 < b_len then a_write (mem_put a_len (take b_len b)) out else out)
         (set_length (h, AEmpty) len))"

definition astr_eq_char :: "astr \<Rightarrow> char \<Rightarrow> bool" where
  "astr_eq_char s c = (case s of (h, p) \<Rightarrow> a_length h p = 1 \<and> a_bytes h p ! 0 = c)"

text \<open>\<open>tp2cc_insert_bytes\<close>. The bytes of the source are those before the destination changes.\<close>

definition insert_bytes :: "nat \<Rightarrow> string \<Rightarrow> astr \<Rightarrow> int \<Rightarrow> astr option" where
  "insert_bytes src_len src dest ps =
     (if src_len = 0 then Some dest
      else
        let old_len = a_length (fst dest) (snd dest);
            ps = (if ps < 1 then 1 else ps)
        in Option.bind (int32_result (int old_len + 1)) (\<lambda>past.
             let p = nat ((if past < ps then past else ps) - 1)
             in Option.bind (int32_result (int old_len + int src_len)) (\<lambda>len.
                  map_option
                    (\<lambda>d. a_write (mem_put p (take src_len src))
                       (a_write (mem_move (p + src_len) p (old_len - p)) d))
                    (set_length dest len))))"

definition astr_copy :: "astr \<Rightarrow> int \<Rightarrow> int \<Rightarrow> astr option" where
  "astr_copy s start count =
     (case s of (h, p) \<Rightarrow>
        let start = (if start < 1 then 1 else start);
            avail = int (a_length h p) - (start - 1);
            avail = (if avail < 0 then 0 else avail);
            count = (if avail < count then avail else count);
            count = (if count < 0 then 0 else count)
        in map_option
             (\<lambda>r. if 0 < count
                  then a_write (mem_put 0 (take (nat count) (drop (nat (start - 1)) (a_bytes h p)))) r
                  else r)
             (set_length (h, AEmpty) count))"

definition astr_delete :: "astr \<Rightarrow> int \<Rightarrow> int \<Rightarrow> astr option" where
  "astr_delete s start count =
     (let len = a_length (fst s) (snd s) in
      if start < 1 \<or> int len < start \<or> count \<le> 0 then Some s
      else
        let count = (if int len - (start - 1) < count then int len - (start - 1) else count);
            p = nat (start - 1); q = nat (start - 1 + count)
        in Option.bind (ensure_unique s) (\<lambda>t.
             set_length (a_write (mem_move p q (len - q + 1)) t) (int len - count)))"

text \<open>\<open>tp2cc_set_ansistring_from_counted_chars\<close>\<close>

definition astr_setstring :: "astr \<Rightarrow> string option \<Rightarrow> int \<Rightarrow> astr option" where
  "astr_setstring dest src len =
     (case src of None \<Rightarrow> set_length dest 0
      | Some m \<Rightarrow>
        if 0 < len
        then Option.bind (set_length dest len) (\<lambda>d.
               map_option (a_write (mem_put 0 (take (nat len) m))) (ensure_unique d))
        else set_length dest 0)"

text \<open>
  The count is as wide as a pointer. Beyond \<open>int32_t\<close> the \<open>int32_t\<close> index of the filling loop never
  reaches it, which is undefined.
\<close>

definition p_stringofchar :: "aheap \<Rightarrow> char \<Rightarrow> int \<Rightarrow> astr option" where
  "p_stringofchar h c count =
     (if count \<le> 0 then Some (h, AEmpty)
      else Option.bind (int32_result count) (\<lambda>count.
        Option.bind (set_length (h, AEmpty) count) (\<lambda>out.
          map_option (a_write (mem_put 0 (replicate (nat count) c))) (ensure_unique out))))"

definition astr_map :: "(char \<Rightarrow> char) \<Rightarrow> astr \<Rightarrow> astr option" where
  "astr_map f s =
     fold (\<lambda>i r. Option.bind r (\<lambda>t. Option.bind (a_at t (int i)) (\<lambda>c. a_put t (int i) (f c))))
       [1..<Suc (a_length (fst s) (snd s))] (Some (astr_of_astr s))"

definition astr_upcase :: "astr \<Rightarrow> astr option" where
  "astr_upcase = astr_map p_upcase_char"

definition astr_lowercase :: "astr \<Rightarrow> astr option" where
  "astr_lowercase = astr_map p_lowercase_char"

subsection \<open>Programs over string variables\<close>

text \<open>
  What a Pascal program does with its long string variables: the store and the pointers of the
  variables, and one command per statement. \<open>Asg x y\<close> is \<open>x := y\<close>.
\<close>

datatype acmd =
  Asg nat nat | Cat nat nat nat | Put nat int char | SetLen nat "32 word" | Ins nat nat "32 word"
| Del nat "32 word" "32 word" | Sub nat nat "32 word" "32 word" | FromShort nat sstr
| FromChar nat char | FillStr nat char "64 word" | Up nat nat

record astate =
  store :: aheap
  vars :: "nat \<Rightarrow> aptr"

definition var_str :: "astate \<Rightarrow> nat \<Rightarrow> astr" where
  "var_str st x = (store st, vars st x)"

definition put_var :: "astate \<Rightarrow> nat \<Rightarrow> astr \<Rightarrow> astate" where
  "put_var st x s = \<lparr>store = fst s, vars = (vars st)(x := snd s)\<rparr>"

text \<open>The string a command computes for its target.\<close>

fun exec_str :: "acmd \<Rightarrow> astate \<Rightarrow> astr option" where
  "exec_str (Asg x y) st = Some (astr_of_astr (var_str st y))"
| "exec_str (Cat x y z) st =
     (let h = store st; p = vars st y; q = vars st z in
      concat_to_astr h (a_length h p) (a_bytes h p) (a_length h q) (a_bytes h q))"
| "exec_str (Put x i c) st = a_put (var_str st x) i c"
| "exec_str (SetLen x n) st = set_length (var_str st x) (sint n)"
| "exec_str (Ins y x i) st =
     (let h = store st; p = vars st y in
      insert_bytes (a_length h p) (a_bytes h p) (var_str st x) (sint i))"
| "exec_str (Del x i n) st = astr_delete (var_str st x) (sint i) (sint n)"
| "exec_str (Sub x y i n) st = astr_copy (var_str st y) (sint i) (sint n)"
| "exec_str (FromShort x s) st = assign_sstr (store st) s"
| "exec_str (FromChar x c) st = assign_char (var_str st x) c"
| "exec_str (FillStr x c n) st = p_stringofchar (store st) c (sint n)"
| "exec_str (Up x y) st = astr_upcase (var_str st y)"

fun cmd_target :: "acmd \<Rightarrow> nat" where
  "cmd_target (Asg x y) = x"
| "cmd_target (Cat x y z) = x"
| "cmd_target (Put x i c) = x"
| "cmd_target (SetLen x n) = x"
| "cmd_target (Ins y x i) = x"
| "cmd_target (Del x i n) = x"
| "cmd_target (Sub x y i n) = x"
| "cmd_target (FromShort x s) = x"
| "cmd_target (FromChar x c) = x"
| "cmd_target (FillStr x c n) = x"
| "cmd_target (Up x y) = x"

definition exec :: "acmd \<Rightarrow> astate \<Rightarrow> astate option" where
  "exec c st = map_option (put_var st (cmd_target c)) (exec_str c st)"

fun run :: "acmd list \<Rightarrow> astate \<Rightarrow> astate option" where
  "run [] st = Some st"
| "run (c # cs) st = Option.bind (exec c st) (run cs)"

definition fresh_program :: astate where
  "fresh_program = \<lparr>store = \<lparr>blocks = [], empty_byte = nul\<rparr>, vars = (\<lambda>_. AEmpty)\<rparr>"

end
