(* ===== verification/Rt_Loops.thy ===== *)
theory Rt_Loops
  imports Main
begin

text \<open>
  Loops that write an array one element at a time, as folds over the indices: what they leave at
  each index, and as \<open>take\<close> and \<open>drop\<close> when they copy, shift, map or fill. The run-time library
  (\<open>include/tp2cc_rt/prelude.h\<close>) has such loops in its strings and its sets.
\<close>

lemma length_fold_upd [simp]: "length (fold (\<lambda>i d. d[f i := g d i]) is d) = length d"
  by (induction "is" arbitrary: d) auto

text \<open>Writing the element that extends a replaced middle part.\<close>

lemma upd_middle:
  assumes "length a + length b = k" "k < length d" "m = k"
  shows "(a @ b @ drop m d)[k := x] = a @ (b @ [x]) @ drop (Suc k) d"
proof -
  from assms have "(a @ b @ drop m d)[k := x] = ((a @ b) @ d ! k # drop (Suc k) d)[k := x]"
    by (simp add: Cons_nth_drop_Suc)
  also have "\<dots> = (a @ b) @ x # drop (Suc k) d"
    unfolding list_update_append using assms by simp
  finally show ?thesis by simp
qed

lemma copy_down_nth:
  assumes "p \<le> q" "q + t \<le> length d"
  shows "fold (\<lambda>i d. d[p + i := d ! (q + i)]) [0..<t] d =
    take p d @ take t (drop q d) @ drop (p + t) d"
  using assms
proof (induction t)
  case (Suc t)
  let ?m = "take p d @ take t (drop q d) @ drop (p + t) d"
  from Suc.prems have "?m ! (q + t) = d ! (q + t)"
    by (auto simp: nth_append add.commute)
  with Suc have "fold (\<lambda>i d. d[p + i := d ! (q + i)]) [0..<Suc t] d = ?m[p + t := d ! (q + t)]"
    by simp
  also have "\<dots> = take p d @ (take t (drop q d) @ [d ! (q + t)]) @ drop (Suc (p + t)) d"
    using Suc.prems by (intro upd_middle) auto
  also have "take t (drop q d) @ [d ! (q + t)] = take (Suc t) (drop q d)"
    using Suc.prems by (simp add: take_Suc_conv_app_nth)
  finally show ?case by simp
qed simp

lemma shift_up_nth:
  assumes "sh \<le> lo" "lo \<le> hi" "hi \<le> length d"
  shows "fold (\<lambda>i d. d[i := d ! (i - sh)]) (rev [lo..<hi]) d =
    take lo d @ take (hi - lo) (drop (lo - sh) d) @ drop hi d"
  using assms(2,1,3)
proof (induction lo rule: inc_induct)
  case (step lo)
  let ?t = "take (hi - Suc lo) (drop (Suc lo - sh) d) @ drop hi d"
  have split: "take (Suc lo) d = take lo d @ [d ! lo]"
    using step by (simp add: take_Suc_conv_app_nth)
  have "rev [lo..<hi] = rev [Suc lo..<hi] @ [lo]"
    using step.hyps by (simp add: upt_conv_Cons)
  moreover have "(take lo d @ [d ! lo] @ ?t) ! (lo - sh) = d ! (lo - sh)"
    using step by (cases "sh = 0") (auto simp: nth_append)
  ultimately have "fold (\<lambda>i d. d[i := d ! (i - sh)]) (rev [lo..<hi]) d =
      (take lo d @ [d ! lo] @ ?t)[lo := d ! (lo - sh)]"
    using step split by simp
  also have "\<dots> = take lo d @ (d ! (lo - sh) # take (hi - Suc lo) (drop (Suc lo - sh) d)) @ drop hi d"
    using step by (simp add: list_update_append)
  also have "d ! (lo - sh) # take (hi - Suc lo) (drop (Suc lo - sh) d) =
      take (hi - lo) (drop (lo - sh) d)"
    using step by (simp add: Suc_diff_le take_Cons' flip: Cons_nth_drop_Suc)
  finally show ?case by simp
qed simp

lemma map_loop:
  "n \<le> length d \<Longrightarrow> fold (\<lambda>i d. d[i := f (d ! i)]) [0..<n] d = map f (take n d) @ drop n d"
proof (induction n)
  case (Suc n)
  then show ?case
    by (auto intro!: nth_equalityI simp: nth_append nth_list_update less_Suc_eq)
qed simp

lemma fill_loop:
  assumes "m \<le> n" "n \<le> length d"
  shows "fold (\<lambda>i d. d[i := c]) [m..<n] d = take m d @ replicate (n - m) c @ drop n d"
  using assms
proof (induction n rule: dec_induct)
  case (step n)
  then show ?case
    by (auto intro!: nth_equalityI simp: nth_append nth_list_update less_Suc_eq)
qed simp

lemma nth_fold_const:
  "fold (\<lambda>i r. r[i := h i]) [0..<n] r ! k = (if k < n \<and> k < length r then h k else r ! k)"
proof (induction n)
  case (Suc n)
  then show ?case by (cases "n = k") (auto simp: nth_list_update list_update_beyond less_Suc_eq)
qed simp

lemma nth_fold_old:
  assumes "n \<le> length r"
  shows "fold (\<lambda>i r. r[i := f (r ! i) (c i)]) [0..<n] r ! k =
    (if k < n then f (r ! k) (c k) else r ! k)"
  using assms by (induction n arbitrary: k) (auto simp: nth_list_update less_Suc_eq)

end
