(* ===== verification/Rt_Short_Facts.thy ===== *)
theory Rt_Short_Facts
  imports Rt_Short Rt_Loops
begin

text \<open>
  Short strings refine lists of characters: \<open>stext\<close> is the Pascal value of a short string, and
  each operation computes the list operation it stands for, cut at the capacity. The loops are
  first turned into \<open>take\<close> and \<open>drop\<close>. The source of a generic operation is an interface, the
  locale \<open>char_source\<close>.
\<close>

subsection \<open>The loops\<close>

lemma length_copy_loop [simp]: "length (copy_loop n at from src d) = length d"
  by (simp add: copy_loop_def)

lemma copy_loop_eq:
  assumes "at + n \<le> length d" "from + n \<le> length src"
  shows "copy_loop n at from src d = take at d @ take n (drop from src) @ drop (at + n) d"
  using assms
proof (induction n)
  case (Suc n)
  then have "copy_loop (Suc n) at from src d =
      (take at d @ take n (drop from src) @ drop (at + n) d)[at + n := src ! (from + n)]"
    by (simp add: copy_loop_def)
  also have "\<dots> = take at d @ (take n (drop from src) @ [src ! (from + n)]) @ drop (Suc (at + n)) d"
    using Suc.prems by (intro upd_middle) auto
  also have "take n (drop from src) @ [src ! (from + n)] = take (Suc n) (drop from src)"
    using Suc.prems by (simp add: take_Suc_conv_app_nth)
  finally show ?case by simp
qed (simp add: copy_loop_def)

lemma c_scan_eq: "c_scan k s = min k (length (takeWhile (\<lambda>c. c \<noteq> nul) s))"
  by (induction k s rule: c_scan.induct) auto

subsection \<open>The invariant and the value\<close>

definition sstr_ok :: "sstr \<Rightarrow> bool" where
  "sstr_ok s \<longleftrightarrow> slen s \<le> cap s \<and> 1 \<le> cap s \<and> cap s \<le> 255"

definition stext :: "sstr \<Rightarrow> string" where
  "stext s = take (slen s) (sdata s)"

lemma to_byte_small [simp]: "n \<le> 255 \<Longrightarrow> to_byte n = n"
  by (simp add: to_byte_def)

lemma length_stext [simp]: "sstr_ok s \<Longrightarrow> length (stext s) = slen s"
  by (simp add: stext_def sstr_ok_def)

lemma nth_stext [simp]: "i < slen s \<Longrightarrow> stext s ! i = sdata s ! i"
  by (simp add: stext_def)

lemma cap_zero [simp]: "cap (sstr_zero n) = n"
  by (simp add: sstr_zero_def)

lemma sstr_filled_facts:
  assumes "n \<le> cp" "n \<le> length src" "1 \<le> cp" "cp \<le> 255"
  shows "stext (sstr_filled cp n src) = take n src"
    and "sstr_ok (sstr_filled cp n src)" and "cap (sstr_filled cp n src) = cp"
  using assms by (auto simp: sstr_filled_def stext_def sstr_ok_def copy_loop_eq)

lemma sstr_of_sstr_facts:
  assumes "sstr_ok s" "1 \<le> cp" "cp \<le> 255"
  shows "stext (sstr_of_sstr cp s) = take cp (stext s)"
    and "sstr_ok (sstr_of_sstr cp s)" and "cap (sstr_of_sstr cp s) = cp"
proof -
  have "sstr_of_sstr cp s = sstr_filled cp (min cp (slen s)) (sdata s)"
    by (simp add: sstr_of_sstr_def min_def)
  then show "stext (sstr_of_sstr cp s) = take cp (stext s)"
    "sstr_ok (sstr_of_sstr cp s)" "cap (sstr_of_sstr cp s) = cp"
    using assms sstr_filled_facts [of "min cp (slen s)" cp "sdata s"]
    by (auto simp: sstr_ok_def stext_def)
qed

lemma sstr_of_cstr_facts:
  assumes "1 \<le> cp" "cp \<le> 255"
  shows "stext (sstr_of_cstr cp (Some m)) = take cp (takeWhile (\<lambda>c. c \<noteq> nul) m)"
    and "sstr_ok (sstr_of_cstr cp s)" and "cap (sstr_of_cstr cp s) = cp"
proof -
  have n: "c_scan cp m \<le> cp" "c_scan cp m \<le> length m" for m
    using length_takeWhile_le [of "\<lambda>c. c \<noteq> nul" m] by (auto simp: c_scan_eq)
  have "take (c_scan cp m) m = take cp (take (length (takeWhile (\<lambda>c. c \<noteq> nul) m)) m)"
    by (simp add: c_scan_eq)
  also have "take (length (takeWhile (\<lambda>c. c \<noteq> nul) m)) m = takeWhile (\<lambda>c. c \<noteq> nul) m"
    by (metis takeWhile_eq_take)
  finally have "take (c_scan cp m) m = take cp (takeWhile (\<lambda>c. c \<noteq> nul) m)" .
  then show "stext (sstr_of_cstr cp (Some m)) = take cp (takeWhile (\<lambda>c. c \<noteq> nul) m)"
    using sstr_filled_facts(1) [OF n assms] by (simp add: sstr_of_cstr_def)
  show "sstr_ok (sstr_of_cstr cp s)" "cap (sstr_of_cstr cp s) = cp"
    using sstr_filled_facts(2,3) [OF n assms] sstr_filled_facts(2,3) [of 0 cp "[]"] assms
    by (auto simp: sstr_of_cstr_def split: option.splits)
qed

lemma sstr_of_char_facts:
  assumes "1 \<le> cp" "cp \<le> 255"
  shows "stext (sstr_of_char cp c) = [c]" and "sstr_ok (sstr_of_char cp c)"
    and "cap (sstr_of_char cp c) = cp"
  using assms by (cases cp; auto simp: sstr_of_char_def stext_def sstr_ok_def sstr_zero_def)+

lemma sstr_literal_facts:
  assumes "1 \<le> cp" "cp \<le> 255"
  shows "stext (sstr_literal cp cs) = take cp cs" and "sstr_ok (sstr_literal cp cs)"
    and "cap (sstr_literal cp cs) = cp"
proof -
  have "sstr_literal cp cs = sstr_filled cp (min (length cs) cp) cs"
    by (simp add: sstr_literal_def min_def)
  then show "stext (sstr_literal cp cs) = take cp cs"
    "sstr_ok (sstr_literal cp cs)" "cap (sstr_literal cp cs) = cp"
    using assms sstr_filled_facts [of "min (length cs) cp" cp cs]
    by (auto simp: take_all_iff min_def split: if_splits)
qed

subsection \<open>Reading a source\<close>

text \<open>
  \<open>tp2cc_string_length\<close> and \<open>tp2cc_string_bytes\<close>, the interface through which generic
  operations read a string of any kind.
\<close>

locale char_source =
  fixes src_ok :: "'s \<Rightarrow> bool" and src_len :: "'s \<Rightarrow> nat" and src_bytes :: "'s \<Rightarrow> string"
    and src_text :: "'s \<Rightarrow> string"
  assumes text_prefix: "src_ok s \<Longrightarrow> src_text s = take (src_len s) (src_bytes s)"
    and len_bytes: "src_ok s \<Longrightarrow> src_len s \<le> length (src_bytes s)"
begin

lemma length_text: "src_ok s \<Longrightarrow> length (src_text s) = src_len s"
  by (simp add: text_prefix len_bytes)

lemma nth_text: "src_ok s \<Longrightarrow> i < src_len s \<Longrightarrow> src_bytes s ! i = src_text s ! i"
  by (simp add: text_prefix)

lemma assign_facts:
  assumes "src_ok s" "sstr_ok dest"
  shows "stext (sstr_assign dest (src_len s) (src_bytes s)) = take (cap dest) (src_text s)"
    and "sstr_ok (sstr_assign dest (src_len s) (src_bytes s))"
    and "cap (sstr_assign dest (src_len s) (src_bytes s)) = cap dest"
  using assms len_bytes [of s] text_prefix [of s]
  by (auto simp: sstr_assign_def Let_def stext_def sstr_ok_def copy_loop_eq min.commute)

lemma pr_assign_facts:
  assumes "src_ok s" "cp \<le> 255" "min (src_len s) cp < length storage"
  shows "\<exists>st. pr_assign cp storage (src_len s) (src_bytes s) = Some st \<and> length st = length storage \<and>
    pv_size (Some st) = min (src_len s) cp \<and> take (pv_size (Some st)) (pv_bytes (Some st)) = take cp (src_text s)"
proof -
  let ?n = "min (src_len s) cp"
  obtain b m where st: "storage = b # m" using assms(3) by (cases storage) auto
  have "copy_loop ?n 1 0 (src_bytes s) storage = b # take ?n (src_bytes s) @ drop ?n m"
    using assms(3) len_bytes [OF assms(1)] by (subst copy_loop_eq) (auto simp: st)
  then show ?thesis using assms len_bytes [of s] text_prefix [of s]
    by (auto simp: pr_assign_def pr_fill_def pv_size_def pv_bytes_def code_char_of min.commute st)
qed

end

interpretation short: char_source sstr_ok slen sdata stext
  by unfold_locales (auto simp: sstr_ok_def stext_def)

text \<open>A live prefix is readable when its length byte does not point past the allocated bytes.\<close>

definition sptr_ok :: "sptr \<Rightarrow> bool" where
  "sptr_ok p \<longleftrightarrow> (case p of None \<Rightarrow> True | Some m \<Rightarrow> m \<noteq> [] \<and> code (m ! 0) < length m)"

definition sptr_text :: "sptr \<Rightarrow> string" where
  "sptr_text p = take (pv_size p) (pv_bytes p)"

interpretation prefix: char_source sptr_ok pv_size pv_bytes sptr_text
  by unfold_locales (auto simp: sptr_ok_def sptr_text_def pv_size_def pv_bytes_def split: option.splits)

lemma pv_to_sstr_facts:
  assumes "sptr_ok p" "1 \<le> cp" "cp \<le> 255"
  shows "stext (pv_to_sstr cp p) = take cp (sptr_text p)"
    and "sstr_ok (pv_to_sstr cp p)" and "cap (pv_to_sstr cp p) = cp"
  using assms sstr_filled_facts [of "min (pv_size p) cp" cp "pv_bytes p"] prefix.len_bytes [of p]
  by (auto simp: pv_to_sstr_def sptr_text_def min.commute)

subsection \<open>Order\<close>

text \<open>The value order is the lexicographic one on character codes.\<close>

definition text_less :: "string \<Rightarrow> string \<Rightarrow> bool" where
  "text_less s t \<longleftrightarrow> ord_class.lexordp (map code s) (map code t)"

lemma if_min: "(if a < b then a else b) = min a (b :: nat)"
  by simp

lemma less_loop_Suc: "less_loop (c # a) (d # b) (map Suc is) = less_loop a b is"
  by (induction "is") auto

lemma less_loop_take:
  assumes "n = min (length a) (length b)"
  shows "less_loop a b [0..<n] =
    (if take n a = take n b then None else Some (text_less a b))"
  using assms
proof (induction n arbitrary: a b)
  case (Suc n)
  then obtain c a' d b' where ab: "a = c # a'" "b = d # b'"
    by (cases a; cases b) auto
  with Suc.prems have n: "n = min (length a') (length b')" by simp
  have "[0..<Suc n] = 0 # map Suc [0..<n]" by (simp add: map_Suc_upt upt_conv_Cons)
  then show ?case using Suc.IH [OF n]
    by (auto simp: ab less_loop_Suc text_less_def code_eq_iff simp del: upt_Suc)
qed simp

lemma text_less_prefix:
  assumes "n = min (length a) (length b)" "take n a = take n b"
  shows "text_less a b \<longleftrightarrow> length a < length b"
  using assms
proof (induction n arbitrary: a b)
  case 0
  then show ?case by (cases a; cases b) (auto simp: text_less_def)
next
  case (Suc n)
  then obtain c a' d b' where "a = c # a'" "b = d # b'" by (cases a; cases b) auto
  with Suc.prems have ab: "a = c # a'" "b = c # b'" by auto
  with Suc.prems have "n = min (length a') (length b')" by simp
  with Suc.IH [of a' b'] Suc.prems(2) show ?case by (simp add: ab text_less_def)
qed

lemma text_less_linear: "text_less s t \<or> s = t \<or> text_less t s"
proof -
  have "inj code" by (auto intro: injI simp: code_eq_iff)
  then show ?thesis
    using lexordp_linear [of "map code s" "map code t"] by (auto simp: text_less_def inj_map_eq_map)
qed

lemma text_less_irrefl: "\<not> text_less s s"
  by (simp add: text_less_def lexordp_irreflexive')

lemma text_less_asym: "text_less s t \<Longrightarrow> \<not> text_less t s"
  by (auto simp: text_less_def dest: lexordp_antisym)

lemma less_loop_nth:
  assumes "n \<le> length a'" "n \<le> length b'" "\<And>i. i < n \<Longrightarrow> a ! i = a' ! i \<and> b ! i = b' ! i"
  shows "less_loop a b [0..<n] = less_loop a' b' [0..<n]"
proof -
  have "(\<forall>i \<in> set is. a ! i = a' ! i \<and> b ! i = b' ! i) \<Longrightarrow> less_loop a b is = less_loop a' b' is" for "is"
    by (induction "is") auto
  with assms(3) show ?thesis by simp
qed

text \<open>Both comparisons, over the values of their operands.\<close>

lemma less_loop_values:
  assumes "a_len \<le> length a" "b_len \<le> length b"
  shows "less_loop a b [0..<min a_len b_len] =
    (if take (min a_len b_len) a = take (min a_len b_len) b then None
     else Some (text_less (take a_len a) (take b_len b)))"
proof -
  let ?n = "min a_len b_len"
  have "less_loop a b [0..<?n] = less_loop (take a_len a) (take b_len b) [0..<?n]"
    using assms by (intro less_loop_nth) auto
  also have "\<dots> = (if take ?n (take a_len a) = take ?n (take b_len b) then None
      else Some (text_less (take a_len a) (take b_len b)))"
    using assms by (intro less_loop_take) auto
  finally show ?thesis by (simp add: min.commute)
qed

lemma text_less_values:
  assumes "a_len \<le> length a" "b_len \<le> length b"
    and "take (min a_len b_len) a = take (min a_len b_len) b"
  shows "text_less (take a_len a) (take b_len b) \<longleftrightarrow> a_len < b_len"
  using assms text_less_prefix [of "min a_len b_len" "take a_len a" "take b_len b"]
  by (simp add: min.commute)

lemma take_eq_length:
  assumes "m \<le> length a" "n \<le> length b" "take m a = take n b"
  shows "m = n"
proof -
  from assms(3) have "length (take m a) = length (take n b)" by simp
  with assms(1,2) show ?thesis by simp
qed

lemma string_compare_eq:
  assumes "a_len \<le> length a" "b_len \<le> length b"
  shows "string_compare a_len a b_len b =
    (if text_less (take a_len a) (take b_len b) then - 1
     else if take a_len a = take b_len b then 0 else 1)"
proof (cases "take (min a_len b_len) a = take (min a_len b_len) b")
  case True
  have "a_len = b_len" if "take a_len a = take b_len b"
    using take_eq_length [OF assms that] .
  with True have "take a_len a = take b_len b \<longleftrightarrow> a_len = b_len" by auto
  then show ?thesis using True text_less_values [OF assms True]
    by (simp add: string_compare_def if_min less_loop_values [OF assms])
next
  case False
  have "take a_len a \<noteq> take b_len b"
  proof
    assume eq: "take a_len a = take b_len b"
    then have "a_len = b_len" by (rule take_eq_length [OF assms])
    with eq False show False by simp
  qed
  with False show ?thesis
    by (simp add: string_compare_def if_min less_loop_values [OF assms])
qed

lemma sstr_less_eq:
  assumes "sstr_ok a" "sstr_ok b"
  shows "sstr_less a b \<longleftrightarrow> text_less (stext a) (stext b)"
proof -
  have len: "slen a \<le> cap a" "slen b \<le> cap b" using assms by (auto simp: sstr_ok_def)
  show ?thesis
    using text_less_values [OF len]
    by (simp add: sstr_less_def if_min less_loop_values [OF len] stext_def)
qed

lemma sstr_eq_eq:
  assumes "sstr_ok a" "sstr_ok b"
  shows "sstr_eq a b \<longleftrightarrow> stext a = stext b"
  using assms by (auto simp: sstr_eq_def list_all_iff list_eq_iff_nth_eq)

subsection \<open>The operations\<close>

lemma sstr_setlength_facts:
  assumes "sstr_ok s"
  shows "stext (sstr_setlength s n) =
      take (nat n) (stext s) @ replicate (min (nat n) (cap s) - slen s) nul"
    and "sstr_ok (sstr_setlength s n)" and "cap (sstr_setlength s n) = cap s"
proof -
  let ?n = "min (nat n) (cap s)"
  have n: "(if n < 0 then 0 else if int (cap s) < n then cap s else nat n) = ?n" by auto
  have ok: "slen s \<le> cap s" "1 \<le> cap s" "cap s \<le> 255" using assms by (auto simp: sstr_ok_def)
  show "sstr_ok (sstr_setlength s n)" "cap (sstr_setlength s n) = cap s"
    using ok unfolding sstr_setlength_def n Let_def sstr_ok_def by auto
  show "stext (sstr_setlength s n) = take (nat n) (stext s) @ replicate (?n - slen s) nul"
  proof (cases "slen s \<le> ?n")
    case True
    then show ?thesis using ok unfolding sstr_setlength_def n Let_def stext_def
      by (subst fill_loop) (auto simp: min_def)
  next
    case False
    then show ?thesis using ok unfolding sstr_setlength_def n Let_def stext_def by auto
  qed
qed

lemma sstr_setstring_facts:
  assumes "sstr_ok s" "nat len \<le> length m"
  shows "stext (sstr_setstring s (Some m) len) = take (min (nat len) (cap s)) m"
    and "sstr_ok (sstr_setstring s (Some m) len)" and "cap (sstr_setstring s (Some m) len) = cap s"
proof -
  have n: "setstring_length len (cap s) = min (nat len) (cap s)" by (auto simp: setstring_length_def)
  show "stext (sstr_setstring s (Some m) len) = take (min (nat len) (cap s)) m"
    "sstr_ok (sstr_setstring s (Some m) len)" "cap (sstr_setstring s (Some m) len) = cap s"
    using assms unfolding sstr_setstring_def n Let_def sstr_ok_def stext_def
    by (auto simp: copy_loop_eq)
qed

lemma concat_cap_eq: "concat_cap n m = min 255 (n + m)"
  by (simp add: concat_cap_def)

lemma sstr_append_eq:
  assumes "sstr_ok a" "sstr_ok b"
  defines "r \<equiv> min 255 (cap a + cap b)"
  defines "k \<equiv> min (slen b) (r - slen a)"
  shows "sstr_append a b = \<lparr>slen = slen a + k,
    sdata = stext a @ take k (sdata b) @ replicate (r - (slen a + k)) nul\<rparr>"
proof -
  have ok: "slen a \<le> cap a" "cap a \<le> 255" "slen b \<le> cap b" "1 \<le> cap b"
    using assms(1,2) by (auto simp: sstr_ok_def)
  then have r: "slen a \<le> r" "r \<le> 255" "k \<le> cap b" "slen a + k \<le> r"
    by (auto simp: r_def k_def)
  then have a: "min (slen a) r = slen a" by simp
  have one: "copy_loop (slen a) 0 0 (sdata a) (sdata (sstr_zero r)) =
      stext a @ replicate (r - slen a) nul"
    using ok r by (subst copy_loop_eq) (auto simp: stext_def sstr_zero_def)
  have two: "copy_loop k (slen a) 0 (sdata b) (stext a @ replicate (r - slen a) nul) =
      stext a @ take k (sdata b) @ replicate (r - (slen a + k)) nul"
    using ok r assms(1) by (subst copy_loop_eq) auto
  have l: "(if r < slen a + slen b then r else slen a + slen b) = slen a + k"
    using r by (auto simp: k_def)
  have "sstr_append a b = \<lparr>slen = to_byte (slen a + k),
      sdata = copy_loop k (slen a) 0 (sdata b) (stext a @ replicate (r - slen a) nul)\<rparr>"
    unfolding sstr_append_def concat_cap_eq Let_def r_def [symmetric] k_def [symmetric] a l one ..
  also have "to_byte (slen a + k) = slen a + k" using r by simp
  finally show ?thesis unfolding two .
qed

lemma sstr_append_facts:
  assumes "sstr_ok a" "sstr_ok b"
  shows "stext (sstr_append a b) = take 255 (stext a @ stext b)"
    and "sstr_ok (sstr_append a b)" and "cap (sstr_append a b) = min 255 (cap a + cap b)"
proof -
  have ok: "slen a \<le> cap a" "1 \<le> cap a" "cap a \<le> 255" "slen b \<le> cap b" "cap b \<le> 255"
    using assms by (auto simp: sstr_ok_def)
  note eq = sstr_append_eq [OF assms]
  show cp: "cap (sstr_append a b) = min 255 (cap a + cap b)"
    unfolding eq using ok assms by auto
  show "sstr_ok (sstr_append a b)" unfolding sstr_ok_def cp unfolding eq using ok by auto
  have "stext (sstr_append a b) = stext a @ take (min (slen b) (min 255 (cap a + cap b) - slen a)) (sdata b)"
    unfolding eq using ok assms by (simp add: stext_def [of "sstr.make _ _"] stext_def)
  also have "\<dots> = take 255 (stext a @ stext b)"
    using ok assms by (auto simp: stext_def min_def)
  finally show "stext (sstr_append a b) = take 255 (stext a @ stext b)" .
qed

lemma sstr_copy_eq:
  fixes start count :: int
  assumes "sstr_ok s"
  defines "st \<equiv> nat (max 1 start - 1)"
  defines "k \<equiv> min (nat count) (slen s - st)"
  shows "sstr_copy s start count =
    \<lparr>slen = k, sdata = take k (drop st (sdata s)) @ replicate (255 - k) nul\<rparr>"
proof -
  let ?st = "if start < 1 then 1 else start"
  let ?av = "if int (slen s) - (?st - 1) < 0 then 0 else int (slen s) - (?st - 1)"
  let ?c = "if ?av < count then ?av else count"
  have st: "nat (?st - 1) = st" by (auto simp: st_def)
  then have "?av = int (slen s - st)" by auto
  then have k: "nat (if ?c < 0 then 0 else ?c) = k" unfolding k_def by auto
  have ok: "slen s \<le> cap s" "cap s \<le> 255" using assms by (auto simp: sstr_ok_def)
  then have le: "k \<le> 255" "st + k \<le> cap s \<or> k = 0" by (auto simp: k_def)
  have "sstr_copy s start count =
      \<lparr>slen = to_byte k, sdata = copy_loop k 0 st (sdata s) (sdata (sstr_zero 255))\<rparr>"
    unfolding sstr_copy_def Let_def k st ..
  also have "to_byte k = k" using le by simp
  also have "copy_loop k 0 st (sdata s) (sdata (sstr_zero 255)) =
      take k (drop st (sdata s)) @ replicate (255 - k) nul"
  proof (cases "k = 0")
    case True
    then show ?thesis by (simp add: copy_loop_def sstr_zero_def)
  next
    case False
    with le show ?thesis by (simp add: copy_loop_eq sstr_zero_def)
  qed
  finally show ?thesis .
qed

lemma sstr_copy_facts:
  assumes "sstr_ok s"
  shows "stext (sstr_copy s start count) =
      take (nat count) (drop (nat (max 1 start - 1)) (stext s))"
    and "sstr_ok (sstr_copy s start count)" and "cap (sstr_copy s start count) = 255"
proof -
  have ok: "slen s \<le> cap s" "cap s \<le> 255" using assms by (auto simp: sstr_ok_def)
  obtain st where st: "st = nat (max 1 start - 1)" by simp
  obtain k where k: "k = min (nat count) (slen s - st)" by simp
  have eq: "sstr_copy s start count =
      \<lparr>slen = k, sdata = take k (drop st (sdata s)) @ replicate (255 - k) nul\<rparr>"
    unfolding k st by (rule sstr_copy_eq [OF assms])
  have len: "length (take k (drop st (sdata s))) = k" "k \<le> 255" using ok by (auto simp: k)
  show c: "cap (sstr_copy s start count) = 255" unfolding eq using len by simp
  show "sstr_ok (sstr_copy s start count)" unfolding sstr_ok_def c unfolding eq using len by simp
  have "stext (sstr_copy s start count) = take k (drop st (sdata s))"
    unfolding eq stext_def using len by simp
  also have "\<dots> = take (nat count) (drop st (stext s))"
    by (simp add: k stext_def drop_take min.commute)
  finally show "stext (sstr_copy s start count) = take (nat count) (drop (nat (max 1 start - 1)) (stext s))"
    by (simp add: st)
qed

lemma sstr_delete_facts:
  assumes "sstr_ok s"
  shows "stext (sstr_delete s start count) =
      (if start < 1 then stext s
       else take (nat (start - 1)) (stext s) @ drop (nat (start - 1) + nat count) (stext s))"
    and "sstr_ok (sstr_delete s start count)" and "cap (sstr_delete s start count) = cap s"
proof -
  have ok: "slen s \<le> cap s" "cap s \<le> 255" using assms by (auto simp: sstr_ok_def)
  let ?new = "if start < 1 then stext s
       else take (nat (start - 1)) (stext s) @ drop (nat (start - 1) + nat count) (stext s)"
  have "stext (sstr_delete s start count) = ?new \<and> sstr_ok (sstr_delete s start count) \<and>
    cap (sstr_delete s start count) = cap s"
  proof (cases "start < 1 \<or> int (slen s) < start \<or> count \<le> 0")
    case True
    then have "sstr_delete s start count = s" by (simp add: sstr_delete_def)
    then show ?thesis using True assms by (auto simp: length_stext)
  next
    case False
    have "0 \<le> start - 1" using False by simp
    then obtain p where "start - 1 = int p" by (rule nonneg_int_cases)
    then have p: "start = int p + 1" by simp
    obtain c where c: "count = int c" "0 < c" using False by (metis linorder_not_le zero_less_imp_eq_int)
    have pl: "p < slen s" using False by (simp add: p)
    show ?thesis
    proof (cases "slen s < p + c")
      case True
      then have "sstr_delete s start count = s\<lparr>slen := p\<rparr>"
        using False ok pl by (simp add: sstr_delete_def p c)
      moreover have "drop (p + c) (stext s) = []" using True assms by simp
      ultimately show ?thesis using assms pl by (auto simp: p c stext_def sstr_ok_def min_def)
    next
      case False': False
      let ?t = "slen s - p - c"
      have t: "nat (int (slen s) - (start - 1) - count) = ?t" using False' by (simp add: p c)
      have l: "slen s - c = p + ?t" using False' by simp
      have "sstr_delete s start count = \<lparr>slen = p + ?t,
          sdata = take p (sdata s) @ take ?t (drop (p + c) (sdata s)) @ drop (p + ?t) (sdata s)\<rparr>"
        unfolding sstr_delete_def Let_def t using False False' ok c(2) pl l
        by (simp add: p c(1) copy_down_nth nat_add_distrib)
      moreover have "take ?t (drop (p + c) (sdata s)) = drop (p + c) (stext s)"
        using False' by (simp add: stext_def drop_take add.commute)
      ultimately show ?thesis using assms ok pl False'
        by (auto simp: p c stext_def sstr_ok_def)
    qed
  qed
  then show "stext (sstr_delete s start count) = ?new" "sstr_ok (sstr_delete s start count)"
    "cap (sstr_delete s start count) = cap s" by blast+
qed

lemma sstr_insert_eq:
  fixes ps :: int
  assumes "sstr_ok src" "sstr_ok dest"
  defines "p \<equiv> min (nat (ps - 1)) (slen dest)"
  defines "need \<equiv> min (slen dest + slen src) (cap dest)"
  shows "sstr_insert src dest ps = \<lparr>slen = need, sdata =
    copy_loop (min (slen src) (cap dest - p)) p 0 (sdata src)
      (fold (\<lambda>i d. d[i := d ! (i - (need - slen dest))]) (rev [p + slen src..<need]) (sdata dest))\<rparr>"
proof -
  let ?ps = "if int (slen dest) + 1 < (if ps < 1 then 1 else ps) then int (slen dest) + 1
    else (if ps < 1 then 1 else ps)"
  have p: "nat (?ps - 1) = p" by (auto simp: p_def)
  have n: "(if cap dest < slen dest + slen src then cap dest else slen dest + slen src) = need"
    by (auto simp: need_def)
  have "to_byte need = need" using assms(2) by (auto simp: need_def sstr_ok_def)
  then show ?thesis unfolding sstr_insert_def Let_def p n by simp
qed

lemma sstr_insert_ok:
  assumes "sstr_ok src" "sstr_ok dest"
  shows "sstr_ok (sstr_insert src dest ps)" and "cap (sstr_insert src dest ps) = cap dest"
  using assms(2) by (auto simp: sstr_insert_eq [OF assms] sstr_ok_def)

text \<open>
  The value of an insertion. When the result does not fit, as many characters after the position
  are lost as exceed the free room, and what is left is cut at the capacity.
\<close>

lemma sstr_insert_text:
  assumes "sstr_ok src" "sstr_ok dest"
  shows "stext (sstr_insert src dest ps) = take (cap dest)
    (take (nat (ps - 1)) (stext dest) @ stext src @
     drop (nat (ps - 1) + (slen src - (cap dest - slen dest))) (stext dest))"
proof -
  obtain p where p: "p = min (nat (ps - 1)) (slen dest)" by simp
  obtain need where need: "need = min (slen dest + slen src) (cap dest)" by simp
  let ?d = "sdata dest" and ?sh = "need - slen dest" and ?t = "stext dest"
  have ok: "slen src \<le> cap src" "slen dest \<le> cap dest" "p \<le> slen dest" "need \<le> cap dest"
    "slen dest \<le> need" "need \<le> slen dest + slen src"
    using assms by (auto simp: sstr_ok_def p need)
  have eq: "sstr_insert src dest ps = \<lparr>slen = need, sdata =
    copy_loop (min (slen src) (cap dest - p)) p 0 (sdata src)
      (fold (\<lambda>i d. d[i := d ! (i - ?sh)]) (rev [p + slen src..<need]) ?d)\<rparr>"
    using sstr_insert_eq [OF assms, of ps] by (simp add: p need)
  have pre: "take p ?d = take p ?t" using ok by (simp add: stext_def min_def)
  have "stext (sstr_insert src dest ps) =
    take (cap dest) (take p ?t @ stext src @ drop (p + (slen src - (cap dest - slen dest))) ?t)"
  proof (cases "p + slen src \<le> need")
    case True
    have sh: "p + slen src - ?sh = p + (slen src - (cap dest - slen dest))"
      using ok by (auto simp: need)
    have loop: "fold (\<lambda>i d. d[i := d ! (i - ?sh)]) (rev [p + slen src..<need]) ?d =
        take (p + slen src) ?d @ take (need - (p + slen src)) (drop (p + slen src - ?sh) ?d) @ drop need ?d"
      using ok True by (intro shift_up_nth) auto
    have k: "min (slen src) (cap dest - p) = slen src" using ok True by simp
    have tail: "take (need - (p + slen src)) (drop (p + slen src - ?sh) ?d) =
        drop (p + slen src - ?sh) ?t"
      using ok True by (simp add: stext_def drop_take)
    have "stext (sstr_insert src dest ps) =
        take p ?d @ take (slen src) (sdata src) @ drop (p + slen src - ?sh) ?t"
      unfolding eq k loop tail using ok True by (simp add: stext_def copy_loop_eq)
    then have v: "stext (sstr_insert src dest ps) =
        take p ?t @ stext src @ drop (p + (slen src - (cap dest - slen dest))) ?t"
      unfolding sh pre stext_def [of src] .
    have "length (take p ?t @ stext src @ drop (p + slen src - ?sh) ?t) \<le> cap dest"
      using ok True by (simp add: stext_def)
    then show ?thesis unfolding v sh by (rule take_all [symmetric])
  next
    case False
    then have n: "need = cap dest" using ok by (simp add: need)
    have k: "min (slen src) (cap dest - p) = cap dest - p" using False n by simp
    have "stext (sstr_insert src dest ps) = take p ?d @ take (cap dest - p) (sdata src)"
      unfolding eq k using ok False n by (simp add: stext_def copy_loop_eq)
    moreover have "take (cap dest - p) (sdata src) = take (cap dest - p) (stext src)"
      using False n by (simp add: stext_def)
    moreover have "cap dest - p \<le> length (stext src)" using False n ok by (simp add: stext_def)
    ultimately show ?thesis using ok unfolding pre by (simp add: stext_def [of dest])
  qed
  moreover have "take p ?t = take (nat (ps - 1)) ?t" "drop (p + x) ?t = drop (nat (ps - 1) + x) ?t" for x
    using ok by (auto simp: p min_def stext_def)
  ultimately show ?thesis by simp
qed

lemma sstr_insert_fits:
  assumes "sstr_ok src" "sstr_ok dest" "slen dest + slen src \<le> cap dest"
  shows "stext (sstr_insert src dest ps) =
    take (nat (ps - 1)) (stext dest) @ stext src @ drop (nat (ps - 1)) (stext dest)"
proof -
  have "length (stext dest) = slen dest" "length (stext src) = slen src"
    using assms(1,2) by (auto simp: stext_def sstr_ok_def)
  then have "length (take (nat (ps - 1)) (stext dest) @ stext src @ drop (nat (ps - 1)) (stext dest)) \<le> cap dest"
    using assms(3) by simp
  from take_all [OF this] show ?thesis using assms(3) unfolding sstr_insert_text [OF assms(1,2)] by simp
qed

text \<open>
  When the result does not fit, the tail is not shifted by the length of the source but only by
  the free room, so that the source overwrites characters instead of pushing them out.
\<close>

lemma sstr_insert_overwrites:
  "stext (sstr_insert (sstr_literal 5 ''XY'') (sstr_literal 5 ''abcde'') 1) = ''XYcde''"
  by code_simp

text \<open>Inserting a variable into itself: \<open>aabb\<close> is expected.\<close>

lemma sstr_insert_self_overlaps:
  "stext (sstr_insert_self (sstr_literal 4 ''ab'') 2) = ''aaab''"
  "stext (sstr_insert (sstr_literal 4 ''ab'') (sstr_literal 4 ''ab'') 2) = ''aabb''"
  by code_simp+

lemma sstr_case_facts:
  assumes "sstr_ok s"
  shows "stext (sstr_upcase s) = map p_upcase_char (stext s)" "sstr_ok (sstr_upcase s)"
    and "cap (sstr_upcase s) = cap s"
    and "stext (sstr_lowercase s) = map p_lowercase_char (stext s)" "sstr_ok (sstr_lowercase s)"
    and "cap (sstr_lowercase s) = cap s"
  using assms
  by (auto simp: sstr_upcase_def sstr_lowercase_def stext_def sstr_ok_def map_loop take_map)

subsection \<open>Searching\<close>

definition occurs_at :: "string \<Rightarrow> string \<Rightarrow> nat \<Rightarrow> bool" where
  "occurs_at n h i \<longleftrightarrow> i + length n \<le> length h \<and> take (length n) (drop i h) = n"

lemma matches_occurs:
  assumes "nlen \<le> length needle" "hl \<le> length hay" "i + nlen \<le> hl"
  shows "matches_at needle nlen hay i \<longleftrightarrow> occurs_at (take nlen needle) (take hl hay) i"
  using assms by (auto simp: matches_at_def occurs_at_def list_all_iff list_eq_iff_nth_eq min_def)

lemma pos_loop_eq:
  assumes "nlen \<le> length needle" "hl \<le> length hay"
  shows "pos_loop needle nlen hay hl = Suc i \<longleftrightarrow>
      occurs_at (take nlen needle) (take hl hay) i \<and>
      (\<forall>j < i. \<not> occurs_at (take nlen needle) (take hl hay) j)"
    and "pos_loop needle nlen hay hl = 0 \<longleftrightarrow>
      (\<forall>j. \<not> occurs_at (take nlen needle) (take hl hay) j)"
proof -
  let ?occ = "occurs_at (take nlen needle) (take hl hay)"
  have le: "?occ j \<Longrightarrow> j + nlen \<le> hl" for j using assms by (simp add: occurs_at_def)
  then have m: "matches_at needle nlen hay j \<longleftrightarrow> ?occ j" if "j < Suc hl - nlen" for j
    using matches_occurs [OF assms, of j] that by simp
  have occ: "?occ j \<Longrightarrow> j < Suc hl - nlen" for j using le [of j] by simp
  show "pos_loop needle nlen hay hl = Suc i \<longleftrightarrow> ?occ i \<and> (\<forall>j < i. \<not> ?occ j)"
    "pos_loop needle nlen hay hl = 0 \<longleftrightarrow> (\<forall>j. \<not> ?occ j)"
    unfolding pos_loop_def
    using m occ by (auto simp: find_Some_iff find_None_iff simp del: upt_Suc split: option.splits)
      (metis m occ order_less_trans nat_neq_iff)+
qed

lemma sstr_put_facts:
  assumes "sstr_ok s" "sstr_put s i c = Some t" "i \<noteq> 0 \<or> code c \<le> cap s"
  shows "sstr_ok t" and "cap t = cap s" and "sstr_at t i = Some c"
    and "j \<noteq> i \<Longrightarrow> sstr_at t j = sstr_at s j"
  using assms by (auto simp: sstr_put_def sstr_at_def sstr_ok_def nth_list_update split: if_splits)

lemma sstr_put_ok_iff:
  "sstr_ok s \<Longrightarrow> sstr_put s i c = Some t \<Longrightarrow> sstr_ok t \<longleftrightarrow> i \<noteq> 0 \<or> code c \<le> cap s"
  by (auto simp: sstr_put_def sstr_ok_def split: if_splits)

lemmas sstr_facts = sstr_of_sstr_facts sstr_of_cstr_facts sstr_of_char_facts sstr_literal_facts
  sstr_append_facts sstr_copy_facts sstr_delete_facts sstr_setlength_facts sstr_setstring_facts
  sstr_case_facts sstr_insert_ok sstr_insert_fits

subsection \<open>Properties\<close>

text \<open>
  C27. Type invariant. The length byte of a short string never exceeds its capacity: every
  constructor and every operation returns a short string of the promised capacity whose length
  fits, from short strings whose lengths fit, for any position, count and new length, negative
  and oversized ones included. The one exception is stated with it: writing a character through
  index 0 sets the length byte, and keeps the invariant exactly when the new length fits.
\<close>

theorem short_string_invariant:
  assumes "sstr_ok a" "sstr_ok b" "1 \<le> cp" "cp \<le> 255"
  shows "sstr_ok (sstr_of_cstr cp s) \<and> cap (sstr_of_cstr cp s) = cp \<and>
    sstr_ok (sstr_of_char cp c) \<and> sstr_ok (sstr_literal cp cs) \<and>
    sstr_ok (sstr_of_sstr cp a) \<and> cap (sstr_of_sstr cp a) = cp \<and>
    sstr_ok (sstr_assign a (slen b) (sdata b)) \<and> cap (sstr_assign a (slen b) (sdata b)) = cap a \<and>
    sstr_ok (sstr_append a b) \<and> sstr_ok (sstr_copy a i n) \<and>
    sstr_ok (sstr_delete a i n) \<and> cap (sstr_delete a i n) = cap a \<and>
    sstr_ok (sstr_insert b a i) \<and> cap (sstr_insert b a i) = cap a \<and>
    sstr_ok (sstr_setlength a n) \<and> cap (sstr_setlength a n) = cap a \<and>
    sstr_ok (sstr_upcase a) \<and> sstr_ok (sstr_lowercase a) \<and>
    (sstr_put a i c = Some t \<longrightarrow> (sstr_ok t \<longleftrightarrow> i \<noteq> 0 \<or> code c \<le> cap a))"
  using assms short.assign_facts [of b a] sstr_put_ok_iff [OF assms(1), of i c t]
  by (simp add: sstr_facts)

text \<open>The invariant at a string with capacity 5 and one with capacity 2.\<close>

theorem short_string_invariant_witness:
  "sstr_ok (sstr_insert (sstr_literal 2 ''XY'') (sstr_literal 5 ''abcde'') 9)"
proof -
  have "sstr_ok (sstr_literal 5 ''abcde'')" "sstr_ok (sstr_literal 2 ''XY'')" by code_simp+
  then show ?thesis
    using short_string_invariant [of "sstr_literal 5 ''abcde''" "sstr_literal 2 ''XY''" 1] by simp
qed

text \<open>
  C26. Refinement. On the Pascal values of short strings, the byte loops compute the list
  operations they stand for: concatenation cut at 255, a substring, a deletion, a new length
  filled with NUL, case mapping, assignment cut at the capacity, lexicographic comparison and the
  position of the first occurrence. An insertion whose result fits the capacity is the insertion
  into the list; otherwise as many characters after the position are lost as exceed the free
  room, and the rest is cut at the capacity (Pascal would cut at the end only). The source and
  the destination of an insertion are different variables.
\<close>

theorem short_string_refines_lists:
  assumes "sstr_ok a" "sstr_ok b"
  shows "stext (sstr_append a b) = take 255 (stext a @ stext b) \<and>
    stext (sstr_copy a i n) = take (nat n) (drop (nat (max 1 i - 1)) (stext a)) \<and>
    stext (sstr_delete a i n) = (if i < 1 then stext a
      else take (nat (i - 1)) (stext a) @ drop (nat (i - 1) + nat n) (stext a)) \<and>
    (slen a + slen b \<le> cap a \<longrightarrow> stext (sstr_insert b a i) =
      take (nat (i - 1)) (stext a) @ stext b @ drop (nat (i - 1)) (stext a)) \<and>
    stext (sstr_insert b a i) = take (cap a) (take (nat (i - 1)) (stext a) @ stext b @
      drop (nat (i - 1) + (slen b - (cap a - slen a))) (stext a)) \<and>
    stext (sstr_setlength a n) =
      take (nat n) (stext a) @ replicate (min (nat n) (cap a) - slen a) nul \<and>
    stext (sstr_upcase a) = map p_upcase_char (stext a) \<and>
    stext (sstr_assign a (slen b) (sdata b)) = take (cap a) (stext b) \<and>
    (sstr_eq a b \<longleftrightarrow> stext a = stext b) \<and>
    (sstr_less a b \<longleftrightarrow> text_less (stext a) (stext b)) \<and>
    (pos_sstr b a = Suc k \<longleftrightarrow>
      occurs_at (stext b) (stext a) k \<and> (\<forall>j < k. \<not> occurs_at (stext b) (stext a) j)) \<and>
    (pos_sstr b a = 0 \<longleftrightarrow> (\<forall>j. \<not> occurs_at (stext b) (stext a) j))"
  using assms short.assign_facts(1) [of b a] sstr_less_eq sstr_eq_eq
    pos_loop_eq [OF short.len_bytes short.len_bytes, of b a]
    sstr_insert_text [OF assms(2,1), of i] sstr_insert_fits [OF assms(2,1), of i]
  by (simp add: sstr_facts pos_sstr_def stext_def [of b] stext_def [of a])

text \<open>The refinement at concrete strings: an insertion that fits.\<close>

theorem short_string_refines_lists_witness:
  "stext (sstr_insert (sstr_literal 3 ''XY'') (sstr_literal 9 ''abc'') 2) = ''aXYbc''"
proof -
  let ?a = "sstr_literal 9 ''abc''" and ?b = "sstr_literal 3 ''XY''"
  have ok: "sstr_ok ?a" "sstr_ok ?b" "slen ?a + slen ?b \<le> cap ?a" by code_simp+
  have "take (nat (2 - 1)) (stext ?a) @ stext ?b @ drop (nat (2 - 1)) (stext ?a) = ''aXYbc''"
    by code_simp
  with short_string_refines_lists [OF ok(1,2), of 2] ok(3) show ?thesis by simp
qed

end
