(* ===== verification/Rt_Ansi_Facts.thy ===== *)
theory Rt_Ansi_Facts
  imports Rt_Ansi Rt_Short_Facts
begin

text \<open>
  Long strings have value semantics. Although variables share blocks, no operation changes a
  block that another variable can see: every result is either a pointer that was there or a block
  allocated by the operation, so the store only grows, and what other variables point to stays.
  The values then follow a specification on lists of characters.
\<close>

subsection \<open>Invariant\<close>

text \<open>The longest string: its length and the length of its block with the final NUL are \<open>int32_t\<close>.\<close>

definition fits :: "nat \<Rightarrow> bool" where
  "fits n \<longleftrightarrow> n \<le> 2 ^ 31 - 2"

lemma fits_mono: "fits n \<Longrightarrow> m \<le> n \<Longrightarrow> fits m"
  by (simp add: fits_def)

lemma fits_small [simp]: "fits 0" "fits (Suc 0)"
  by (simp_all add: fits_def)

lemma fits_int32: "int32_result (int n + 1) = (if fits n then Some (int n + 1) else None)"
  by (auto simp: int32_result_def fits_def)

lemma fits_int32_len: "fits n \<Longrightarrow> int32_result (int n) = Some (int n)"
  by (auto simp: int32_result_def fits_def)

definition block_ok :: "ablock \<Rightarrow> bool" where
  "block_ok b \<longleftrightarrow> 0 < hdr_len b \<and> fits (hdr_len b) \<and>
     length (payload b) = hdr_len b + 1 \<and> last (payload b) = nul"

definition heap_ok :: "aheap \<Rightarrow> bool" where
  "heap_ok h \<longleftrightarrow> empty_byte h = nul \<and> list_all block_ok (blocks h)"

fun ptr_ok :: "aheap \<Rightarrow> aptr \<Rightarrow> bool" where
  "ptr_ok h (ABlk i) \<longleftrightarrow> i < length (blocks h)"
| "ptr_ok h p \<longleftrightarrow> True"

definition astr_ok :: "astr \<Rightarrow> bool" where
  "astr_ok s \<longleftrightarrow> heap_ok (fst s) \<and> ptr_ok (fst s) (snd s)"

definition a_text :: "aheap \<Rightarrow> aptr \<Rightarrow> string" where
  "a_text h p = take (a_length h p) (a_bytes h p)"

definition grows :: "aheap \<Rightarrow> aheap \<Rightarrow> bool" where
  "grows h h' \<longleftrightarrow> (\<exists>bs. blocks h' = blocks h @ bs) \<and> empty_byte h' = empty_byte h"

lemma grows_refl [simp]: "grows h h"
  by (simp add: grows_def)

lemma grows_trans: "grows h h' \<Longrightarrow> grows h' h'' \<Longrightarrow> grows h h''"
  by (auto simp: grows_def)

lemma grows_ptr: "grows h h' \<Longrightarrow> ptr_ok h p \<Longrightarrow> ptr_ok h' p"
  by (cases p) (auto simp: grows_def)

lemma grows_text: "grows h h' \<Longrightarrow> ptr_ok h p \<Longrightarrow> a_text h' p = a_text h p"
  by (cases p) (auto simp: grows_def a_text_def nth_append)

text \<open>What a non-empty pointer stands for.\<close>

lemma ok_block:
  assumes "heap_ok h" "ptr_ok h p" "\<not> is_empty_bytes p"
  shows "a_bytes h p = a_text h p @ [nul]" "a_text h p \<noteq> []" "a_length h p = length (a_text h p)"
proof -
  obtain i where p: "p = ABlk i" using assms(3) by (cases p) (auto simp: is_empty_bytes_def)
  with assms have b: "block_ok (blocks h ! i)" by (auto simp: heap_ok_def list_all_length)
  then have "payload (blocks h ! i) \<noteq> []" by (auto simp: block_ok_def)
  then have "payload (blocks h ! i) = butlast (payload (blocks h ! i)) @ [nul]"
    using b by (metis append_butlast_last_id block_ok_def)
  then show "a_bytes h p = a_text h p @ [nul]"
    using b by (simp add: p a_text_def block_ok_def butlast_conv_take)
  show "a_length h p = length (a_text h p)" "a_text h p \<noteq> []"
    using b by (auto simp: p a_text_def block_ok_def)
qed

lemma ok_empty:
  assumes "is_empty_bytes p"
  shows "a_text h p = []" "a_length h p = 0"
  using assms by (auto simp: is_empty_bytes_def a_text_def)

lemma fits_text: "heap_ok h \<Longrightarrow> ptr_ok h p \<Longrightarrow> fits (length (a_text h p))"
  by (cases p) (auto simp: a_text_def heap_ok_def list_all_length block_ok_def)

lemma length_a_text: "heap_ok h \<Longrightarrow> ptr_ok h p \<Longrightarrow> length (a_text h p) = a_length h p"
  by (cases "is_empty_bytes p") (auto simp: ok_block ok_empty)

interpretation ansi: char_source astr_ok "case_prod a_length" "case_prod a_bytes" "case_prod a_text"
proof unfold_locales
  fix s :: astr
  assume ok: "astr_ok s"
  obtain h p where s: "s = (h, p)" by (cases s)
  from ok have "length (a_text h p) = a_length h p" by (simp add: s astr_ok_def length_a_text)
  then show "case_prod a_length s \<le> length (case_prod a_bytes s)" by (simp add: s a_text_def)
  show "case_prod a_text s = take (case_prod a_length s) (case_prod a_bytes s)"
    by (simp add: s a_text_def)
qed

subsection \<open>Blocks of one's own\<close>

text \<open>The store after an operation allocated a block for the text \<open>t\<close>.\<close>

definition own :: "aheap \<Rightarrow> string \<Rightarrow> astr" where
  "own h t = (h\<lparr>blocks := blocks h @ [\<lparr>hdr_len = length t, payload = t @ [nul]\<rparr>]\<rparr>,
              ABlk (length (blocks h)))"

lemma own_bytes [simp]:
  "a_bytes (fst (own h t)) (snd (own h t)) = t @ [nul]"
  "a_length (fst (own h t)) (snd (own h t)) = length t"
  by (simp_all add: own_def)

lemma a_write_own:
  assumes "f (t @ [nul]) = u @ [nul]"
    and "length u = length t"
  shows "a_write f (own h t) = own h u"
  using assms by (simp add: own_def list_update_append)

text \<open>An operation that turns a store into a larger one and yields a text.\<close>

definition yields :: "aheap \<Rightarrow> astr \<Rightarrow> string \<Rightarrow> bool" where
  "yields h s t \<longleftrightarrow> grows h (fst s) \<and> astr_ok s \<and> a_text (fst s) (snd s) = t"

lemma own_yields: "heap_ok h \<Longrightarrow> t \<noteq> [] \<Longrightarrow> fits (length t) \<Longrightarrow> yields h (own h t) t"
  by (auto simp: yields_def own_def astr_ok_def heap_ok_def grows_def block_ok_def a_text_def)

lemma clear_yields: "heap_ok h \<Longrightarrow> yields h (h, AEmpty) []"
  by (simp add: yields_def astr_ok_def a_text_def)

lemma same_yields: "astr_ok (h, p) \<Longrightarrow> yields h (h, p) (a_text h p)"
  by (simp add: yields_def)

lemma alloc_own:
  "0 < n \<Longrightarrow> alloc_bytes h (int n) = (if fits n then Some (own h (replicate n nul)) else None)"
  by (simp add: alloc_bytes_def fits_int32 a_new_def own_def replicate_append_same)

lemma mem_put_last:
  "at + length src \<le> length t \<Longrightarrow> mem_put at src (t @ [nul]) = mem_put at src t @ [nul]"
  by (simp add: mem_put_def)

lemma length_mem_put [simp]: "at + length src \<le> length t \<Longrightarrow> length (mem_put at src t) = length t"
  by (simp add: mem_put_def)

lemma put_own:
  "at + length src \<le> length t \<Longrightarrow> a_write (mem_put at src) (own h t) = own h (mem_put at src t)"
  by (rule a_write_own) (simp_all add: mem_put_last)

subsection \<open>Members\<close>

lemma set_length_eq:
  assumes "astr_ok (h, p)"
  shows "set_length (h, p) n =
    (if n \<le> 0 then Some (h, AEmpty)
     else if fits (nat n)
     then Some (own h (take (nat n) (a_text h p) @ replicate (nat n - a_length h p) nul))
     else None)"
proof (cases "n \<le> 0")
  case False
  then obtain m where m: "n = int m" "0 < m" by (metis linorder_not_le zero_less_imp_eq_int)
  let ?k = "min (a_length h p) m"
  have len: "length (a_text h p) = a_length h p" using assms by (simp add: astr_ok_def length_a_text)
  have k: "take ?k (a_bytes h p) = take m (a_text h p)" by (simp add: a_text_def min.commute)
  have keep: "(if int (a_length h p) < n then a_length h p else nat n) = ?k" using m by auto
  have "set_length (h, p) n = (if fits m then
      Some (if 0 < ?k then a_write (mem_put 0 (take m (a_text h p))) (own h (replicate m nul))
        else own h (replicate m nul)) else None)"
    unfolding set_length_def prod.case Let_def keep k using False m alloc_own [OF m(2)] by simp
  also have "\<dots> = (if fits m then Some (own h (take m (a_text h p) @ replicate (m - a_length h p) nul))
      else None)"
  proof -
    have "m - min (a_length h p) m = m - a_length h p" by simp
    with len show ?thesis by (auto simp: put_own mem_put_def)
  qed
  finally show ?thesis using False m by simp
qed (simp add: set_length_def a_clear_def)

lemma ensure_unique_own:
  assumes "astr_ok (h, p)" "a_text h p \<noteq> []"
  shows "ensure_unique (h, p) = Some (own h (a_text h p))"
proof -
  have ne: "\<not> is_empty_bytes p" using assms(2) ok_empty(1) by blast
  have ok: "heap_ok h" "ptr_ok h p" using assms(1) by (auto simp: astr_ok_def)
  note b = ok_block [OF ok ne]
  have alloc: "alloc_bytes h (int (length (a_text h p))) =
      Some (own h (replicate (length (a_text h p)) nul))"
    using b(2) fits_text [OF ok] alloc_own [of "length (a_text h p)" h] by simp
  have "a_write (mem_put 0 (a_text h p @ [nul])) (own h (replicate (length (a_text h p)) nul)) =
      own h (a_text h p)"
    by (rule a_write_own) (simp_all add: mem_put_def)
  with ne show ?thesis by (simp add: ensure_unique_def Let_def alloc b(1,3))
qed

lemma a_put_own:
  assumes "astr_ok (h, p)" "1 \<le> i" "i \<le> int (length (a_text h p))"
  shows "a_put (h, p) i c = Some (own h ((a_text h p)[nat (i - 1) := c]))"
proof -
  have ne: "a_text h p \<noteq> []" using assms(2,3) by auto
  have i: "nat (i - 1) < length (a_text h p)" using assms(2,3) by auto
  have "a_write (\<lambda>d. d[nat (i - 1) := c]) (own h (a_text h p)) =
      own h ((a_text h p)[nat (i - 1) := c])"
    using i by (intro a_write_own) (simp_all add: list_update_append)
  then show ?thesis using assms i
    by (simp add: a_put_def Let_def ensure_unique_own [OF assms(1) ne])
qed

subsection \<open>Operations\<close>

definition pos_of :: "int \<Rightarrow> string \<Rightarrow> nat" where
  "pos_of i t = min (nat (i - 1)) (length t)"

lemma set_length_empty:
  "set_length (h, AEmpty) (int n) = (if n = 0 then Some (h, AEmpty)
    else if fits n then Some (own h (replicate n nul)) else None)"
  using alloc_own [of n h] by (simp add: set_length_def a_clear_def)

lemma concat_eq:
  assumes "a_len \<le> length a" "b_len \<le> length b" "fits (a_len + b_len)"
  shows "concat_to_astr h a_len a b_len b = Some
    (if a_len + b_len = 0 then (h, AEmpty) else own h (take a_len a @ take b_len b))"
proof (cases "a_len + b_len = 0")
  case False
  have "int32_result (int a_len + int b_len) = Some (int (a_len + b_len))"
    using fits_int32_len [OF assms(3)] by simp
  moreover have "set_length (h, AEmpty) (int (a_len + b_len)) =
      Some (own h (replicate (a_len + b_len) nul))"
    using set_length_empty [of h "a_len + b_len"] assms(3) False by auto
  ultimately show ?thesis using False assms
    by (auto simp: concat_to_astr_def Let_def put_own mem_put_def)
qed (simp add: concat_to_astr_def set_length_def a_clear_def int32_result_def)

text \<open>Two strings too long for one have no concatenation: the code's sum or its block overflows.\<close>

lemma concat_overflow:
  "\<not> fits (a_len + b_len) \<Longrightarrow> concat_to_astr h a_len a b_len b = None"
  using set_length_empty [of h "a_len + b_len"]
  by (cases "a_len + b_len = 0") (auto simp: concat_to_astr_def int32_result_def)

lemma insert_bytes_eq:
  assumes "astr_ok (h, p)" "src_len \<le> length src" "fits (length (a_text h p) + src_len)"
  defines "t \<equiv> a_text h p"
  shows "insert_bytes src_len src (h, p) i = Some
    (if src_len = 0 then (h, p)
     else own h (take (pos_of i t) t @ take src_len src @ drop (pos_of i t) t))"
proof (cases "src_len = 0")
  case False
  have len: "a_length h p = length t" using assms(1) by (simp add: t_def astr_ok_def length_a_text)
  let ?k = "pos_of i t" and ?n = "length t + src_len"
  have fit: "fits (length t)" "fits ?n" using assms(3) fits_mono by (auto simp: t_def)
  have past: "int32_result (int (length t) + 1) = Some (int (length t) + 1)"
    "int32_result (int (length t) + int src_len) = Some (int ?n)"
    using fit fits_int32 fits_int32_len [OF fit(2)] by auto
  have k: "nat ((if int (length t) + 1 < (if i < 1 then 1 else i) then int (length t) + 1
      else if i < 1 then 1 else i) - 1) = ?k" "?k \<le> length t" by (auto simp: pos_of_def)
  have s: "set_length (h, p) (int ?n) = Some (own h (t @ replicate src_len nul))"
    using False assms(1) len fit(2) by (simp add: set_length_eq t_def [symmetric] nat_add_distrib)
  have m: "a_write (mem_move (?k + src_len) ?k (length t - ?k)) (own h (t @ replicate src_len nul)) =
      own h (take (?k + src_len) (t @ replicate src_len nul) @ drop ?k t)"
    using k(2) by (intro a_write_own) (simp_all add: mem_move_def mem_put_def)
  have "a_write (mem_put ?k (take src_len src))
      (own h (take (?k + src_len) (t @ replicate src_len nul) @ drop ?k t)) =
      own h (take ?k t @ take src_len src @ drop ?k t)"
    using k(2) assms(2) by (intro a_write_own) (simp_all add: mem_put_def)
  then show ?thesis
    using False
    unfolding insert_bytes_def Let_def fst_conv snd_conv len past bind.bind_lunit k(1) s
      option.map m by simp
qed (simp add: insert_bytes_def)

lemma astr_copy_eq:
  fixes i n :: int
  assumes "astr_ok (h, p)"
  defines "u \<equiv> take (nat n) (drop (nat (max 1 i - 1)) (a_text h p))"
  shows "astr_copy (h, p) i n = Some (if u = [] then (h, AEmpty) else own h u)"
proof -
  have len: "length (a_text h p) = a_length h p" using assms(1) by (simp add: astr_ok_def length_a_text)
  let ?i = "if i < 1 then 1 else i"
  let ?av = "if int (a_length h p) - (?i - 1) < 0 then 0 else int (a_length h p) - (?i - 1)"
  let ?c = "if (if ?av < n then ?av else n) < 0 then 0 else (if ?av < n then ?av else n)"
  obtain st where st: "st = nat (max 1 i - 1)" by simp
  have i: "nat (?i - 1) = st" by (auto simp: st)
  then have av: "?av = int (a_length h p - st)" by auto
  have l: "length u = min (a_length h p - st) (nat n)" using len by (simp add: u_def st [symmetric])
  have c: "?c = int (length u)" unfolding av l by auto
  have u: "take (length u) (drop st (a_bytes h p)) = u"
    using len by (simp add: u_def st [symmetric] a_text_def drop_take min.commute)
  have fit: "fits (length u)"
    using fits_text [of h p] assms(1) by (auto simp: astr_ok_def l len intro: fits_mono)
  have "astr_copy (h, p) i n = map_option
      (\<lambda>r. if 0 < int (length u)
        then a_write (mem_put 0 (take (nat (int (length u))) (drop st (a_bytes h p)))) r else r)
      (set_length (h, AEmpty) (int (length u)))"
    unfolding astr_copy_def prod.case Let_def c i ..
  then show ?thesis
    using set_length_empty [of h "length u"] u fit
    by (cases "u = []") (simp_all add: put_own mem_put_def)
qed

subsection \<open>What the operations yield\<close>

lemma yields_trans: "yields h s t \<Longrightarrow> yields (fst s) s' u \<Longrightarrow> yields h s' u"
  by (auto simp: yields_def intro: grows_trans)

lemma own_or_empty:
  "heap_ok h \<Longrightarrow> fits (length t) \<Longrightarrow> u = t \<Longrightarrow> yields h (if u = [] then (h, AEmpty) else own h u) t"
  by (simp add: own_yields clear_yields)

definition gives :: "aheap \<Rightarrow> astr option \<Rightarrow> string \<Rightarrow> bool" where
  "gives h r t \<longleftrightarrow> (\<exists>s. r = Some s \<and> yields h s t)"

lemma gives_Some [simp]: "gives h (Some s) t \<longleftrightarrow> yields h s t"
  by (simp add: gives_def)

lemma gives_same: "astr_ok (h, p) \<Longrightarrow> gives h (Some (astr_of_astr (h, p))) (a_text h p)"
  by (simp add: astr_of_astr_def same_yields)

lemma set_length_gives:
  assumes "astr_ok (h, p)" "fits (nat n)"
  shows "gives h (set_length (h, p) n)
    (take (nat n) (a_text h p) @ replicate (nat n - length (a_text h p)) nul)"
proof -
  have ok: "heap_ok h" "length (a_text h p) = a_length h p"
    using assms by (auto simp: astr_ok_def length_a_text)
  have "take (nat n) (a_text h p) @ replicate (nat n - a_length h p) nul \<noteq> []" if "0 < n"
    using that ok(2) by auto
  moreover have "fits (min (a_length h p) (nat n) + (nat n - a_length h p))"
    using assms(2) by (rule fits_mono) simp
  ultimately show ?thesis
    using ok assms(2) by (auto simp: set_length_eq [OF assms(1)] own_yields clear_yields)
qed

lemma put_gives:
  assumes "astr_ok (h, p)" "1 \<le> i" "i \<le> int (length (a_text h p))"
  shows "gives h (a_put (h, p) i c) ((a_text h p)[nat (i - 1) := c])"
  using a_put_own [OF assms] assms fits_text [of h p]
  by (auto simp: astr_ok_def intro!: own_yields)

lemma concat_gives:
  assumes "astr_ok (h, p)" "astr_ok (h, q)" "fits (length (a_text h p) + length (a_text h q))"
  shows "gives h (concat_to_astr h (a_length h p) (a_bytes h p) (a_length h q) (a_bytes h q))
    (a_text h p @ a_text h q)"
proof -
  have le: "a_length h p \<le> length (a_bytes h p)" "a_length h q \<le> length (a_bytes h q)"
    using ansi.len_bytes [OF assms(1)] ansi.len_bytes [OF assms(2)] by simp_all
  have len: "length (a_text h p) = a_length h p" "length (a_text h q) = a_length h q"
    using assms by (simp_all add: astr_ok_def length_a_text)
  from concat_eq [OF le, of h] assms(3) have
    "concat_to_astr h (a_length h p) (a_bytes h p) (a_length h q) (a_bytes h q) = Some
      (if a_text h p @ a_text h q = [] then (h, AEmpty) else own h (a_text h p @ a_text h q))"
    using len by (auto simp: a_text_def [symmetric])
  moreover have "heap_ok h" using assms by (simp add: astr_ok_def)
  ultimately show ?thesis using assms(3) own_or_empty [of h "a_text h p @ a_text h q"] by simp
qed

lemma insert_gives:
  assumes "astr_ok (h, p)" "astr_ok (h, q)" "fits (length (a_text h p) + length (a_text h q))"
  shows "gives h (insert_bytes (a_length h q) (a_bytes h q) (h, p) i)
    (take (nat (i - 1)) (a_text h p) @ a_text h q @ drop (nat (i - 1)) (a_text h p))"
proof -
  have le: "a_length h q \<le> length (a_bytes h q)" using ansi.len_bytes [OF assms(2)] by simp
  have len: "length (a_text h q) = a_length h q" using assms(2) by (simp add: astr_ok_def length_a_text)
  have "take (pos_of i (a_text h p)) (a_text h p) = take (nat (i - 1)) (a_text h p)"
    "drop (pos_of i (a_text h p)) (a_text h p) = drop (nat (i - 1)) (a_text h p)"
    by (auto simp: pos_of_def min_def)
  note eq = insert_bytes_eq [OF assms(1) le assms(3) [unfolded len], of i, unfolded this]
  show ?thesis
  proof (cases "a_length h q = 0")
    case True
    with len eq same_yields [OF assms(1)] show ?thesis by simp
  next
    case False
    then have "a_text h q \<noteq> []" using len by auto
    moreover have "heap_ok h" using assms(1) by (simp add: astr_ok_def)
    moreover have "fits (min (length (a_text h p)) (nat (i - 1)) +
        (length (a_text h q) + (length (a_text h p) - nat (i - 1))))"
      using assms(3) by (rule fits_mono) simp
    ultimately show ?thesis using False by (simp add: eq a_text_def [of h q, symmetric] own_yields)
  qed
qed

lemma copy_gives:
  assumes "astr_ok (h, p)"
  shows "gives h (astr_copy (h, p) i n) (take (nat n) (drop (nat (max 1 i - 1)) (a_text h p)))"
proof -
  have "heap_ok h" "fits (length (a_text h p))" using assms fits_text by (auto simp: astr_ok_def)
  then have "fits (length (take (nat n) (drop (nat (max 1 i - 1)) (a_text h p))))"
    by (auto intro: fits_mono)
  with \<open>heap_ok h\<close> show ?thesis
    unfolding astr_copy_eq [OF assms] gives_Some by (intro own_or_empty) simp_all
qed

lemma delete_gives:
  assumes "astr_ok (h, p)"
  shows "gives h (astr_delete (h, p) i n)
    (if i < 1 then a_text h p
     else take (nat (i - 1)) (a_text h p) @ drop (nat (i - 1) + nat n) (a_text h p))"
proof (cases "i < 1 \<or> int (a_length h p) < i \<or> n \<le> 0")
  case True
  then have "astr_delete (h, p) i n = Some (h, p)" by (simp add: astr_delete_def)
  then show ?thesis using True same_yields [OF assms] assms
    by (auto simp: astr_ok_def length_a_text)
next
  case False
  obtain t where t: "t = a_text h p" by simp
  have len: "a_length h p = length t" using assms by (simp add: t astr_ok_def length_a_text)
  have "0 \<le> i - 1" using False by simp
  then obtain k where "i - 1 = int k" by (rule nonneg_int_cases)
  then have i: "i = int k + 1" by simp
  obtain c where c: "n = int c" "0 < c" using False by (metis linorder_not_le zero_less_imp_eq_int)
  have k: "k < length t" using False by (simp add: i len)
  obtain d where d: "d = min c (length t - k)" by simp
  have cnt: "(if int (length t) - (i - 1) < n then int (length t) - (i - 1) else n) = int d"
    using k by (auto simp: i c d)
  have q: "nat (i - 1 + int d) = k + d" "nat (i - 1) = k" by (auto simp: i)
  have ne: "t \<noteq> []" using k by auto
  have u: "ensure_unique (h, p) = Some (own h t)"
    using ensure_unique_own [OF assms] ne by (simp add: t)
  let ?u = "take k t @ drop (k + d) t @ nul # drop (Suc (length t - d)) t"
  have le: "k + d \<le> length t" "0 < d" "length ?u = length t" using k c(2) by (auto simp: d)
  have "mem_move k (k + d) (length t - (k + d) + 1) (t @ [nul]) = ?u @ [nul]"
  proof -
    have "take (length t - (k + d) + 1) (drop (k + d) (t @ [nul])) = drop (k + d) t @ [nul]"
      using le by simp
    moreover have "k + length (drop (k + d) t @ [nul]) = Suc (length t - d)" using le by simp
    moreover have "drop (Suc (length t - d)) (t @ [nul]) = drop (Suc (length t - d)) t @ [nul]"
      using le by simp
    moreover have "take k (t @ [nul]) = take k t" using k by simp
    ultimately show ?thesis by (simp only: mem_move_def mem_put_def) simp
  qed
  then have w: "a_write (mem_move k (k + d) (length t - (k + d) + 1)) (own h t) = own h ?u"
    using le(3) by (rule a_write_own)
  have ok: "yields h (own h ?u) ?u"
    using assms le ne fits_text [of h p] by (intro own_yields) (auto simp: astr_ok_def t)
  have eq: "astr_delete (h, p) i n = set_length (own h ?u) (int (length t) - int d)"
    using False unfolding astr_delete_def Let_def fst_conv snd_conv len cnt q u bind.bind_lunit w by simp
  have m: "nat (int (length t) - int d) = length t - d" by simp
  have "drop (k + c) t = drop (k + d) t" using k by (auto simp: d min_def)
  then have tx: "take (length t - d) ?u = take k t @ drop (k + c) t" using le by simp
  have z: "length t - d - length ?u = 0" unfolding le(3) by simp
  have res: "astr_ok (fst (own h ?u), snd (own h ?u))" "a_text (fst (own h ?u)) (snd (own h ?u)) = ?u"
    using ok by (auto simp: yields_def)
  have "fits (length t - d)"
    using assms fits_text [of h p] by (auto simp: astr_ok_def t intro: fits_mono)
  then have "gives (fst (own h ?u)) (astr_delete (h, p) i n) (take k t @ drop (k + c) t)"
    using set_length_gives [OF res(1), of "int (length t) - int d"]
    unfolding res(2) m tx z eq by simp
  then have "gives h (astr_delete (h, p) i n) (take k t @ drop (k + c) t)"
    using yields_trans [OF ok] by (auto simp: gives_def)
  then show ?thesis by (simp add: i c t [symmetric] nat_add_distrib)
qed

lemma from_short_gives:
  assumes "heap_ok h" "sstr_ok s"
  shows "gives h (assign_sstr h s) (stext s)"
proof (cases "slen s = 0")
  case True
  with assms show ?thesis
    by (simp add: assign_sstr_def assign_bytes_def a_clear_def stext_def clear_yields)
next
  case False
  have le: "slen s \<le> cap s" using assms(2) by (simp add: sstr_ok_def)
  with False have "stext s \<noteq> []" by (auto simp: stext_def)
  moreover have "fits (slen s)" using assms(2) by (auto simp: sstr_ok_def fits_def)
  moreover from this have "assign_sstr h s = Some (own h (stext s))"
    using False le alloc_own [of "slen s" h]
    by (simp add: assign_sstr_def assign_bytes_def put_own mem_put_def stext_def)
  moreover have "length (stext s) = slen s" using le assms(2) by (simp add: stext_def sstr_ok_def)
  ultimately show ?thesis using assms(1) by (simp add: own_yields)
qed

lemma from_char_gives:
  assumes "astr_ok (h, p)"
  shows "gives h (assign_char (h, p) c) [c]"
proof -
  have len: "length (a_text h p) = a_length h p" using assms by (simp add: astr_ok_def length_a_text)
  obtain d where d: "set_length (h, p) 1 = Some (own h [d])"
    using set_length_eq [OF assms, of 1] len by (cases "a_text h p") auto
  have "a_write (\<lambda>d. d[0 := c]) (own h [d]) = own h [c]" by (rule a_write_own) simp_all
  with assms show ?thesis by (simp add: assign_char_def d own_yields astr_ok_def)
qed

lemma fill_gives:
  assumes "heap_ok h" "fits (nat n)"
  shows "gives h (p_stringofchar h c n) (replicate (nat n) c)"
proof (cases "n \<le> 0")
  case True
  with assms show ?thesis by (simp add: p_stringofchar_def clear_yields)
next
  case False
  then obtain m where m: "n = int m" "0 < m" by (metis linorder_not_le zero_less_imp_eq_int)
  have fit: "fits m" using assms(2) m by simp
  have y: "yields h (own h (replicate m nul)) (replicate m nul)"
    using assms m fit by (simp add: own_yields)
  then have "ensure_unique (own h (replicate m nul)) =
      Some (own (fst (own h (replicate m nul))) (replicate m nul))"
    using ensure_unique_own [of "fst (own h (replicate m nul))" "snd (own h (replicate m nul))"] m
    by (simp add: yields_def)
  then have "p_stringofchar h c n = Some (own (fst (own h (replicate m nul))) (replicate m c))"
    using m fit set_length_empty [of h m] fits_int32_len [OF fit]
    by (simp add: p_stringofchar_def put_own mem_put_def)
  moreover have "yields (fst (own h (replicate m nul))) (own (fst (own h (replicate m nul))) (replicate m c))
      (replicate m c)"
    using y m(2) fit by (intro own_yields) (auto simp: yields_def astr_ok_def)
  ultimately show ?thesis using yields_trans [OF y] m(1) by simp
qed

lemma map_gives:
  assumes "astr_ok (h, p)"
  shows "gives h (astr_map f (h, p)) (map f (a_text h p))"
proof -
  obtain t where t: "t = a_text h p" by simp
  have len: "a_length h p = length t" using assms by (simp add: t astr_ok_def length_a_text)
  let ?step = "\<lambda>i r. Option.bind r (\<lambda>t. Option.bind (a_at t (int i)) (\<lambda>c. a_put t (int i) (f c)))"
  have "\<exists>s. fold ?step [1..<Suc k] (Some (h, p)) = Some s \<and> yields h s (map f (take k t) @ drop k t)"
    if "k \<le> length t" for k
    using that
  proof (induction k)
    case 0
    with assms show ?case by (simp add: t same_yields)
  next
    case (Suc k)
    then obtain s where s: "fold ?step [1..<Suc k] (Some (h, p)) = Some s"
      "yields h s (map f (take k t) @ drop k t)" by auto
    obtain h' p' where hp: "s = (h', p')" by (cases s)
    let ?v = "map f (take k t) @ drop k t"
    have ok: "astr_ok (h', p')" "a_text h' p' = ?v" using s(2) by (auto simp: yields_def hp)
    have k: "k < length ?v" "?v ! k = t ! k" using Suc.prems by (auto simp: nth_append)
    have ne: "\<not> is_empty_bytes p'" using ok(2) k(1) ok_empty(1) by fastforce
    have at: "a_at (h', p') (int (Suc k)) = Some (t ! k)"
      using ok_block(1) [OF _ _ ne, of h'] ok k Suc.prems by (auto simp: a_at_def astr_ok_def nth_append)
    obtain s' where s': "a_put (h', p') (int (Suc k)) (f (t ! k)) = Some s'"
      "yields h' s' (?v[k := f (t ! k)])"
      using put_gives [OF ok(1), of "int (Suc k)" "f (t ! k)"] Suc.prems
      unfolding ok(2) by (auto simp: gives_def nat_add_distrib)
    have "?v[k := f (t ! k)] = map f (take (Suc k) t) @ drop (Suc k) t"
      using Suc.prems by (simp add: list_update_append take_Suc_conv_app_nth flip: Cons_nth_drop_Suc)
    with s s' at yields_trans [OF s(2), of s'] show ?case by (auto simp: hp)
  qed
  from this [of "length t"] show ?thesis by (simp add: gives_def astr_map_def astr_of_astr_def len t)
qed

subsection \<open>Value semantics\<close>

text \<open>
  The specification: variables hold lists of characters and no command changes any variable but
  its target. Outside its domain (an index beyond the string, a short string whose length byte
  exceeds its capacity, a result longer than 2147483646 characters) a command has no meaning.
\<close>

fun spec_str :: "acmd \<Rightarrow> (nat \<Rightarrow> string) \<Rightarrow> string option" where
  "spec_str (Asg x y) v = Some (v y)"
| "spec_str (Cat x y z) v = Some (v y @ v z)"
| "spec_str (Put x i c) v =
     (if 1 \<le> i \<and> i \<le> int (length (v x)) then Some ((v x)[nat (i - 1) := c]) else None)"
| "spec_str (SetLen x n) v =
     Some (take (nat (sint n)) (v x) @ replicate (nat (sint n) - length (v x)) nul)"
| "spec_str (Ins y x i) v =
     Some (take (nat (sint i - 1)) (v x) @ v y @ drop (nat (sint i - 1)) (v x))"
| "spec_str (Del x i n) v =
     Some (if sint i < 1 then v x
           else take (nat (sint i - 1)) (v x) @ drop (nat (sint i - 1) + nat (sint n)) (v x))"
| "spec_str (Sub x y i n) v =
     Some (take (nat (sint n)) (drop (nat (max 1 (sint i) - 1)) (v y)))"
| "spec_str (FromShort x s) v = (if sstr_ok s then Some (stext s) else None)"
| "spec_str (FromChar x c) v = Some [c]"
| "spec_str (FillStr x c n) v = Some (replicate (nat (sint n)) c)"
| "spec_str (Up x y) v = Some (map p_upcase_char (v y))"

definition spec :: "acmd \<Rightarrow> (nat \<Rightarrow> string) \<Rightarrow> (nat \<Rightarrow> string) option" where
  "spec c v = Option.bind (spec_str c v) (\<lambda>t.
     if length t \<le> 2147483646 then Some (v(cmd_target c := t)) else None)"

fun spec_run :: "acmd list \<Rightarrow> (nat \<Rightarrow> string) \<Rightarrow> (nat \<Rightarrow> string) option" where
  "spec_run [] v = Some v"
| "spec_run (c # cs) v = Option.bind (spec c v) (spec_run cs)"

definition contents :: "astate \<Rightarrow> nat \<Rightarrow> string" where
  "contents st x = a_text (store st) (vars st x)"

definition astate_ok :: "astate \<Rightarrow> bool" where
  "astate_ok st \<longleftrightarrow> (\<forall>x. astr_ok (var_str st x))"

lemma put_var_ok:
  assumes "astate_ok st" "yields (store st) s t"
  shows "astate_ok (put_var st x s)" "contents (put_var st x s) = (contents st)(x := t)"
  using assms grows_ptr [of "store st" "fst s"] grows_text [of "store st" "fst s"]
  by (auto simp: astate_ok_def put_var_def var_str_def contents_def yields_def astr_ok_def fun_eq_iff)

lemma exec_str_gives:
  assumes "astate_ok st" "spec_str c (contents st) = Some t" "fits (length t)"
  shows "gives (store st) (exec_str c st) t"
proof -
  have ok: "astr_ok (store st, vars st x)" for x using assms(1) by (simp add: astate_ok_def var_str_def)
  then have heap: "heap_ok (store st)" by (simp add: astr_ok_def)
  note [simp] = var_str_def contents_def Let_def
  show ?thesis
  proof (cases c)
    case (SetLen x n)
    then have "fits (nat (sint n))" using assms(2,3) by (auto intro: fits_mono)
    with SetLen assms(2) set_length_gives [OF ok, of "sint n" x] show ?thesis by simp
  next
    case (Put x i c)
    with assms(2) put_gives [OF ok, of i x c] show ?thesis by (auto split: if_splits)
  next
    case (Cat x y z)
    with assms(2,3) concat_gives [OF ok [of y] ok [of z]] show ?thesis by auto
  next
    case (Ins y x i)
    have "fits (length (contents st x) + length (contents st y))"
      using Ins assms(2,3) by (auto intro: fits_mono)
    with Ins assms(2) insert_gives [OF ok [of x] ok [of y], of "sint i"] show ?thesis by simp
  next
    case (FillStr x c n)
    with assms(2,3) fill_gives [OF heap, of "sint n" c] show ?thesis by auto
  next
    case (Up x y)
    with assms(2) map_gives [OF ok, of p_upcase_char y] show ?thesis
      by (simp add: astr_upcase_def)
  next
    case (Del x i n)
    with assms(2) delete_gives [OF ok, of x "sint i" "sint n"] show ?thesis
      by (cases "sint i < 1") simp_all
  qed (use assms(2) gives_same [OF ok] copy_gives [OF ok]
      from_short_gives [OF heap] from_char_gives [OF ok] in \<open>auto split: if_splits\<close>)
qed

lemma exec_refines:
  assumes "astate_ok st" "spec c (contents st) = Some v"
  shows "\<exists>st'. exec c st = Some st' \<and> astate_ok st' \<and> contents st' = v"
proof -
  from assms(2) obtain t where t: "spec_str c (contents st) = Some t" "fits (length t)"
    "v = (contents st)(cmd_target c := t)"
    by (auto simp: spec_def fits_def split: bind_splits if_splits)
  from exec_str_gives [OF assms(1) t(1,2)] obtain s where
    "exec_str c st = Some s" "yields (store st) s t"
    by (auto simp: gives_def)
  with put_var_ok [OF assms(1) this(2), of "cmd_target c"] t(3) show ?thesis
    by (simp add: exec_def)
qed

lemma run_refines:
  "astate_ok st \<Longrightarrow> spec_run cs (contents st) = Some v \<Longrightarrow>
    \<exists>st'. run cs st = Some st' \<and> astate_ok st' \<and> contents st' = v"
proof (induction cs arbitrary: st)
  case (Cons c cs)
  then obtain u where u: "spec c (contents st) = Some u" "spec_run cs u = Some v"
    by (auto split: bind_splits)
  with exec_refines [OF Cons.prems(1) u(1)] Cons.IH show ?case by fastforce
qed simp

lemma fresh_program_ok: "astate_ok fresh_program" "contents fresh_program = (\<lambda>_. [])"
  by (auto simp: astate_ok_def fresh_program_def var_str_def astr_ok_def heap_ok_def contents_def a_text_def)

text \<open>
  C25. Refinement. Long string variables have value semantics although assignment shares their
  bytes: running any sequence of string statements over the heap of blocks gives every variable
  exactly the value the same statements give it over independent lists of characters, and leaves
  a well-formed heap. In particular no statement changes a variable other than its target. The
  statements are those that have a meaning over lists: an indexed character exists, and no
  result is longer than 2147483646 characters. A longer concatenation or insertion overflows the
  \<open>int32_t\<close> lengths of the code (\<open>concat_overflow\<close>).
\<close>

theorem ansistring_value_semantics:
  assumes "spec_run cs (\<lambda>_. []) = Some v"
  shows "\<exists>st. run cs fresh_program = Some st \<and> astate_ok st \<and> contents st = v"
  using assms run_refines [OF fresh_program_ok(1)] by (simp add: fresh_program_ok(2))

text \<open>
  Two variables share a block, one of them is changed by an insertion of the other into it and by
  a character assignment; the other keeps its value.
\<close>

theorem ansistring_value_semantics_witness:
  "map_option (\<lambda>st. (contents st 0, contents st 1))
     (run [FromShort 0 (sstr_literal 5 ''abc''), Asg 1 0, Ins 0 1 2, Put 1 1 (CHR ''X'')] fresh_program)
   = Some (''abc'', ''Xabcbc'')"
proof -
  let ?cs = "[FromShort 0 (sstr_literal 5 ''abc''), Asg 1 0, Ins 0 1 2, Put 1 1 (CHR ''X'')]"
  have ok: "sstr_ok (sstr_literal 5 ''abc'')" "stext (sstr_literal 5 ''abc'') = ''abc''" by code_simp+
  have "spec_run ?cs (\<lambda>_. []) = Some ((\<lambda>_. [])(0 := ''abc'', 1 := ''Xabcbc''))"
    using ok by (simp add: spec_def fun_upd_twist)
  from ansistring_value_semantics [OF this] show ?thesis by auto
qed

end
