(* ===== verification/Rt_Set.thy ===== *)
theory Rt_Set
  imports Rt_Int
begin

text \<open>
  Sets of the run-time library: \<open>tp2cc_Set<Elem>\<close> in \<open>include/tp2cc_rt/prelude.h\<close>, a field of
  256 bits in 32 bytes. An element is given by \<open>static_cast<int64_t>(e)\<close>, its ordinal; characters
  are their codes. The index of an element is that value cut to the 32 bits of \<open>int\<close>.
\<close>

type_synonym byte = "8 word"

record pset =
  bits :: "byte list"

definition set_zero :: pset where
  "set_zero = \<lparr>bits = replicate 32 0\<rparr>"

definition set_idx :: "64 word \<Rightarrow> int" where
  "set_idx e = sint (ucast e :: 32 word)"

definition bit_of :: "int \<Rightarrow> byte" where
  "bit_of i = push_bit (nat (i mod 8)) 1"

definition set_add :: "pset \<Rightarrow> 64 word \<Rightarrow> pset" where
  "set_add s e =
     (let i = set_idx e in
      if 0 \<le> i \<and> i < 256
      then s\<lparr>bits := (bits s)[nat (i div 8) := bits s ! nat (i div 8) OR bit_of i]\<rparr> else s)"

definition set_contains :: "pset \<Rightarrow> 64 word \<Rightarrow> bool" where
  "set_contains s e \<longleftrightarrow>
     (let i = set_idx e in
      if i < 0 \<or> 256 \<le> i then False else bits s ! nat (i div 8) AND bit_of i \<noteq> 0)"

definition set_from_list :: "64 word list \<Rightarrow> pset" where
  "set_from_list xs = fold (\<lambda>x s. set_add s x) xs set_zero"

text \<open>\<open>for (i = 0; i < 32; ++i) r.bits[i] = f(a.bits[i], b.bits[i])\<close>\<close>

definition set_zip :: "(byte \<Rightarrow> byte \<Rightarrow> byte) \<Rightarrow> pset \<Rightarrow> pset \<Rightarrow> pset" where
  "set_zip f a b =
     \<lparr>bits = fold (\<lambda>i r. r[i := f (bits a ! i) (bits b ! i)]) [0..<32] (bits set_zero)\<rparr>"

definition set_union :: "pset \<Rightarrow> pset \<Rightarrow> pset" where
  "set_union = set_zip (\<lambda>x y. x OR y)"

definition set_minus :: "pset \<Rightarrow> pset \<Rightarrow> pset" where
  "set_minus = set_zip (\<lambda>x y. x AND NOT y)"

definition set_inter :: "pset \<Rightarrow> pset \<Rightarrow> pset" where
  "set_inter = set_zip (\<lambda>x y. x AND y)"

definition set_symmetric_difference :: "pset \<Rightarrow> pset \<Rightarrow> pset" where
  "set_symmetric_difference = set_zip (\<lambda>x y. x XOR y)"

definition set_eq :: "pset \<Rightarrow> pset \<Rightarrow> bool" where
  "set_eq a b \<longleftrightarrow> list_all (\<lambda>i. bits a ! i = bits b ! i) [0..<32]"

definition set_ne :: "pset \<Rightarrow> pset \<Rightarrow> bool" where
  "set_ne a b \<longleftrightarrow> \<not> set_eq a b"

definition set_le :: "pset \<Rightarrow> pset \<Rightarrow> bool" where
  "set_le a b \<longleftrightarrow> list_all (\<lambda>i. bits a ! i AND NOT (bits b ! i) = 0) [0..<32]"

definition set_ge :: "pset \<Rightarrow> pset \<Rightarrow> bool" where
  "set_ge a b \<longleftrightarrow> set_le b a"

text \<open>
  The overloads for sets of different element types change a copy of the left operand in place.
\<close>

definition set_mixed :: "(byte \<Rightarrow> byte \<Rightarrow> byte) \<Rightarrow> pset \<Rightarrow> pset \<Rightarrow> pset" where
  "set_mixed f a b =
     a\<lparr>bits := fold (\<lambda>i r. r[i := f (r ! i) (bits b ! i)]) [0..<32] (bits a)\<rparr>"

definition set_union_mixed :: "pset \<Rightarrow> pset \<Rightarrow> pset" where
  "set_union_mixed = set_mixed (\<lambda>x y. x OR y)"

definition set_minus_mixed :: "pset \<Rightarrow> pset \<Rightarrow> pset" where
  "set_minus_mixed = set_mixed (\<lambda>x y. x AND NOT y)"

definition set_inter_mixed :: "pset \<Rightarrow> pset \<Rightarrow> pset" where
  "set_inter_mixed = set_mixed (\<lambda>x y. x AND y)"

definition set_cast :: "pset \<Rightarrow> pset" where
  "set_cast src = \<lparr>bits = fold (\<lambda>i r. r[i := bits src ! i]) [0..<32] (bits set_zero)\<rparr>"

definition set_cast_array :: "byte list \<Rightarrow> pset" where
  "set_cast_array src = \<lparr>bits = fold (\<lambda>i r. r[i := src ! i]) [0..<32] (bits set_zero)\<rparr>"

text \<open>\<open>tp2cc_set_to_int<T>\<close> for an integer type of \<open>LENGTH('a) div 8\<close> bytes.\<close>

definition set_to_int :: "pset \<Rightarrow> 'a::len word" where
  "set_to_int s =
     fold (\<lambda>i out. out OR push_bit (i * 8) (ucast (bits s ! i))) [0..<LENGTH('a) div 8] 0"

subsection \<open>Set literals\<close>

datatype set_elem = One "64 word" | Span "64 word" "64 word"

text \<open>
  \<open>for (v = lo; v <= hi; ++v) s.add(v)\<close>, by the number of values left. A range that ends at the
  greatest \<open>int64_t\<close> overflows the counter in the code, which is undefined; the model stops there.
\<close>

fun add_span :: "nat \<Rightarrow> 64 word \<Rightarrow> pset \<Rightarrow> pset" where
  "add_span 0 v s = s"
| "add_span (Suc n) v s = add_span n (v + 1) (set_add s v)"

definition add_elem :: "set_elem \<Rightarrow> pset \<Rightarrow> pset" where
  "add_elem x s =
     (case x of
        One e \<Rightarrow> set_add s e
      | Span lo hi \<Rightarrow> add_span (nat (sint hi - sint lo + 1)) lo s)"

definition set_of_range :: "set_elem list \<Rightarrow> pset" where
  "set_of_range xs = fold add_elem xs set_zero"

text \<open>\<open>EmptySet\<close>\<close>

definition empty_set :: pset where
  "empty_set = set_zero"

definition empty_contains :: "64 word \<Rightarrow> bool" where
  "empty_contains e \<longleftrightarrow> False"

end
