(* ===== verification/Rt_Set_Facts.thy ===== *)
theory Rt_Set_Facts
  imports Rt_Set Rt_Loops
begin

text \<open>
  The bit field of a Pascal set refines a set of ordinals below 256. What the byte-wise operators
  have in common is the locale \<open>bitwise_op\<close>: an operation on bytes that works bit by bit.
\<close>

definition set_ok :: "pset \<Rightarrow> bool" where
  "set_ok s \<longleftrightarrow> length (bits s) = 32"

definition members :: "pset \<Rightarrow> nat set" where
  "members s = {i. i < 256 \<and> bit (bits s ! (i div 8)) (i mod 8)}"

text \<open>The ordinal a set can hold for an element, if any.\<close>

definition ordinal :: "64 word \<Rightarrow> nat set" where
  "ordinal e = (if 0 \<le> set_idx e \<and> set_idx e < 256 then {nat (set_idx e)} else {})"

lemma set_zero_facts [simp]: "set_ok set_zero" "members set_zero = {}"
  by (auto simp: set_zero_def set_ok_def members_def)

lemma members_less: "i \<in> members s \<Longrightarrow> i < 256"
  by (simp add: members_def)

lemma ordinal_less: "i \<in> ordinal e \<Longrightarrow> i < 256"
  by (auto simp: ordinal_def split: if_splits)

lemma members_bit: "k < 32 \<Longrightarrow> j < 8 \<Longrightarrow> bit (bits s ! k) j \<longleftrightarrow> 8 * k + j \<in> members s"
  by (simp add: members_def)

lemma byte_eq_iff: "(x :: byte) = y \<longleftrightarrow> (\<forall>j < 8. bit x j \<longleftrightarrow> bit y j)"
  by (auto simp: bit_eq_iff dest: bit_imp_le_length)

subsection \<open>Elements\<close>

lemma bit_of_iff: "bit (bit_of (int i)) j \<longleftrightarrow> j = i mod 8"
  by (auto simp: bit_of_def bit_simps nat_mod_distrib)

lemma set_add_facts:
  assumes "set_ok s"
  shows "set_ok (set_add s e)" and "members (set_add s e) = members s \<union> ordinal e"
proof -
  show "set_ok (set_add s e)" using assms by (simp add: set_add_def Let_def set_ok_def)
  show "members (set_add s e) = members s \<union> ordinal e"
  proof (cases "0 \<le> set_idx e \<and> set_idx e < 256")
    case True
    then obtain n where n: "set_idx e = int n" "n < 256" by (metis nonneg_int_cases of_nat_less_iff of_nat_numeral)
    then have b: "bits (set_add s e) = (bits s)[n div 8 := bits s ! (n div 8) OR bit_of (int n)]"
      by (simp add: set_add_def nat_div_distrib)
    have "n div 8 < length (bits s)" using n(2) assms by (simp add: set_ok_def)
    then have "bit (bits (set_add s e) ! (i div 8)) (i mod 8) \<longleftrightarrow>
        bit (bits s ! (i div 8)) (i mod 8) \<or> i = n" for i
      by (auto simp: b nth_list_update bit_or_iff bit_of_iff) (metis div_mult_mod_eq)+
    with n show ?thesis by (auto simp: members_def ordinal_def)
  qed (auto simp: set_add_def ordinal_def)
qed

lemma set_contains_iff: "set_contains s e \<longleftrightarrow> ordinal e \<inter> members s \<noteq> {}"
proof (cases "0 \<le> set_idx e \<and> set_idx e < 256")
  case True
  then obtain n where n: "set_idx e = int n" "n < 256" by (metis nonneg_int_cases of_nat_less_iff of_nat_numeral)
  then have "set_contains s e \<longleftrightarrow> bit (bits s ! (n div 8)) (n mod 8)"
    by (simp add: set_contains_def bit_of_def nat_div_distrib nat_mod_distrib bit_iff_and_push_bit_not_eq_0)
  with n show ?thesis by (auto simp: ordinal_def members_def)
qed (auto simp: set_contains_def ordinal_def)

lemma fold_add_facts:
  assumes "set_ok s"
  shows "set_ok (fold (\<lambda>x s. set_add s x) xs s) \<and>
    members (fold (\<lambda>x s. set_add s x) xs s) = members s \<union> (\<Union>e \<in> set xs. ordinal e)"
  using assms by (induction xs arbitrary: s) (auto simp: set_add_facts)

lemma from_list_facts:
  "set_ok (set_from_list xs)" "members (set_from_list xs) = (\<Union>e \<in> set xs. ordinal e)"
  using fold_add_facts [of set_zero xs] by (simp_all add: set_from_list_def)

subsection \<open>Operators\<close>

locale bitwise_op =
  fixes f :: "byte \<Rightarrow> byte \<Rightarrow> byte" and g :: "bool \<Rightarrow> bool \<Rightarrow> bool"
  assumes bit_op: "j < 8 \<Longrightarrow> bit (f x y) j \<longleftrightarrow> g (bit x j) (bit y j)"
begin

lemma zip_ok: "set_ok (set_zip f a b)"
  by (simp add: set_zip_def set_ok_def set_zero_def)

lemma zip_nth: "k < 32 \<Longrightarrow> bits (set_zip f a b) ! k = f (bits a ! k) (bits b ! k)"
  by (simp add: set_zip_def nth_fold_const set_zero_def)

lemma zip_members:
  "members (set_zip f a b) = {i. i < 256 \<and> g (i \<in> members a) (i \<in> members b)}"
proof -
  have "i \<in> members (set_zip f a b) \<longleftrightarrow> g (i \<in> members a) (i \<in> members b)" if "i < 256" for i
    using that bit_op [of "i mod 8"] zip_nth [of "i div 8" a b] by (simp add: members_def)
  then show ?thesis using members_less by blast
qed

lemma mixed_eq: "set_ok a \<Longrightarrow> set_mixed f a b = set_zip f a b"
  by (cases a) (auto simp: set_mixed_def set_zip_def set_ok_def set_zero_def nth_fold_const
    nth_fold_old [where f = f and c = "\<lambda>i. bits b ! i"] intro!: nth_equalityI)

end

interpretation union: bitwise_op "\<lambda>x y. x OR y" "\<lambda>p q. p \<or> q"
  by unfold_locales (simp add: bit_or_iff)

interpretation inter: bitwise_op "\<lambda>x y. x AND y" "\<lambda>p q. p \<and> q"
  by unfold_locales (simp add: bit_and_iff)

interpretation minus: bitwise_op "\<lambda>x y. x AND NOT y" "\<lambda>p q. p \<and> \<not> q"
  by unfold_locales (simp add: bit_and_iff bit_not_iff)

interpretation sym: bitwise_op "\<lambda>x y. x XOR y" "\<lambda>p q. p \<noteq> q"
  by unfold_locales (simp add: bit_xor_iff)

lemma operator_members:
  "members (set_union a b) = members a \<union> members b"
  "members (set_inter a b) = members a \<inter> members b"
  "members (set_minus a b) = members a - members b"
  "members (set_symmetric_difference a b) = (members a - members b) \<union> (members b - members a)"
  unfolding set_union_def set_inter_def set_minus_def set_symmetric_difference_def
    union.zip_members inter.zip_members minus.zip_members sym.zip_members
  by (auto dest: members_less)

lemma operator_ok:
  "set_ok (set_union a b)" "set_ok (set_inter a b)" "set_ok (set_minus a b)"
  "set_ok (set_symmetric_difference a b)"
  unfolding set_union_def set_inter_def set_minus_def set_symmetric_difference_def
  by (rule union.zip_ok inter.zip_ok minus.zip_ok sym.zip_ok)+

lemma mixed_operators:
  assumes "set_ok a"
  shows "set_union_mixed a b = set_union a b" "set_inter_mixed a b = set_inter a b"
    "set_minus_mixed a b = set_minus a b"
  unfolding set_union_mixed_def set_union_def set_inter_mixed_def set_inter_def
    set_minus_mixed_def set_minus_def
  by (simp_all only: union.mixed_eq [OF assms] inter.mixed_eq [OF assms] minus.mixed_eq [OF assms])

lemma bytes_members:
  "(\<forall>k < 32. \<forall>j < 8. P (bit (bits a ! k) j) (bit (bits b ! k) j)) \<longleftrightarrow>
    (\<forall>i < 256. P (i \<in> members a) (i \<in> members b))"
proof
  assume l: "\<forall>k < 32. \<forall>j < 8. P (bit (bits a ! k) j) (bit (bits b ! k) j)"
  show "\<forall>i < 256. P (i \<in> members a) (i \<in> members b)"
  proof (intro allI impI)
    fix i :: nat
    assume i: "i < 256"
    then have "i div 8 < 32" "i mod 8 < 8" by auto
    with l i show "P (i \<in> members a) (i \<in> members b)" by (simp add: members_def)
  qed
next
  assume r: "\<forall>i < 256. P (i \<in> members a) (i \<in> members b)"
  show "\<forall>k < 32. \<forall>j < 8. P (bit (bits a ! k) j) (bit (bits b ! k) j)"
    using r by (simp add: members_bit)
qed

lemma set_eq_iff: "set_eq a b \<longleftrightarrow> members a = members b"
proof -
  have "set_eq a b \<longleftrightarrow> (\<forall>k < 32. \<forall>j < 8. bit (bits a ! k) j = bit (bits b ! k) j)"
    by (auto simp: set_eq_def list_all_iff byte_eq_iff)
  then show ?thesis unfolding bytes_members by (auto dest: members_less)
qed

lemma set_le_iff: "set_le a b \<longleftrightarrow> members a \<subseteq> members b"
proof -
  have "set_le a b \<longleftrightarrow> (\<forall>k < 32. \<forall>j < 8. bit (bits a ! k) j \<longrightarrow> bit (bits b ! k) j)"
    by (auto simp: set_le_def list_all_iff byte_eq_iff bit_and_iff bit_not_iff)
  then show ?thesis unfolding bytes_members by (auto dest: members_less)
qed

lemma cast_members: "set_ok s \<Longrightarrow> set_cast s = s"
  by (cases s) (auto simp: set_cast_def set_ok_def set_zero_def nth_fold_const intro!: nth_equalityI)

subsection \<open>Conversion to integers\<close>

lemma bytes_to_word:
  "bit (fold (\<lambda>i out. out OR push_bit (i * 8) (ucast (b ! i))) [0..<n] 0 :: 'a::len word) j \<longleftrightarrow>
    j < LENGTH('a) \<and> j div 8 < n \<and> bit ((b :: byte list) ! (j div 8)) (j mod 8)"
proof (induction n)
  case (Suc n)
  have "bit (push_bit (n * 8) (ucast (b ! n)) :: 'a word) j \<longleftrightarrow>
      j < LENGTH('a) \<and> j div 8 = n \<and> bit (b ! n) (j mod 8)"
  proof (cases "n * 8 \<le> j \<and> j < n * 8 + 8")
    case True
    then obtain d where "j = n * 8 + d" "d < 8" by (metis le_iff_add nat_add_left_cancel_less)
    then have "j div 8 = n" "j mod 8 = j - n * 8" by auto
    with True show ?thesis by (auto simp: bit_push_bit_iff bit_ucast_iff)
  next
    case False
    then have "j div 8 \<noteq> n" by auto
    with False show ?thesis by (auto simp: bit_push_bit_iff bit_ucast_iff dest: bit_imp_le_length)
  qed
  with Suc show ?case by (auto simp: bit_or_iff less_Suc_eq)
qed simp

lemma set_to_int_bits:
  assumes "LENGTH('a::len) \<le> 256" "8 dvd LENGTH('a)"
  shows "bit (set_to_int s :: 'a word) i \<longleftrightarrow> i < LENGTH('a) \<and> i \<in> members s"
proof -
  have "i div 8 < LENGTH('a) div 8" if "i < LENGTH('a)"
    using that assms(2) by (metis div_less_mono dvd_imp_mod_0 less_mult_imp_div_less dvd_div_mult_self)
  with assms(1) show ?thesis by (auto simp: set_to_int_def bytes_to_word members_def)
qed

subsection \<open>Literals\<close>

fun elem_members :: "set_elem \<Rightarrow> nat set" where
  "elem_members (One e) = ordinal e"
| "elem_members (Span lo hi) = (\<Union>e \<in> {e. sint lo \<le> sint e \<and> sint e \<le> sint hi}. ordinal e)"

lemma add_span_facts:
  "set_ok s \<Longrightarrow> set_ok (add_span n v s) \<and>
    members (add_span n v s) = members s \<union> (\<Union>k < n. ordinal (v + of_nat k))"
proof (induction n v s rule: add_span.induct)
  case (2 n v s)
  have "(\<Union>k < Suc n. ordinal (v + of_nat k)) = ordinal v \<union> (\<Union>k < n. ordinal (v + 1 + of_nat k))"
    by (simp add: lessThan_Suc_eq_insert_0 ac_simps image_image)
  with 2 show ?case by (auto simp: set_add_facts)
qed simp

lemma sint_word_of_int_self: "x \<in> signed_range 64 \<Longrightarrow> sint (word_of_int x :: 64 word) = x"
  by (simp add: signed_range_def sint_sbintrunc' signed_take_bit_int_eq_self)

lemma span_values:
  fixes lo hi :: "64 word"
  shows "(\<lambda>k. lo + of_nat k) ` {..<nat (sint hi - sint lo + 1)} = {e. sint lo \<le> sint e \<and> sint e \<le> sint hi}"
proof (intro equalityI subsetI)
  fix e :: "64 word"
  assume "e \<in> (\<lambda>k. lo + of_nat k) ` {..<nat (sint hi - sint lo + 1)}"
  then obtain k where k: "e = lo + of_nat k" "int k \<le> sint hi - sint lo" by auto
  have "sint lo + int k \<in> signed_range 64"
    using k(2) sint_ge [of lo] sint_lt [of hi] by (auto simp: signed_range_def)
  moreover have "e = word_of_int (sint lo + int k)" by (simp add: k(1))
  ultimately have "sint e = sint lo + int k"
    by (simp only: sint_word_of_int_self)
  with k(2) show "e \<in> {e. sint lo \<le> sint e \<and> sint e \<le> sint hi}" by simp
next
  fix e :: "64 word"
  assume "e \<in> {e. sint lo \<le> sint e \<and> sint e \<le> sint hi}"
  then have le: "sint lo \<le> sint e" "sint e \<le> sint hi" by auto
  from le(1) have "0 \<le> sint e - sint lo" by simp
  then obtain k where k: "sint e - sint lo = int k" by (rule nonneg_int_cases)
  then have "sint e = sint lo + int k" by simp
  then have "of_int (sint e) = (of_int (sint lo + int k) :: 64 word)" by (simp only:)
  then have "e = lo + of_nat k" by simp
  moreover have "k < nat (sint hi - sint lo + 1)" using le k by simp
  ultimately show "e \<in> (\<lambda>k. lo + of_nat k) ` {..<nat (sint hi - sint lo + 1)}" by blast
qed

lemma add_elem_facts:
  assumes "set_ok s"
  shows "set_ok (add_elem x s)" "members (add_elem x s) = members s \<union> elem_members x"
proof -
  have "set_ok (add_elem x s) \<and> members (add_elem x s) = members s \<union> elem_members x"
  proof (cases x)
    case (Span lo hi)
    have "(\<Union>k < nat (sint hi - sint lo + 1). ordinal (lo + of_nat k)) = elem_members x"
      unfolding Span elem_members.simps span_values [symmetric] by simp
    with Span add_span_facts [OF assms] show ?thesis by (simp add: add_elem_def)
  qed (simp add: add_elem_def set_add_facts assms)
  then show "set_ok (add_elem x s)" "members (add_elem x s) = members s \<union> elem_members x" by auto
qed

lemma of_range_facts:
  "set_ok (set_of_range xs)" "members (set_of_range xs) = (\<Union>x \<in> set xs. elem_members x)"
proof -
  have "set_ok s \<Longrightarrow> set_ok (fold add_elem xs s) \<and>
      members (fold add_elem xs s) = members s \<union> (\<Union>x \<in> set xs. elem_members x)" for s
    by (induction xs arbitrary: s) (auto simp: add_elem_facts)
  from this [of set_zero] show "set_ok (set_of_range xs)"
    "members (set_of_range xs) = (\<Union>x \<in> set xs. elem_members x)"
    by (simp_all add: set_of_range_def)
qed

subsection \<open>Property\<close>

text \<open>
  C28. Refinement. The 32 bytes of a Pascal set refine a set of ordinals below 256: a literal
  holds the ordinals of its elements and ranges that fit, and nothing else; \<open>+\<close>, \<open>*\<close>, \<open>-\<close> and
  \<open>><\<close> are union, intersection, difference and symmetric difference, also between sets of
  different element types; \<open>=\<close> and \<open><=\<close> are equality and inclusion; \<open>in\<close> is membership, false for
  ordinals that do not fit; the conversion to a 64-bit integer has bit \<open>i\<close> set for element \<open>i\<close>.
\<close>

theorem sets_refine:
  assumes "set_ok a" "set_ok b"
  shows "members (set_of_range xs) = (\<Union>x \<in> set xs. elem_members x) \<and>
    members (set_add a e) = members a \<union> ordinal e \<and>
    (set_contains a e \<longleftrightarrow> ordinal e \<inter> members a \<noteq> {}) \<and>
    members (set_union a b) = members a \<union> members b \<and>
    members (set_inter a b) = members a \<inter> members b \<and>
    members (set_minus a b) = members a - members b \<and>
    members (set_symmetric_difference a b) = (members a - members b) \<union> (members b - members a) \<and>
    set_union_mixed a b = set_union a b \<and> set_inter_mixed a b = set_inter a b \<and>
    set_minus_mixed a b = set_minus a b \<and>
    (set_eq a b \<longleftrightarrow> members a = members b) \<and> (set_le a b \<longleftrightarrow> members a \<subseteq> members b) \<and>
    (bit (set_to_int a :: 64 word) i \<longleftrightarrow> i < 64 \<and> i \<in> members a)"
  using assms
  by (simp add: of_range_facts set_add_facts set_contains_iff operator_members mixed_operators
      set_eq_iff set_le_iff set_to_int_bits)

text \<open>The set \<open>['0'..'9', #255]\<close> as a set of ordinals.\<close>

theorem sets_refine_witness:
  "members (set_add (set_of_range [Span 48 57]) 255) = members (set_of_range [Span 48 57]) \<union> {255}"
proof -
  have "ordinal 255 = {255}" by (simp add: ordinal_def set_idx_def)
  with sets_refine [OF of_range_facts(1) [of "[Span 48 57]"] set_zero_facts(1)]
  show ?thesis by metis
qed

end
