(* ===== verification/Rt_Text.thy ===== *)
theory Rt_Text
  imports Rt_Short Rt_Int Emit_Support
begin

text \<open>
  Text conversions of the run-time library (\<open>include/tp2cc_rt/prelude.h\<close>): \<open>Val\<close> and \<open>Str\<close> on
  integers, the splitting of command lines and of paths, \<open>Trim\<close>, \<open>FExpand\<close>, and packed file times.

  A \<open>std::string\<close> is a list of characters. \<open>Val\<close> computes in the unsigned type of the width of its
  result, a word here, and reports the position of the first bad character. \<open>std::isspace\<close> and
  \<open>std::isalpha\<close> are those of the C locale.
\<close>

subsection \<open>\<open>Val\<close>\<close>

definition digit_value :: "char \<Rightarrow> nat option" where
  "digit_value c =
     (if 48 \<le> code c \<and> code c \<le> 57 then Some (code c - 48)
      else if 97 \<le> code c \<and> code c \<le> 102 then Some (code c - 97 + 10)
      else if 65 \<le> code c \<and> code c \<le> 70 then Some (code c - 65 + 10) else None)"

text \<open>The first of the remaining characters that is kept; the count of those skipped.\<close>

fun skip_blanks :: "nat \<Rightarrow> string \<Rightarrow> nat \<times> string" where
  "skip_blanks i [] = (i, [])"
| "skip_blanks i (c # cs) = (if c = CHR '' '' \<or> c = tab then skip_blanks (i + 1) cs else (i, c # cs))"

fun skip_zeros :: "nat \<Rightarrow> string \<Rightarrow> nat \<times> string" where
  "skip_zeros i (c # d # cs) = (if c = CHR ''0'' then skip_zeros (i + 1) (d # cs) else (i, c # d # cs))"
| "skip_zeros i cs = (i, cs)"

definition read_sign :: "nat \<times> string \<Rightarrow> bool \<times> nat \<times> string" where
  "read_sign p =
     (case p of
        (i, c # cs) \<Rightarrow> if c = CHR ''+'' \<or> c = CHR ''-'' then (c = CHR ''-'', i + 1, cs) else (False, i, c # cs)
      | (i, []) \<Rightarrow> (False, i, []))"

definition read_base :: "nat \<times> string \<Rightarrow> nat \<times> nat \<times> string" where
  "read_base p =
     (case p of
        (i, []) \<Rightarrow> (10, i, [])
      | (i, c # cs) \<Rightarrow>
          if c = CHR ''$'' then (16, skip_zeros (i + 1) cs)
          else if c = CHR ''&'' then (8, i + 1, cs)
          else if c = CHR ''%'' then (2, i + 1, cs)
          else (10, i, c # cs))"

text \<open>The digit loop: \<open>Inl\<close> the position of the character it fails at.\<close>

fun digit_loop :: "nat \<Rightarrow> 'a::len word \<Rightarrow> 'a word \<Rightarrow> nat \<Rightarrow> string \<Rightarrow> nat + 'a word" where
  "digit_loop base max_value v i [] = Inr v"
| "digit_loop base max_value v i (c # cs) =
     (case digit_value c of
        None \<Rightarrow> Inl i
      | Some d \<Rightarrow>
          if base \<le> d then Inl i
          else if max_value div of_nat base < v then Inl i
          else if max_value - of_nat d < v * of_nat base then Inl i
          else digit_loop base max_value (v * of_nat base + of_nat d) (i + 1) cs)"

definition val_max :: "bool \<Rightarrow> nat \<Rightarrow> bool \<Rightarrow> 'a::len word" where
  "val_max sg base neg =
     (if sg \<and> base = 10
      then let max_signed = limits_max True in if neg then max_signed + 1 else max_signed
      else limits_max False)"

definition parse_pascal_integer :: "bool \<Rightarrow> string \<Rightarrow> 'a::len word \<times> int" where
  "parse_pascal_integer sg buf =
     (let fail = (\<lambda>p. (0, int p + 1));
          (neg, i, rest) = read_sign (skip_blanks 0 buf);
          (base, i, rest) = read_base (i, rest)
      in if rest = [] then fail i
         else if \<not> sg \<and> neg then fail i
         else
           case digit_loop base (val_max sg base neg) 0 i rest of
             Inl p \<Rightarrow> fail p
           | Inr v \<Rightarrow> (if sg \<and> neg then 0 - v else v, 0))"

text \<open>\<open>p_val\<close> into \<open>int32_t\<close>, and into an unsigned type through one of 32 or 64 bits.\<close>

definition p_val32 :: "sstr \<Rightarrow> u32 \<times> int" where
  "p_val32 s = parse_pascal_integer True (take (slen s) (sdata s))"

definition p_val_uint :: "sstr \<Rightarrow> 'u::len word \<times> int" where
  "p_val_uint s =
     (let narrow = (\<lambda>(parsed, cd) mx.
            if cd \<noteq> 0 \<or> mx < parsed then (0, if cd = 0 then 1 else cd) else (of_nat parsed, cd))
      in if LENGTH('u) \<le> 32
         then case parse_pascal_integer False (take (slen s) (sdata s)) :: u32 \<times> int of
                (v, cd) \<Rightarrow> narrow (unat v, cd) (2 ^ LENGTH('u) - 1)
         else case parse_pascal_integer False (take (slen s) (sdata s)) :: u64 \<times> int of
                (v, cd) \<Rightarrow> narrow (unat v, cd) (2 ^ LENGTH('u) - 1))"

subsection \<open>\<open>Str\<close>\<close>

text \<open>\<open>snprintf("%d")\<close>, \<open>"%u"\<close> and their long forms.\<close>

definition format_signed :: "int \<Rightarrow> string" where
  "format_signed v = (if v < 0 then CHR ''-'' # decimal (nat (- v)) else decimal (nat v))"

definition p_str_signed :: "nat \<Rightarrow> 'a::len word \<Rightarrow> sstr" where
  "p_str_signed cp v = sstr_of_cstr cp (Some (format_signed (sint v)))"

definition p_str_unsigned :: "nat \<Rightarrow> 'a::len word \<Rightarrow> sstr" where
  "p_str_unsigned cp v = sstr_of_cstr cp (Some (decimal (unat v)))"

end
