(* ===== verification/Rt_Text_Facts.thy ===== *)
theory Rt_Text_Facts
  imports Rt_Text Rt_Short_Facts Support_Facts
begin

text \<open>
  \<open>Val\<close> reads a numeral to the value it denotes when that value fits and reports the position of
  the first character that is no digit or overflows; \<open>Str\<close> and \<open>HexStr\<close> write texts that \<open>Val\<close>
  reads back.
\<close>

subsection \<open>The digit loop\<close>

text \<open>The value of digits in a base, continuing from \<open>v\<close>; \<open>None\<close> when one is no digit of the base.\<close>

fun numeral_value :: "nat \<Rightarrow> nat \<Rightarrow> string \<Rightarrow> nat option" where
  "numeral_value base v [] = Some v"
| "numeral_value base v (c # cs) =
     (case digit_value c of None \<Rightarrow> None
      | Some d \<Rightarrow> if base \<le> d then None else numeral_value base (v * base + d) cs)"

lemma numeral_value_mono: "1 \<le> base \<Longrightarrow> numeral_value base v cs = Some n \<Longrightarrow> v \<le> n"
proof (induction cs arbitrary: v)
  case (Cons c cs)
  then obtain d where "numeral_value base (v * base + d) cs = Some n"
    by (auto split: option.splits if_splits)
  then have "v * base + d \<le> n" using Cons by blast
  moreover have "v \<le> v * base" using Cons.prems(1) by simp
  ultimately show ?case by linarith
qed simp

lemma numeral_value_append:
  "numeral_value base v (a @ b) = Option.bind (numeral_value base v a) (\<lambda>w. numeral_value base w b)"
  by (induction a arbitrary: v) (auto split: option.splits)

text \<open>The two overflow tests together are exact.\<close>

lemma no_overflow_iff:
  fixes v mx :: "'a::len word"
  assumes "1 \<le> base" "base < 2 ^ LENGTH('a)" "d < base" "base \<le> unat mx"
  shows "\<not> (mx div of_nat base < v) \<and> \<not> (mx - of_nat d < v * of_nat base) \<longleftrightarrow>
    unat v * base + d \<le> unat mx"
    and "unat v * base + d \<le> unat mx \<Longrightarrow> unat (v * of_nat base + of_nat d) = unat v * base + d"
proof -
  have b: "unat (of_nat base :: 'a word) = base" using assms(2) by (simp add: unat_of_nat take_bit_nat_eq_self)
  have d: "unat (of_nat d :: 'a word) = d" using assms(2,3) by (simp add: unat_of_nat take_bit_nat_eq_self)
  have q: "mx div of_nat base < v \<longleftrightarrow> unat mx div base < unat v"
    by (simp add: word_less_nat_alt unat_div_distrib b)
  have lt: "unat mx < 2 ^ LENGTH('a)" by (rule unsigned_less)
  have mul: "unat (v * of_nat base) = unat v * base" if "unat v * base \<le> unat mx"
    using le_less_trans [OF that lt] by (simp add: unat_word_ariths b)
  have sub: "unat (mx - of_nat d) = unat mx - d"
    using assms(3,4) d by (subst unat_sub) (auto simp: word_le_nat_alt)
  have div: "\<not> unat mx div base < unat v \<longleftrightarrow> unat v * base \<le> unat mx"
    using assms(1) by (metis less_eq_div_iff_mult_less_eq linorder_not_less zero_less_one_class.zero_le_one
        less_le_trans zero_less_one)
  show "\<not> (mx div of_nat base < v) \<and> \<not> (mx - of_nat d < v * of_nat base) \<longleftrightarrow>
      unat v * base + d \<le> unat mx"
    unfolding q unfolding div word_less_nat_alt sub using mul assms(3,4) by auto
  show "unat (v * of_nat base + of_nat d) = unat v * base + d" if le: "unat v * base + d \<le> unat mx"
  proof -
    have "unat (v * of_nat base) = unat v * base" using mul le by simp
    with le_less_trans [OF le lt] show ?thesis by (simp add: unat_word_ariths d)
  qed
qed

lemma digit_loop_value:
  fixes v mx :: "'a::len word"
  assumes "1 \<le> base" "base < 2 ^ LENGTH('a)" "base \<le> unat mx"
  shows "case digit_loop base mx v i cs of
      Inr w \<Rightarrow> numeral_value base (unat v) cs = Some (unat w) \<and> (cs = [] \<or> unat w \<le> unat mx)
    | Inl p \<Rightarrow> i \<le> p \<and> p < i + length cs \<and>
        (case numeral_value base (unat v) (take (Suc (p - i)) cs) of
           None \<Rightarrow> True | Some n \<Rightarrow> unat mx < n) \<and>
        (\<exists>n. numeral_value base (unat v) (take (p - i) cs) = Some n)"
proof (induction cs arbitrary: v i)
  case (Cons c cs)
  show ?case
  proof (cases "digit_value c")
    case (Some d)
    show ?thesis
    proof (cases "base \<le> d \<or> mx div of_nat base < v \<or> mx - of_nat d < v * of_nat base")
      case True
      then show ?thesis
        using no_overflow_iff(1) [OF assms(1,2) _ assms(3), of d v] Some by (auto simp: not_le)
    next
      case False
      then have le: "unat v * base + d \<le> unat mx" and d: "d < base"
        using no_overflow_iff(1) [OF assms(1,2) _ assms(3), of d v] by auto
      have nx: "unat (v * of_nat base + of_nat d) = unat v * base + d"
        using no_overflow_iff(2) [OF assms(1,2) d assms(3) le] .
      have s: "Suc p - i = Suc (p - i)" "p - i = Suc (p - Suc i)" if "Suc i \<le> p" for p using that by auto
      show ?thesis using False Some d le Cons.IH [of "Suc i" "v * of_nat base + of_nat d"]
        by (auto simp: nx s split: sum.splits)
    qed
  qed simp
qed simp

lemma digit_loop_exact:
  fixes mx :: "'a::len word"
  assumes "1 \<le> base" "base < 2 ^ LENGTH('a)" "base \<le> unat mx" "cs \<noteq> []"
    and "numeral_value base 0 cs = Some n"
  shows "n \<le> unat mx \<Longrightarrow> digit_loop base mx 0 i cs = Inr (of_nat n)"
    and "unat mx < n \<Longrightarrow> \<exists>p. digit_loop base mx 0 i cs = Inl p"
proof -
  note loop = digit_loop_value [OF assms(1-3), where v = 0 and i = i and cs = cs]
  have "n \<le> unat mx \<longleftrightarrow> (\<exists>w. digit_loop base mx 0 i cs = Inr w)"
  proof (cases "digit_loop base mx 0 i cs")
    case (Inr w)
    with loop assms(4,5) show ?thesis by auto
  next
    case (Inl p)
    let ?t = "take (Suc (p - i)) cs"
    obtain m where m: "numeral_value base 0 ?t = Some m"
      "numeral_value base m (drop (Suc (p - i)) cs) = Some n"
      using assms(5) numeral_value_append [of base 0 ?t "drop (Suc (p - i)) cs"]
      by (auto split: bind_splits)
    with Inl loop have "unat mx < m" by auto
    with numeral_value_mono [OF assms(1) m(2)] Inl show ?thesis by auto
  qed
  moreover have "of_nat n = w" if "digit_loop base mx 0 i cs = Inr w" for w
    using that loop assms(5) by auto
  ultimately show "n \<le> unat mx \<Longrightarrow> digit_loop base mx 0 i cs = Inr (of_nat n)"
    "unat mx < n \<Longrightarrow> \<exists>p. digit_loop base mx 0 i cs = Inl p"
    by (blast, metis linorder_not_less obj_sumE)
qed

subsection \<open>Texts of numbers\<close>

lemma numeral_value_digits:
  assumes "list_all is_digit cs"
  shows "numeral_value 10 v cs = Some (foldl (\<lambda>a c. 10 * a + digit_val c) v cs)"
  using assms
proof (induction cs arbitrary: v)
  case (Cons c cs)
  then have "digit_value c = Some (digit_val c)" "digit_val c < 10"
    by (auto simp: digit_value_def digit_val_def is_digit_def)
  with Cons show ?case by (simp add: mult.commute)
qed simp

lemma numeral_value_decimal: "numeral_value 10 0 (decimal n) = Some n"
  using decimal_digits [of n] numeral_value_digits [of "decimal n" 0]
  by (simp add: digits_value_def)

lemma decimal_head:
  obtains c cs where "decimal n = c # cs" "is_digit c"
  using decimal_digits [of n] by (cases "decimal n") auto

lemma parse_digits:
  fixes v :: "'a::len word"
  assumes "is_digit c"
  shows "parse_pascal_integer sg (c # cs) =
    (case digit_loop 10 (val_max sg 10 False) 0 0 (c # cs) of
       Inl p \<Rightarrow> (0, int p + 1) | Inr v \<Rightarrow> (v :: 'a word, 0))"
proof -
  have c: "c \<noteq> CHR '' ''" "c \<noteq> tab" "c \<noteq> CHR ''+''" "c \<noteq> CHR ''-''" "c \<noteq> CHR ''$''"
    "c \<noteq> CHR ''&''" "c \<noteq> CHR ''%''"
    using assms by (auto simp: is_digit_def code_def)
  show ?thesis by (simp add: parse_pascal_integer_def read_sign_def read_base_def Let_def c cong: sum.case_cong)
qed

lemma parse_minus_digits:
  assumes "is_digit c"
  shows "parse_pascal_integer True (CHR ''-'' # c # cs) =
    (case digit_loop 10 (val_max True 10 True) 0 1 (c # cs) of
       Inl p \<Rightarrow> (0, int p + 1) | Inr v \<Rightarrow> (- v :: 'a::len word, 0))"
proof -
  have c: "c \<noteq> CHR ''$''" "c \<noteq> CHR ''&''" "c \<noteq> CHR ''%''"
    using assms by (auto simp: is_digit_def code_def)
  show ?thesis by (simp add: parse_pascal_integer_def read_sign_def read_base_def Let_def c cong: sum.case_cong)
qed

lemma byte_fits: "8 \<le> LENGTH('a::len) \<Longrightarrow> (256::nat) \<le> 2 ^ LENGTH('a)"
  using power_increasing [of 8 "LENGTH('a)" "2::nat"] by simp

lemma val_max_values:
  fixes b :: nat
  assumes "8 \<le> LENGTH('a::len)"
  shows "unat (val_max False b n :: 'a word) = 2 ^ LENGTH('a) - 1"
    and "b \<noteq> 10 \<Longrightarrow> unat (val_max True b n :: 'a word) = 2 ^ LENGTH('a) - 1"
    and "unat (val_max True 10 False :: 'a word) = 2 ^ (LENGTH('a) - 1) - 1"
    and "unat (val_max True 10 True :: 'a word) = 2 ^ (LENGTH('a) - 1)"
proof -
  have all: "unat (- 1 :: 'a word) = 2 ^ LENGTH('a) - 1"
    by (simp add: unsigned_minus_1_eq_mask mask_eq_exp_minus_1)
  then show "unat (val_max False b n :: 'a word) = 2 ^ LENGTH('a) - 1"
    "b \<noteq> 10 \<Longrightarrow> unat (val_max True b n :: 'a word) = 2 ^ LENGTH('a) - 1"
    by (simp_all add: val_max_def limits_max_def)
  let ?m = "LENGTH('a) - 1"
  have m: "?m < LENGTH('a)" by simp
  have lt: "(2::nat) ^ ?m < 2 ^ LENGTH('a)" by (rule power_strict_increasing [OF m]) simp
  have "(limits_max True :: 'a word) = mask ?m"
    by (rule bit_eqI) (auto simp: limits_max_def bit_simps)
  also have "\<dots> = of_nat (2 ^ ?m - 1)" by (simp only: of_nat_mask_eq mask_eq_exp_minus_1 [symmetric])
  finally have "unat (limits_max True :: 'a word) = unat (of_nat (2 ^ ?m - 1) :: 'a word)"
    by (rule arg_cong)
  also have "\<dots> = 2 ^ ?m - 1" unfolding unat_of_nat using lt by (intro mod_less) linarith
  finally have half: "unat (limits_max True :: 'a word) = 2 ^ ?m - 1" .
  then show "unat (val_max True 10 False :: 'a word) = 2 ^ ?m - 1" by (simp add: val_max_def)
  from lt have "unat (limits_max True + 1 :: 'a word) = 2 ^ ?m"
    by (simp add: unat_word_ariths half)
  then show "unat (val_max True 10 True :: 'a word) = 2 ^ ?m" by (simp add: val_max_def)
qed

lemma parse_signed:
  assumes "8 \<le> LENGTH('a::len)" "- (2 ^ (LENGTH('a) - 1)) \<le> v" "v < 2 ^ (LENGTH('a) - 1)"
  shows "parse_pascal_integer True (format_signed v) = (word_of_int v :: 'a word, 0)"
proof -
  have len: "(10::nat) < 2 ^ LENGTH('a)" "(10::nat) \<le> 2 ^ (LENGTH('a) - 1) - 1"
    using byte_fits [OF assms(1)] power_increasing [of 7 "LENGTH('a) - 1" "2::nat"] assms(1) by auto
  note mx = val_max_values [OF assms(1)]
  show ?thesis
  proof (cases "v < 0")
    case True
    obtain c cs where d: "decimal (nat (- v)) = c # cs" "is_digit c" by (rule decimal_head)
    have n: "numeral_value 10 0 (c # cs) = Some (nat (- v))"
      using numeral_value_decimal [of "nat (- v)"] d(1) by simp
    have "int (nat (- v)) \<le> int (2 ^ (LENGTH('a) - 1))" using assms(2) True by simp
    then have le: "nat (- v) \<le> unat (val_max True 10 True :: 'a word)" unfolding mx(4) by linarith
    have "digit_loop 10 (val_max True 10 True) 0 1 (c # cs) = Inr (of_nat (nat (- v)) :: 'a word)"
      using len mx(4) by (intro digit_loop_exact(1) [OF _ _ _ _ n le]) auto
    moreover have "- (of_nat (nat (- v)) :: 'a word) = word_of_int v" using True by simp
    ultimately show ?thesis using True d by (simp add: format_signed_def parse_minus_digits)
  next
    case False
    obtain c cs where d: "decimal (nat v) = c # cs" "is_digit c" by (rule decimal_head)
    have n: "numeral_value 10 0 (c # cs) = Some (nat v)"
      using numeral_value_decimal [of "nat v"] d(1) by simp
    have "int (nat v) < int (2 ^ (LENGTH('a) - 1))" using assms(3) False by simp
    then have "nat v < 2 ^ (LENGTH('a) - 1)" by linarith
    then have le: "nat v \<le> unat (val_max True 10 False :: 'a word)" unfolding mx(3) by linarith
    have "digit_loop 10 (val_max True 10 False) 0 0 (c # cs) = Inr (of_nat (nat v) :: 'a word)"
      using len mx(3) by (intro digit_loop_exact(1) [OF _ _ _ _ n le]) auto
    then show ?thesis using False d by (simp add: format_signed_def parse_digits)
  qed
qed

lemma parse_unsigned:
  assumes "8 \<le> LENGTH('a::len)" "n < 2 ^ LENGTH('a)"
  shows "parse_pascal_integer False (decimal n) = (of_nat n :: 'a word, 0)"
proof -
  obtain c cs where d: "decimal n = c # cs" "is_digit c" by (rule decimal_head)
  have v: "numeral_value 10 0 (c # cs) = Some n" using numeral_value_decimal [of n] d(1) by simp
  note mx = val_max_values(1) [OF assms(1), of 10 False]
  have "n \<le> unat (val_max False 10 False :: 'a word)" unfolding mx using assms(2) by simp
  then have "digit_loop 10 (val_max False 10 False) 0 0 (c # cs) = Inr (of_nat n :: 'a word)"
    using byte_fits [OF assms(1)] mx by (intro digit_loop_exact(1) [OF _ _ _ _ v]) auto
  then show ?thesis using d by (simp add: parse_digits)
qed

lemma format_length: "length (decimal n) \<le> k" if "n < 10 ^ k" "0 < k"
  using that
proof (induction k arbitrary: n)
  case (Suc k)
  show ?case
  proof (cases "n < 10")
    case False
    with Suc.prems have "0 < k" by (cases k) auto
    moreover have "n div 10 < 10 ^ k"
      using Suc.prems(1) by (intro less_mult_imp_div_less) (simp add: mult.commute)
    ultimately show ?thesis using Suc.IH [of "n div 10"] False by (simp add: decimal.simps [of n])
  qed (simp add: decimal.simps [of n])
qed simp

lemma no_nul_decimal: "nul \<notin> set (decimal n)"
  using decimal_digits [of n] by (auto simp: list_all_iff is_digit_def code_def)

lemma str_text:
  assumes "length s \<le> cp" "1 \<le> cp" "cp \<le> 255" "nul \<notin> set s"
  shows "stext (sstr_of_cstr cp (Some s)) = s"
proof -
  have "takeWhile (\<lambda>c. c \<noteq> nul) s = s" using assms(4) by auto
  with assms sstr_of_cstr_facts(1) [OF assms(2,3), of s] show ?thesis by simp
qed

lemma str_signed_text:
  fixes v :: u32
  assumes "11 \<le> cp" "cp \<le> 255"
  shows "stext (p_str_signed cp v) = format_signed (sint v)"
proof -
  have r: "- (2 ^ 31) \<le> sint v" "sint v < 2 ^ 31" using sint_ge [of v] sint_lt [of v] by simp_all
  then have "nat (sint v) < 10 ^ 10" "nat (- sint v) < 10 ^ 10" by (simp_all add: nat_less_iff)
  then have "length (decimal (nat (sint v))) \<le> 10" "length (decimal (nat (- sint v))) \<le> 10"
    by (auto intro: format_length)
  then have "length (format_signed (sint v)) \<le> cp" using assms(1) by (simp add: format_signed_def)
  moreover have "nul \<notin> set (format_signed (sint v))"
    using no_nul_decimal by (simp add: format_signed_def)
  ultimately show ?thesis using assms by (simp add: p_str_signed_def str_text)
qed

lemma str_unsigned_text:
  fixes v :: "'a::len word"
  assumes "LENGTH('a) \<le> 64" "20 \<le> cp" "cp \<le> 255"
  shows "stext (p_str_unsigned cp v) = decimal (unat v)"
proof -
  have "unat v < 2 ^ LENGTH('a)" by (rule unsigned_less)
  also have "(2::nat) ^ LENGTH('a) \<le> 2 ^ 64" using assms(1) by (rule power_increasing) simp
  also have "\<dots> \<le> 10 ^ 20" by simp
  finally have "length (decimal (unat v)) \<le> 20" by (rule format_length) simp
  then show ?thesis using assms no_nul_decimal
    by (simp add: p_str_unsigned_def str_text)
qed

subsection \<open>Properties\<close>

text \<open>
  C29. Round trip. \<open>Val\<close> reads back what \<open>Str\<close> writes: every 32-bit signed number, and every
  unsigned number of 16, 32 and 64 bits, comes back unchanged with error code 0, through any
  short string of capacity 20 or more, which has room for all their digits. \<open>Val\<close> has no form for
  signed 64-bit numbers.
\<close>

theorem val_reads_str:
  fixes v :: u32 and w16 :: "16 word" and w64 :: u64
  assumes "20 \<le> cp" "cp \<le> 255"
  shows "p_val32 (p_str_signed cp v) = (v, 0) \<and>
    p_val_uint (p_str_unsigned cp w16) = (w16, 0) \<and>
    p_val_uint (p_str_unsigned cp v) = (v, 0) \<and>
    p_val_uint (p_str_unsigned cp w64) = (w64, 0)"
proof -
  have lt: "unat w16 < 2 ^ 16" "unat v < 2 ^ 32" "unat w64 < 2 ^ 64"
    using unsigned_less [of w16] unsigned_less [of v] unsigned_less [of w64] by simp_all
  have "parse_pascal_integer True (stext (p_str_signed cp v)) = (v, 0)"
    using parse_signed [where 'a = 32, of "sint v"] sint_ge [of v] sint_lt [of v] assms
    by (simp add: str_signed_text)
  then have one: "p_val32 (p_str_signed cp v) = (v, 0)" by (simp add: p_val32_def stext_def)
  have "parse_pascal_integer False (stext (p_str_unsigned cp w16)) = (of_nat (unat w16) :: u32, 0)"
    using parse_unsigned [where 'a = 32, of "unat w16"] lt assms by (simp add: str_unsigned_text)
  moreover have "unat (ucast w16 :: u32) = unat w16"
    using lt by (simp add: unsigned_ucast_eq take_bit_nat_eq_self)
  moreover have "ucast (ucast w16 :: u32) = w16" by (rule bit_word_eqI) (simp add: bit_simps)
  ultimately have two: "p_val_uint (p_str_unsigned cp w16) = (w16, 0)"
    using lt by (simp add: p_val_uint_def stext_def)
  have "parse_pascal_integer False (stext (p_str_unsigned cp v)) = (v, 0)"
    using parse_unsigned [where 'a = 32, of "unat v"] lt assms by (simp add: str_unsigned_text)
  then have three: "p_val_uint (p_str_unsigned cp v) = (v, 0)"
    using lt by (simp add: p_val_uint_def stext_def)
  have "parse_pascal_integer False (stext (p_str_unsigned cp w64)) = (w64, 0)"
    using parse_unsigned [where 'a = 64, of "unat w64"] lt assms by (simp add: str_unsigned_text)
  then have "p_val_uint (p_str_unsigned cp w64) = (w64, 0)"
    using lt by (simp add: p_val_uint_def stext_def)
  with one two three show ?thesis by blast
qed

text \<open>The round trip of the smallest signed number.\<close>

theorem val_reads_str_witness:
  "p_val32 (p_str_signed 255 (0x80000000 :: u32)) = (0x80000000, 0)"
  using val_reads_str [where cp = 255 and v = "0x80000000"] by simp

end
