(* ===== verification/Unit_Init.thy ===== *)
theory Unit_Init
  imports Unit_Graph Runtime_Units
begin

text \<open>
  The order in which the units of a program start up: \<open>collect_unit_init_order\<close> of
  \<open>src/main.cc\<close>, a depth-first walk over both kinds of \<open>uses\<close> clauses. Implementation uses
  may be cyclic; a unit that is already being expanded is not entered again.
\<close>

subsection \<open>The walk\<close>

text \<open>The units the walk enters: parsed, usable, and not a program.\<close>

definition startup_unit :: "units \<Rightarrow> string \<Rightarrow> unit_node option" where
  "startup_unit us dep =
     (case lookup_unit us (lower dep) of
        None \<Rightarrow> None
      | Some pu \<Rightarrow>
          (case pu_ast pu of
             None \<Rightarrow> None
           | Some a \<Rightarrow> if \<not> pu_ok pu \<or> un_is_program a then None else Some a))"

lemma startup_unit_key:
  assumes "startup_unit us dep = Some a"
  shows "lower dep \<in> set (unit_keys us)"
proof -
  obtain pu where "map_of (entries us) (lower dep) = Some pu"
    using assms by (auto simp: startup_unit_def lookup_unit_def entries_def DAList.lookup.rep_eq
      split: option.splits)
  then have "lower dep \<in> fst ` set (entries us)"
    by (rule map_of_SomeD [THEN imageI, of _ _ _ fst, unfolded fst_conv])
  then show ?thesis by (simp add: unit_keys_def)
qed

text \<open>
  \<open>active\<close> is the stack of units being expanded. \<open>emitted\<close> and \<open>out\<close> are one list here: both
  hold the same names, \<open>out\<close> in the order they were inserted.
\<close>

function visit_unit_init_dep :: "units \<Rightarrow> string list \<Rightarrow> string \<Rightarrow> string list \<Rightarrow> string list"
  and visit_uses :: "units \<Rightarrow> string list \<Rightarrow> string list \<Rightarrow> string list \<Rightarrow> string list" where
  "visit_unit_init_dep us active dep out =
     (let name = lower dep
      in case startup_unit us dep of
           None \<Rightarrow> out
         | Some a \<Rightarrow>
             if name \<in> set out \<or> name \<in> set active then out
             else let out1 = visit_uses us (name # active) (un_interface_uses a @ un_impl_uses a) out
                  in if name \<in> set out1 then out1 else out1 @ [name])"
| "visit_uses us active [] out = out"
| "visit_uses us active (d # ds) out = visit_uses us active ds (visit_unit_init_dep us active d out)"
  by pat_completeness auto
termination
proof (relation "measures [\<lambda>x. case x of
      Inl (us, active, dep, out) \<Rightarrow> card (set (unit_keys us) - set active)
    | Inr (us, active, ds, out) \<Rightarrow> card (set (unit_keys us) - set active),
    \<lambda>x. case x of Inl _ \<Rightarrow> 0 | Inr (us, active, ds, out) \<Rightarrow> length ds]", goal_cases)
  case (2 us active dep out name a)
  have "lower dep \<in> set (unit_keys us) - set active"
    using 2(2-) startup_unit_key [of us dep a] 2(1) by (auto simp only: Diff_iff)
  then have "card (set (unit_keys us) - set active - {lower dep}) < card (set (unit_keys us) - set active)"
    by (intro card_Diff1_less) auto
  moreover have "set (unit_keys us) - set (name # active) = set (unit_keys us) - set active - {lower dep}"
    using 2(1) by auto
  ultimately show ?case by simp
qed auto

definition collect_unit_init_order :: "units \<Rightarrow> unit_node \<Rightarrow> string list" where
  "collect_unit_init_order us u = visit_uses us [] (un_interface_uses u @ un_impl_uses u) []"

subsection \<open>What the order guarantees\<close>

text \<open>The direct uses of a unit that take part in the startup.\<close>

definition startup_names :: "units \<Rightarrow> string list \<Rightarrow> string set" where
  "startup_names us ds = {y. \<exists>u \<in> set ds. y = lower u \<and> startup_unit us u \<noteq> None}"

definition startup_edges :: "units \<Rightarrow> (string \<times> string) set" where
  "startup_edges us = {(x, y). \<exists>a. startup_unit us x = Some a \<and>
     y \<in> startup_names us (un_interface_uses a @ un_impl_uses a)}"

lemma startup_unit_lower [simp]: "startup_unit us (lower d) = startup_unit us d"
  by (simp add: startup_unit_def)

lemma startup_names_simps [simp]:
  "startup_names us [] = {}"
  "startup_names us (d # ds) =
     (if startup_unit us d = None then {} else {lower d}) \<union> startup_names us ds"
  by (auto simp: startup_names_def)

lemma edges_of: "startup_unit us d = Some a \<Longrightarrow>
    startup_edges us `` {lower d} = startup_names us (un_interface_uses a @ un_impl_uses a)"
  by (auto simp: startup_edges_def)

text \<open>
  Every unit of the list comes after the units it uses, except for those that need it
  themselves.
\<close>

definition initialised_after :: "(string \<times> string) set \<Rightarrow> string list \<Rightarrow> bool" where
  "initialised_after r xs \<longleftrightarrow> (\<forall>i < length xs. \<forall>y. (xs ! i, y) \<in> r \<longrightarrow>
     y \<in> set (take i xs) \<or> (y, xs ! i) \<in> r\<^sup>*)"

lemma initialised_after_snoc:
  "initialised_after r xs \<Longrightarrow> (\<And>y. (x, y) \<in> r \<Longrightarrow> y \<in> set xs \<or> (y, x) \<in> r\<^sup>*) \<Longrightarrow>
   initialised_after r (xs @ [x])"
  by (auto simp: initialised_after_def nth_append less_Suc_eq)

text \<open>
  The invariant of the walk: the list is duplicate free and in order, and the uses of its
  members are in it or on the stack.
\<close>

definition walk_inv :: "units \<Rightarrow> string set \<Rightarrow> string list \<Rightarrow> bool" where
  "walk_inv us A out \<longleftrightarrow> distinct out \<and> initialised_after (startup_edges us) out \<and>
     startup_edges us `` set out \<subseteq> set out \<union> A"

text \<open>What a visit adds lies below the names \<open>B\<close> it starts from and is not on the stack.\<close>

definition walk_step :: "units \<Rightarrow> string set \<Rightarrow> string set \<Rightarrow> string list \<Rightarrow> string list \<Rightarrow> bool" where
  "walk_step us A B out out' \<longleftrightarrow> walk_inv us A out' \<and> set out \<subseteq> set out' \<and>
     set out' \<subseteq> set out \<union> (startup_edges us)\<^sup>* `` B \<and> (set out' - set out) \<inter> A = {} \<and>
     B \<subseteq> set out' \<union> A"

lemma walk_step_trans:
  assumes "walk_step us A B xs ys" "walk_step us A C ys zs"
  shows "walk_step us A (B \<union> C) xs zs"
  using assms unfolding walk_step_def by (auto simp: Image_Un)

lemma walk_enter:
  assumes u: "startup_unit us d = Some a"
    and B: "B = startup_names us (un_interface_uses a @ un_impl_uses a)"
    and st: "walk_step us (insert (lower d) A) B out out1"
    and new: "lower d \<notin> set out" "lower d \<notin> A"
    and up: "\<And>x. x \<in> A \<Longrightarrow> (x, lower d) \<in> (startup_edges us)\<^sup>*"
  shows "lower d \<notin> set out1" "walk_step us A {lower d} out (out1 @ [lower d])"
proof -
  let ?E = "startup_edges us" and ?n = "lower d"
  have E: "?E `` {?n} = B" using edges_of [OF u] B by simp
  show n: "?n \<notin> set out1" using st new by (auto simp: walk_step_def)
  have "?E\<^sup>* `` B \<subseteq> ?E\<^sup>* `` {?n}"
    using E by (auto intro: converse_rtrancl_into_rtrancl)
  moreover have "y \<in> set out1 \<or> (y, ?n) \<in> ?E\<^sup>*" if "(?n, y) \<in> ?E" for y
    using that st E up by (auto simp: walk_step_def)
  ultimately show "walk_step us A {?n} out (out1 @ [?n])"
    using st n new E by (auto simp: walk_step_def walk_inv_def intro!: initialised_after_snoc)
qed

lemma walk:
  "walk_inv us (set A) out \<Longrightarrow>
   (\<And>x. startup_unit us dep \<noteq> None \<Longrightarrow> x \<in> set A \<Longrightarrow> (x, lower dep) \<in> (startup_edges us)\<^sup>*) \<Longrightarrow>
   walk_step us (set A) (startup_names us [dep]) out (visit_unit_init_dep us A dep out)"
  "walk_inv us (set A) out \<Longrightarrow>
   (\<And>x y. y \<in> startup_names us ds \<Longrightarrow> x \<in> set A \<Longrightarrow> (x, y) \<in> (startup_edges us)\<^sup>*) \<Longrightarrow>
   walk_step us (set A) (startup_names us ds) out (visit_uses us A ds out)"
proof (induction us A dep out and us A ds out rule: visit_unit_init_dep_visit_uses.induct)
  case (1 us A dep out)
  show ?case
  proof (cases "startup_unit us dep")
    case None
    with 1 show ?thesis by (simp add: walk_step_def)
  next
    case (Some a)
    show ?thesis
    proof (cases "lower dep \<in> set out \<or> lower dep \<in> set A")
      case True
      with Some 1 show ?thesis by (auto simp: walk_step_def)
    next
      case False
      let ?B = "startup_names us (un_interface_uses a @ un_impl_uses a)"
      have "(x, y) \<in> (startup_edges us)\<^sup>*" if "y \<in> ?B" "x \<in> set (lower dep # A)" for x y
      proof -
        have "(lower dep, y) \<in> startup_edges us" using edges_of [OF Some] that(1) by auto
        then show ?thesis using that(2) 1(3) [of x] Some by (auto intro: rtrancl_into_rtrancl)
      qed
      moreover have "walk_inv us (set (lower dep # A)) out"
        using 1(2) by (auto simp: walk_inv_def)
      ultimately have "walk_step us (insert (lower dep) (set A)) ?B out
          (visit_uses us (lower dep # A) (un_interface_uses a @ un_impl_uses a) out)"
        using 1(1) [OF refl Some False] by simp
      from walk_enter [OF Some refl this] False Some 1(3)
      show ?thesis by (simp add: Let_def)
    qed
  qed
next
  case (3 us A d ds out)
  let ?out = "visit_unit_init_dep us A d out"
  have 1: "walk_step us (set A) (startup_names us [d]) out ?out"
    using 3(1,3,4) by (auto split: if_splits)
  then have "walk_inv us (set A) ?out" by (simp add: walk_step_def)
  with 3(2,4) have "walk_step us (set A) (startup_names us ds) ?out (visit_uses us A ds ?out)"
    by simp
  from walk_step_trans [OF 1 this] show ?case by simp
qed (simp add: walk_step_def)

text \<open>
  C22. The startup order of a program names exactly the usable units it reaches through \<open>uses\<close>
  clauses of interfaces and implementations, each once, and no program. A unit starts after
  every unit it uses unless that unit needs it in turn, so without cycles dependencies
  always come first.
\<close>

theorem startup_order:
  "distinct (collect_unit_init_order us u) \<and>
   set (collect_unit_init_order us u) =
     (startup_edges us)\<^sup>* `` startup_names us (un_interface_uses u @ un_impl_uses u) \<and>
   initialised_after (startup_edges us) (collect_unit_init_order us u)"
proof -
  let ?B = "startup_names us (un_interface_uses u @ un_impl_uses u)"
  have "walk_step us {} ?B [] (collect_unit_init_order us u)"
    using walk(2) [of us "[]" "[]" "un_interface_uses u @ un_impl_uses u"]
    by (simp add: collect_unit_init_order_def walk_inv_def initialised_after_def)
  then have w: "walk_inv us {} (collect_unit_init_order us u)"
    "set (collect_unit_init_order us u) \<subseteq> (startup_edges us)\<^sup>* `` ?B"
    "?B \<subseteq> set (collect_unit_init_order us u)"
    by (auto simp: walk_step_def)
  then have "(startup_edges us)\<^sup>* `` ?B \<subseteq> set (collect_unit_init_order us u)"
    using Image_closed_trancl [of "startup_edges us" "set (collect_unit_init_order us u)"]
    by (auto simp: walk_inv_def)
  with w show ?thesis by (auto simp: walk_inv_def)
qed

end
