(* ===== verification/Driver.thy ===== *)
theory Driver
  imports Unit_Init Makefile_Emit
begin

text \<open>
  The command line of \<open>src/main.cc\<close> and the command \<open>emit-all\<close>: options, target, the loop that
  translates the units in topological order, the files it writes and its exit status.

  Parameters: the emitter (\<open>emit_unit\<close>, which may report errors), the values a run-time unit
  exports according to the registry, and the absolute form of a path.
\<close>

subsection \<open>Options\<close>

record cli =
  cli_defines :: "string list"
  cli_unit_paths :: "string list"
  cli_include_paths :: "string list"
  cli_regen_args :: "string list"
  cli_overflow_check :: bool
  cli_range_check :: bool
  cli_makefile :: bool
  cli_cpu :: string
  cli_positional :: "string list"

text \<open>What scanning the arguments yields: the options, or the status to exit with.\<close>

type_synonym cli_result = "nat + cli"

definition no_options :: cli where
  "no_options = \<lparr>cli_defines = [], cli_unit_paths = [], cli_include_paths = [],
     cli_regen_args = [], cli_overflow_check = False, cli_range_check = False,
     cli_makefile = False, cli_cpu = [], cli_positional = []\<rparr>"

definition keep_arg :: "string \<Rightarrow> cli \<Rightarrow> cli" where
  "keep_arg a c = c\<lparr>cli_regen_args := cli_regen_args c @ [a]\<rparr>"

definition has_prefix_and_more :: "string \<Rightarrow> string \<Rightarrow> bool" where
  "has_prefix_and_more p a \<longleftrightarrow> length a > length p \<and> take (length p) a = p"

text \<open>One argument before \<open>--\<close>.\<close>

definition cli_option :: "string \<Rightarrow> cli \<Rightarrow> cli_result" where
  "cli_option a c =
     (if a \<in> {''-h'', ''--help''} then Inl 0
      else if a = ''-m'' then Inr (c\<lparr>cli_makefile := True\<rparr>)
      else if has_prefix_and_more ''-d'' a
      then Inr (keep_arg a (c\<lparr>cli_defines := cli_defines c @ [drop 2 a]\<rparr>))
      else if has_prefix_and_more ''-Fu'' a
      then Inr (keep_arg a (c\<lparr>cli_unit_paths := cli_unit_paths c @ [drop 3 a]\<rparr>))
      else if has_prefix_and_more ''-Fi'' a
      then Inr (keep_arg a (c\<lparr>cli_include_paths := cli_include_paths c @ [drop 3 a]\<rparr>))
      else if a = ''-Co'' then Inr (keep_arg a (c\<lparr>cli_overflow_check := True\<rparr>))
      else if a = ''-Cr'' then Inr (keep_arg a (c\<lparr>cli_range_check := True\<rparr>))
      else if has_prefix_and_more ''-P'' a then Inr (keep_arg a (c\<lparr>cli_cpu := drop 2 a\<rparr>))
      else if a \<noteq> [] \<and> hd a = CHR ''-'' then Inl 2
      else Inr (c\<lparr>cli_positional := cli_positional c @ [a]\<rparr>))"

text \<open>The arguments after the subcommand.\<close>

primrec parse_cli :: "string list \<Rightarrow> cli \<Rightarrow> cli_result" where
  "parse_cli [] c = Inr c"
| "parse_cli (a # as) c =
     (if a = ''--'' then Inr (c\<lparr>cli_positional := cli_positional c @ as\<rparr>)
      else case cli_option a c of Inl n \<Rightarrow> Inl n | Inr c' \<Rightarrow> parse_cli as c')"

text \<open>The command the Makefile runs to translate again.\<close>

definition make_regen_tp2cc_args :: "(string \<Rightarrow> string) \<Rightarrow> string \<Rightarrow> cli \<Rightarrow> string \<Rightarrow> string list" where
  "make_regen_tp2cc_args absolute subcommand c input =
     subcommand # cli_regen_args c @ [''--'', absolute input, ''.'']"

subsection \<open>Target\<close>

definition cpus_32 :: "string list" where
  "cpus_32 = [''i386'', ''m68k'', ''powerpc'', ''sparc'', ''mips'', ''mipsel'', ''arm'',
     ''i8086'', ''avr'', ''vm'', ''jvm'', ''wasm'']"

definition cpus_64 :: "string list" where
  "cpus_64 = [''x86_64'', ''aarch64'', ''powerpc64'', ''sparc64'', ''ia64'', ''alpha'']"

text \<open>\<open>host_bits\<close> is the pointer width of the machine tp2cc runs on; \<open>Inl 2\<close> is \<open>exit(2)\<close>.\<close>

definition target_info_for_cpu :: "nat \<Rightarrow> string \<Rightarrow> nat + nat" where
  "target_info_for_cpu host_bits cpu =
     (if cpu = [] then Inr host_bits
      else if lower cpu \<in> set cpus_32 then Inr 32
      else if lower cpu \<in> set cpus_64 then Inr 64
      else Inl 2)"

subsection \<open>Headers of run-time units\<close>

definition write_runtime_unit_shim :: "string \<Rightarrow> string set \<Rightarrow> string" where
  "write_runtime_unit_shim name values =
     lines ([''// tp2cc: runtime-backed Pascal unit '' @ [quote] @ name @ [quote] @ ''.'',
       ''#pragma once'', ''#include '' @ [dquote] @ ''tp2cc_rt/prelude.h'' @ [dquote],
       ''namespace p_'' @ name @ '' {''] @
       map (\<lambda>v. ''using ::rt::p_'' @ v @ '';'') (sorted_list_of_set values) @
       [''}  // namespace p_'' @ name])"

definition runtime_unit_refs_in_uses :: "units \<Rightarrow> string list \<Rightarrow> string list" where
  "runtime_unit_refs_in_uses us uses =
     filter (\<lambda>u. lookup_unit us u = None \<and> runtime_unit_model u \<noteq> None) (map lower uses)"

subsection \<open>The command \<open>emit-all\<close>\<close>

record translation =
  tr_emitted :: nat
  tr_failed :: nat
  tr_refs :: "string set"
  tr_pas :: "string list"
  tr_cc :: "string list"
  tr_headers :: "string list"
  tr_program :: string
  tr_files :: "(string \<times> string) list"

definition unit_file :: "string \<Rightarrow> string \<Rightarrow> string" where
  "unit_file name ext = ''p_'' @ name @ ext"

definition write_file :: "string \<Rightarrow> string \<Rightarrow> translation \<Rightarrow> translation" where
  "write_file f t s = s\<lparr>tr_files := tr_files s @ [(f, t)]\<rparr>"

text \<open>
  One unit. \<open>emit\<close> yields header and implementation, or \<open>None\<close> when it reported errors; the
  startup order is handed over for a program only.
\<close>

definition translate_unit ::
    "units \<Rightarrow> (unit_node \<Rightarrow> string list option \<Rightarrow> (string \<times> string) option) \<Rightarrow> (string \<Rightarrow> string) \<Rightarrow>
     string \<Rightarrow> translation \<Rightarrow> translation" where
  "translate_unit us emit absolute name s =
     (case lookup_unit us name of
        None \<Rightarrow> s\<lparr>tr_failed := Suc (tr_failed s)\<rparr>
      | Some pu \<Rightarrow>
          (case pu_ast pu of
             None \<Rightarrow> s\<lparr>tr_failed := Suc (tr_failed s)\<rparr>
           | Some u \<Rightarrow>
               if \<not> pu_ok pu then s\<lparr>tr_failed := Suc (tr_failed s)\<rparr>
               else case emit u (if un_is_program u then Some (collect_unit_init_order us u) else None) of
                 None \<Rightarrow> s\<lparr>tr_failed := Suc (tr_failed s)\<rparr>
               | Some (header, impl) \<Rightarrow>
                   let s1 = write_file (unit_file name ''.cc'') impl
                              (write_file (unit_file name ''.h'') header s)
                   in s1\<lparr>tr_pas := tr_pas s @ [absolute (pu_path pu)],
                         tr_cc := tr_cc s @ [unit_file name ''.cc''],
                         tr_headers := tr_headers s @ [unit_file name ''.h''],
                         tr_program := (if un_is_program u \<and> tr_program s = [] then name else tr_program s),
                         tr_refs := tr_refs s \<union> set (runtime_unit_refs_in_uses us (un_interface_uses u))
                           \<union> set (runtime_unit_refs_in_uses us (un_impl_uses u)),
                         tr_emitted := Suc (tr_emitted s)\<rparr>))"

text \<open>One run-time unit that is referred to: an empty file when the registry lacks it.\<close>

definition write_shim :: "(string \<Rightarrow> string set option) \<Rightarrow> string \<Rightarrow> translation \<Rightarrow> translation" where
  "write_shim exports u s =
     (case exports u of
        None \<Rightarrow> (write_file (unit_file u ''.h'') [] s)\<lparr>tr_failed := Suc (tr_failed s)\<rparr>
      | Some values \<Rightarrow>
          (write_file (unit_file u ''.h'') (write_runtime_unit_shim u values) s)
            \<lparr>tr_headers := tr_headers s @ [unit_file u ''.h'']\<rparr>)"

definition empty_translation :: translation where
  "empty_translation = \<lparr>tr_emitted = 0, tr_failed = 0, tr_refs = {}, tr_pas = [], tr_cc = [],
     tr_headers = [], tr_program = [], tr_files = []\<rparr>"

definition translate_all ::
    "units \<Rightarrow> (unit_node \<Rightarrow> string list option \<Rightarrow> (string \<times> string) option) \<Rightarrow> (string \<Rightarrow> string) \<Rightarrow>
     (string \<Rightarrow> string set option) \<Rightarrow> string list \<Rightarrow> translation" where
  "translate_all us emit absolute exports order =
     (let s = fold (translate_unit us emit absolute) order empty_translation
      in fold (write_shim exports) (sorted_list_of_set (tr_refs s)) s)"

text \<open>
  \<open>cmd_emit_all\<close> behind discovery: the exit status and the files written. \<open>derr\<close> is the number
  of errors of discovery, \<open>program\<close> and \<open>includes\<close> locate tp2cc itself.
\<close>

definition cmd_emit_all ::
    "cli \<Rightarrow> string \<Rightarrow> nat \<Rightarrow> units \<Rightarrow> (unit_node \<Rightarrow> string list option \<Rightarrow> (string \<times> string) option) \<Rightarrow>
     (string \<Rightarrow> string) \<Rightarrow> (string \<Rightarrow> string set option) \<Rightarrow> string \<Rightarrow> string list \<Rightarrow>
     nat \<times> (string \<times> string) list" where
  "cmd_emit_all c input derr us emit absolute exports program includes =
     (let (order, cycles) = topo_sort us
      in if cycles \<noteq> [] then (1, [])
         else let s = translate_all us emit absolute exports order;
                  mk = emit_makefile \<lparr>cc_sources = tr_cc s, headers = tr_headers s,
                    pas_sources = tr_pas s, tp2cc_program = program, include_dirs = includes,
                    tp2cc_args = make_regen_tp2cc_args absolute ''emit-all'' c input,
                    program_name = tr_program s\<rparr>
              in (if tr_failed s = 0 \<and> derr = 0 then 0 else 1,
                  tr_files s @ (if cli_makefile c then [(''Makefile'', mk)] else [])))"

end
