(* ===== verification/Unit_Sessions.thy ===== *)
theory Unit_Sessions
  imports Unit_Graph Runtime_Units Parse_Actions
begin

text \<open>
  Discovery of the units of a program: the part of \<open>UnitGraph\<close> (\<open>src/units.cc\<close>, lines 17--336)
  that finds and parses files. Every file has one session. Its interface is parsed when it
  is first imported, from within the parse of its importer; the implementations wait until
  every interface is there.

  The parser of a session is the model's: \<open>unit_run\<close> holds what the two halves of the parse
  do. The parse never looks at what its listener did, so a session first runs the parser and
  then replays the listener's calls in their order; only sums of errors are compared before
  and after a parse, so the interleaving of the two kinds of report does not matter.

  Parameters: the type registry, which answers each call with its new state and the number
  of errors it reported, and the file system.
\<close>

subsection \<open>Paths\<close>

text \<open>\<open>std::filesystem::path\<close>: file name, extension and stem.\<close>

definition slash :: char where "slash = CHR 0x2F"
definition dot :: char where "dot = CHR 0x2E"

definition file_name :: "string \<Rightarrow> string" where
  "file_name p = rev (takeWhile (\<lambda>c. c \<noteq> slash) (rev p))"

definition path_extension :: "string \<Rightarrow> string" where
  "path_extension p =
     (let f = file_name p; tail = takeWhile (\<lambda>c. c \<noteq> dot) (rev f)
      in if f = [dot, dot] \<or> dot \<notin> set f \<or> Suc (length tail) = length f then []
         else dot # rev tail)"

definition path_stem :: "string \<Rightarrow> string" where
  "path_stem p = take (length (file_name p) - length (path_extension p)) (file_name p)"

subsection \<open>What the parser does with a file\<close>

record unit_run =
  starts_unit :: bool
  head_actions :: "action list"
  head_errors :: nat
  head_node :: "unit_node option"
  impl_actions :: "action list"
  impl_errors :: nat
  impl_node :: "unit_node option"

text \<open>
  \<open>Parser(lexer, actions)\<close>, then \<open>parse_unit_interface()\<close> or \<open>parse()\<close>; later
  \<open>parse_unit_implementation()\<close> on the same parser.
\<close>

definition run_parser :: "lexed list \<Rightarrow> modes \<Rightarrow> unit_run" where
  "run_parser toks m =
     (let R = knot (length toks); s0 = new_parser toks m True
      in if tok_kind (ps_cur s0) = KwUnit
         then let (n1, s1) = run_state (parse_unit_interface R) s0;
                  (n2, s2) = run_state (parse_unit_implementation R) s1
              in \<lparr>starts_unit = True, head_actions = ps_actions s1,
                  head_errors = error_count (ps_diags s1), head_node = n1,
                  impl_actions = drop (length (ps_actions s1)) (ps_actions s2),
                  impl_errors = error_count (drop (length (ps_diags s1)) (ps_diags s2)),
                  impl_node = n2\<rparr>
         else let (n1, s1) = run_state (parse_source R) s0
              in \<lparr>starts_unit = False, head_actions = ps_actions s1,
                  head_errors = error_count (ps_diags s1), head_node = n1,
                  impl_actions = [], impl_errors = 0, impl_node = None\<rparr>)"

subsection \<open>Sessions\<close>

datatype (plugins only: code) phase = ParsingInterface | InterfaceReady | Complete | Failed

record session =
  ss_path :: string
  ss_name :: string
  ss_is_program :: bool
  ss_had_error :: bool
  ss_phase :: phase
  ss_run :: unit_run
  ss_ast :: "unit_node option"

text \<open>
  The state of a \<open>UnitGraph\<close> during discovery; \<open>dc_by_name\<close> holds the key of the session instead
  of a pointer to it, \<open>dc_errors\<close> is the global error counter and \<open>dc_reports\<close> are the reports
  of the graph itself.
\<close>

record 'r discovery =
  dc_units :: units
  dc_by_path :: "(string, session) alist"
  dc_by_name :: "string \<Rightarrow> string option"
  dc_registry :: 'r
  dc_errors :: nat
  dc_reports :: "diag list"

text \<open>\<open>TypeRegistry\<close> as its listener sees it.\<close>

datatype (plugins only: code) registry_call =
    BeginParsedUnit string
  | SetParsedUnitImports string "string list" bool
  | BindParsedDeclarations string "decl list" bool
  | BindParsedUnitBodies unit_node

record 'r host =
  path_key :: "string \<Rightarrow> string"
  load_source :: "string \<Rightarrow> unit_run option"
  unit_path_index :: "string \<Rightarrow> string option"
  registry_step :: "registry_call \<Rightarrow> 'r \<Rightarrow> 'r \<times> nat"

definition find_session :: "'r discovery \<Rightarrow> string \<Rightarrow> session option" where
  "find_session d k = DAList.lookup (dc_by_path d) k"

definition put_session :: "string \<Rightarrow> session \<Rightarrow> 'r discovery \<Rightarrow> 'r discovery" where
  "put_session k s d = d\<lparr>dc_by_path := DAList.update k s (dc_by_path d)\<rparr>"

definition change_session :: "string \<Rightarrow> (session \<Rightarrow> session) \<Rightarrow> 'r discovery \<Rightarrow> 'r discovery" where
  "change_session k f d = (case find_session d k of None \<Rightarrow> d | Some s \<Rightarrow> put_session k (f s) d)"

abbreviation fail_session :: "string \<Rightarrow> 'r discovery \<Rightarrow> 'r discovery" where
  "fail_session k \<equiv> change_session k (\<lambda>s. s\<lparr>ss_had_error := True\<rparr>)"

definition graph_error :: "location \<Rightarrow> string \<Rightarrow> 'r discovery \<Rightarrow> 'r discovery" where
  "graph_error l m d = d\<lparr>dc_errors := Suc (dc_errors d), dc_reports := dc_reports d @ [Err l m]\<rparr>"

definition graph_warning :: "location \<Rightarrow> string \<Rightarrow> 'r discovery \<Rightarrow> 'r discovery" where
  "graph_warning l m d = d\<lparr>dc_reports := dc_reports d @ [Warn l m]\<rparr>"

definition count_errors :: "nat \<Rightarrow> 'r discovery \<Rightarrow> 'r discovery" where
  "count_errors n d = d\<lparr>dc_errors := dc_errors d + n\<rparr>"

definition call_registry :: "'r host \<Rightarrow> registry_call \<Rightarrow> 'r discovery \<Rightarrow> 'r discovery" where
  "call_registry h c d =
     (let (r, n) = registry_step h c (dc_registry d)
      in count_errors n (d\<lparr>dc_registry := r\<rparr>))"

subsection \<open>The listener of a session\<close>

definition ticked :: "string \<Rightarrow> string" where
  "ticked s = [CHR 0x60] @ s @ [CHR 0x60]"

definition quoted :: "string \<Rightarrow> string" where
  "quoted s = [quote] @ s @ [quote]"

definition session_name :: "string \<Rightarrow> 'r discovery \<Rightarrow> string" where
  "session_name k d = (case find_session d k of None \<Rightarrow> [] | Some s \<Rightarrow> ss_name s)"

definition begin_compilation_unit ::
    "'r host \<Rightarrow> string \<Rightarrow> string \<Rightarrow> bool \<Rightarrow> 'r discovery \<Rightarrow> 'r discovery" where
  "begin_compilation_unit h k name is_program d =
     (let n = lower name;
          d1 = change_session k (\<lambda>s. s\<lparr>ss_name := n, ss_is_program := is_program\<rparr>) d;
          path = (case find_session d k of None \<Rightarrow> [] | Some s \<Rightarrow> ss_path s);
          d2 = (case dc_by_name d1 n of
                  Some other \<Rightarrow>
                    if other \<noteq> k
                    then graph_warning no_location (''duplicate unit '' @ quoted n @ '' at '' @ path) d1
                    else d1\<lparr>dc_by_name := (dc_by_name d1)(n \<mapsto> k)\<rparr>
                | None \<Rightarrow> d1\<lparr>dc_by_name := (dc_by_name d1)(n \<mapsto> k)\<rparr>);
          d3 = call_registry h (BeginParsedUnit n) d2
      in if DAList.lookup (dc_units d3) n = None
         then d3\<lparr>dc_units := DAList.update n
                \<lparr>pu_name = n, pu_path = path, pu_ast = None, pu_ok = False\<rparr> (dc_units d3)\<rparr>
         else d3)"

definition find_unit_path :: "'r host \<Rightarrow> string \<Rightarrow> string option" where
  "find_unit_path h name = unit_path_index h (lower name)"

text \<open>
  One imported unit. \<open>load\<close> is \<open>parse_recursive\<close>: the number it returns and the new state,
  \<open>None\<close> when it runs out of fuel.
\<close>

definition import_unit ::
    "'r host \<Rightarrow> (string \<Rightarrow> 'r discovery \<Rightarrow> (nat \<times> 'r discovery) option) \<Rightarrow> string \<Rightarrow>
     string \<Rightarrow> 'r discovery \<Rightarrow> 'r discovery option" where
  "import_unit h load k imported d =
     (let u = lower imported; name = session_name k d
      in if has_runtime_unit_model u then Some d
         else case dc_by_name d u of
           Some other \<Rightarrow>
             (case find_session d other of
                None \<Rightarrow> Some d
              | Some e \<Rightarrow>
                  if ss_phase e = ParsingInterface
                  then Some (fail_session k (graph_error no_location
                    (''interface uses cycle involving '' @ ticked name @ '' and '' @ ticked u) d))
                  else if ss_had_error e \<or> ss_phase e = Failed then Some (fail_session k d)
                  else Some d)
         | None \<Rightarrow>
             (case find_unit_path h u of
                None \<Rightarrow>
                  Some (fail_session k (graph_error no_location
                    (''unresolved unit '' @ ticked u @ '' used by '' @ ticked name) d))
              | Some path \<Rightarrow>
                  (case load path d of
                     None \<Rightarrow> None
                   | Some (n, d') \<Rightarrow> Some (if n \<noteq> 0 then fail_session k d' else d'))))"

primrec import_loop ::
    "'r host \<Rightarrow> (string \<Rightarrow> 'r discovery \<Rightarrow> (nat \<times> 'r discovery) option) \<Rightarrow> string \<Rightarrow>
     string list \<Rightarrow> 'r discovery \<Rightarrow> 'r discovery option" where
  "import_loop h load k [] d = Some d"
| "import_loop h load k (u # us) d =
     Option.bind (import_unit h load k u d) (import_loop h load k us)"

fun listen ::
    "'r host \<Rightarrow> (string \<Rightarrow> 'r discovery \<Rightarrow> (nat \<times> 'r discovery) option) \<Rightarrow> string \<Rightarrow>
     action \<Rightarrow> 'r discovery \<Rightarrow> 'r discovery option" where
  "listen h load k (BeginUnit name p) d = Some (begin_compilation_unit h k name p d)"
| "listen h load k (ImportUnits us b) d =
     map_option (\<lambda>d'. call_registry h (SetParsedUnitImports (session_name k d') us b) d')
       (import_loop h load k us d)"
| "listen h load k (TypeSection ds b) d =
     Some (call_registry h (BindParsedDeclarations (session_name k d) ds b) d)"
| "listen h load k (Declaration x b) d =
     Some (call_registry h (BindParsedDeclarations (session_name k d) [x] b) d)"
| "listen h load k (FinishUnit u) d = Some (call_registry h (BindParsedUnitBodies u) d)"

primrec replay ::
    "'r host \<Rightarrow> (string \<Rightarrow> 'r discovery \<Rightarrow> (nat \<times> 'r discovery) option) \<Rightarrow> string \<Rightarrow>
     action list \<Rightarrow> 'r discovery \<Rightarrow> 'r discovery option" where
  "replay h load k [] d = Some d"
| "replay h load k (a # as) d = Option.bind (listen h load k a d) (replay h load k as)"

subsection \<open>Parsing one file\<close>

definition new_session :: "string \<Rightarrow> unit_run \<Rightarrow> session" where
  "new_session path r = \<lparr>ss_path = path, ss_name = [], ss_is_program = False,
     ss_had_error = False, ss_phase = ParsingInterface, ss_run = r, ss_ast = None\<rparr>"

text \<open>After the interface (or the program): phase, result and the entry of the unit map.\<close>

definition unit_name_of :: "string \<Rightarrow> unit_node option \<Rightarrow> string" where
  "unit_name_of path node =
     (let n = (case node of None \<Rightarrow> [] | Some u \<Rightarrow> lower (un_name u))
      in if n = [] then ''__prog_'' @ path_stem path else n)"

definition record_unit :: "string \<Rightarrow> string \<Rightarrow> unit_node option \<Rightarrow> bool \<Rightarrow> 'r discovery \<Rightarrow> 'r discovery" where
  "record_unit name path node usable d =
     (case DAList.lookup (dc_units d) name of
        Some old \<Rightarrow>
          (let d1 = (if pu_path old \<noteq> [] \<and> pu_path old \<noteq> path
                     then graph_warning (case node of None \<Rightarrow> no_location | Some u \<Rightarrow> un_loc u)
                       (''duplicate unit '' @ quoted name @ '' at '' @ path @
                        '' (first seen at '' @ pu_path old @ '')'') d
                     else d)
           in d1\<lparr>dc_units := DAList.update name
                (old\<lparr>pu_path := path, pu_ast := node, pu_ok := usable\<rparr>) (dc_units d1)\<rparr>)
      | None \<Rightarrow>
          d\<lparr>dc_units := DAList.update name
             \<lparr>pu_name = name, pu_path = path, pu_ast = node, pu_ok = usable\<rparr> (dc_units d)\<rparr>)"

definition finish_session ::
    "string \<Rightarrow> string \<Rightarrow> unit_run \<Rightarrow> nat \<Rightarrow> 'r discovery \<Rightarrow> nat \<times> 'r discovery" where
  "finish_session k path r errors_before d =
     (let node = head_node r;
          ph = (if node = None then Failed else if starts_unit r then InterfaceReady else Complete);
          errs = dc_errors d - errors_before;
          name = unit_name_of path node;
          d1 = change_session k (\<lambda>s. s\<lparr>ss_phase := ph, ss_had_error := ss_had_error s \<or> errs \<noteq> 0,
                 ss_name := name, ss_ast := node\<rparr>) d;
          failed = (case find_session d1 k of None \<Rightarrow> True | Some s \<Rightarrow> ss_had_error s)
      in (errs, record_unit name path node (\<not> failed \<and> node \<noteq> None \<and> ph = Complete) d1))"

text \<open>\<open>parse_recursive\<close>; the fuel bounds the depth of the recursion.\<close>

primrec parse_recursive ::
    "nat \<Rightarrow> 'r host \<Rightarrow> string \<Rightarrow> 'r discovery \<Rightarrow> (nat \<times> 'r discovery) option" where
  "parse_recursive 0 h path d = None"
| "parse_recursive (Suc n) h path d =
     (let k = path_key h path
      in case find_session d k of
           Some s \<Rightarrow>
             if ss_phase s = ParsingInterface
             then Some (1, graph_error no_location (''interface uses cycle at '' @ ticked path) d)
             else Some (if ss_had_error s \<or> ss_phase s = Failed then 1 else 0, d)
         | None \<Rightarrow>
             (case load_source h path of
                None \<Rightarrow> Some (1, d)
              | Some r \<Rightarrow>
                  map_option (\<lambda>d'. finish_session k path r (dc_errors d) (count_errors (head_errors r) d'))
                    (replay h (parse_recursive n h) k (head_actions r)
                       (put_session k (new_session path r) d))))"

subsection \<open>Implementations\<close>

text \<open>The first session, in the order of the map, whose interface is ready.\<close>

definition pending_session :: "'r discovery \<Rightarrow> (string \<times> session) option" where
  "pending_session d =
     List.find (\<lambda>(k, s). ss_phase s = InterfaceReady) (DAList.impl_of (dc_by_path d))"

definition finish_implementation :: "string \<Rightarrow> unit_node option \<Rightarrow> nat \<Rightarrow> 'r discovery \<Rightarrow> 'r discovery" where
  "finish_implementation k node errors_before d =
     (let ph = (if node = None then Failed else Complete);
          d1 = change_session k (\<lambda>s. s\<lparr>ss_phase := ph,
                 ss_had_error := ss_had_error s \<or> dc_errors d \<noteq> errors_before, ss_ast := node\<rparr>) d;
          name = session_name k d1;
          failed = (case find_session d1 k of None \<Rightarrow> True | Some s \<Rightarrow> ss_had_error s)
      in (case DAList.lookup (dc_units d1) name of
            None \<Rightarrow> d1
          | Some u \<Rightarrow> d1\<lparr>dc_units := DAList.update name
              (u\<lparr>pu_ast := node, pu_ok := (node \<noteq> None \<and> \<not> failed)\<rparr>) (dc_units d1)\<rparr>))"

definition parse_implementation ::
    "nat \<Rightarrow> 'r host \<Rightarrow> string \<Rightarrow> session \<Rightarrow> 'r discovery \<Rightarrow> 'r discovery option" where
  "parse_implementation n h k s d =
     map_option (\<lambda>d'. finish_implementation k (impl_node (ss_run s)) (dc_errors d)
                        (count_errors (impl_errors (ss_run s)) d'))
       (replay h (parse_recursive n h) k (impl_actions (ss_run s)) d)"

text \<open>\<open>n\<close> bounds the depth of the imports, \<open>m\<close> the rounds of \<open>for (;;)\<close>.\<close>

primrec parse_pending ::
    "nat \<Rightarrow> nat \<Rightarrow> 'r host \<Rightarrow> 'r discovery \<Rightarrow> 'r discovery option" where
  "parse_pending n 0 h d = None"
| "parse_pending n (Suc m) h d =
     (case pending_session d of
        None \<Rightarrow> Some d
      | Some (k, s) \<Rightarrow> Option.bind (parse_implementation n h k s d) (parse_pending n m h))"

subsection \<open>Discovery\<close>

text \<open>
  \<open>build_unit_path_index\<close>. A root is searched once; the directory listing of a root that
  does not exist is \<open>None\<close>, otherwise its regular files in the order of the iterator.
\<close>

definition index_file :: "string \<Rightarrow> (string \<Rightarrow> string option) \<Rightarrow> (string \<Rightarrow> string option)" where
  "index_file f index =
     (let stem = lower (path_stem f)
      in if path_extension f \<notin> {''.pas'', ''.pp''} \<or> index stem \<noteq> None then index
         else index(stem \<mapsto> f))"

definition index_unit_search_root ::
    "(string \<Rightarrow> string list option) \<Rightarrow> string \<Rightarrow>
     string list \<times> (string \<Rightarrow> string option) \<Rightarrow> string list \<times> (string \<Rightarrow> string option)" where
  "index_unit_search_root listing root st =
     (let (indexed, index) = st
      in if root = [] \<or> root \<in> set indexed then st
         else (indexed @ [root],
           case listing root of None \<Rightarrow> index | Some fs \<Rightarrow> fold index_file fs index))"

definition build_unit_path_index ::
    "(string \<Rightarrow> string list option) \<Rightarrow> string \<Rightarrow> string \<Rightarrow> string list \<Rightarrow> string \<Rightarrow> string option" where
  "build_unit_path_index listing current_dir entry_dir roots =
     snd (fold (index_unit_search_root listing) (current_dir # entry_dir # roots) ([], \<lambda>_. None))"

definition searching ::
    "(string \<Rightarrow> string list option) \<Rightarrow> string \<Rightarrow> string \<Rightarrow> string list \<Rightarrow> 'r host \<Rightarrow> 'r host" where
  "searching listing current_dir entry_dir roots h =
     h\<lparr>unit_path_index := build_unit_path_index listing current_dir entry_dir roots\<rparr>"

text \<open>A host whose files are scanned and parsed by the model's lexer and parser.\<close>

definition reading :: "(string \<Rightarrow> (lexed list \<times> modes) option) \<Rightarrow> 'r host \<Rightarrow> 'r host" where
  "reading files h = h\<lparr>load_source := \<lambda>p. map_option (\<lambda>(toks, m). run_parser toks m) (files p)\<rparr>"

definition empty_discovery :: "'r \<Rightarrow> nat \<Rightarrow> 'r discovery" where
  "empty_discovery reg errors = \<lparr>dc_units = DAList.empty, dc_by_path = DAList.empty,
     dc_by_name = (\<lambda>_. None), dc_registry = reg, dc_errors = errors, dc_reports = []\<rparr>"

text \<open>
  \<open>discover_from_entry\<close>: the number of errors it returns, the final state and which of the
  units are still usable after the propagation of failures.
\<close>

definition discover_from_entry ::
    "nat \<Rightarrow> 'r host \<Rightarrow> 'r \<Rightarrow> nat \<Rightarrow> string \<Rightarrow> (nat \<times> 'r discovery \<times> (string \<Rightarrow> bool)) option" where
  "discover_from_entry fuel h reg errors entry =
     (case parse_recursive fuel h entry (empty_discovery reg errors) of
        None \<Rightarrow> None
      | Some (e1, d1) \<Rightarrow>
          map_option (\<lambda>d2. (e1 + (dc_errors d2 - dc_errors d1), d2, propagate_failures (dc_units d2)))
            (parse_pending fuel fuel h d1))"

end
