(* ===== verification/Session_Facts.thy ===== *)
theory Session_Facts
  imports Unit_Sessions
begin

text \<open>
  Discovery of units: what one file may change in the state of the others, why the recursion
  and the loop end, and what the result says.
\<close>

subsection \<open>The index of unit files\<close>

definition files_in :: "(string \<Rightarrow> string list option) \<Rightarrow> string \<Rightarrow> string list" where
  "files_in listing r = (if r = [] then [] else case listing r of None \<Rightarrow> [] | Some fs \<Rightarrow> fs)"

definition unit_files_of :: "(string \<Rightarrow> string list option) \<Rightarrow> string list \<Rightarrow> string list" where
  "unit_files_of listing roots = concat (map (files_in listing) roots)"

definition is_unit_file :: "string \<Rightarrow> string \<Rightarrow> bool" where
  "is_unit_file n f \<longleftrightarrow> path_extension f \<in> {''.pas'', ''.pp''} \<and> lower (path_stem f) = n"

lemma unit_files_simps [simp]:
  "unit_files_of listing [] = []"
  "unit_files_of listing (r # rs) = files_in listing r @ unit_files_of listing rs"
  "unit_files_of listing (rs @ ss) = unit_files_of listing rs @ unit_files_of listing ss"
  by (simp_all add: unit_files_of_def)

lemma find_append: "List.find P (xs @ ys) = (case List.find P xs of None \<Rightarrow> List.find P ys | Some x \<Rightarrow> Some x)"
  by (induction xs) auto

lemma index_files:
  "fold index_file fs index n = (case index n of None \<Rightarrow> List.find (is_unit_file n) fs | Some f \<Rightarrow> Some f)"
proof (induction fs arbitrary: index)
  case (Cons f fs)
  have "index_file f index n =
      (case index n of None \<Rightarrow> if is_unit_file n f then Some f else None | Some g \<Rightarrow> Some g)"
    by (auto simp: index_file_def is_unit_file_def Let_def split: option.splits)
  with Cons show ?case by (auto split: option.splits)
qed (simp split: option.splits)

lemma find_in_repeated:
  "set xs \<subseteq> set ys \<Longrightarrow> List.find P ys = None \<Longrightarrow> List.find P xs = None"
  by (auto simp: find_None_iff)

lemma index_roots:
  assumes "\<forall>n. index n = List.find (is_unit_file n) (unit_files_of listing indexed)"
    "fold (index_unit_search_root listing) roots (indexed, index) = (indexed', index')"
  shows "index' n = List.find (is_unit_file n) (unit_files_of listing (indexed @ roots))"
  using assms
proof (induction roots arbitrary: indexed index)
  case (Cons r roots)
  let ?fs = "files_in listing r"
  show ?case
  proof (cases "r = [] \<or> r \<in> set indexed")
    case True
    then have "set ?fs \<subseteq> set (unit_files_of listing indexed)"
      by (auto simp: unit_files_of_def files_in_def)
    then have skip: "List.find (is_unit_file n) (unit_files_of listing (indexed @ r # roots)) =
        List.find (is_unit_file n) (unit_files_of listing (indexed @ roots))"
      by (auto simp: find_append dest: find_in_repeated split: option.splits)
    have "index_unit_search_root listing r (indexed, index) = (indexed, index)"
      using True by (auto simp: index_unit_search_root_def)
    then have "fold (index_unit_search_root listing) roots (indexed, index) = (indexed', index')"
      using Cons.prems(2) by (simp only: fold.simps comp_def)
    with skip Cons.IH [OF Cons.prems(1)] show ?thesis by simp
  next
    case False
    let ?i = "fold index_file ?fs index"
    have one: "index_unit_search_root listing r (indexed, index) = (indexed @ [r], ?i)"
      using False by (cases "listing r") (simp_all add: index_unit_search_root_def files_in_def)
    have inv: "\<forall>m. ?i m = List.find (is_unit_file m) (unit_files_of listing (indexed @ [r]))"
      using Cons.prems(1) by (simp add: index_files find_append split: option.splits)
    have "fold (index_unit_search_root listing) roots (indexed @ [r], ?i) = (indexed', index')"
      using Cons.prems(2) one by (simp only: fold.simps comp_def)
    from Cons.IH [OF inv this] show ?thesis by simp
  qed
qed simp

lemma index_search:
  "build_unit_path_index listing current entry roots n =
     List.find (is_unit_file n) (unit_files_of listing (current # entry # roots))"
  unfolding build_unit_path_index_def
  by (rule index_roots [where indexed = "[]" and index = "\<lambda>_. None", simplified])
    (simp, rule prod.collapse [symmetric])

text \<open>
  C21. A unit name stands for the first file, in the order current directory, directory of the
  entry file, then the \<open>-Fu\<close> directories as given, whose extension is \<open>.pas\<close> or \<open>.pp\<close> and whose
  stem is the name up to case. Searching a directory twice changes nothing.
\<close>

theorem unit_search_first_match:
  "build_unit_path_index listing current entry roots n =
     List.find (is_unit_file n) (unit_files_of listing (current # entry # roots))"
  by (rule index_search)

subsection \<open>What a step keeps\<close>

text \<open>
  Sessions outside \<open>K\<close> are not touched, those in \<open>K\<close> keep phase, parser and failure, new
  sessions have their key in \<open>S\<close> and are not in the middle of their interface, and errors
  are only added.
\<close>

definition evolved :: "bool \<Rightarrow> session \<Rightarrow> session \<Rightarrow> bool" where
  "evolved b s s' \<longleftrightarrow> (\<not> b \<longrightarrow> s' = s) \<and> ss_phase s' = ss_phase s \<and> ss_run s' = ss_run s \<and>
     (ss_had_error s \<longrightarrow> ss_had_error s')"

lemma evolved_refl [simp]: "evolved b s s"
  by (simp add: evolved_def)

lemma evolved_trans: "evolved b s t \<Longrightarrow> evolved b t u \<Longrightarrow> evolved b s u"
  by (simp add: evolved_def)

definition kept :: "string set \<Rightarrow> string set \<Rightarrow> 'r discovery \<Rightarrow> 'r discovery \<Rightarrow> bool" where
  "kept S K d d' \<longleftrightarrow> dc_errors d \<le> dc_errors d' \<and>
     (\<forall>k s. find_session d k = Some s \<longrightarrow>
        (\<exists>s'. find_session d' k = Some s' \<and> evolved (k \<in> K) s s')) \<and>
     (\<forall>k s. find_session d k = None \<longrightarrow> find_session d' k = Some s \<longrightarrow>
        ss_phase s \<noteq> ParsingInterface \<and> k \<in> S)"

lemma kept_errors: "kept S K d d' \<Longrightarrow> dc_errors d \<le> dc_errors d'"
  by (simp add: kept_def)

lemma kept_session:
  assumes "kept S K d d'" "find_session d k = Some s"
  obtains s' where "find_session d' k = Some s'" "evolved (k \<in> K) s s'"
  using assms unfolding kept_def by blast

lemma kept_new:
  "kept S K d d' \<Longrightarrow> find_session d k = None \<Longrightarrow> find_session d' k = Some s \<Longrightarrow>
   ss_phase s \<noteq> ParsingInterface \<and> k \<in> S"
  unfolding kept_def by blast

lemma kept_refl [simp]: "kept S K d d"
  by (auto simp: kept_def)

lemma kept_trans:
  assumes "kept S K a b" "kept S K b c"
  shows "kept S K a c"
  unfolding kept_def
proof (intro conjI allI impI)
  show "dc_errors a \<le> dc_errors c" using assms by (auto dest!: kept_errors)
next
  fix k s assume "find_session a k = Some s"
  with assms show "\<exists>s''. find_session c k = Some s'' \<and> evolved (k \<in> K) s s''"
    by (meson kept_session evolved_trans)
next
  fix k s assume new: "find_session a k = None" "find_session c k = Some s"
  have "ss_phase s \<noteq> ParsingInterface \<and> k \<in> S"
  proof (cases "find_session b k")
    case None
    then show ?thesis using new assms(2) by (auto dest: kept_new)
  next
    case (Some t)
    then show ?thesis using new assms
      by (metis evolved_def kept_new kept_session option.inject)
  qed
  then show "ss_phase s \<noteq> ParsingInterface" "k \<in> S" by auto
qed

lemma kept_mono: "kept S {} d d' \<Longrightarrow> kept S L d d'"
  unfolding kept_def evolved_def by fastforce

lemma kept_same_sessions:
  "dc_by_path d' = dc_by_path d \<Longrightarrow> dc_errors d \<le> dc_errors d' \<Longrightarrow> kept S K d d'"
  by (simp add: kept_def find_session_def)

lemma find_put_session:
  "find_session (put_session k s d) j = (if j = k then Some s else find_session d j)"
  by (simp add: find_session_def put_session_def lookup_update)

lemma find_change_session:
  "find_session (change_session k f d) j =
     (if j = k then map_option f (find_session d k) else find_session d j)"
  by (auto simp: change_session_def find_put_session split: option.split)

lemma change_session_fields [simp]:
  "dc_errors (change_session k f d) = dc_errors d"
  "dc_units (change_session k f d) = dc_units d"
  "dc_by_name (change_session k f d) = dc_by_name d"
  by (simp_all add: change_session_def put_session_def split: option.split)

lemma find_session_more [simp]:
  "find_session (d\<lparr>dc_units := us\<rparr>) = find_session d"
  "find_session (d\<lparr>dc_by_name := m\<rparr>) = find_session d"
  "find_session (d\<lparr>dc_registry := r\<rparr>) = find_session d"
  "find_session (graph_error l t d) = find_session d"
  "find_session (graph_warning l t d) = find_session d"
  "find_session (count_errors n d) = find_session d"
  "find_session (call_registry h c d) = find_session d"
  by (simp_all add: fun_eq_iff find_session_def graph_error_def graph_warning_def count_errors_def
    call_registry_def split: prod.split)

lemma errors_more [simp]:
  "dc_errors (graph_error l t d) = Suc (dc_errors d)"
  "dc_errors (graph_warning l t d) = dc_errors d"
  "dc_errors (count_errors n d) = dc_errors d + n"
  "dc_errors d \<le> dc_errors (call_registry h c d)"
  "dc_errors (put_session k s d) = dc_errors d"
  by (simp_all add: graph_error_def graph_warning_def count_errors_def call_registry_def
    put_session_def split: prod.split)

lemma kept_change:
  "(\<And>s. ss_phase (f s) = ss_phase s \<and> ss_run (f s) = ss_run s \<and>
     (ss_had_error s \<longrightarrow> ss_had_error (f s))) \<Longrightarrow> kept S {k} d (change_session k f d)"
  by (auto simp: kept_def find_change_session evolved_def)

lemma kept_upto:
  "find_session d' = find_session e \<Longrightarrow> dc_errors e \<le> dc_errors d' \<Longrightarrow> kept S K d e \<Longrightarrow> kept S K d d'"
  by (auto simp: kept_def)

lemma begin_sessions:
  "find_session (begin_compilation_unit h k name p d) =
     find_session (change_session k (\<lambda>s. s\<lparr>ss_name := lower name, ss_is_program := p\<rparr>) d)"
  by (simp add: begin_compilation_unit_def Let_def split: option.split)

lemma begin_errors: "dc_errors d \<le> dc_errors (begin_compilation_unit h k name p d)"
  by (auto simp: begin_compilation_unit_def Let_def intro: order_trans [OF _ errors_more(4)]
    split: option.split)

lemma kept_begin: "kept S {k} d (begin_compilation_unit h k name p d)"
  by (rule kept_upto [OF begin_sessions _ kept_change]) (simp_all add: begin_errors)

lemma pending_session_Some:
  "pending_session d = Some (k, s) \<Longrightarrow> find_session d k = Some s \<and> ss_phase s = InterfaceReady"
  by (auto simp: pending_session_def find_session_def find_Some_iff DAList.lookup.rep_eq
    intro!: map_of_is_SomeI dest: nth_mem)

lemma pending_session_None:
  "pending_session d = None \<Longrightarrow> find_session d k = Some s \<Longrightarrow> ss_phase s \<noteq> InterfaceReady"
  by (auto simp: pending_session_def find_session_def find_None_iff DAList.lookup.rep_eq
    dest: map_of_SomeD)

lemma finish_implementation_sessions:
  "find_session (finish_implementation k node e d) = find_session (change_session k
     (\<lambda>s. s\<lparr>ss_phase := (if node = None then Failed else Complete),
        ss_had_error := ss_had_error s \<or> dc_errors d \<noteq> e, ss_ast := node\<rparr>) d)"
  "dc_errors (finish_implementation k node e d) = dc_errors d"
  by (auto simp: finish_implementation_def Let_def split: option.split)

lemma record_unit_more [simp]:
  "find_session (record_unit n p a b d) = find_session d"
  "dc_errors (record_unit n p a b d) = dc_errors d"
  by (auto simp: record_unit_def Let_def split: option.split)

lemma finish_sessions:
  "find_session (snd (finish_session k path r e d)) = find_session (change_session k
     (\<lambda>s. s\<lparr>ss_phase := (if head_node r = None then Failed else if starts_unit r then InterfaceReady
            else Complete), ss_had_error := ss_had_error s \<or> dc_errors d - e \<noteq> 0,
          ss_name := unit_name_of path (head_node r), ss_ast := head_node r\<rparr>) d)"
  by (simp add: finish_session_def Let_def not_le)

lemma finish_errors: "dc_errors (snd (finish_session k path r e d)) = dc_errors d"
  by (simp add: finish_session_def Let_def not_le)

text \<open>A set of keys that is closed under the search for unit files.\<close>

locale unit_search =
  fixes h :: "'r host" and S :: "string set"
  assumes finite_keys: "finite S"
    and found_key: "find_unit_path h u = Some path \<Longrightarrow> path_key h path \<in> S"
begin

definition keeps :: "(string \<Rightarrow> 'r discovery \<Rightarrow> (nat \<times> 'r discovery) option) \<Rightarrow> bool" where
  "keeps load \<longleftrightarrow> (\<forall>path d n d'. path_key h path \<in> S \<longrightarrow> load path d = Some (n, d') \<longrightarrow>
     kept S {} d d')"

lemma kept_import:
  assumes "keeps load" "import_unit h load k u d = Some d'"
  shows "kept S {k} d d'"
proof -
  have fail: "kept S {k} e (fail_session k e)" for e :: "'r discovery"
    by (rule kept_change) simp
  have err: "kept S {k} e (graph_error l m e)" for e :: "'r discovery" and l m
    by (rule kept_upto [of _ e]) simp_all
  have load: "find_unit_path h u' = Some path \<Longrightarrow> load path d = Some (n, e) \<Longrightarrow> kept S {k} d e"
    for u' path n e
    using assms(1) unfolding keeps_def by (blast intro: kept_mono found_key)
  show ?thesis using assms(2)
    by (auto simp: import_unit_def Let_def fail
      intro: kept_trans [OF err fail] kept_trans [OF load fail] load split: if_splits option.splits)
qed

lemma kept_imports:
  "keeps load \<Longrightarrow> import_loop h load k us d = Some d' \<Longrightarrow> kept S {k} d d'"
proof (induction us arbitrary: d)
  case (Cons u us)
  then obtain e where "import_unit h load k u d = Some e" "import_loop h load k us e = Some d'"
    by (auto simp: bind_eq_Some_conv)
  with Cons show ?case by (blast intro: kept_trans kept_import)
qed simp

lemma kept_listen:
  assumes "keeps load" "listen h load k a d = Some d'"
  shows "kept S {k} d d'"
proof -
  have call: "kept S {k} e (call_registry h c e)" for e c
    by (rule kept_upto [of _ e]) simp_all
  show ?thesis using assms
    by (cases a) (auto simp: call kept_begin intro: kept_trans [OF kept_imports call])
qed

lemma kept_replay:
  "keeps load \<Longrightarrow> replay h load k as d = Some d' \<Longrightarrow> kept S {k} d d'"
proof (induction as arbitrary: d)
  case (Cons a as)
  then obtain e where "listen h load k a d = Some e" "replay h load k as e = Some d'"
    by (auto simp: bind_eq_Some_conv)
  with Cons show ?case by (blast intro: kept_trans kept_listen)
qed simp

lemma keeps_parse_recursive: "keeps (parse_recursive n h)"
proof (induction n)
  case (Suc n)
  show ?case unfolding keeps_def
  proof (intro allI impI)
    fix path d e d'
    assume key: "path_key h path \<in> S" and *: "parse_recursive (Suc n) h path d = Some (e, d')"
    show "kept S {} d d'"
    proof (cases "find_session d (path_key h path)")
      case (Some s)
      with * show ?thesis
        by (auto simp: Let_def intro: kept_upto [of _ d] split: if_splits)
    next
      case None
      show ?thesis
      proof (cases "load_source h path")
        case None
        with * \<open>find_session d _ = None\<close> show ?thesis by simp
      next
        case (Some r)
        let ?k = "path_key h path" and ?d0 = "put_session (path_key h path) (new_session path r) d"
        from * None Some obtain d1 where d1: "replay h (parse_recursive n h) ?k (head_actions r) ?d0 = Some d1"
          and d': "(e, d') = finish_session ?k path r (dc_errors d) (count_errors (head_errors r) d1)"
          by (auto simp: Let_def)
        have k: "kept S {?k} ?d0 d1" by (rule kept_replay [OF Suc d1])
        have "d' = snd (finish_session ?k path r (dc_errors d) (count_errors (head_errors r) d1))"
          using d' by (metis snd_conv)
        then have "dc_errors d1 \<le> dc_errors d'" "\<And>j. j \<noteq> ?k \<Longrightarrow> find_session d' j = find_session d1 j"
          "\<And>s. find_session d' ?k = Some s \<Longrightarrow> ss_phase s \<noteq> ParsingInterface"
          by (auto simp: finish_sessions finish_errors find_change_session split: if_splits)
        moreover have "dc_errors d \<le> dc_errors d1" using k by (simp add: kept_def)
        moreover have "find_session d' j = Some s" if "find_session d j = Some s" for j s
        proof -
          have "j \<noteq> ?k" using that None by auto
          then show ?thesis using that kept_session [OF k, of j s] calculation(2) [of j]
            by (auto simp: find_put_session evolved_def)
        qed
        moreover have "ss_phase s \<noteq> ParsingInterface \<and> j \<in> S"
          if "find_session d j = None" "find_session d' j = Some s" for j s
          using that key k calculation(2) [of j] calculation(3) [of s]
          by (cases "j = ?k") (auto simp: find_put_session dest: kept_new [where k = j])
        ultimately show ?thesis by (auto simp: kept_def)
      qed
    qed
  qed
qed (simp add: keeps_def)

subsection \<open>The recursion ends\<close>

definition unseen :: "'r discovery \<Rightarrow> string set" where
  "unseen d = {k \<in> S. find_session d k = None}"

lemma finite_unseen [simp]: "finite (unseen d)"
  by (simp add: unseen_def finite_keys)

lemma kept_unseen: "kept S K d d' \<Longrightarrow> card (unseen d') \<le> card (unseen d)"
proof (rule card_mono)
  assume "kept S K d d'"
  then have "find_session d' k = None \<Longrightarrow> find_session d k = None" for k
    by (metis kept_session not_None_eq option.distinct(1))
  then show "unseen d' \<subseteq> unseen d" by (auto simp: unseen_def)
qed simp

definition returns :: "nat \<Rightarrow> (string \<Rightarrow> 'r discovery \<Rightarrow> (nat \<times> 'r discovery) option) \<Rightarrow> bool" where
  "returns n load \<longleftrightarrow> (\<forall>path d. path_key h path \<in> S \<longrightarrow> card (unseen d) < n \<longrightarrow> load path d \<noteq> None)"

lemma import_returns:
  assumes "returns n load" "card (unseen d) < n"
  shows "import_unit h load k u d \<noteq> None"
proof -
  have "load path d \<noteq> None" if "find_unit_path h (lower u) = Some path" for path
    using assms found_key [OF that] by (simp add: returns_def)
  then show ?thesis
    by (auto simp add: import_unit_def Let_def simp del: not_None_eq split: option.split prod.split)
qed

lemma imports_return:
  "keeps load \<Longrightarrow> returns n load \<Longrightarrow> card (unseen d) < n \<Longrightarrow> import_loop h load k us d \<noteq> None"
proof (induction us arbitrary: d)
  case (Cons u us)
  then obtain e where e: "import_unit h load k u d = Some e" by (auto dest: import_returns)
  then have "card (unseen e) < n"
    using Cons.prems kept_unseen [OF kept_import [OF _ e]] by auto
  with Cons e show ?case by simp
qed simp

lemma replay_returns:
  "keeps load \<Longrightarrow> returns n load \<Longrightarrow> card (unseen d) < n \<Longrightarrow> replay h load k as d \<noteq> None"
proof (induction as arbitrary: d)
  case (Cons a as)
  then have "listen h load k a d \<noteq> None" by (cases a) (auto dest: imports_return)
  then obtain e where e: "listen h load k a d = Some e" by auto
  then have "card (unseen e) < n"
    using Cons.prems kept_unseen [OF kept_listen [OF _ e]] by auto
  with Cons e show ?case by simp
qed simp

lemma parse_recursive_returns: "returns n (parse_recursive n h)"
proof (induction n)
  case (Suc n)
  show ?case unfolding returns_def
  proof (intro allI impI)
    fix path d
    assume key: "path_key h path \<in> S" and m: "card (unseen d) < Suc n"
    show "parse_recursive (Suc n) h path d \<noteq> None"
    proof (cases "find_session d (path_key h path)")
      case None
      have "card (unseen (put_session (path_key h path) (new_session path r) d)) < n" for r
      proof -
        have "unseen (put_session (path_key h path) (new_session path r) d) =
            unseen d - {path_key h path}"
          by (auto simp: unseen_def find_put_session)
        moreover have "path_key h path \<in> unseen d" using None key by (simp add: unseen_def)
        ultimately show ?thesis using m card_Diff1_less [of "unseen d" "path_key h path"] by simp
      qed
      then have "replay h (parse_recursive n h) k as (put_session (path_key h path) (new_session path r) d)
          \<noteq> None" for k as r
        by (intro replay_returns [OF keeps_parse_recursive Suc])
      then show ?thesis
        using None by (simp add: Let_def split: option.split del: not_None_eq)
    qed (simp add: Let_def)
  qed
qed (simp add: returns_def)

text \<open>The sessions still to be finished; every round of the second phase finishes one.\<close>

definition unfinished :: "'r discovery \<Rightarrow> string set" where
  "unfinished d = S - {k. \<exists>s. find_session d k = Some s \<and> ss_phase s \<in> {Complete, Failed}}"

lemma finite_unfinished: "finite (unfinished d)"
  by (simp add: unfinished_def finite_keys)

definition closed :: "'r discovery \<Rightarrow> bool" where
  "closed d \<longleftrightarrow> (\<forall>k s. find_session d k = Some s \<longrightarrow> k \<in> S \<and> ss_phase s \<noteq> ParsingInterface)"

lemma kept_closed: "kept S K d d' \<Longrightarrow> closed d \<Longrightarrow> closed d'"
  unfolding closed_def by (metis evolved_def kept_new kept_session not_None_eq option.inject)

lemma implementation_round:
  assumes "closed d" "find_session d k = Some s" "ss_phase s = InterfaceReady"
    "card (unseen d) < n"
  obtains d' where "parse_implementation n h k s d = Some d'" "closed d'"
    "card (unfinished d') < card (unfinished d)" "card (unseen d') \<le> card (unseen d)"
    "dc_errors d \<le> dc_errors d'"
proof -
  obtain e where e: "replay h (parse_recursive n h) k (impl_actions (ss_run s)) d = Some e"
    using replay_returns [OF keeps_parse_recursive parse_recursive_returns assms(4)] by auto
  have k: "kept S {k} d e" by (rule kept_replay [OF keeps_parse_recursive e])
  let ?d' = "finish_implementation k (impl_node (ss_run s)) (dc_errors d)
    (count_errors (impl_errors (ss_run s)) e)"
  have find: "find_session ?d' j = (if j = k then map_option (\<lambda>t. t\<lparr>ss_phase :=
      (if impl_node (ss_run s) = None then Failed else Complete),
      ss_had_error := ss_had_error t \<or> dc_errors e + impl_errors (ss_run s) \<noteq> dc_errors d,
      ss_ast := impl_node (ss_run s)\<rparr>) (find_session e k) else find_session e j)" for j
    by (simp add: finish_implementation_sessions find_change_session)
  obtain t where t: "find_session e k = Some t" by (rule kept_session [OF k assms(2)])
  have "closed ?d'"
    using kept_closed [OF k assms(1)] by (auto simp: closed_def find)
  moreover have "unfinished ?d' \<subseteq> unfinished d - {k}"
  proof
    fix j assume j: "j \<in> unfinished ?d'"
    have "j \<noteq> k" using j t by (auto simp: unfinished_def find split: if_splits)
    with j show "j \<in> unfinished d - {k}"
      by (auto simp: unfinished_def find evolved_def elim!: kept_session [OF k])
  qed
  moreover have "k \<in> unfinished d"
    using assms by (auto simp: unfinished_def closed_def)
  moreover have "unseen ?d' = unseen e"
    by (auto simp: unseen_def find)
  ultimately have "card (unfinished ?d') < card (unfinished d)"
    by (intro psubset_card_mono) (auto simp: finite_unfinished)
  moreover have "card (unseen ?d') \<le> card (unseen d)"
    using kept_unseen [OF k] \<open>unseen ?d' = unseen e\<close> by simp
  moreover have "parse_implementation n h k s d = Some ?d'"
    using e by (simp add: parse_implementation_def)
  moreover have "dc_errors d \<le> dc_errors ?d'"
    using kept_errors [OF k] by (simp add: finish_implementation_sessions)
  ultimately show thesis using that [of ?d'] \<open>closed ?d'\<close> by simp
qed

lemma parse_pending_returns:
  assumes "closed d" "card (unseen d) < n" "card (unfinished d) < m"
  shows "\<exists>d'. parse_pending n m h d = Some d' \<and> closed d' \<and> pending_session d' = None \<and>
    dc_errors d \<le> dc_errors d'"
  using assms
proof (induction m arbitrary: d)
  case (Suc m)
  show ?case
  proof (cases "pending_session d")
    case None
    with Suc.prems show ?thesis by simp
  next
    case (Some p)
    obtain k s where p: "p = (k, s)" by fastforce
    with Some have "find_session d k = Some s" "ss_phase s = InterfaceReady"
      by (auto dest: pending_session_Some)
    then obtain e where e: "parse_implementation n h k s d = Some e" "closed e"
      "card (unfinished e) < card (unfinished d)" "card (unseen e) \<le> card (unseen d)"
      "dc_errors d \<le> dc_errors e"
      using implementation_round [OF Suc.prems(1) _ _ Suc.prems(2)] by blast
    then obtain d' where "parse_pending n m h e = Some d'" "closed d'" "pending_session d' = None"
      "dc_errors e \<le> dc_errors d'"
      using Suc.IH [of e] Suc.prems by auto
    with Some p e show ?thesis by auto
  qed
qed simp

lemma discovery_closed:
  assumes "path_key h entry \<in> S" "card S < n"
  shows "\<exists>e d1 d. parse_recursive n h entry (empty_discovery reg errors) = Some (e, d1) \<and>
    closed d1 \<and> parse_pending n n h d1 = Some d \<and> closed d \<and> pending_session d = None"
proof -
  let ?d0 = "empty_discovery reg errors"
  have none: "find_session ?d0 k = None" for k
    by (simp add: find_session_def empty_discovery_def)
  have "unseen ?d0 = S" by (simp add: unseen_def none)
  then obtain e d1 where d1: "parse_recursive n h entry ?d0 = Some (e, d1)"
    using parse_recursive_returns [of n] assms by (auto simp: returns_def) (metis surj_pair)
  have k: "kept S {} ?d0 d1"
    using keeps_parse_recursive assms(1) d1 by (auto simp: keeps_def)
  then have "closed d1" by (rule kept_closed) (simp add: closed_def none)
  moreover have "card (unseen d1) < n"
    using kept_unseen [OF k] \<open>unseen ?d0 = S\<close> assms(2) by simp
  moreover have "card (unfinished d1) < n"
    using card_mono [of S "unfinished d1"] finite_keys assms(2) by (auto simp: unfinished_def)
  ultimately show ?thesis
    using parse_pending_returns [of d1 n n] d1 by blast
qed

end

subsection \<open>More fuel changes nothing\<close>

definition extends :: "('a \<Rightarrow> 'b \<Rightarrow> 'c option) \<Rightarrow> ('a \<Rightarrow> 'b \<Rightarrow> 'c option) \<Rightarrow> bool" where
  "extends f g \<longleftrightarrow> (\<forall>x y z. f x y = Some z \<longrightarrow> g x y = Some z)"

lemma import_unit_more:
  "extends f g \<Longrightarrow> import_unit h f k u d = Some d' \<Longrightarrow> import_unit h g k u d = Some d'"
  by (auto simp: import_unit_def Let_def extends_def split: option.splits if_splits prod.splits)

lemma import_loop_more:
  "extends f g \<Longrightarrow> import_loop h f k us d = Some d' \<Longrightarrow> import_loop h g k us d = Some d'"
  by (induction us arbitrary: d) (auto simp: bind_eq_Some_conv dest: import_unit_more)

lemma listen_more:
  "extends f g \<Longrightarrow> listen h f k a d = Some d' \<Longrightarrow> listen h g k a d = Some d'"
  by (cases a) (auto dest: import_loop_more)

lemma replay_more:
  "extends f g \<Longrightarrow> replay h f k as d = Some d' \<Longrightarrow> replay h g k as d = Some d'"
  by (induction as arbitrary: d) (auto simp: bind_eq_Some_conv dest: listen_more)

lemma parse_recursive_step:
  "extends (parse_recursive n h) (parse_recursive m h) \<Longrightarrow>
   extends (parse_recursive (Suc n) h) (parse_recursive (Suc m) h)"
  using replay_more [of "parse_recursive n h" "parse_recursive m h"]
  unfolding extends_def [of "parse_recursive (Suc _) _"]
  by (auto simp: Let_def split: option.splits)

lemma parse_recursive_Suc: "extends (parse_recursive n h) (parse_recursive (Suc n) h)"
proof (induction n)
  case (Suc n)
  then show ?case by (rule parse_recursive_step)
qed (simp add: extends_def)

lemma parse_recursive_more: "extends (parse_recursive n h) (parse_recursive (n + j) h)"
  by (induction j) (use parse_recursive_Suc [of "n + _" h] in \<open>auto simp: extends_def\<close>)

lemma parse_pending_more:
  "parse_pending n m h d = Some d' \<Longrightarrow> parse_pending (n + j) (m + i) h d = Some d'"
proof (induction m arbitrary: d)
  case (Suc m)
  then show ?case
    by (auto simp: bind_eq_Some_conv parse_implementation_def split: option.splits
      dest!: replay_more [OF parse_recursive_more [of n h j]])
qed simp

subsection \<open>The files on the search path\<close>

lemma searching_fields [simp]:
  "path_key (searching listing here there roots h) = path_key h"
  "find_unit_path (searching listing here there roots h) u =
     build_unit_path_index listing here there roots (lower u)"
  by (simp_all add: searching_def find_unit_path_def)

definition candidate_files :: "(string \<Rightarrow> string list option) \<Rightarrow> string \<Rightarrow> string \<Rightarrow> string list \<Rightarrow> string \<Rightarrow> string list" where
  "candidate_files listing here there roots entry = entry # unit_files_of listing (here # there # roots)"

lemma index_finds_candidate:
  "build_unit_path_index listing here there roots n = Some path \<Longrightarrow>
   path \<in> set (candidate_files listing here there roots entry)"
  using index_search [of listing here there roots n]
  by (auto simp: candidate_files_def find_Some_iff simp del: unit_files_simps)

interpretation found: unit_search "searching listing here there roots h"
    "path_key h ` set (candidate_files listing here there roots entry)" for listing here there roots h entry
  by unfold_locales (auto dest: index_finds_candidate)


end
