(* ===== verification/Discovery_Facts.thy ===== *)
theory Discovery_Facts
  imports Session_Facts Unit_Facts
begin

text \<open>
  What the number that \<open>discover_from_entry\<close> returns is worth: when it is 0, no file that was
  opened has failed and each one has a usable entry in the map of units.
\<close>

subsection \<open>What the parser guarantees\<close>

fun begins :: "action \<Rightarrow> bool" where
  "begins (BeginUnit _ _) = True"
| "begins _ = False"

text \<open>
  A parse without a result has reported an error, and the second half of a unit does not
  start a unit again.
\<close>

definition good_run :: "unit_run \<Rightarrow> bool" where
  "good_run r \<longleftrightarrow> (head_node r = None \<longrightarrow> head_errors r > 0) \<and>
     (starts_unit r \<longrightarrow> impl_node r \<noteq> None \<and> (\<forall>a \<in> set (impl_actions r). \<not> begins a))"

lemma announcements_no_begin: "announcements b as = Some ds \<Longrightarrow> a \<in> set as \<Longrightarrow> \<not> begins a"
proof (induction as arbitrary: ds)
  case (Cons x as)
  then obtain e es where "announced b x = Some e" "announcements b as = Some es"
    by (auto simp: announcements_def split: option.splits)
  with Cons show ?case by (cases x) auto
qed simp

lemma unit_log_begins:
  assumes "unit_log u as" "n > 0" "a \<in> set (drop n as)"
  shows "\<not> begins a"
proof -
  obtain ds es where as: "as = BeginUnit (un_name u) False # ImportUnits (un_interface_uses u) True #
      ds @ ImportUnits (un_impl_uses u) False # es @ [FinishUnit u]"
    and "announcements True ds = Some (un_interface_decls u)"
    "announcements False es = Some (un_impl_decls u)"
    using assms(1) by (auto simp: unit_log_def)
  moreover from assms(2,3) as have "a \<in> set (tl as)"
    by (cases n) (auto dest: in_set_dropD)
  ultimately show ?thesis by (auto dest: announcements_no_begin)
qed

lemma source_failure_reported:
  "fst (run_state (parse_source R) s) = None \<Longrightarrow> tok_kind (ps_cur s) \<noteq> KwUnit \<Longrightarrow>
   error_count (ps_diags (snd (run_state (parse_source R) s))) > 0"
  by (auto simp: parse_source_def cur_kind_def cur_loc_def field_def report_def error_count_def
    is_err_def State_Monad.bind_def split: prod.splits if_splits)

lemma good_run_parser: "good_run (run_parser toks m)"
proof -
  let ?R = "knot (length toks)" and ?s = "new_parser toks m True"
  obtain n1 s1 where 1: "run_state (parse_unit_interface ?R) ?s = (n1, s1)" by fastforce
  obtain n2 s2 where 2: "run_state (parse_unit_implementation ?R) s1 = (n2, s2)" by fastforce
  have i: "\<exists>u. n1 = Some u \<and> partial_unit s1 = Some u \<and> interface_log u (ps_actions s1) \<and>
      decl_block_depth s1 = 0 \<and> has_actions s1"
    using interface_actions [of ?s "length toks"] 1 by (simp add: wp_def new_parser_fields)
  then have "\<exists>v. n2 = Some v \<and> unit_log v (ps_actions s2)"
    using implementation_actions [of s1 _ "length toks"] 2 by (auto simp: wp_def)
  moreover have "ps_actions s1 \<noteq> []" using i by (auto simp: interface_log_def)
  ultimately have "n2 \<noteq> None" "\<forall>a \<in> set (drop (length (ps_actions s1)) (ps_actions s2)). \<not> begins a"
    using unit_log_begins [of _ "ps_actions s2" "length (ps_actions s1)"] by auto
  then show ?thesis
    using 1 2 i source_failure_reported [of ?R ?s]
    by (auto simp: good_run_def run_parser_def Let_def split: prod.split)
qed

subsection \<open>Runs without errors\<close>

definition entry_ok :: "'r discovery \<Rightarrow> session \<Rightarrow> bool" where
  "entry_ok d s \<longleftrightarrow> (\<exists>u. DAList.lookup (dc_units d) (ss_name s) = Some u \<and>
     (pu_ok u \<or> (\<exists>k t. find_session d k = Some t \<and> ss_phase t = InterfaceReady \<and>
        ss_name t = ss_name s)))"

definition fine_session :: "'r discovery \<Rightarrow> session \<Rightarrow> bool" where
  "fine_session d s \<longleftrightarrow> \<not> ss_had_error s \<and> ss_phase s \<noteq> Failed \<and> good_run (ss_run s) \<and>
     (ss_phase s = InterfaceReady \<longrightarrow> starts_unit (ss_run s)) \<and>
     (ss_phase s \<noteq> ParsingInterface \<longrightarrow> entry_ok d s)"

definition clean :: "'r discovery \<Rightarrow> bool" where
  "clean d \<longleftrightarrow> (\<forall>k s. find_session d k = Some s \<longrightarrow> fine_session d s)"

lemma clean_cong:
  "find_session d' = find_session d \<Longrightarrow> dc_units d' = dc_units d \<Longrightarrow> clean d \<Longrightarrow> clean d'"
  by (simp add: clean_def fine_session_def entry_ok_def)

lemma units_more [simp]:
  "dc_units (graph_error l t d) = dc_units d"
  "dc_units (graph_warning l t d) = dc_units d"
  "dc_units (count_errors n d) = dc_units d"
  "dc_units (call_registry h c d) = dc_units d"
  "dc_units (put_session k s d) = dc_units d"
  by (simp_all add: graph_error_def graph_warning_def count_errors_def call_registry_def
    put_session_def split: prod.split)

context unit_search
begin

definition safe :: "(string \<Rightarrow> 'r discovery \<Rightarrow> (nat \<times> 'r discovery) option) \<Rightarrow> bool" where
  "safe load \<longleftrightarrow> (\<forall>path d n d'. path_key h path \<in> S \<longrightarrow> load path d = Some (n, d') \<longrightarrow>
     clean d \<longrightarrow> dc_errors d' = dc_errors d \<longrightarrow> n = 0 \<and> clean d')"

lemma import_clean:
  assumes "keeps load" "safe load" "import_unit h load k u d = Some d'" "clean d"
    "dc_errors d' = dc_errors d"
  shows "clean d'"
proof -
  have load: "clean e \<and> n = 0" if "find_unit_path h u' = Some path" "load path d = Some (n, e)"
    "dc_errors e = dc_errors d" for u' path n e
    using assms(2,4) that found_key [OF that(1)] by (auto simp: safe_def)
  have old: "\<not> ss_had_error e \<and> ss_phase e \<noteq> Failed" if "find_session d j = Some e" for j e
    using assms(4) that by (auto simp: clean_def fine_session_def)
  show ?thesis using assms(3-5)
    by (auto simp: import_unit_def Let_def dest: load old split: if_splits option.splits)
qed

lemma imports_clean:
  "keeps load \<Longrightarrow> safe load \<Longrightarrow> import_loop h load k us d = Some d' \<Longrightarrow> clean d \<Longrightarrow>
   dc_errors d' = dc_errors d \<Longrightarrow> clean d'"
proof (induction us arbitrary: d)
  case (Cons u us)
  then obtain e where e: "import_unit h load k u d = Some e" "import_loop h load k us e = Some d'"
    by (auto simp: bind_eq_Some_conv)
  then have "dc_errors e = dc_errors d"
    using kept_errors [OF kept_import [OF Cons.prems(1) e(1)]]
      kept_errors [OF kept_imports [OF Cons.prems(1) e(2)]] Cons.prems(5) by simp
  with Cons e show ?case using import_clean [of load k u d e] by simp
qed simp

lemma begin_units: "dc_units (begin_compilation_unit h k name p d) =
    (if DAList.lookup (dc_units d) (lower name) = None
     then DAList.update (lower name) \<lparr>pu_name = lower name,
       pu_path = (case find_session d k of None \<Rightarrow> [] | Some s \<Rightarrow> ss_path s),
       pu_ast = None, pu_ok = False\<rparr> (dc_units d)
     else dc_units d)"
  by (auto simp: begin_compilation_unit_def Let_def split: option.split)

lemma begin_clean:
  assumes "find_session d k = Some s" "ss_phase s = ParsingInterface" "clean d"
  shows "clean (begin_compilation_unit h k name p d)"
proof -
  let ?d = "begin_compilation_unit h k name p d"
  have find: "find_session ?d j = (if j = k then Some (s\<lparr>ss_name := lower name, ss_is_program := p\<rparr>)
      else find_session d j)" for j
    using assms(1) by (simp add: begin_sessions find_change_session)
  have "entry_ok ?d t" if entry: "entry_ok d t" for t
  proof -
    from entry obtain u where u: "DAList.lookup (dc_units d) (ss_name t) = Some u"
      "pu_ok u \<or> (\<exists>j x. find_session d j = Some x \<and> ss_phase x = InterfaceReady \<and> ss_name x = ss_name t)"
      by (auto simp: entry_ok_def)
    then have "DAList.lookup (dc_units ?d) (ss_name t) = Some u"
      by (auto simp: begin_units lookup_update)
    moreover have "find_session ?d j = Some x"
      if "find_session d j = Some x" "ss_phase x = InterfaceReady" for j x
      using that assms(1,2) by (auto simp: find)
    ultimately show ?thesis using u(2) unfolding entry_ok_def by blast
  qed
  then show ?thesis
    using assms by (auto simp: clean_def fine_session_def find)
qed

lemma listen_clean:
  assumes "keeps load" "safe load" "listen h load k a d = Some d'" "clean d"
    "dc_errors d' = dc_errors d" "begins a \<longrightarrow> (\<exists>s. find_session d k = Some s \<and> ss_phase s = ParsingInterface)"
  shows "clean d'"
proof -
  have call: "clean e \<Longrightarrow> clean (call_registry h c e)" for e :: "'r discovery" and c
    by (rule clean_cong) simp_all
  show ?thesis
  proof (cases a)
    case (BeginUnit name p)
    then show ?thesis using assms by (auto intro: begin_clean)
  next
    case (ImportUnits us b)
    then obtain e c where e: "import_loop h load k us d = Some e" "d' = call_registry h c e"
      using assms(3) by auto
    then have "dc_errors e = dc_errors d"
      using assms(5) kept_errors [OF kept_imports [OF assms(1) e(1)]] errors_more(4) [of e h c] by simp
    then show ?thesis using e imports_clean [OF assms(1,2) e(1) assms(4)] call by simp
  qed (use assms call in auto)
qed

lemma replay_clean:
  "keeps load \<Longrightarrow> safe load \<Longrightarrow> replay h load k as d = Some d' \<Longrightarrow> clean d \<Longrightarrow>
   dc_errors d' = dc_errors d \<Longrightarrow>
   (\<exists>s. find_session d k = Some s \<and> ss_phase s = ParsingInterface) \<or> (\<forall>a \<in> set as. \<not> begins a) \<Longrightarrow>
   clean d'"
proof (induction as arbitrary: d)
  case (Cons a as)
  then obtain e where e: "listen h load k a d = Some e" "replay h load k as e = Some d'"
    by (auto simp: bind_eq_Some_conv)
  have k: "kept S {k} d e" by (rule kept_listen [OF Cons.prems(1) e(1)])
  then have "dc_errors e = dc_errors d"
    using kept_errors [OF k] kept_errors [OF kept_replay [OF Cons.prems(1) e(2)]] Cons.prems(5) by simp
  moreover have "clean e"
    using listen_clean [OF Cons.prems(1,2) e(1)] Cons.prems calculation by auto
  moreover have "(\<exists>s. find_session e k = Some s \<and> ss_phase s = ParsingInterface) \<or>
      (\<forall>a \<in> set as. \<not> begins a)"
    using Cons.prems(6) by (auto simp: evolved_def elim!: kept_session [OF k])
  ultimately show ?case using Cons e(2) by simp
qed simp

lemma record_units:
  "dc_units d = us \<Longrightarrow> (b \<longleftrightarrow> c) \<Longrightarrow>
   \<exists>u. dc_units (record_unit n p a b d) = DAList.update n u us \<and> (pu_ok u \<longleftrightarrow> c)"
  by (auto simp: record_unit_def Let_def split: option.split)

lemma finish_units:
  "find_session d k = Some s \<Longrightarrow> \<exists>u. dc_units (snd (finish_session k path r e d)) =
      DAList.update (unit_name_of path (head_node r)) u (dc_units d) \<and>
    (pu_ok u \<longleftrightarrow> \<not> (ss_had_error s \<or> dc_errors d - e \<noteq> 0) \<and> head_node r \<noteq> None \<and> \<not> starts_unit r)"
  unfolding finish_session_def Let_def snd_conv
  by (rule record_units) (auto simp: find_change_session)

text \<open>
  A session that is entered into the map of units, with the units of that name usable or with
  itself to wait for.
\<close>

lemma recorded_clean:
  assumes "clean d" "find_session d k = Some s" "ss_phase s \<noteq> Complete"
    "ss_phase s = InterfaceReady \<Longrightarrow> ss_name s = n"
    "find_session d' = (find_session d)(k \<mapsto> t)" "dc_units d' = DAList.update n u (dc_units d)"
    "\<not> ss_had_error t" "ss_run t = ss_run s" "ss_name t = n"
    "ss_phase t = Complete \<and> pu_ok u \<or> ss_phase t = InterfaceReady \<and> starts_unit (ss_run t)"
  shows "clean d'"
proof -
  have ready: "\<exists>j x. find_session d' j = Some x \<and> ss_phase x = InterfaceReady \<and> ss_name x = n"
    if "\<not> pu_ok u"
    using assms(5,9,10) that by (intro exI [of _ k]) auto
  have other: "entry_ok d' x" if x: "entry_ok d x" for x
  proof (cases "ss_name x = n")
    case True
    then show ?thesis using ready assms(6) by (auto simp: entry_ok_def lookup_update)
  next
    case False
    have "find_session d' j = Some y"
      if "find_session d j = Some y" "ss_phase y = InterfaceReady" "ss_name y = ss_name x" for j y
      using that assms(2,4,5) False by (cases "j = k") auto
    with x have "\<exists>u. DAList.lookup (dc_units d) (ss_name x) = Some u \<and> (pu_ok u \<or>
        (\<exists>j y. find_session d' j = Some y \<and> ss_phase y = InterfaceReady \<and> ss_name y = ss_name x))"
      unfolding entry_ok_def by blast
    then show ?thesis using False assms(6) by (simp add: entry_ok_def lookup_update)
  qed
  have "entry_ok d' t" using ready assms(6,9) by (auto simp: entry_ok_def lookup_update)
  then have "fine_session d' t"
    using assms(1,2,7,8,10) by (auto simp: fine_session_def clean_def)
  moreover have "fine_session d' x" if "find_session d j = Some x" for j x
    using that assms(1) other by (auto simp: fine_session_def clean_def)
  ultimately show ?thesis using assms(5) by (auto simp: clean_def)
qed

end

locale readable_search = unit_search +
  assumes readable: "path_key h path \<in> S \<Longrightarrow> \<exists>r. load_source h path = Some r \<and> good_run r"
begin

lemma parse_recursive_safe: "safe (parse_recursive n h)"
proof (induction n)
  case (Suc n)
  show ?case unfolding safe_def
  proof (intro allI impI)
    fix path d e d'
    assume key: "path_key h path \<in> S" and p: "parse_recursive (Suc n) h path d = Some (e, d')"
      and c: "clean d" and errs: "dc_errors d' = dc_errors d"
    show "e = 0 \<and> clean d'"
    proof (cases "find_session d (path_key h path)")
      case (Some s)
      then have "\<not> ss_had_error s \<and> ss_phase s \<noteq> Failed"
        using c by (auto simp: clean_def fine_session_def)
      with p c errs Some show ?thesis by (auto simp: Let_def split: if_splits)
    next
      case None
      let ?k = "path_key h path"
      obtain r where r: "load_source h path = Some r" "good_run r" using readable [OF key] by blast
      let ?d0 = "put_session ?k (new_session path r) d"
      from p None r obtain d1 where d1: "replay h (parse_recursive n h) ?k (head_actions r) ?d0 = Some d1"
        and fin: "(e, d') = finish_session ?k path r (dc_errors d) (count_errors (head_errors r) d1)"
        by (auto simp: Let_def)
      have d': "d' = snd (finish_session ?k path r (dc_errors d) (count_errors (head_errors r) d1))"
        and e: "e = dc_errors d1 + head_errors r - dc_errors d"
        using fin by (simp_all add: finish_session_def Let_def)
      have k: "kept S {?k} ?d0 d1" by (rule kept_replay [OF keeps_parse_recursive d1])
      have e1: "dc_errors d1 = dc_errors d" "head_errors r = 0"
        using kept_errors [OF k] errs by (simp_all add: d' finish_errors)
      obtain s where s: "find_session d1 ?k = Some s" "ss_phase s = ParsingInterface" "ss_run s = r"
        using kept_session [OF k, of ?k "new_session path r"]
        by (auto simp: find_put_session evolved_def new_session_def)
      have "clean ?d0"
        using c r None by (auto simp: clean_def fine_session_def entry_ok_def find_put_session new_session_def)
          (metis option.distinct(1))+
      then have c1: "clean d1"
        using replay_clean [OF keeps_parse_recursive Suc d1] e1
        by (simp add: find_put_session new_session_def)
      obtain u where node: "head_node r = Some u"
        using r(2) e1(2) by (auto simp: good_run_def)
      let ?t = "s\<lparr>ss_phase := (if starts_unit r then InterfaceReady else Complete),
        ss_had_error := ss_had_error s, ss_name := unit_name_of path (head_node r),
        ss_ast := head_node r\<rparr>"
      have "find_session d' = (find_session d1)(?k \<mapsto> ?t)"
        using s e1 node by (auto simp: d' finish_sessions find_change_session)
      moreover obtain u where u: "dc_units d' = DAList.update (unit_name_of path (head_node r)) u (dc_units d1)"
        "pu_ok u \<longleftrightarrow> \<not> ss_had_error s \<and> \<not> starts_unit r"
        using finish_units [of "count_errors (head_errors r) d1" ?k s path r "dc_errors d"] s(1) e1 node
        by (auto simp: d')
      moreover have "\<not> ss_had_error s" using c1 s(1) by (auto simp: clean_def fine_session_def)
      ultimately have "clean d'"
        by (intro recorded_clean [OF c1 s(1), where d' = d' and t = ?t and u = u]) (simp_all add: s)
      then show ?thesis using e e1 by simp
    qed
  qed
qed (simp add: safe_def)

lemma implementation_clean:
  assumes "closed d" "find_session d k = Some s" "ss_phase s = InterfaceReady"
    "parse_implementation n h k s d = Some d'" "clean d" "dc_errors d' = dc_errors d"
  shows "clean d'"
proof -
  obtain e where e: "replay h (parse_recursive n h) k (impl_actions (ss_run s)) d = Some e"
    and d': "d' = finish_implementation k (impl_node (ss_run s)) (dc_errors d)
      (count_errors (impl_errors (ss_run s)) e)"
    using assms(4) by (auto simp: parse_implementation_def)
  have k: "kept S {k} d e" by (rule kept_replay [OF keeps_parse_recursive e])
  then have errs: "dc_errors e = dc_errors d" "impl_errors (ss_run s) = 0"
    using kept_errors [OF k] assms(6) by (simp_all add: d' finish_implementation_sessions)
  have run: "good_run (ss_run s)" "starts_unit (ss_run s)"
    using assms(2,3,5) by (auto simp: clean_def fine_session_def)
  then have c: "clean e"
    using replay_clean [OF keeps_parse_recursive parse_recursive_safe e assms(5) errs(1)]
    by (simp add: good_run_def)
  obtain t where t: "find_session e k = Some t" "ss_phase t = InterfaceReady" "ss_run t = ss_run s"
    using kept_session [OF k assms(2)] assms(3) by (auto simp: evolved_def)
  moreover have "fine_session e t" using c t(1) by (simp add: clean_def)
  ultimately have ft: "\<not> ss_had_error t" "entry_ok e t"
    by (simp_all add: fine_session_def)
  let ?t = "t\<lparr>ss_phase := Complete, ss_had_error := False, ss_ast := impl_node (ss_run s)\<rparr>"
  obtain u where u: "DAList.lookup (dc_units e) (ss_name t) = Some u"
    using ft(2) by (auto simp: entry_ok_def)
  have node: "impl_node (ss_run s) \<noteq> None" using run by (simp add: good_run_def)
  have "find_session d' = (find_session e)(k \<mapsto> ?t)"
    using t(1) ft(1) errs node
    by (auto simp: d' finish_implementation_sessions find_change_session)
  moreover have "dc_units d' = DAList.update (ss_name t)
      (u\<lparr>pu_ast := impl_node (ss_run s), pu_ok := True\<rparr>) (dc_units e)"
    using t(1) ft(1) errs node u
    by (simp add: d' finish_implementation_def Let_def session_name_def find_change_session)
  ultimately show ?thesis
    by (intro recorded_clean [OF c t(1), where d' = d' and t = ?t
        and u = "u\<lparr>pu_ast := impl_node (ss_run s), pu_ok := True\<rparr>"]) (simp_all add: t ft)
qed

lemma pending_errors: "parse_pending n m h d = Some d' \<Longrightarrow> dc_errors d \<le> dc_errors d'"
proof (induction m arbitrary: d)
  case (Suc m)
  have "dc_errors d \<le> dc_errors e" if "parse_implementation n h k s d = Some e" for k s e
    using that kept_errors [OF kept_replay [OF keeps_parse_recursive]]
    by (force simp: parse_implementation_def finish_implementation_sessions)
  with Suc show ?case
    by (auto simp: bind_eq_Some_conv split: option.splits) (meson le_trans)
qed simp

lemma pending_clean:
  "closed d \<Longrightarrow> card (unseen d) < n \<Longrightarrow> parse_pending n m h d = Some d' \<Longrightarrow> clean d \<Longrightarrow>
   dc_errors d' = dc_errors d \<Longrightarrow> clean d'"
proof (induction m arbitrary: d)
  case (Suc m)
  show ?case
  proof (cases "pending_session d")
    case None
    with Suc.prems show ?thesis by simp
  next
    case (Some p)
    obtain k s where p: "p = (k, s)" by fastforce
    with Some have s: "find_session d k = Some s" "ss_phase s = InterfaceReady"
      by (auto dest: pending_session_Some)
    obtain e where e: "parse_implementation n h k s d = Some e" "closed e"
      "card (unseen e) < n" "dc_errors d \<le> dc_errors e"
      using implementation_round [OF Suc.prems(1) s Suc.prems(2)] Suc.prems(2) by (metis le_less_trans)
    have rest: "parse_pending n m h e = Some d'" using Suc.prems(3) Some p e(1) by simp
    have "dc_errors e \<le> dc_errors d'" by (rule pending_errors [OF rest])
    then have "dc_errors e = dc_errors d" using Suc.prems(5) e(4) by simp
    moreover have "clean e"
      using implementation_clean [OF Suc.prems(1) s e(1) Suc.prems(4)] calculation by simp
    ultimately show ?thesis using Suc.IH [OF e(2,3) rest] Suc.prems(5) by simp
  qed
qed simp

lemma fresh_errors:
  assumes "find_session d (path_key h path) = None" "path_key h path \<in> S"
    "parse_recursive n h path d = Some (0, d')"
  shows "dc_errors d' = dc_errors d"
proof (cases n)
  case (Suc m)
  obtain r where "load_source h path = Some r" using readable [OF assms(2)] by blast
  with assms(1,3) Suc obtain x
    where x: "finish_session (path_key h path) path r (dc_errors d) x = (0, d')"
    by (auto simp: Let_def)
  have "dc_errors d' = dc_errors x" using finish_errors x by (metis snd_conv)
  moreover have "dc_errors x - dc_errors d = 0" using x by (simp add: finish_session_def Let_def)
  moreover have "dc_errors d \<le> dc_errors d'"
    using keeps_parse_recursive [of n] assms(2,3) unfolding keeps_def by (blast dest: kept_errors)
  ultimately show ?thesis by simp
qed (use assms(3) in simp)

lemma discovery_clean:
  assumes "path_key h entry \<in> S" "card S < n"
    "discover_from_entry n h reg errors entry = Some (0, d, usable)"
  shows "\<forall>k s. find_session d k = Some s \<longrightarrow> ss_phase s = Complete \<and> \<not> ss_had_error s \<and>
    (\<exists>u. DAList.lookup (dc_units d) (ss_name s) = Some u \<and> pu_ok u)"
proof -
  let ?d0 = "empty_discovery reg errors"
  obtain e d1 d2 where d: "parse_recursive n h entry ?d0 = Some (e, d1)" "closed d1"
    "parse_pending n n h d1 = Some d2" "closed d2" "pending_session d2 = None"
    using discovery_closed [OF assms(1,2)] by blast
  have none: "find_session ?d0 k = None" for k
    by (simp add: find_session_def empty_discovery_def)
  have k: "kept S {} ?d0 d1"
    using keeps_parse_recursive assms(1) d(1) by (auto simp: keeps_def)
  have "e = 0" "dc_errors d2 = dc_errors d1" "d2 = d"
    using assms(3) d pending_errors [OF d(3)] by (auto simp: discover_from_entry_def)
  moreover have "dc_errors d1 = dc_errors ?d0"
    using fresh_errors [OF none assms(1)] d(1) \<open>e = 0\<close> by simp
  ultimately have "clean d1"
    using parse_recursive_safe d(1) assms(1) by (auto simp: safe_def clean_def none)
  moreover have "card (unseen d1) < n"
    using kept_unseen [OF k] assms(2) by (simp add: unseen_def none)
  ultimately have "clean d"
    using pending_clean [OF d(2) _ d(3)] \<open>dc_errors d2 = dc_errors d1\<close> \<open>d2 = d\<close> by simp
  moreover have "ss_phase s \<noteq> InterfaceReady" if "find_session d k = Some s" for k s
    using pending_session_None [OF d(5)] that \<open>d2 = d\<close> by simp
  moreover have "ss_phase s \<noteq> ParsingInterface" if "find_session d k = Some s" for k s
    using d(4) that \<open>d2 = d\<close> by (simp add: closed_def)
  ultimately have fin: "fine_session d s \<and> ss_phase s = Complete" if "find_session d k = Some s" for k s
    using that phase.exhaust [of "ss_phase s"] by (auto simp: clean_def fine_session_def)
  show ?thesis
  proof (intro allI impI)
    fix k s assume s: "find_session d k = Some s"
    then have "entry_ok d s" using fin [OF s] by (simp add: fine_session_def)
    moreover have "\<not> (find_session d j = Some t \<and> ss_phase t = InterfaceReady)" for j t
      using fin [of j t] by auto
    ultimately show "ss_phase s = Complete \<and> \<not> ss_had_error s \<and>
        (\<exists>u. DAList.lookup (dc_units d) (ss_name s) = Some u \<and> pu_ok u)"
      using fin [OF s] by (auto simp: fine_session_def entry_ok_def)
  qed
qed

end

subsection \<open>The number returned\<close>

lemma reading_fields [simp]:
  "path_key (reading files h) = path_key h"
  "unit_path_index (reading files h) = unit_path_index h"
  "load_source (reading files h) p = map_option (\<lambda>(toks, m). run_parser toks m) (files p)"
  by (simp_all add: reading_def)

interpretation readable: readable_search
    "searching listing here there roots (reading (\<lambda>p. Some (files p)) h)"
    "path_key h ` set (candidate_files listing here there roots entry)"
    for listing here there roots files h entry
proof (intro readable_search.intro readable_search_axioms.intro)
  show "unit_search (searching listing here there roots (reading (\<lambda>p. Some (files p)) h))
      (path_key h ` set (candidate_files listing here there roots entry))"
    using found.unit_search_axioms [where h = "reading (\<lambda>p. Some (files p)) h"] by simp
qed (auto simp: searching_def good_run_parser split: prod.split)

lemma discover_usable:
  "discover_from_entry n h reg errors entry = Some (e, d, usable) \<Longrightarrow> usable = propagate_failures (dc_units d)"
  by (auto simp: discover_from_entry_def split: option.splits)

text \<open>
  C19. All files on the search path being readable, if discovery returns 0 there was nothing
  wrong: every file that was opened was parsed to its end without an error, none of its own and
  none passed on from a unit it imports, and the unit it declares is in the map of units, marked
  usable; and a unit stays usable when failures are propagated through the uses clauses if every
  unit it needs, itself included, was declared by an opened file. (A file that is on the search
  path and cannot be opened makes its importers fail without any report.)
\<close>

theorem no_errors_all_usable:
  assumes "length (candidate_files listing here there roots entry) < n"
    and "discover_from_entry n (searching listing here there roots (reading (\<lambda>p. Some (files p)) h))
      reg errors entry = Some (0, d, usable)"
  shows "(\<forall>k s. find_session d k = Some s \<longrightarrow> ss_phase s = Complete \<and> \<not> ss_had_error s \<and>
      (\<exists>u. DAList.lookup (dc_units d) (ss_name s) = Some u \<and> pu_ok u)) \<and>
    (\<forall>x. (\<forall>y\<in>needed_units (entries (dc_units d)) x. \<exists>k s. find_session d k = Some s \<and> ss_name s = y) \<longrightarrow>
      usable x)"
proof -
  let ?fs = "candidate_files listing here there roots entry"
  have "card (path_key h ` set ?fs) < n"
    using card_image_le [of "set ?fs" "path_key h"] card_length [of ?fs] assms(1) by simp
  then have all: "\<forall>k s. find_session d k = Some s \<longrightarrow> ss_phase s = Complete \<and> \<not> ss_had_error s \<and>
      (\<exists>u. DAList.lookup (dc_units d) (ss_name s) = Some u \<and> pu_ok u)"
    by (intro readable.discovery_clean [OF _ _ assms(2)]) (simp_all add: candidate_files_def)
  then have "initial_ok (dc_units d) (ss_name s)" if "find_session d k = Some s" for k s
    using that by (fastforce simp: initial_ok_def)
  then have "usable x"
    if "\<forall>y\<in>needed_units (entries (dc_units d)) x. \<exists>k s. find_session d k = Some s \<and> ss_name s = y" for x
    using that unfolding discover_usable [OF assms(2)] usable_iff_needed
    by (intro subsetI CollectI) metis
  with all show ?thesis by blast
qed

text \<open>The program \<open>begin end.\<close>\<close>

definition sample_modes :: modes where
  "sample_modes = \<lparr>m_overflow = False, m_range = False, m_packenum = 4, m_interface = Com, m_long_strings = False\<rparr>"

definition sample_tokens :: "lexed list" where
  "sample_tokens = map (\<lambda>(k, t). (token_at k no_location t, sample_modes, []))
     [(KwBegin, ''begin''), (KwEnd, ''end''), (Dot, ''.''), (Eof, [])]"

lemma sample_source:
  assumes "r_fuel R = Suc n"
  shows "case run_state (parse_source R) (new_parser sample_tokens sample_modes True) of (r, s) \<Rightarrow>
    r = Some (UnitNode no_location [] [] [] [] [] (Some (SCompound no_location [])) None True) \<and>
    ps_diags s = [] \<and> ps_actions s = []"
  using assms
  by (simp add: new_parser_def sample_tokens_def advance_def field_def lex_pull_def parse_source_def
    cur_kind_def parse_body_only_def cur_loc_def parse_compound_statement_def expect_def check_def
    parse_stmt_list_def list_until_def only_if_def State_Monad.bind_def while_do_def while_collect_def branch_def
    check_any_def at_end_def)

lemma sample_run: "head_node (run_parser sample_tokens sample_modes) =
    Some (UnitNode no_location [] [] [] [] [] (Some (SCompound no_location [])) None True)"
  "head_actions (run_parser sample_tokens sample_modes) = []"
  "head_errors (run_parser sample_tokens sample_modes) = 0"
  "\<not> starts_unit (run_parser sample_tokens sample_modes)"
proof -
  have k: "tok_kind (ps_cur (new_parser sample_tokens sample_modes True)) = KwBegin"
    by (simp add: new_parser_def sample_tokens_def advance_def field_def lex_pull_def
      State_Monad.bind_def)
  have f: "r_fuel (knot (length sample_tokens)) = Suc (length sample_tokens)"
    by (cases "length sample_tokens") (simp_all add: Let_def)
  show "head_node (run_parser sample_tokens sample_modes) =
      Some (UnitNode no_location [] [] [] [] [] (Some (SCompound no_location [])) None True)"
    "head_actions (run_parser sample_tokens sample_modes) = []"
    "head_errors (run_parser sample_tokens sample_modes) = 0"
    "\<not> starts_unit (run_parser sample_tokens sample_modes)"
    using sample_source [OF f]
    by (simp_all add: run_parser_def Let_def k error_count_def split: prod.splits)
qed

lemma finish_count: "fst (finish_session k path r e d) = dc_errors d - e"
  by (simp add: finish_session_def Let_def)

definition sample_host :: "unit host" where
  "sample_host = \<lparr>path_key = (\<lambda>p. p), load_source = (\<lambda>_. None), unit_path_index = (\<lambda>_. None),
     registry_step = (\<lambda>_ r. (r, 0))\<rparr>"

lemma sample_key [simp]: "path_key sample_host p = p"
  by (simp add: sample_host_def)

abbreviation sample_search :: "unit host" where
  "sample_search \<equiv> searching (\<lambda>_. None) [] [] []
     (reading (\<lambda>p. Some (sample_tokens, sample_modes)) sample_host)"

definition sample_node :: unit_node where
  "sample_node = UnitNode no_location [] [] [] [] [] (Some (SCompound no_location [])) None True"

lemma sample_discovery:
  obtains d where
    "discover_from_entry 2 sample_search () 0 p = Some (0, d, propagate_failures (dc_units d))"
    "map_option ss_phase (find_session d p) = Some Complete"
    "dc_units d = DAList.update (''__prog_'' @ path_stem p)
       \<lparr>pu_name = ''__prog_'' @ path_stem p, pu_path = p, pu_ast = Some sample_node, pu_ok = True\<rparr>
       DAList.empty"
proof -
  let ?e = "empty_discovery () 0" and ?r = "run_parser sample_tokens sample_modes"
  have key: "path_key sample_search p = p" and load: "load_source sample_search p = Some ?r"
    and none: "find_session ?e k = None" for k
    by (simp_all add: sample_host_def searching_def empty_discovery_def find_session_def)
  define d where "d = snd (finish_session p p ?r 0 (count_errors 0 (put_session p (new_session p ?r) ?e)))"
  have zero: "dc_errors ?e = 0" by (simp add: empty_discovery_def)
  have parse: "parse_recursive 2 sample_search p ?e = Some (0, d)"
    by (simp add: numeral_2_eq_2 key load none zero sample_run d_def prod_eq_iff finish_count Let_def)
  have only: "k \<noteq> p \<Longrightarrow> find_session d k = None"
    "map_option ss_phase (find_session d p) = Some Complete" for k
    by (simp_all add: d_def finish_sessions find_change_session find_put_session none sample_run)
  have "pending_session d \<noteq> Some (k, s)" for k s
    using pending_session_Some [of d k s] only(1) only(2) by (cases "k = p") auto
  then have "pending_session d = None" by (cases "pending_session d") auto
  then have disc: "discover_from_entry 2 sample_search () 0 p = Some (0, d, propagate_failures (dc_units d))"
    using parse by (simp add: discover_from_entry_def numeral_2_eq_2)
  have "dc_units d = DAList.update (''__prog_'' @ path_stem p)
       \<lparr>pu_name = ''__prog_'' @ path_stem p, pu_path = p, pu_ast = Some sample_node, pu_ok = True\<rparr>
       DAList.empty"
    by (simp add: d_def finish_session_def record_unit_def sample_run sample_node_def Let_def
      unit_name_of_def lower_def find_change_session find_put_session new_session_def
      empty_discovery_def)
  with disc only(2) that show thesis by blast
qed

theorem no_errors_all_usable_witness:
  "\<exists>d. discover_from_entry 2 sample_search () 0 ''p.pas'' =
        Some (0, d, propagate_failures (dc_units d)) \<and>
    (\<exists>s u. find_session d ''p.pas'' = Some s \<and> ss_phase s = Complete \<and>
       DAList.lookup (dc_units d) (ss_name s) = Some u \<and> pu_ok u)"
proof -
  have files: "candidate_files (\<lambda>_. None) [] [] [] ''p.pas'' = [''p.pas'']"
    by (simp add: candidate_files_def files_in_def)
  obtain d where d: "discover_from_entry 2 sample_search () 0 ''p.pas'' =
      Some (0, d, propagate_failures (dc_units d))"
    "map_option ss_phase (find_session d ''p.pas'') = Some Complete"
    by (rule sample_discovery [of "''p.pas''"])
  moreover obtain s where "find_session d ''p.pas'' = Some s" using d(2) by auto
  ultimately show ?thesis
    using no_errors_all_usable [OF _ d(1), THEN conjunct1] files by (auto intro!: exI [of _ d])
qed

end
