(* ===== verification/Driver_Facts.thy ===== *)
theory Driver_Facts
  imports Driver Topo_Facts Discovery_Facts
begin

text \<open>
  The command line and \<open>emit-all\<close>: the arguments kept for the Makefile give the same options
  again, and the exit status tells whether everything was translated.
\<close>

subsection \<open>The command for the Makefile\<close>

text \<open>The options two scans agree on.\<close>

definition same_options :: "cli \<Rightarrow> cli \<Rightarrow> bool" where
  "same_options c d \<longleftrightarrow> cli_defines c = cli_defines d \<and> cli_unit_paths c = cli_unit_paths d \<and>
     cli_include_paths c = cli_include_paths d \<and> cli_regen_args c = cli_regen_args d \<and>
     cli_overflow_check c = cli_overflow_check d \<and> cli_range_check c = cli_range_check d \<and>
     cli_cpu c = cli_cpu d"

lemma same_options_refl [simp]: "same_options c c"
  by (simp add: same_options_def)

text \<open>What an argument does, apart from the state it does it to.\<close>

definition cli_action :: "string \<Rightarrow> nat + (cli \<Rightarrow> cli)" where
  "cli_action a =
     (if a \<in> {''-h'', ''--help''} then Inl 0
      else if a = ''-m'' then Inr (\<lambda>c. c\<lparr>cli_makefile := True\<rparr>)
      else if has_prefix_and_more ''-d'' a
      then Inr (\<lambda>c. keep_arg a (c\<lparr>cli_defines := cli_defines c @ [drop 2 a]\<rparr>))
      else if has_prefix_and_more ''-Fu'' a
      then Inr (\<lambda>c. keep_arg a (c\<lparr>cli_unit_paths := cli_unit_paths c @ [drop 3 a]\<rparr>))
      else if has_prefix_and_more ''-Fi'' a
      then Inr (\<lambda>c. keep_arg a (c\<lparr>cli_include_paths := cli_include_paths c @ [drop 3 a]\<rparr>))
      else if a = ''-Co'' then Inr (\<lambda>c. keep_arg a (c\<lparr>cli_overflow_check := True\<rparr>))
      else if a = ''-Cr'' then Inr (\<lambda>c. keep_arg a (c\<lparr>cli_range_check := True\<rparr>))
      else if has_prefix_and_more ''-P'' a then Inr (\<lambda>c. keep_arg a (c\<lparr>cli_cpu := drop 2 a\<rparr>))
      else if a \<noteq> [] \<and> hd a = CHR ''-'' then Inl 2
      else Inr (\<lambda>c. c\<lparr>cli_positional := cli_positional c @ [a]\<rparr>))"

lemma cli_option_action: "cli_option a c = map_sum id (\<lambda>f. f c) (cli_action a)"
  unfolding cli_option_def cli_action_def if_distrib [of "map_sum _ _"] by simp

text \<open>
  An argument either changes nothing but the positional arguments and the Makefile switch,
  or it is kept and has the same effect on every state.
\<close>

definition same_effect :: "string \<Rightarrow> (cli \<Rightarrow> cli) \<Rightarrow> bool" where
  "same_effect a f \<longleftrightarrow> (\<forall>c. same_options (f c) c) \<or>
     (\<forall>c d. cli_regen_args (f c) = cli_regen_args c @ [a] \<and>
        (same_options c d \<longrightarrow> same_options (f c) (f d)) \<and>
        cli_positional (f d) = cli_positional d \<and> cli_makefile (f d) = cli_makefile d)"

lemma same_effectI:
  "same_effect a (\<lambda>c. c\<lparr>cli_makefile := True\<rparr>)"
  "same_effect a (\<lambda>c. c\<lparr>cli_positional := cli_positional c @ [a]\<rparr>)"
  "same_effect a (\<lambda>c. keep_arg a (c\<lparr>cli_defines := cli_defines c @ [x]\<rparr>))"
  "same_effect a (\<lambda>c. keep_arg a (c\<lparr>cli_unit_paths := cli_unit_paths c @ [x]\<rparr>))"
  "same_effect a (\<lambda>c. keep_arg a (c\<lparr>cli_include_paths := cli_include_paths c @ [x]\<rparr>))"
  "same_effect a (\<lambda>c. keep_arg a (c\<lparr>cli_overflow_check := True\<rparr>))"
  "same_effect a (\<lambda>c. keep_arg a (c\<lparr>cli_range_check := True\<rparr>))"
  "same_effect a (\<lambda>c. keep_arg a (c\<lparr>cli_cpu := x\<rparr>))"
  by (simp_all add: same_effect_def same_options_def keep_arg_def)

lemma cli_action_cases: "pred_sum (\<lambda>_. True) (same_effect a) (cli_action a)"
  unfolding cli_action_def by (simp only: same_effectI pred_sum_inject split: if_split) simp

lemma cli_option_cases:
  assumes "cli_option a c = Inr c'"
  shows "same_options c' c \<or> (cli_regen_args c' = cli_regen_args c @ [a] \<and>
    (\<forall>d. same_options c d \<longrightarrow> (\<exists>d'. cli_option a d = Inr d' \<and> same_options c' d' \<and>
       cli_positional d' = cli_positional d \<and> cli_makefile d' = cli_makefile d)))"
proof -
  obtain f where f: "cli_action a = Inr f" "c' = f c"
    using assms by (cases "cli_action a") (auto simp: cli_option_action)
  then have "same_effect a f" using cli_action_cases [of a] by simp
  with f show ?thesis unfolding same_effect_def cli_option_action by auto
qed

lemma parse_cli_kept:
  assumes "parse_cli args c = Inr c'" "same_options c d"
  obtains kept d' where "cli_regen_args c' = cli_regen_args c @ kept"
    "\<And>rest. parse_cli (kept @ rest) d = parse_cli rest d'"
    "same_options c' d'" "cli_positional d' = cli_positional d" "cli_makefile d' = cli_makefile d"
proof -
  have "\<exists>kept d'. cli_regen_args c' = cli_regen_args c @ kept \<and>
      (\<forall>rest. parse_cli (kept @ rest) d = parse_cli rest d') \<and> same_options c' d' \<and>
      cli_positional d' = cli_positional d \<and> cli_makefile d' = cli_makefile d"
    using assms
  proof (induction args arbitrary: c d)
    case Nil
    then show ?case by (intro exI [of _ "[]"] exI [of _ d]) simp
  next
    case (Cons a args)
    show ?case
    proof (cases "a = ''--''")
      case True
      with Cons.prems show ?thesis
        by (intro exI [of _ "[]"] exI [of _ d]) (auto simp: same_options_def)
    next
      case False
      then obtain c1 where c1: "cli_option a c = Inr c1" "parse_cli args c1 = Inr c'"
        using Cons.prems(1) by (auto split: sum.splits)
      from cli_option_cases [OF c1(1)] show ?thesis
      proof (elim disjE conjE)
        assume s: "same_options c1 c"
        then have "same_options c1 d" using Cons.prems(2) by (simp add: same_options_def)
        with Cons.IH [OF c1(2)] s show ?thesis by (auto simp: same_options_def [of c1 c])
      next
        assume a: "cli_regen_args c1 = cli_regen_args c @ [a]"
          and "\<forall>d. same_options c d \<longrightarrow> (\<exists>d'. cli_option a d = Inr d' \<and> same_options c1 d' \<and>
            cli_positional d' = cli_positional d \<and> cli_makefile d' = cli_makefile d)"
        with Cons.prems(2) obtain d1 where d1: "cli_option a d = Inr d1" "same_options c1 d1"
          "cli_positional d1 = cli_positional d" "cli_makefile d1 = cli_makefile d" by blast
        from Cons.IH [OF c1(2) d1(2)] obtain kept d' where
          "cli_regen_args c' = cli_regen_args c1 @ kept"
          "\<forall>rest. parse_cli (kept @ rest) d1 = parse_cli rest d'" "same_options c' d'"
          "cli_positional d' = cli_positional d1" "cli_makefile d' = cli_makefile d1" by blast
        with a d1 False show ?thesis by (intro exI [of _ "a # kept"] exI [of _ d']) simp
      qed
    qed
  qed
  with that show thesis by blast
qed

text \<open>
  C23. The Makefile's rule translates with the options of the run that wrote it: scanning the
  arguments of the regeneration command gives the same defines, search paths, checks and
  target, the absolute input and the directory \<open>.\<close> as positional arguments, and no request
  to write the Makefile again.
\<close>

theorem regenerate_same_options:
  assumes "parse_cli args no_options = Inr c"
  shows "\<exists>d. parse_cli (tl (make_regen_tp2cc_args absolute sub c input)) no_options = Inr d \<and>
    same_options d c \<and> cli_positional d = [absolute input, ''.''] \<and> \<not> cli_makefile d"
proof -
  obtain kept d' where k: "cli_regen_args c = cli_regen_args no_options @ kept"
    "\<And>rest. parse_cli (kept @ rest) no_options = parse_cli rest d'" "same_options c d'"
    "cli_positional d' = cli_positional no_options" "cli_makefile d' = cli_makefile no_options"
    using parse_cli_kept [OF assms same_options_refl] by blast
  then show ?thesis
    by (simp add: make_regen_tp2cc_args_def no_options_def same_options_def)
qed

theorem regenerate_same_options_witness:
  "\<exists>d. parse_cli (tl (make_regen_tp2cc_args id ''emit-all''
      (no_options\<lparr>cli_defines := [''X''], cli_regen_args := [''-dX'', ''-Co''], cli_overflow_check := True,
        cli_makefile := True, cli_positional := [''a.pas'', ''out'']\<rparr>) ''a.pas'')) no_options = Inr d \<and>
    cli_defines d = [''X''] \<and> cli_overflow_check d \<and> cli_positional d = [''a.pas'', ''.'']"
  using regenerate_same_options [of "[''-dX'', ''a.pas'', ''-m'', ''-Co'', ''--'', ''out'']" _ id "''emit-all''" "''a.pas''"]
  by (auto simp: cli_option_def has_prefix_and_more_def keep_arg_def no_options_def same_options_def)

subsection \<open>The exit status of \<open>emit-all\<close>\<close>

definition translates :: "units \<Rightarrow> (unit_node \<Rightarrow> string list option \<Rightarrow> (string \<times> string) option) \<Rightarrow> string \<Rightarrow> bool" where
  "translates us emit n \<longleftrightarrow> (\<exists>pu u. lookup_unit us n = Some pu \<and> pu_ok pu \<and> pu_ast pu = Some u \<and>
     emit u (if un_is_program u then Some (collect_unit_init_order us u) else None) \<noteq> None)"

lemma translate_unit_failed:
  "tr_failed (translate_unit us emit ab n s) = tr_failed s + (if translates us emit n then 0 else 1)"
  by (auto simp: translate_unit_def translates_def write_file_def Let_def split: option.splits prod.splits)

lemma translate_failed:
  "tr_failed (fold (translate_unit us emit ab) ns s) =
     tr_failed s + length (filter (\<lambda>n. \<not> translates us emit n) ns)"
  by (induction ns arbitrary: s) (simp_all add: translate_unit_failed)

text \<open>The run-time units the translated units refer to.\<close>

definition shims :: "units \<Rightarrow> (unit_node \<Rightarrow> string list option \<Rightarrow> (string \<times> string) option) \<Rightarrow> string \<Rightarrow> string set" where
  "shims us emit n = {r. \<exists>pu u. translates us emit n \<and> lookup_unit us n = Some pu \<and> pu_ast pu = Some u \<and>
     r \<in> set (runtime_unit_refs_in_uses us (un_interface_uses u @ un_impl_uses u))}"

lemma translate_unit_refs:
  "tr_refs (translate_unit us emit ab n s) = tr_refs s \<union> shims us emit n"
  by (auto simp: translate_unit_def shims_def translates_def write_file_def Let_def
    runtime_unit_refs_in_uses_def split: option.splits prod.splits if_splits)

lemma translate_refs:
  "tr_refs (fold (translate_unit us emit ab) ns s) = tr_refs s \<union> (\<Union>n \<in> set ns. shims us emit n)"
  by (induction ns arbitrary: s) (auto simp: translate_unit_refs)

lemma finite_shims [simp]: "finite (shims us emit n)"
proof (cases "lookup_unit us n")
  case (Some pu)
  then show ?thesis by (cases "pu_ast pu") (auto simp: shims_def)
qed (simp add: shims_def)

lemma write_shim_failed:
  "tr_failed (fold (write_shim exports) rs s) = tr_failed s + length (filter (\<lambda>r. exports r = None) rs)"
  by (induction rs arbitrary: s) (auto simp: write_shim_def write_file_def split: option.splits)

lemma filter_empty_subset: "filter P xs = [] \<longleftrightarrow> set xs \<subseteq> {x. \<not> P x}"
  by (auto simp: filter_empty_conv)

lemma emit_all_zero:
  "fst (cmd_emit_all c input derr us emit absolute exports program incs) = 0 \<longleftrightarrow>
     derr = 0 \<and> acyclic (compiled_after us) \<and> set (unit_keys us) \<subseteq> Collect (translates us emit) \<and>
     (\<Union>n \<in> set (unit_keys us). shims us emit n) \<subseteq> dom exports"
proof -
  obtain order cycles where t: "topo_sort us = (order, cycles)" by fastforce
  have cyc: "cycles = [] \<longleftrightarrow> acyclic (compiled_after us)"
    using sort_cycles [of us] by (simp add: t)
  have all: "set order = set (unit_keys us)" if "acyclic (compiled_after us)"
    using sort_emits [of us] that by (auto simp: t acyclic_def)
  have "tr_failed (translate_all us emit absolute exports order) = 0 \<longleftrightarrow>
      set order \<subseteq> Collect (translates us emit) \<and> (\<Union>n \<in> set order. shims us emit n) \<subseteq> dom exports"
    by (auto simp: translate_all_def Let_def write_shim_failed translate_failed translate_refs
      empty_translation_def filter_empty_subset)
  then show ?thesis using cyc all by (auto simp: cmd_emit_all_def t Let_def)
qed

text \<open>
  C18. \<open>emit-all\<close> exits with 0 exactly when discovery saw no error, the interface uses are
  acyclic, every unit of the graph was found usable and translated without errors, and the
  run-time units they refer to are known. A unit that was skipped is never silent.
\<close>

theorem emit_all_status:
  "fst (cmd_emit_all c input derr us emit absolute exports program incs) = 0 \<longleftrightarrow>
     derr = 0 \<and> acyclic (compiled_after us) \<and> set (unit_keys us) \<subseteq> Collect (translates us emit) \<and>
     (\<Union>n \<in> set (unit_keys us). shims us emit n) \<subseteq> dom exports"
  by (rule emit_all_zero)

text \<open>
  A program without a header in a file whose name has a capital letter is lost: it is
  filed under \<open>__prog_\<close> and the stem as written, discovery reports no error, but the lookups
  of \<open>emit-all\<close> use the lower case name. Nothing is translated and the command fails,
  whatever the emitter does.
\<close>

theorem capital_headerless_program_lost:
  "\<exists>d. discover_from_entry 2 sample_search () 0 ''Hello.pas'' =
        Some (0, d, propagate_failures (dc_units d)) \<and>
    ''__prog_Hello'' \<in> set (unit_keys (dc_units d)) \<and> lookup_unit (dc_units d) ''__prog_Hello'' = None \<and>
    fst (cmd_emit_all c input 0 (dc_units d) emit absolute exports program incs) \<noteq> 0"
proof -
  have stem: "path_stem ''Hello.pas'' = ''Hello''" by code_simp
  obtain d where d: "discover_from_entry 2 sample_search () 0 ''Hello.pas'' =
      Some (0, d, propagate_failures (dc_units d))"
    "dc_units d = DAList.update ''__prog_Hello'' \<lparr>pu_name = ''__prog_Hello'', pu_path = ''Hello.pas'',
       pu_ast = Some sample_node, pu_ok = True\<rparr> DAList.empty"
    by (rule sample_discovery [of "''Hello.pas''"]) (simp add: stem)
  have key: "''__prog_Hello'' \<in> set (unit_keys (dc_units d))"
    by (simp add: unit_keys_def entries_def d(2) DAList.update.rep_eq DAList.empty.rep_eq)
  have "lower ''__prog_Hello'' = ''__prog_hello''" by code_simp
  then have none: "lookup_unit (dc_units d) ''__prog_Hello'' = None"
    by (simp add: lookup_unit_def d(2) lookup_update)
  then have "\<not> translates (dc_units d) emit ''__prog_Hello''" by (simp add: translates_def)
  with d(1) key none show ?thesis
    using emit_all_zero [of c input 0 "dc_units d" emit absolute exports program incs] by auto
qed

end
