(* ===== verification/Reg_Model.thy ===== *)
theory Reg_Model
  imports Ast Emit_Support "HOL-Library.AList"
begin

text \<open>
  The data of the type registry, \<open>src/typereg.h\<close>. The C++ code links its objects by stable
  addresses: \<open>std::deque\<close> elements and nodes of the syntax tree never move. The model keeps
  one store per kind of object in the registry and an address is the position in its store:
  type symbols, descriptors, scope frames, and the type expressions of the syntax tree, whose
  \<open>mutable\<close> binding fields the registry fills in. A pointer that may be null is an option.
  \<open>ClassInfo\<close>, \<open>RecordInfo\<close>, \<open>InterfaceInfo\<close> and \<open>EnumInfoReg\<close> live inside the payload of a
  descriptor, so their address is the descriptor's. \<open>UnitInfo\<close> lives in the map \<open>units\<close>: its
  address is its key.

  An \<open>unordered_map\<close> is an association list with distinct keys: its order stands for the
  unspecified order of iteration. \<open>report_error\<close> appends to the field \<open>reports\<close>.
\<close>

type_synonym sym_ref = nat
type_synonym desc_ref = nat
type_synonym ctx_ref = nat
type_synonym texpr_ref = nat
type_synonym decl_ref = nat

type_synonym 'v smap = "(string \<times> 'v) list"

subsection \<open>Maps\<close>

text \<open>\<open>emplace\<close> and \<open>try_emplace\<close>: the first value of a key stays.\<close>

definition emplace :: "'k \<Rightarrow> 'v \<Rightarrow> ('k \<times> 'v) list \<Rightarrow> bool \<times> ('k \<times> 'v) list" where
  "emplace k v m = (if map_of m k = None then (True, m @ [(k, v)]) else (False, m))"

text \<open>\<open>insert_or_assign\<close> and \<open>m[k] = v\<close>.\<close>

definition assign :: "'k \<Rightarrow> 'v \<Rightarrow> ('k \<times> 'v) list \<Rightarrow> ('k \<times> 'v) list" where
  "assign k v m = AList.update k v m"

text \<open>\<open>m[k].push_back(v)\<close> on a map to vectors.\<close>

definition push_at :: "'k \<Rightarrow> 'v \<Rightarrow> ('k \<times> 'v list) list \<Rightarrow> ('k \<times> 'v list) list" where
  "push_at k v m = assign k ((case map_of m k of None \<Rightarrow> [] | Some vs \<Rightarrow> vs) @ [v]) m"

subsection \<open>Type expressions\<close>

text \<open>
  The nodes of \<open>src/ast.h\<close> with children by address. A routine declaration has its local
  declarations by address; types of parameters and fields are addresses of type expressions.
\<close>

type_synonym reg_param = "texpr_ref param"
type_synonym reg_proc = "(texpr_ref, decl_ref) proc_decl"
type_synonym reg_member = "(texpr_ref, decl_ref) object_member"

text \<open>A unit's declarations, by the parts that the registry reads.\<close>

datatype (plugins only: code) reg_decl =
    RType "texpr_ref type_decl"
  | RVar location "string list" texpr_ref
  | RConst location string "texpr_ref option" expr
  | RProc reg_proc
  | RLabel location "string list"

datatype (plugins only: code) shape =
    NName string
  | NArray "texpr_ref list" texpr_ref bool array_kind
  | NRecord "texpr_ref record_field list" "texpr_ref type_decl list"
      "(record_member_kind \<times> nat) list" "texpr_ref variant_part option" bool
  | NObject string "string list" "reg_member list" bool bool bool
  | NInterface string "reg_member list"
  | NSet texpr_ref "(int \<times> int) option"
  | NFile "texpr_ref option" bool
  | NPointer "texpr_ref option"
  | NDistinct texpr_ref
  | NMetaclass string
  | NProcedural bool "reg_param list" "texpr_ref option" bool bool
  | NEnum nat "enum_member list"
  | NSubrange expr expr
  | NString "expr option"

record texpr =
  te_loc :: location
  te_shape :: shape
  te_descriptor :: "desc_ref option"
  te_symbol :: "sym_ref option"
  te_context :: "ctx_ref option"

subsection \<open>Members\<close>

datatype (plugins only: code) sym_kind = UnknownKind | FieldKind | MethodKind | ClassMethodKind
  | ConstructorKind | DestructorKind

record enum_member_info =
  em_owner :: desc_ref
  em_index :: nat

record method_sig =
  ms_kind :: sym_kind
  ms_unit :: string
  ms_declaring_type :: string
  ms_declaring_symbol :: "sym_ref option"
  ms_param_count :: nat
  ms_accepts_zero_args :: bool
  ms_is_function :: bool
  ms_is_virtual :: bool
  ms_is_final :: bool
  ms_is_overload :: bool
  ms_decl :: reg_proc

record field_info =
  fi_type :: "texpr_ref option"
  fi_is_class_var :: bool
  fi_is_variant :: bool

datatype (plugins only: code) accessor =
    NoAccessor
  | FieldPath "string list" string
  | MethodAccessor "string list" string
  | UnsupportedAccessor "string list"

record property_info =
  pi_type :: texpr_ref
  pi_params :: "reg_param list"
  pi_read :: accessor
  pi_write :: accessor
  pi_is_default :: bool

subsection \<open>Descriptors\<close>

record class_info =
  ci_descriptor :: "desc_ref option"
  ci_name :: string
  ci_owner_path :: "string list"
  ci_parent :: string
  ci_parent_symbol :: "sym_ref option"
  ci_unit :: string
  ci_symbol :: "sym_ref option"
  ci_is_reference :: bool
  ci_is_abstract :: bool
  ci_is_forward :: bool
  ci_interfaces :: "sym_ref list"
  ci_fields :: "field_info smap"
  ci_methods :: "method_sig list smap"
  ci_properties :: "property_info smap"
  ci_nested :: "sym_ref smap"
  ci_enum_members :: "enum_member_info smap"
  ci_default_property :: string

record interface_info =
  ii_descriptor :: "desc_ref option"
  ii_name :: string
  ii_unit :: string
  ii_symbol :: "sym_ref option"
  ii_metadata :: string
  ii_methods :: "method_sig list smap"

record record_info =
  ri_descriptor :: "desc_ref option"
  ri_name :: string
  ri_unit :: string
  ri_is_packed :: bool
  ri_fields :: "field_info smap"
  ri_nested :: "sym_ref smap"

record enum_info =
  ei_descriptor :: "desc_ref option"
  ei_name :: string
  ei_unit :: string
  ei_type :: "texpr_ref option"
  ei_cxx_name :: string
  ei_members :: "string list"

datatype (plugins only: code) payload =
    NoPayload
  | ClassPayload class_info
  | RecordPayload record_info
  | InterfacePayload interface_info
  | EnumPayload enum_info

record type_descriptor =
  td_id :: nat
  td_expr :: "texpr_ref option"
  td_symbol :: "sym_ref option"
  td_metaclass_target :: "sym_ref option"
  td_ordinal :: "desc_ref option"
  td_element :: "desc_ref option"
  td_pointer_difference :: "desc_ref option"
  td_real_division :: "desc_ref option"
  td_string_concat :: "desc_ref option"
  td_lo_hi :: "desc_ref option"
  td_set_literal_element :: "desc_ref option"
  td_low_high :: "desc_ref option"
  td_primitive :: "primitive_info option"
  td_is_method_carrier :: bool
  td_payload :: payload

record type_symbol =
  ts_name :: string
  ts_unit :: string
  ts_owner_path :: "string list"
  ts_expr :: "texpr_ref option"
  ts_descriptor :: "desc_ref option"
  ts_has_forward :: bool

subsection \<open>Units and scope frames\<close>

record proc_info =
  pr_unit :: string
  pr_decl :: "reg_proc option"
  pr_param_count :: nat
  pr_is_function :: bool
  pr_is_overload :: bool
  pr_accepts_zero_args :: bool
  pr_return_type_name :: string
  pr_return_symbol :: "sym_ref option"

record var_info =
  vi_unit :: string
  vi_type :: "texpr_ref option"
  vi_loc :: location

record const_info =
  co_unit :: string
  co_type :: "texpr_ref option"
  co_value :: "expr option"
  co_loc :: location

record unit_info =
  ui_name :: string
  ui_iface_uses :: "string list"
  ui_impl_uses :: "string list"
  iface_vars :: "var_info smap"
  iface_consts :: "const_info smap"
  iface_procs :: "proc_info list smap"
  iface_operators :: "proc_info list smap"
  iface_types :: "sym_ref smap"
  iface_enum_members :: "enum_member_info smap"
  impl_vars :: "var_info smap"
  impl_consts :: "const_info smap"
  impl_procs :: "proc_info list smap"
  impl_operators :: "proc_info list smap"
  impl_types :: "sym_ref smap"
  impl_enum_members :: "enum_member_info smap"

datatype (plugins only: code) frame_kind = Local | UnitInterface | UnitImplementation
  | ImportedUnitInterface

record scope_frame =
  sf_unit :: string
  sf_parent :: "ctx_ref option"
  sf_kind :: frame_kind
  sf_unit_info :: "string option"
  sf_restrict :: bool
  sf_preserve_local :: bool
  sf_types :: "sym_ref smap"
  sf_enum_members :: "enum_member_info smap"
  sf_consts :: "const_info smap"

subsection \<open>The registry\<close>

text \<open>
  The stores and indexes of \<open>TypeRegistry\<close>. The binding fields \<open>symbol\<close> and \<open>type_context\<close> of a
  type declaration are kept in \<open>decl_symbols\<close> and \<open>decl_contexts\<close>, under the address of the
  declared type expression, which belongs to one declaration only. The hash of a key plays no part in what a lookup
  returns.
\<close>

record registry =
  units :: "unit_info smap"
  symbols :: "type_symbol list"
  nested_symbols :: "sym_ref smap"
  enum_by_unit :: "enum_member_info smap smap"
  frames :: "scope_frame list"
  descriptors :: "type_descriptor list"
  texprs :: "texpr list"
  metaclasses :: "(sym_ref \<times> desc_ref) list"
  inferred_sets :: "((desc_ref \<times> (int \<times> int) option) \<times> texpr_ref) list"
  inferred_pointers :: "(desc_ref \<times> texpr_ref) list"
  array_tails :: "((desc_ref \<times> nat) \<times> texpr_ref) list"
  method_cache :: "((desc_ref option \<times> string) \<times> method_sig list) list"
  iface_contexts :: "ctx_ref smap"
  impl_contexts :: "ctx_ref smap"
  decl_symbols :: "(texpr_ref \<times> sym_ref) list"
  decl_contexts :: "(texpr_ref \<times> ctx_ref) list"
  reports :: "diag list"

definition empty_registry :: registry where
  "empty_registry =
     \<lparr>units = [], symbols = [], nested_symbols = [], enum_by_unit = [], frames = [],
      descriptors = [], texprs = [], metaclasses = [], inferred_sets = [],
      inferred_pointers = [], array_tails = [], method_cache = [], iface_contexts = [],
      impl_contexts = [], decl_symbols = [], decl_contexts = [], reports = []\<rparr>"

definition report :: "location \<Rightarrow> string \<Rightarrow> registry \<Rightarrow> registry" where
  "report loc msg r = r\<lparr>reports := reports r @ [Err loc msg]\<rparr>"

subsection \<open>Reading the stores\<close>

abbreviation sym_at :: "registry \<Rightarrow> sym_ref \<Rightarrow> type_symbol" where
  "sym_at r s \<equiv> symbols r ! s"

abbreviation desc_at :: "registry \<Rightarrow> desc_ref \<Rightarrow> type_descriptor" where
  "desc_at r d \<equiv> descriptors r ! d"

abbreviation texpr_at :: "registry \<Rightarrow> texpr_ref \<Rightarrow> texpr" where
  "texpr_at r t \<equiv> texprs r ! t"

abbreviation frame_at :: "registry \<Rightarrow> ctx_ref \<Rightarrow> scope_frame" where
  "frame_at r c \<equiv> frames r ! c"

text \<open>
  \<open>TypeDescriptor::class_info\<close> and its siblings: the payload, or the null pointer. An address
  outside the store holds nothing.
\<close>

definition payload_at :: "registry \<Rightarrow> desc_ref \<Rightarrow> payload" where
  "payload_at r d = (if d < length (descriptors r) then td_payload (desc_at r d) else NoPayload)"

definition class_at :: "registry \<Rightarrow> desc_ref \<Rightarrow> class_info option" where
  "class_at r d = (case payload_at r d of ClassPayload c \<Rightarrow> Some c | _ \<Rightarrow> None)"

definition interface_at :: "registry \<Rightarrow> desc_ref \<Rightarrow> interface_info option" where
  "interface_at r d = (case payload_at r d of InterfacePayload c \<Rightarrow> Some c | _ \<Rightarrow> None)"

definition record_at :: "registry \<Rightarrow> desc_ref \<Rightarrow> record_info option" where
  "record_at r d = (case payload_at r d of RecordPayload c \<Rightarrow> Some c | _ \<Rightarrow> None)"

definition enum_at :: "registry \<Rightarrow> desc_ref \<Rightarrow> enum_info option" where
  "enum_at r d = (case payload_at r d of EnumPayload c \<Rightarrow> Some c | _ \<Rightarrow> None)"

text \<open>
  \<open>TypeSymbol::class_info\<close> and its siblings: as an address, the descriptor that holds the
  payload.
\<close>

definition sym_payload :: "registry \<Rightarrow> (desc_ref \<Rightarrow> 'a option) \<Rightarrow> sym_ref \<Rightarrow> desc_ref option" where
  "sym_payload r info s =
     (case ts_descriptor (sym_at r s) of
        None \<Rightarrow> None
      | Some d \<Rightarrow> if info d = None then None else Some d)"

definition sym_class :: "registry \<Rightarrow> sym_ref \<Rightarrow> desc_ref option" where
  "sym_class r = sym_payload r (class_at r)"

definition sym_interface :: "registry \<Rightarrow> sym_ref \<Rightarrow> desc_ref option" where
  "sym_interface r = sym_payload r (interface_at r)"

definition sym_record :: "registry \<Rightarrow> sym_ref \<Rightarrow> desc_ref option" where
  "sym_record r = sym_payload r (record_at r)"

definition sym_enum :: "registry \<Rightarrow> sym_ref \<Rightarrow> desc_ref option" where
  "sym_enum r = sym_payload r (enum_at r)"

subsection \<open>Facts\<close>

lemma map_of_emplace:
  "map_of (snd (emplace k v m)) = (if map_of m k = None then (map_of m)(k \<mapsto> v) else map_of m)"
  by (auto simp: emplace_def map_add_def fun_eq_iff split: option.splits)

lemma fst_emplace: "fst (emplace k v m) \<longleftrightarrow> map_of m k = None"
  by (simp add: emplace_def)

lemma keys_emplace: "set (map fst (snd (emplace k v m))) = insert k (set (map fst m))"
  by (auto simp: emplace_def map_of_eq_None_iff)

lemma distinct_emplace:
  "distinct (map fst m) \<Longrightarrow> distinct (map fst (snd (emplace k v m)))"
  by (auto simp: emplace_def map_of_eq_None_iff)

lemma map_of_assign [simp]: "map_of (assign k v m) = (map_of m)(k \<mapsto> v)"
  by (simp add: assign_def update_conv')

lemma distinct_assign: "distinct (map fst m) \<Longrightarrow> distinct (map fst (assign k v m))"
  by (simp add: assign_def distinct_update)

lemma class_at_in_range: "class_at r d = Some c \<Longrightarrow> d < length (descriptors r)"
  by (auto simp: class_at_def payload_at_def split: if_splits)

lemma sym_class_Some:
  "sym_class r s = Some d \<Longrightarrow> \<exists>c. class_at r d = Some c"
  by (auto simp: sym_class_def sym_payload_def split: option.splits if_splits)

lemma sym_class_in_range: "sym_class r s = Some d \<Longrightarrow> d < length (descriptors r)"
  by (auto dest!: sym_class_Some class_at_in_range)

end
