(* ===== verification/Reg_Class.thy ===== *)
theory Reg_Class
  imports Reg_Model
begin

text \<open>
  Class ancestry and member lookup of \<open>src/typereg.cc\<close>: the cycle guard
  \<open>SeenClassChain\<close>, the walk from a class to its ancestors, and the lookups that use it. A
  pointer to a \<open>ClassInfo\<close> is the address of the descriptor that holds it.
\<close>

subsection \<open>The cycle guard\<close>

text \<open>
  \<open>SeenClassChain\<close> keeps the first sixteen classes in an array and moves to a hash set
  after that. \<open>mark\<close> tells whether the class is new, and adds it.
\<close>

record seen_chain =
  inline_seen :: "desc_ref list"
  overflow_seen :: "desc_ref list"

definition new_seen :: seen_chain where
  "new_seen = \<lparr>inline_seen = [], overflow_seen = []\<rparr>"

definition mark :: "desc_ref \<Rightarrow> seen_chain \<Rightarrow> bool \<times> seen_chain" where
  "mark c s =
     (if c \<in> set (inline_seen s) then (False, s)
      else if overflow_seen s \<noteq> [] then
        (if c \<in> set (overflow_seen s) then (False, s)
         else (True, s\<lparr>overflow_seen := c # overflow_seen s\<rparr>))
      else if length (inline_seen s) < 16 then (True, s\<lparr>inline_seen := inline_seen s @ [c]\<rparr>)
      else (True, s\<lparr>overflow_seen := c # rev (inline_seen s)\<rparr>))"

definition seen_set :: "seen_chain \<Rightarrow> desc_ref set" where
  "seen_set s = set (inline_seen s) \<union> set (overflow_seen s)"

lemma seen_set_new [simp]: "seen_set new_seen = {}"
  by (simp add: seen_set_def new_seen_def)

lemma finite_seen_set [simp]: "finite (seen_set s)"
  by (simp add: seen_set_def)

lemma mark_refines:
  "fst (mark c s) \<longleftrightarrow> c \<notin> seen_set s"
  "seen_set (snd (mark c s)) = insert c (seen_set s)"
  by (auto simp: mark_def seen_set_def)

subsection \<open>Walking up\<close>

text \<open>\<open>lookup_parent_class\<close>\<close>

definition lookup_parent_class :: "registry \<Rightarrow> desc_ref \<Rightarrow> desc_ref option" where
  "lookup_parent_class r c =
     (case class_at r c of
        None \<Rightarrow> None
      | Some ci \<Rightarrow> (case ci_parent_symbol ci of None \<Rightarrow> None | Some s \<Rightarrow> sym_class r s))"

lemma parent_in_range: "lookup_parent_class r c = Some p \<Longrightarrow> p < length (descriptors r)"
  by (auto simp: lookup_parent_class_def sym_class_in_range split: option.splits)

text \<open>
  The loop \<open>while (ci && seen.mark(ci)) { body; ci = lookup_parent_class(*ci); }\<close> that the
  lookups share. The body returns (\<open>Inl\<close>) or goes on with its local variables (\<open>Inr\<close>);
  after the loop, \<open>fin\<close> is returned.
\<close>

definition walk_left :: "registry \<Rightarrow> seen_chain \<Rightarrow> desc_ref option \<Rightarrow> nat" where
  "walk_left r seen c =
     card ({..< length (descriptors r)} - seen_set seen) +
     (case c of None \<Rightarrow> 0 | Some d \<Rightarrow> if d < length (descriptors r) then 0 else 1)"

lemma walk_left_parent:
  assumes "mark c seen = (True, seen')"
  shows "walk_left r seen' (lookup_parent_class r c) < walk_left r seen (Some c)"
proof -
  let ?n = "{..< length (descriptors r)}"
  from mark_refines [of c seen] assms
  have new: "c \<notin> seen_set seen" and upd: "seen_set seen' = insert c (seen_set seen)" by simp_all
  have fin: "(case lookup_parent_class r c of None \<Rightarrow> 0
      | Some d \<Rightarrow> if d < length (descriptors r) then 0 else 1) = (0 :: nat)"
    by (auto dest: parent_in_range split: option.splits)
  show ?thesis
  proof (cases "c < length (descriptors r)")
    case True
    with new have "?n - insert c (seen_set seen) \<subset> ?n - seen_set seen" by auto
    then have "card (?n - insert c (seen_set seen)) < card (?n - seen_set seen)"
      by (rule psubset_card_mono [rotated]) simp
    with fin show ?thesis by (simp add: walk_left_def upd True)
  next
    case False
    then have "?n - insert c (seen_set seen) = ?n - seen_set seen" by auto
    with fin False show ?thesis by (simp add: walk_left_def upd)
  qed
qed

function class_loop ::
  "registry \<Rightarrow> (desc_ref \<Rightarrow> 's \<Rightarrow> 'a + 's) \<Rightarrow> ('s \<Rightarrow> 'a) \<Rightarrow> seen_chain \<Rightarrow> 's \<Rightarrow> desc_ref option \<Rightarrow> 'a"
where
  "class_loop r body fin seen st None = fin st"
| "class_loop r body fin seen st (Some c) =
     (case mark c seen of
        (False, _) \<Rightarrow> fin st
      | (True, seen') \<Rightarrow>
          (case body c st of
             Inl a \<Rightarrow> a
           | Inr st' \<Rightarrow> class_loop r body fin seen' st' (lookup_parent_class r c)))"
  by pat_completeness auto
termination
  by (relation "measure (\<lambda>(r, body, fin, seen, st, c). walk_left r seen c)")
    (auto dest: sym [THEN walk_left_parent])

definition walk_up ::
  "registry \<Rightarrow> (desc_ref \<Rightarrow> 's \<Rightarrow> 'a + 's) \<Rightarrow> ('s \<Rightarrow> 'a) \<Rightarrow> 's \<Rightarrow> desc_ref \<Rightarrow> 'a" where
  "walk_up r body fin st c = class_loop r body fin new_seen st (Some c)"

text \<open>A loop that only searches.\<close>

definition search_up :: "registry \<Rightarrow> (class_info \<Rightarrow> 'a option) \<Rightarrow> desc_ref \<Rightarrow> 'a option" where
  "search_up r found c =
     walk_up r
       (\<lambda>d _. case Option.bind (class_at r d) found of
                Some x \<Rightarrow> Inl (Some x) | None \<Rightarrow> Inr ())
       (\<lambda>_. None) () c"

subsection \<open>Lookups\<close>

definition class_implements_interface :: "registry \<Rightarrow> desc_ref \<Rightarrow> interface_info \<Rightarrow> bool" where
  "class_implements_interface r c info =
     (search_up r
        (\<lambda>ci. case ii_symbol info of
                Some target \<Rightarrow> if target \<in> set (ci_interfaces ci) then Some () else None
              | None \<Rightarrow> None) c \<noteq> None)"

definition same_class_identity :: "registry \<Rightarrow> desc_ref \<Rightarrow> desc_ref \<Rightarrow> bool" where
  "same_class_identity r a b =
     (case (Option.bind (class_at r a) ci_descriptor, Option.bind (class_at r b) ci_descriptor) of
        (Some x, Some y) \<Rightarrow> x = y
      | _ \<Rightarrow> a = b)"

definition class_ancestor_depth :: "registry \<Rightarrow> desc_ref \<Rightarrow> desc_ref \<Rightarrow> int" where
  "class_ancestor_depth r ancestor descendant =
     walk_up r
       (\<lambda>d depth. if same_class_identity r ancestor d then Inl depth else Inr (depth + 1))
       (\<lambda>_. - 1) 0 descendant"

definition lookup_class_field :: "registry \<Rightarrow> desc_ref \<Rightarrow> string \<Rightarrow> field_info option" where
  "lookup_class_field r c m = search_up r (\<lambda>ci. map_of (ci_fields ci) m) c"

definition lookup_class_enum_member ::
  "registry \<Rightarrow> desc_ref \<Rightarrow> string \<Rightarrow> enum_member_info option" where
  "lookup_class_enum_member r c m = search_up r (\<lambda>ci. map_of (ci_enum_members ci) m) c"

definition class_has_enum_member :: "registry \<Rightarrow> desc_ref \<Rightarrow> string \<Rightarrow> bool" where
  "class_has_enum_member r c m = (lookup_class_enum_member r c m \<noteq> None)"

definition lookup_class_property :: "registry \<Rightarrow> desc_ref \<Rightarrow> string \<Rightarrow> property_info option" where
  "lookup_class_property r c m = search_up r (\<lambda>ci. map_of (ci_properties ci) m) c"

definition lookup_default_property :: "registry \<Rightarrow> desc_ref \<Rightarrow> property_info option" where
  "lookup_default_property r c =
     search_up r
       (\<lambda>ci. if ci_default_property ci \<noteq> []
             then map_of (ci_properties ci) (ci_default_property ci) else None) c"

definition lookup_interface_methods :: "interface_info \<Rightarrow> string \<Rightarrow> method_sig list option" where
  "lookup_interface_methods info m = map_of (ii_methods info) m"

text \<open>
  \<open>lookup_class_methods\<close>: the overload sets found on the way up, until a set without an
  \<open>overload\<close> directive hides the rest. The result is kept in \<open>merged_method_cache\<close>, an empty
  one too; an empty result is the null pointer.
\<close>

definition merge_methods :: "registry \<Rightarrow> desc_ref \<Rightarrow> string \<Rightarrow> method_sig list" where
  "merge_methods r c m =
     walk_up r
       (\<lambda>d merged.
          case Option.bind (class_at r d) (\<lambda>ci. map_of (ci_methods ci) m) of
            None \<Rightarrow> Inr merged
          | Some sigs \<Rightarrow>
              if list_ex ms_is_overload sigs then Inr (merged @ sigs) else Inl (merged @ sigs))
       (\<lambda>merged. merged) [] c"

definition nonempty :: "'a list \<Rightarrow> 'a list option" where
  "nonempty xs = (if xs = [] then None else Some xs)"

definition lookup_class_methods ::
  "registry \<Rightarrow> desc_ref \<Rightarrow> string \<Rightarrow> method_sig list option \<times> registry" where
  "lookup_class_methods r c m =
     (let key = (Option.bind (class_at r c) ci_descriptor, m) in
      case map_of (method_cache r) key of
        Some merged \<Rightarrow> (nonempty merged, r)
      | None \<Rightarrow>
          let merged = merge_methods r c m in
          (nonempty merged, r\<lparr>method_cache := snd (emplace key merged (method_cache r))\<rparr>))"

end
