(* ===== verification/Reg_Scope.thy ===== *)
theory Reg_Scope
  imports Reg_Class
begin

text \<open>
  Lexical lookup of \<open>src/typereg.h\<close> and \<open>src/typereg.cc\<close>: scope frames, what one frame
  declares, and the walk from a frame to the frames around it. \<open>PascalKey\<close> asserts that a
  name holds no upper case letter; the model has no assertions, a name that fails one is
  looked up as it is.
\<close>

subsection \<open>Units\<close>

text \<open>\<open>UnitInfo::find\<close> and the lookups in the interface and in both sections of a unit.\<close>

definition find_in :: "'v smap \<Rightarrow> 'v smap \<Rightarrow> string \<Rightarrow> 'v option" where
  "find_in a b n = (case map_of a n of Some v \<Rightarrow> Some v | None \<Rightarrow> map_of b n)"

definition find_var :: "unit_info \<Rightarrow> string \<Rightarrow> var_info option" where
  "find_var u = find_in (iface_vars u) (impl_vars u)"

definition find_const :: "unit_info \<Rightarrow> string \<Rightarrow> const_info option" where
  "find_const u = find_in (iface_consts u) (impl_consts u)"

definition find_procs :: "unit_info \<Rightarrow> string \<Rightarrow> proc_info list option" where
  "find_procs u = find_in (iface_procs u) (impl_procs u)"

definition find_operators :: "unit_info \<Rightarrow> string \<Rightarrow> proc_info list option" where
  "find_operators u = find_in (iface_operators u) (impl_operators u)"

definition find_type :: "unit_info \<Rightarrow> string \<Rightarrow> sym_ref option" where
  "find_type u = find_in (iface_types u) (impl_types u)"

definition has_type :: "unit_info \<Rightarrow> string \<Rightarrow> bool" where
  "has_type u n = (find_type u n \<noteq> None)"

definition has_enum_member :: "unit_info \<Rightarrow> string \<Rightarrow> bool" where
  "has_enum_member u n =
     (map_of (iface_enum_members u) n \<noteq> None \<or> map_of (impl_enum_members u) n \<noteq> None)"

definition has_proc :: "unit_info \<Rightarrow> string \<Rightarrow> bool" where
  "has_proc u n = (case find_procs u n of Some ps \<Rightarrow> ps \<noteq> [] | None \<Rightarrow> False)"

definition unit_has :: "unit_info \<Rightarrow> string \<Rightarrow> bool" where
  "unit_has u n =
     (find_var u n \<noteq> None \<or> find_const u n \<noteq> None \<or> has_proc u n \<or> has_type u n \<or>
      has_enum_member u n)"

definition find_export_var :: "unit_info \<Rightarrow> string \<Rightarrow> var_info option" where
  "find_export_var u n = map_of (iface_vars u) n"

definition find_export_const :: "unit_info \<Rightarrow> string \<Rightarrow> const_info option" where
  "find_export_const u n = map_of (iface_consts u) n"

definition find_export_procs :: "unit_info \<Rightarrow> string \<Rightarrow> proc_info list option" where
  "find_export_procs u n = map_of (iface_procs u) n"

definition find_export_operators :: "unit_info \<Rightarrow> string \<Rightarrow> proc_info list option" where
  "find_export_operators u n = map_of (iface_operators u) n"

definition find_export_type :: "unit_info \<Rightarrow> string \<Rightarrow> sym_ref option" where
  "find_export_type u n = map_of (iface_types u) n"

definition has_export_type :: "unit_info \<Rightarrow> string \<Rightarrow> bool" where
  "has_export_type u n = (find_export_type u n \<noteq> None)"

definition has_export_enum_member :: "unit_info \<Rightarrow> string \<Rightarrow> bool" where
  "has_export_enum_member u n = (map_of (iface_enum_members u) n \<noteq> None)"

subsection \<open>One frame\<close>

definition frame_unit :: "registry \<Rightarrow> scope_frame \<Rightarrow> unit_info option" where
  "frame_unit r f = Option.bind (sf_unit_info f) (map_of (units r))"

text \<open>The \<open>switch\<close> on the kind of a frame that the lookups below share.\<close>

definition in_section ::
  "registry \<Rightarrow> scope_frame \<Rightarrow> (unit_info \<Rightarrow> 'v smap) \<Rightarrow> (unit_info \<Rightarrow> 'v smap) \<Rightarrow> string \<Rightarrow> 'v option"
where
  "in_section r f iface impl n =
     (case frame_unit r f of
        None \<Rightarrow> None
      | Some u \<Rightarrow>
          (case sf_kind f of
             UnitImplementation \<Rightarrow> map_of (impl u) n
           | UnitInterface \<Rightarrow> map_of (iface u) n
           | ImportedUnitInterface \<Rightarrow> map_of (iface u) n
           | Local \<Rightarrow> None))"

definition scope_frame_is_import :: "scope_frame \<Rightarrow> bool" where
  "scope_frame_is_import f = (sf_kind f = ImportedUnitInterface)"

definition scope_frame_is_runtime :: "scope_frame \<Rightarrow> bool" where
  "scope_frame_is_runtime f = (sf_unit f = ''__rt__'')"

definition scope_frame_find_local_enum_member ::
  "scope_frame \<Rightarrow> string \<Rightarrow> enum_member_info option" where
  "scope_frame_find_local_enum_member f n = map_of (sf_enum_members f) n"

definition scope_frame_find_local_enum_info :: "scope_frame \<Rightarrow> string \<Rightarrow> desc_ref option" where
  "scope_frame_find_local_enum_info f n =
     map_option em_owner (scope_frame_find_local_enum_member f n)"

definition scope_frame_find_var :: "registry \<Rightarrow> scope_frame \<Rightarrow> string \<Rightarrow> var_info option" where
  "scope_frame_find_var r f n = in_section r f iface_vars impl_vars n"

definition scope_frame_find_const :: "registry \<Rightarrow> scope_frame \<Rightarrow> string \<Rightarrow> const_info option" where
  "scope_frame_find_const r f n =
     (case map_of (sf_consts f) n of
        Some c \<Rightarrow> Some c
      | None \<Rightarrow>
          if sf_restrict f then None else in_section r f iface_consts impl_consts n)"

definition scope_frame_find_procs ::
  "registry \<Rightarrow> scope_frame \<Rightarrow> string \<Rightarrow> proc_info list option" where
  "scope_frame_find_procs r f n = in_section r f iface_procs impl_procs n"

definition scope_frame_find_operators ::
  "registry \<Rightarrow> scope_frame \<Rightarrow> string \<Rightarrow> proc_info list option" where
  "scope_frame_find_operators r f n = in_section r f iface_operators impl_operators n"

definition scope_frame_find_enum_member ::
  "registry \<Rightarrow> scope_frame \<Rightarrow> string \<Rightarrow> enum_member_info option" where
  "scope_frame_find_enum_member r f n =
     (if sf_kind f = Local then scope_frame_find_local_enum_member f n
      else in_section r f iface_enum_members impl_enum_members n)"

definition scope_frame_has_enum_member :: "registry \<Rightarrow> scope_frame \<Rightarrow> string \<Rightarrow> bool" where
  "scope_frame_has_enum_member r f n = (scope_frame_find_enum_member r f n \<noteq> None)"

definition scope_frame_find_type ::
  "registry \<Rightarrow> scope_frame \<Rightarrow> bool \<Rightarrow> string \<Rightarrow> sym_ref option" where
  "scope_frame_find_type r f include_imports n =
     (if \<not> include_imports \<and> scope_frame_is_import f then None
      else case map_of (sf_types f) n of
        Some s \<Rightarrow> Some s
      | None \<Rightarrow> if sf_restrict f then None else in_section r f iface_types impl_types n)"

subsection \<open>Nested types\<close>

definition nested_type_map :: "registry \<Rightarrow> sym_ref \<Rightarrow> sym_ref smap option" where
  "nested_type_map r s =
     (case ts_descriptor (sym_at r s) of
        None \<Rightarrow> None
      | Some d \<Rightarrow>
          (case class_at r d of
             Some ci \<Rightarrow> Some (ci_nested ci)
           | None \<Rightarrow> map_option ri_nested (record_at r d)))"

text \<open>
  A path is split at its dots: \<open>path.find('.', start)\<close>. The argument \<open>rest\<close> is what is left
  from \<open>start\<close> on.
\<close>

definition before_dot :: "string \<Rightarrow> string" where
  "before_dot p = takeWhile (\<lambda>c. c \<noteq> CHR ''.'') p"

definition after_dot :: "string \<Rightarrow> string option" where
  "after_dot p = (case dropWhile (\<lambda>c. c \<noteq> CHR ''.'') p of [] \<Rightarrow> None | _ # rest \<Rightarrow> Some rest)"

lemma length_after_dot: "after_dot p = Some rest \<Longrightarrow> length rest < length p"
  using length_dropWhile_le [of "\<lambda>c. c \<noteq> CHR ''.''" p]
  by (auto simp: after_dot_def split: list.splits)

function lookup_nested_type_symbol_path ::
  "registry \<Rightarrow> sym_ref option \<Rightarrow> string \<Rightarrow> sym_ref option" where
  "lookup_nested_type_symbol_path r None rest = None"
| "lookup_nested_type_symbol_path r (Some s) rest =
     (if rest = [] then Some s
      else case Option.bind (nested_type_map r s) (\<lambda>nested. map_of nested (before_dot rest)) of
        None \<Rightarrow> None
      | Some child \<Rightarrow>
          (case after_dot rest of
             None \<Rightarrow> Some child
           | Some rest' \<Rightarrow> lookup_nested_type_symbol_path r (Some child) rest'))"
  by pat_completeness auto
termination
  by (relation "measure (\<lambda>(r, s, rest). length rest)") (auto simp: length_after_dot)

subsection \<open>Exact lookup and builtin types\<close>

definition lookup_type_symbol_exact :: "registry \<Rightarrow> string \<Rightarrow> string \<Rightarrow> sym_ref option" where
  "lookup_type_symbol_exact r u n =
     (case map_of (units r) u of
        None \<Rightarrow> None
      | Some ui \<Rightarrow>
          (case after_dot n of
             None \<Rightarrow> find_type ui n
           | Some rest \<Rightarrow>
               lookup_nested_type_symbol_path r (find_type ui (before_dot n)) rest))"

definition pascal_key_is_canonical :: "string \<Rightarrow> bool" where
  "pascal_key_is_canonical text \<longleftrightarrow> list_all (\<lambda>c. \<not> is_upper c) text"

definition builtin_literal :: "registry \<Rightarrow> string \<Rightarrow> sym_ref option" where
  "builtin_literal r n =
     (if pascal_key_is_canonical n then lookup_type_symbol_exact r ''__builtin__'' n else None)"

definition lookup_enum_member_in_unit ::
  "registry \<Rightarrow> string \<Rightarrow> string \<Rightarrow> enum_member_info option" where
  "lookup_enum_member_in_unit r u m = Option.bind (map_of (enum_by_unit r) u) (\<lambda>t. map_of t m)"

definition lookup_unit_context :: "registry \<Rightarrow> string \<Rightarrow> bool \<Rightarrow> ctx_ref option" where
  "lookup_unit_context r u impl = map_of (if impl then impl_contexts r else iface_contexts r) u"

subsection \<open>Lexical lookup\<close>

text \<open>
  The loop \<open>for (frame = context; frame; frame = frame->parent)\<close>: the first frame for which
  the body returns something. Nothing in the loop bounds it: on a cyclic chain it would not
  end, which is the value \<open>None\<close>.
\<close>

partial_function (option) scan ::
  "registry \<Rightarrow> (scope_frame \<Rightarrow> 'a option) \<Rightarrow> ctx_ref option \<Rightarrow> 'a option option" where
  "scan r found c =
     (case c of
        None \<Rightarrow> Some None
      | Some i \<Rightarrow>
          (case found (frame_at r i) of
             Some x \<Rightarrow> Some (Some x)
           | None \<Rightarrow> scan r found (sf_parent (frame_at r i))))"

definition lookup_type_path_in_frame ::
  "registry \<Rightarrow> scope_frame \<Rightarrow> bool \<Rightarrow> string \<Rightarrow> sym_ref option" where
  "lookup_type_path_in_frame r f include_imports path =
     (case after_dot path of
        None \<Rightarrow> scope_frame_find_type r f include_imports path
      | Some rest \<Rightarrow>
          lookup_nested_type_symbol_path r
            (scope_frame_find_type r f include_imports (before_dot path)) rest)"

definition lookup_unit_qualified_type_in_context ::
  "registry \<Rightarrow> string \<Rightarrow> string \<Rightarrow> ctx_ref option \<Rightarrow> bool \<Rightarrow> sym_ref option option" where
  "lookup_unit_qualified_type_in_context r u path ctx include_imports =
     (let target = (if u = ''system'' then ''__rt__'' else u) in
      scan r
        (\<lambda>f. if sf_kind f = Local then None
             else if sf_unit f \<noteq> target then None
             else if \<not> include_imports \<and> scope_frame_is_import f then None
             else lookup_type_path_in_frame r f include_imports path) ctx)"

text \<open>
  \<open>lookup_type_symbol_in_context\<close>. The recursive call of the source is on the part of the name
  before its first dot, so it takes the branch for plain names.
\<close>

definition lookup_plain_type :: "registry \<Rightarrow> string \<Rightarrow> ctx_ref \<Rightarrow> sym_ref option option" where
  "lookup_plain_type r n ctx =
     (case scan r (\<lambda>f. scope_frame_find_type r f True n) (Some ctx) of
        None \<Rightarrow> None
      | Some (Some s) \<Rightarrow> Some (Some s)
      | Some None \<Rightarrow> Some (builtin_literal r n))"

definition lookup_type_symbol_in_context ::
  "registry \<Rightarrow> string \<Rightarrow> ctx_ref option \<Rightarrow> sym_ref option option" where
  "lookup_type_symbol_in_context r n ctx =
     (case ctx of
        None \<Rightarrow> Some (builtin_literal r n)
      | Some c \<Rightarrow>
          (case after_dot n of
             None \<Rightarrow> lookup_plain_type r n c
           | Some path \<Rightarrow>
               Option.bind (lookup_plain_type r (before_dot n) c) (\<lambda>root.
                 case Option.bind root (\<lambda>s. lookup_nested_type_symbol_path r (Some s) path) of
                   Some s \<Rightarrow> Some (Some s)
                 | None \<Rightarrow>
                     lookup_unit_qualified_type_in_context r (before_dot n) path (Some c) True)))"

subsection \<open>Building frames\<close>

definition new_frame ::
  "string \<Rightarrow> ctx_ref option \<Rightarrow> frame_kind \<Rightarrow> string option \<Rightarrow> bool \<Rightarrow> bool \<Rightarrow> scope_frame" where
  "new_frame u parent kind info restrict preserve =
     \<lparr>sf_unit = lower u, sf_parent = parent, sf_kind = kind, sf_unit_info = info,
      sf_restrict = restrict, sf_preserve_local = preserve, sf_types = [],
      sf_enum_members = [], sf_consts = []\<rparr>"

definition make_scope_frame ::
  "registry \<Rightarrow> string \<Rightarrow> ctx_ref option \<Rightarrow> frame_kind \<Rightarrow> string option \<Rightarrow> bool \<Rightarrow> bool \<Rightarrow>
   ctx_ref \<times> registry" where
  "make_scope_frame r u parent kind info restrict preserve =
     (length (frames r),
      r\<lparr>frames := frames r @ [new_frame u parent kind info restrict preserve]\<rparr>)"

definition make_type_lookup_context ::
  "registry \<Rightarrow> string \<Rightarrow> ctx_ref option \<Rightarrow> ctx_ref \<times> registry" where
  "make_type_lookup_context r u parent = make_scope_frame r u parent Local None False False"

definition make_proc_body_type_context ::
  "registry \<Rightarrow> string \<Rightarrow> ctx_ref option \<Rightarrow> ctx_ref \<times> registry" where
  "make_proc_body_type_context r u parent = make_scope_frame r u parent Local None False True"

definition insert_type_ref :: "ctx_ref \<Rightarrow> sym_ref \<Rightarrow> registry \<Rightarrow> registry" where
  "insert_type_ref c s r =
     r\<lparr>frames := (frames r)[c := (frame_at r c)
        \<lparr>sf_types := assign (ts_name (sym_at r s)) s (sf_types (frame_at r c))\<rparr>]\<rparr>"

definition push_visible_type_decl_frame ::
  "registry \<Rightarrow> string \<Rightarrow> ctx_ref option \<Rightarrow> frame_kind \<Rightarrow> string option \<Rightarrow> sym_ref option \<Rightarrow> bool \<Rightarrow>
   ctx_ref option \<times> registry" where
  "push_visible_type_decl_frame r u parent kind info sy preserve =
     (case sy of
        None \<Rightarrow> (parent, r)
      | Some s \<Rightarrow>
          let restrict = (kind = UnitInterface \<or> kind = UnitImplementation);
              (c, r') = make_scope_frame r u parent kind info restrict preserve
          in (Some c, insert_type_ref c s r'))"

text \<open>\<open>make_unit_import_context\<close>: the frames of the run time, then of the used units in order.\<close>

fun push_import_frames :: "string list \<Rightarrow> ctx_ref option \<times> registry \<Rightarrow> ctx_ref option \<times> registry" where
  "push_import_frames [] st = st"
| "push_import_frames (u # us) (tp, r) =
     (if map_of (units r) u = None then push_import_frames us (tp, r)
      else case make_scope_frame r u tp ImportedUnitInterface (Some u) False False of
        (c, r') \<Rightarrow> push_import_frames us (Some c, r'))"

definition make_unit_import_context ::
  "registry \<Rightarrow> string \<Rightarrow> bool \<Rightarrow> ctx_ref option \<times> registry" where
  "make_unit_import_context r u is_interface =
     (case map_of (units r) (lower u) of
        None \<Rightarrow> (None, r)
      | Some ui \<Rightarrow>
          let st = push_import_frames [''__builtin__''] (None, r);
              st = push_import_frames [''__rt__''] st;
              st = push_import_frames (ui_iface_uses ui) st
          in if is_interface then st else push_import_frames (ui_impl_uses ui) st)"

text \<open>
  \<open>make_type_member_context\<close>: a frame for the members of a type, with the nested types when
  all of them are visible.
\<close>

definition make_type_member_context ::
  "registry \<Rightarrow> sym_ref option \<Rightarrow> ctx_ref option \<Rightarrow> bool \<Rightarrow> ctx_ref option \<times> registry" where
  "make_type_member_context r sy parent include_nested =
     (case sy of
        None \<Rightarrow> (parent, r)
      | Some s \<Rightarrow>
          (case make_type_lookup_context r (ts_unit (sym_at r s)) parent of
             (c, r') \<Rightarrow>
               (Some c,
                if include_nested then
                  (case nested_type_map r' s of
                     None \<Rightarrow> r'
                   | Some nested \<Rightarrow> fold (\<lambda>(_, child). insert_type_ref c child) nested r')
                else r')))"

definition canonical_method_owner_symbol :: "registry \<Rightarrow> sym_ref option \<Rightarrow> sym_ref option" where
  "canonical_method_owner_symbol r sy =
     (case sy of
        None \<Rightarrow> None
      | Some s \<Rightarrow>
          (case Option.bind (ts_descriptor (sym_at r s)) (\<lambda>d. td_symbol (desc_at r d)) of
             Some owner \<Rightarrow> Some owner
           | None \<Rightarrow> Some s))"

end
