(* ===== verification/Reg_Scope_Facts.thy ===== *)
theory Reg_Scope_Facts
  imports Reg_Scope
begin

text \<open>
  Lexical lookup is a search from the innermost frame outwards: it ends because a frame's
  parent is older than the frame, later units of a \<open>uses\<close> clause shadow earlier ones, and a
  declaration shadows what is around it.
\<close>

subsection \<open>Frames and their parents\<close>

definition frames_ok :: "registry \<Rightarrow> bool" where
  "frames_ok r =
     list_all (\<lambda>c. case sf_parent (frame_at r c) of None \<Rightarrow> True | Some p \<Rightarrow> p < c)
       [0..<length (frames r)]"

definition ctx_ok :: "registry \<Rightarrow> ctx_ref option \<Rightarrow> bool" where
  "ctx_ok r c = (case c of None \<Rightarrow> True | Some i \<Rightarrow> i < length (frames r))"

lemma frames_ok_parent:
  "frames_ok r \<Longrightarrow> c < length (frames r) \<Longrightarrow> sf_parent (frame_at r c) = Some p \<Longrightarrow> p < c"
  by (auto simp: frames_ok_def list_all_iff split: option.splits)

text \<open>The frames from a context outwards.\<close>

function frame_chain :: "registry \<Rightarrow> ctx_ref option \<Rightarrow> scope_frame list" where
  "frame_chain r None = []"
| "frame_chain r (Some c) =
     frame_at r c #
       (case sf_parent (frame_at r c) of
          None \<Rightarrow> []
        | Some p \<Rightarrow> if p < c then frame_chain r (Some p) else [])"
  by pat_completeness auto
termination
  by (relation "measure (\<lambda>(r, c). case c of None \<Rightarrow> 0 | Some i \<Rightarrow> Suc i)") auto

declare frame_chain.simps(2) [simp del]

lemmas frame_chain_Some = frame_chain.simps(2)

primrec first_found :: "('a \<Rightarrow> 'b option) \<Rightarrow> 'a list \<Rightarrow> 'b option" where
  "first_found f [] = None"
| "first_found f (x # xs) = (case f x of Some y \<Rightarrow> Some y | None \<Rightarrow> first_found f xs)"

lemma first_found_append:
  "first_found f (xs @ ys) = (case first_found f xs of Some y \<Rightarrow> Some y | None \<Rightarrow> first_found f ys)"
  by (induction xs) (auto split: option.splits)

lemma first_found_cong:
  "(\<And>x. x \<in> set xs \<Longrightarrow> f x = g x) \<Longrightarrow> first_found f xs = first_found g xs"
  by (induction xs) (auto split: option.splits)

lemma first_found_map: "first_found f (map g xs) = first_found (f \<circ> g) xs"
  by (induction xs) (auto split: option.splits)

lemma first_found_None: "first_found f xs = None \<longleftrightarrow> (\<forall>x\<in>set xs. f x = None)"
  by (induction xs) (auto split: option.splits)

lemma scan_chain:
  assumes "frames_ok r" "ctx_ok r c"
  shows "scan r found c = Some (first_found found (frame_chain r c))"
proof (cases c)
  case (Some i)
  have "i < length (frames r) \<Longrightarrow>
      scan r found (Some i) = Some (first_found found (frame_chain r (Some i)))"
  proof (induction i rule: less_induct)
    case (less i)
    show ?case
    proof (cases "sf_parent (frame_at r i)")
      case None
      then show ?thesis
        by (subst scan.simps)
          (auto simp: frame_chain_Some scan.simps [of r found None] split: option.splits)
    next
      case (Some p)
      with frames_ok_parent [OF assms(1) less.prems] have "p < i" by simp
      with less Some show ?thesis
        by (subst scan.simps) (auto simp: frame_chain_Some [of r i] split: option.splits)
    qed
  qed
  with Some assms(2) show ?thesis by (simp add: ctx_ok_def)
qed (simp add: scan.simps)

lemma lookup_plain_chain:
  assumes "frames_ok r" "c < length (frames r)"
  shows "lookup_plain_type r n c =
    Some (case first_found (\<lambda>f. scope_frame_find_type r f True n) (frame_chain r (Some c)) of
            Some s \<Rightarrow> Some s | None \<Rightarrow> builtin_literal r n)"
  using assms by (simp add: lookup_plain_type_def scan_chain ctx_ok_def split: option.splits)

text \<open>Every lexical lookup returns.\<close>

lemma lookup_returns:
  assumes "frames_ok r" "ctx_ok r c"
  shows "\<exists>s. lookup_type_symbol_in_context r n c = Some s"
proof (cases c)
  case (Some i)
  with assms show ?thesis
    by (auto simp: lookup_type_symbol_in_context_def lookup_plain_chain ctx_ok_def Let_def
        lookup_unit_qualified_type_in_context_def scan_chain split: option.splits)
qed (simp add: lookup_type_symbol_in_context_def)

subsection \<open>Adding frames\<close>

lemma make_scope_frame_simps [simp]:
  "fst (make_scope_frame r u p k i b1 b2) = length (frames r)"
  "frames (snd (make_scope_frame r u p k i b1 b2)) = frames r @ [new_frame u p k i b1 b2]"
  "units (snd (make_scope_frame r u p k i b1 b2)) = units r"
  "symbols (snd (make_scope_frame r u p k i b1 b2)) = symbols r"
  "descriptors (snd (make_scope_frame r u p k i b1 b2)) = descriptors r"
  by (simp_all add: make_scope_frame_def)

lemma new_frame_simps [simp]:
  "sf_parent (new_frame u p k i b1 b2) = p"
  "sf_kind (new_frame u p k i b1 b2) = k"
  "sf_unit (new_frame u p k i b1 b2) = lower u"
  "sf_unit_info (new_frame u p k i b1 b2) = i"
  "sf_restrict (new_frame u p k i b1 b2) = b1"
  "sf_types (new_frame u p k i b1 b2) = []"
  by (simp_all add: new_frame_def)

lemma frames_ok_snoc:
  "frames_ok r \<Longrightarrow> ctx_ok r (sf_parent f) \<Longrightarrow> frames_ok (r\<lparr>frames := frames r @ [f]\<rparr>)"
  by (auto simp: frames_ok_def ctx_ok_def list_all_iff nth_append split: option.splits)

lemma frame_chain_extend:
  assumes "frames r' = frames r @ fs" "i < length (frames r)"
  shows "frame_chain r' (Some i) = frame_chain r (Some i)"
  using assms(2)
proof (induction i rule: less_induct)
  case (less i)
  with assms(1) show ?case
    by (auto simp: frame_chain_Some [of _ i] nth_append split: option.splits)
qed

lemma frame_chain_same:
  assumes "frames r' = frames r @ fs" "ctx_ok r c"
  shows "frame_chain r' c = frame_chain r c"
proof (cases c)
  case (Some i)
  with assms frame_chain_extend [of r' r fs i] show ?thesis
    by (simp add: ctx_ok_def)
qed simp

lemma frame_chain_new:
  assumes "ctx_ok r p" "frames r' = frames r @ [f]" "sf_parent f = p"
  shows "frame_chain r' (Some (length (frames r))) = f # frame_chain r p"
  using assms frame_chain_extend [of r' r "[f]"]
  by (cases p) (auto simp: ctx_ok_def frame_chain_Some [of _ "length _"])

lemma in_section_units:
  "units r' = units r \<Longrightarrow> in_section r' f a b n = in_section r f a b n"
  by (simp add: in_section_def frame_unit_def)

lemma find_type_units:
  "units r' = units r \<Longrightarrow> scope_frame_find_type r' f i n = scope_frame_find_type r f i n"
  by (simp add: scope_frame_find_type_def in_section_units [of r' r] split: option.splits)

lemma builtin_literal_units:
  "units r' = units r \<Longrightarrow> after_dot n = None \<Longrightarrow> builtin_literal r' n = builtin_literal r n"
  by (simp add: builtin_literal_def lookup_type_symbol_exact_def split: option.splits)

subsection \<open>Imported units\<close>

text \<open>What a frame of a used unit looks like.\<close>

definition frame_view :: "scope_frame \<Rightarrow> string \<times> frame_kind \<times> string option \<times> bool \<times> sym_ref smap" where
  "frame_view f = (sf_unit f, sf_kind f, sf_unit_info f, sf_restrict f, sf_types f)"

definition import_view :: "string \<Rightarrow> string \<times> frame_kind \<times> string option \<times> bool \<times> sym_ref smap" where
  "import_view u = (lower u, ImportedUnitInterface, Some u, False, [])"

definition known_units :: "registry \<Rightarrow> string list \<Rightarrow> string list" where
  "known_units r us = filter (\<lambda>u. map_of (units r) u \<noteq> None) us"

lemma known_units_append: "known_units r (a @ b) = known_units r a @ known_units r b"
  by (simp add: known_units_def)

definition imports_to :: "registry \<Rightarrow> string list \<Rightarrow> ctx_ref option \<times> registry \<Rightarrow> bool" where
  "imports_to r us st \<longleftrightarrow>
     frames_ok (snd st) \<and> ctx_ok (snd st) (fst st) \<and> units (snd st) = units r \<and>
     symbols (snd st) = symbols r \<and> descriptors (snd st) = descriptors r \<and>
     (\<exists>fs. frames (snd st) = frames r @ fs) \<and>
     map frame_view (frame_chain (snd st) (fst st)) = map import_view us"

lemma push_import_frames_imports:
  "imports_to r vs st \<Longrightarrow>
     imports_to r (rev (known_units r us) @ vs) (push_import_frames us st)"
proof (induction us arbitrary: st vs)
  case (Cons u us)
  obtain tp q where st: "st = (tp, q)" by (cases st)
  show ?case
  proof (cases "map_of (units r) u")
    case None
    with Cons st show ?thesis by (simp add: known_units_def imports_to_def)
  next
    case (Some ui)
    let ?f = "new_frame u tp ImportedUnitInterface (Some u) False False"
    let ?q = "q\<lparr>frames := frames q @ [?f]\<rparr>"
    from Cons.prems st have ok: "frames_ok q" "ctx_ok q tp" "units q = units r"
      and chain: "map frame_view (frame_chain q tp) = map import_view vs"
      by (simp_all add: imports_to_def)
    have "frame_chain ?q (Some (length (frames q))) = ?f # frame_chain q tp"
      by (rule frame_chain_new [OF ok(2)]) simp_all
    moreover have "frames_ok ?q" using ok frames_ok_snoc [of q ?f] by simp
    ultimately have "imports_to r (u # vs) (Some (length (frames q)), ?q)"
      using Cons.prems st chain
      by (auto simp: imports_to_def ctx_ok_def frame_view_def import_view_def)
    from Cons.IH [OF this] show ?thesis
      using Some st ok by (simp add: known_units_def make_scope_frame_def)
  qed
qed (simp add: known_units_def)

lemma make_unit_import_context_imports:
  assumes "frames_ok r" "map_of (units r) (lower u) = Some ui"
  shows "imports_to r
    (known_units r (rev (if is_interface then [] else ui_impl_uses ui) @ rev (ui_iface_uses ui) @
       [''__rt__'', ''__builtin__'']))
    (make_unit_import_context r u is_interface)"
proof -
  have nil: "imports_to r [] (None, r)"
    using assms(1) by (simp add: imports_to_def ctx_ok_def)
  note push = push_import_frames_imports [OF push_import_frames_imports
      [OF push_import_frames_imports [OF nil]]]
  have rev_known: "rev (known_units r us) = known_units r (rev us)" for us
    by (simp add: known_units_def rev_filter)
  show ?thesis
  proof (cases is_interface)
    case True
    with push [of "ui_iface_uses ui" "[''__rt__'']" "[''__builtin__'']"] assms(2) show ?thesis
      by (simp add: make_unit_import_context_def Let_def known_units_append [symmetric] rev_known
          del: push_import_frames.simps)
  next
    case False
    with push_import_frames_imports [OF push, of "ui_impl_uses ui" "ui_iface_uses ui"
        "[''__rt__'']" "[''__builtin__'']"] assms(2) show ?thesis
      by (simp add: make_unit_import_context_def Let_def known_units_append [symmetric] rev_known
          del: push_import_frames.simps)
  qed
qed

text \<open>A plain name in a context of imported units.\<close>

lemma first_found_views:
  assumes "map frame_view fs = map import_view us" "us = known_units r us'"
  shows "first_found (\<lambda>f. scope_frame_find_type r f True n) fs =
    first_found (\<lambda>u. find_export_type (the (map_of (units r) u)) n) us"
proof -
  have "scope_frame_find_type r f True n = find_export_type (the (map_of (units r) u)) n"
    if "frame_view f = import_view u" "map_of (units r) u \<noteq> None" for f u
    using that by (auto simp: frame_view_def import_view_def scope_frame_find_type_def
        in_section_def frame_unit_def find_export_type_def)
  moreover have "\<forall>u\<in>set us. map_of (units r) u \<noteq> None"
    using assms(2) by (simp add: known_units_def)
  ultimately show ?thesis using assms(1)
  proof (induction us arbitrary: fs)
    case (Cons u us)
    then obtain f fs' where "fs = f # fs'" "frame_view f = import_view u"
      "map frame_view fs' = map import_view us" by (cases fs) auto
    with Cons show ?case by (auto split: option.splits)
  qed simp
qed

lemma imports_lookup:
  assumes "imports_to r us st" "us = known_units r us'" "after_dot n = None"
  shows "lookup_type_symbol_in_context (snd st) n (fst st) =
    Some (case first_found (\<lambda>u. find_export_type (the (map_of (units r) u)) n) us of
            Some s \<Rightarrow> Some s | None \<Rightarrow> builtin_literal r n)"
proof -
  from assms(1) have ok: "frames_ok (snd st)" "ctx_ok (snd st) (fst st)" "units (snd st) = units r"
    and chain: "map frame_view (frame_chain (snd st) (fst st)) = map import_view us"
    by (simp_all add: imports_to_def)
  note look = first_found_views [OF chain assms(2), of n]
  show ?thesis
  proof (cases "fst st")
    case None
    with chain assms(3) builtin_literal_units [OF ok(3) assms(3)] show ?thesis
      by (simp add: lookup_type_symbol_in_context_def)
  next
    case (Some c)
    with ok have "lookup_type_symbol_in_context (snd st) n (fst st) = lookup_plain_type (snd st) n c"
      "c < length (frames (snd st))"
      by (simp_all add: lookup_type_symbol_in_context_def assms(3) ctx_ok_def)
    with ok Some look show ?thesis
      by (simp add: lookup_plain_chain find_type_units [OF ok(3)]
          builtin_literal_units [OF ok(3) assms(3)] split: option.split)
  qed
qed

subsection \<open>Declarations\<close>

text \<open>The frame of a type declaration declares that type and nothing else.\<close>

lemma find_type_declared:
  assumes "sf_types f = [(m, s)]" "sf_restrict f \<or> (sf_kind f = Local)"
  shows "scope_frame_find_type r f True n = (if n = m then Some s else None)"
  using assms by (auto simp: scope_frame_find_type_def in_section_def split: option.splits)

definition declares_types :: "frame_kind \<Rightarrow> bool" where
  "declares_types k = (k = Local \<or> k = UnitInterface \<or> k = UnitImplementation)"

lemma push_decl_frame:
  assumes "frames_ok r" "ctx_ok r p" "declares_types k"
    "st = push_visible_type_decl_frame r u p k info (Some s) preserve"
  shows "frames_ok (snd st) \<and> ctx_ok (snd st) (fst st) \<and> units (snd st) = units r \<and>
    symbols (snd st) = symbols r \<and>
    (\<exists>f. frame_chain (snd st) (fst st) = f # frame_chain r p \<and>
         sf_types f = [(ts_name (sym_at r s), s)] \<and> (sf_restrict f \<or> sf_kind f = Local))"
proof -
  let ?f = "new_frame u p k info (k = UnitInterface \<or> k = UnitImplementation) preserve
     \<lparr>sf_types := [(ts_name (sym_at r s), s)]\<rparr>"
  have st: "st = (Some (length (frames r)), r\<lparr>frames := frames r @ [?f]\<rparr>)"
    by (simp add: assms(4) push_visible_type_decl_frame_def insert_type_ref_def make_scope_frame_def
        assign_def Let_def)
  have parent: "sf_parent ?f = p" by simp
  from frame_chain_new [OF assms(2) _ parent, of "snd st"]
  have "frame_chain (snd st) (fst st) = ?f # frame_chain r p" by (simp add: st)
  moreover have "frames_ok (snd st)"
    using frames_ok_snoc [OF assms(1), of ?f] assms(2) parent by (simp add: st)
  moreover have "sf_restrict ?f \<or> sf_kind ?f = Local"
    using assms(3) by (auto simp: declares_types_def)
  ultimately show ?thesis by (auto simp: st ctx_ok_def)
qed

lemma chain_lookup:
  assumes "frames_ok r" "ctx_ok r c" "after_dot n = None"
  shows "lookup_type_symbol_in_context r n c =
    Some (case first_found (\<lambda>f. scope_frame_find_type r f True n) (frame_chain r c) of
            Some s \<Rightarrow> Some s | None \<Rightarrow> builtin_literal r n)"
  using assms by (cases c) (simp_all add: lookup_type_symbol_in_context_def lookup_plain_chain ctx_ok_def)

lemma declaration_lookup:
  assumes "frames_ok r" "ctx_ok r p" "declares_types k" "after_dot n = None"
    "st = push_visible_type_decl_frame r u p k info (Some s) preserve"
  shows "lookup_type_symbol_in_context (snd st) n (fst st) =
    (if n = ts_name (sym_at r s) then Some (Some s) else lookup_type_symbol_in_context r n p)"
proof -
  note frame = push_decl_frame [OF assms(1-3,5)]
  from frame obtain f where chain: "frame_chain (snd st) (fst st) = f # frame_chain r p"
    and f: "sf_types f = [(ts_name (sym_at r s), s)]" "sf_restrict f \<or> sf_kind f = Local" by blast
  from frame have units: "units (snd st) = units r" by blast
  have "lookup_type_symbol_in_context (snd st) n (fst st) =
      Some (case first_found (\<lambda>f. scope_frame_find_type (snd st) f True n) (f # frame_chain r p) of
            Some s \<Rightarrow> Some s | None \<Rightarrow> builtin_literal (snd st) n)"
    using chain_lookup [of "snd st" "fst st" n] frame assms(4) chain by simp
  also have "\<dots> = Some (case first_found (\<lambda>f. scope_frame_find_type r f True n) (f # frame_chain r p) of
            Some s \<Rightarrow> Some s | None \<Rightarrow> builtin_literal r n)"
    by (simp only: find_type_units [OF units] builtin_literal_units [OF units assms(4)])
  finally show ?thesis
    using chain_lookup [OF assms(1,2,4)] by (simp add: find_type_declared [OF f])
qed

text \<open>C32. What a type name means below a declaration in a unit. The declared name is the
  declaration; any other name is looked up in the interfaces of the units that the
  implementation part uses, the last one first, then of those that the interface part uses,
  again the last one first, then of the run time and of the builtin types. Only units that the
  registry knows count, what a used unit itself uses is not visible, and every lookup
  returns.\<close>

theorem uses_shadowing:
  assumes "frames_ok r" "map_of (units r) (lower u) = Some ui" "declares_types k"
    "after_dot n = None"
    "imported = make_unit_import_context r u False"
    "declared = push_visible_type_decl_frame (snd imported) u (fst imported) k info (Some s) preserve"
  shows "frames_ok (snd declared) \<and>
    lookup_type_symbol_in_context (snd declared) n (fst declared) =
      Some (if n = ts_name (sym_at r s) then Some s
            else case first_found (\<lambda>v. find_export_type (the (map_of (units r) v)) n)
                   (known_units r (rev (ui_iface_uses ui @ ui_impl_uses ui) @
                      [''__rt__'', ''__builtin__''])) of
              Some t \<Rightarrow> Some t
            | None \<Rightarrow> builtin_literal r n)"
proof -
  let ?us = "rev (ui_iface_uses ui @ ui_impl_uses ui) @ [''__rt__'', ''__builtin__'']"
  have imp: "imports_to r (known_units r ?us) imported"
    using make_unit_import_context_imports [OF assms(1,2), of False] assms(5) by simp
  then have ok: "frames_ok (snd imported)" "ctx_ok (snd imported) (fst imported)"
    and sym: "symbols (snd imported) = symbols r" by (simp_all add: imports_to_def)
  from push_decl_frame [OF ok assms(3,6)] have "frames_ok (snd declared)" by blast
  moreover note declaration_lookup [OF ok assms(3,4,6)] imports_lookup [OF imp refl assms(4)]
  ultimately show ?thesis by (simp add: sym)
qed

definition sample_unit :: "string \<Rightarrow> string list \<Rightarrow> sym_ref smap \<Rightarrow> unit_info" where
  "sample_unit u uses types =
     \<lparr>ui_name = u, ui_iface_uses = uses, ui_impl_uses = [], iface_vars = [], iface_consts = [],
      iface_procs = [], iface_operators = [], iface_types = types, iface_enum_members = [],
      impl_vars = [], impl_consts = [], impl_procs = [], impl_operators = [], impl_types = [],
      impl_enum_members = []\<rparr>"

definition sample_symbol :: "string \<Rightarrow> string \<Rightarrow> type_symbol" where
  "sample_symbol u n =
     \<lparr>ts_name = n, ts_unit = u, ts_owner_path = [], ts_expr = None, ts_descriptor = None,
      ts_has_forward = False\<rparr>"

definition uses_registry :: registry where
  "uses_registry =
     empty_registry
       \<lparr>units := [(''a'', sample_unit ''a'' [] [(''t'', 0), (''v'', 1)]),
                  (''b'', sample_unit ''b'' [''c''] [(''t'', 2)]),
                  (''c'', sample_unit ''c'' [] [(''w'', 4)]),
                  (''p'', sample_unit ''p'' [''a'', ''b''] [])],
        symbols := [sample_symbol ''a'' ''t'', sample_symbol ''a'' ''v'',
                    sample_symbol ''b'' ''t'', sample_symbol ''p'' ''x'', sample_symbol ''c'' ''w'']\<rparr>"

text \<open>Program \<open>p\<close> uses \<open>a\<close> and \<open>b\<close>, both export \<open>t\<close>: it sees the one of \<open>b\<close>.\<close>

lemma uses_shadowing_witness:
  "\<exists>st. lookup_type_symbol_in_context (snd st) ''t'' (fst st) = Some (Some 2)"
proof -
  let ?i = "make_unit_import_context uses_registry ''p'' False"
  let ?d = "push_visible_type_decl_frame (snd ?i) ''p'' (fst ?i) UnitImplementation (Some ''p'') (Some 3) False"
  have "frames_ok uses_registry" by (simp add: frames_ok_def uses_registry_def empty_registry_def)
  moreover have "map_of (units uses_registry) (lower ''p'') = Some (sample_unit ''p'' [''a'', ''b''] [])"
    by (simp add: uses_registry_def lower_def lower_char_def is_upper_def code_def)
  moreover have "declares_types UnitImplementation" by (simp add: declares_types_def)
  moreover have "after_dot ''t'' = None" by (simp add: after_dot_def)
  ultimately have "lookup_type_symbol_in_context (snd ?d) ''t'' (fst ?d) = Some (Some 2)"
    using uses_shadowing [of uses_registry "''p''" _ UnitImplementation "''t''" ?i ?d "Some ''p''" 3 False]
    by (simp add: uses_registry_def sample_unit_def known_units_def find_export_type_def
        sample_symbol_def)
  then show ?thesis by blast
qed

end
