(* ===== verification/Reg_Sig.thy ===== *)
theory Reg_Sig
  imports Reg_Scope
begin

text \<open>
  Parameter lists and signature matching of \<open>src/typereg.cc\<close>. Matching follows the bound types
  of two declarations. \<open>seen\<close> holds the pairs it has met; it is one list, passed by reference,
  but the parameters of a procedural type are matched with a list of their own. Nothing
  bounds the recursion, so the model has fuel: the depth of calls.
\<close>

subsection \<open>Parameter lists\<close>

definition names_count :: "'ty param \<Rightarrow> nat" where
  "names_count p = (if param_names p = [] then 1 else length (param_names p))"

definition proc_accepts_zero_args :: "(texpr_ref, 'd) proc_decl \<Rightarrow> bool" where
  "proc_accepts_zero_args pd =
     list_all (\<lambda>p. \<not> (names_count p \<noteq> 0 \<and> param_default p = None)) (pd_params pd)"

definition proc_param_count :: "'ty param list \<Rightarrow> nat" where
  "proc_param_count ps = sum_list (map names_count ps)"

definition flattened_params :: "'ty param list \<Rightarrow> 'ty param list" where
  "flattened_params ps = concat (map (\<lambda>p. replicate (names_count p) p) ps)"

subsection \<open>Shapes\<close>

definition descriptor_for_type :: "registry \<Rightarrow> texpr_ref option \<Rightarrow> desc_ref option" where
  "descriptor_for_type r t = Option.bind t (\<lambda>t. te_descriptor (texpr_at r t))"

definition signature_payload_shape :: "registry \<Rightarrow> texpr_ref option \<Rightarrow> texpr_ref option" where
  "signature_payload_shape r t =
     (case descriptor_for_type r t of
        None \<Rightarrow> None
      | Some d \<Rightarrow> (case td_expr (desc_at r d) of Some e \<Rightarrow> Some e | None \<Rightarrow> t))"

text \<open>
  \<open>signature_pointer_shape\<close>: the target of the pointer type. The outer option is the fuel, the
  second one the null result, the third one the target, which may be null.
\<close>

fun signature_pointer_shape ::
  "nat \<Rightarrow> registry \<Rightarrow> texpr_ref option \<Rightarrow> texpr_ref option option option" where
  "signature_pointer_shape 0 r t = None"
| "signature_pointer_shape (Suc fuel) r t =
     (case signature_payload_shape r t of
        None \<Rightarrow> Some None
      | Some e \<Rightarrow>
          (case te_shape (texpr_at r e) of
             NPointer target \<Rightarrow> Some (Some target)
           | NDistinct underlying \<Rightarrow> signature_pointer_shape fuel r (Some underlying)
           | _ \<Rightarrow> Some None))"

subsection \<open>Matching\<close>

type_synonym seen_pairs = "(texpr_ref \<times> texpr_ref) list"
type_synonym matcher = "texpr_ref option \<Rightarrow> texpr_ref option \<Rightarrow> seen_pairs \<Rightarrow> (bool \<times> seen_pairs) option"

text \<open>The \<open>switch\<close> on two shapes of the same kind: an answer, or what is to be matched next.\<close>

datatype (plugins only: code) shape_step =
    Answer bool
  | Types "texpr_ref option" "texpr_ref option"
  | Arrays "texpr_ref list" "texpr_ref list" texpr_ref texpr_ref
  | Procedurals "texpr_ref option" "texpr_ref option" "reg_param list" "reg_param list"

fun compare_shapes :: "shape \<Rightarrow> shape \<Rightarrow> shape_step" where
  "compare_shapes (NString _) sb = (case sb of NString _ \<Rightarrow> Answer True | _ \<Rightarrow> Answer False)"
| "compare_shapes (NSet ea _) sb =
     (case sb of NSet eb _ \<Rightarrow> Types (Some ea) (Some eb) | _ \<Rightarrow> Answer False)"
| "compare_shapes (NFile ea ta) sb =
     (case sb of
        NFile eb tb \<Rightarrow>
          if ta \<noteq> tb then Answer False
          else if ea = None \<or> eb = None then Answer (ea = None \<and> eb = None)
          else Types ea eb
      | _ \<Rightarrow> Answer False)"
| "compare_shapes (NArray da ea _ ka) sb =
     (case sb of
        NArray db eb _ kb \<Rightarrow>
          if ka \<noteq> kb \<or> length da \<noteq> length db then Answer False else Arrays da db ea eb
      | _ \<Rightarrow> Answer False)"
| "compare_shapes (NProcedural fa pa ra ma ca) sb =
     (case sb of
        NProcedural fb pb rb mb cb \<Rightarrow>
          if fa = fb \<and> ma = mb \<and> ca = cb then Procedurals ra rb pa pb else Answer False
      | _ \<Rightarrow> Answer False)"
| "compare_shapes _ sb = Answer False"

fun dims_match :: "matcher \<Rightarrow> texpr_ref list \<Rightarrow> texpr_ref list \<Rightarrow> seen_pairs \<Rightarrow> (bool \<times> seen_pairs) option"
where
  "dims_match m (x # xs) (y # ys) seen =
     Option.bind (m (Some x) (Some y) seen) (\<lambda>(eq, seen).
       if eq then dims_match m xs ys seen else Some (False, seen))"
| "dims_match m _ _ seen = Some (True, seen)"

fun flat_params_match :: "matcher \<Rightarrow> reg_param list \<Rightarrow> reg_param list \<Rightarrow> bool option" where
  "flat_params_match m (p # ps) (q # qs) =
     (if param_mode p \<noteq> param_mode q then Some False
      else Option.bind (m (param_type p) (param_type q) []) (\<lambda>(eq, _).
        if eq then flat_params_match m ps qs else Some False))"
| "flat_params_match m _ _ = Some True"

definition params_match :: "matcher \<Rightarrow> reg_param list \<Rightarrow> reg_param list \<Rightarrow> bool option" where
  "params_match m a b =
     (if length (flattened_params a) \<noteq> length (flattened_params b) then Some False
      else flat_params_match m (flattened_params a) (flattened_params b))"

definition run_step :: "matcher \<Rightarrow> shape_step \<Rightarrow> seen_pairs \<Rightarrow> (bool \<times> seen_pairs) option" where
  "run_step m st seen =
     (case st of
        Answer eq \<Rightarrow> Some (eq, seen)
      | Types a b \<Rightarrow> m a b seen
      | Arrays da db ea eb \<Rightarrow>
          Option.bind (dims_match m da db seen) (\<lambda>(eq, seen).
            if eq then m (Some ea) (Some eb) seen else Some (False, seen))
      | Procedurals ra rb pa pb \<Rightarrow>
          Option.bind (m ra rb seen) (\<lambda>(eq, seen).
            if eq then map_option (\<lambda>eq. (eq, seen)) (params_match m pa pb)
            else Some (False, seen)))"

text \<open>
  One call, given how its recursive calls go: what follows once the pointer shapes are known,
  and the whole body.
\<close>

definition match_rest ::
  "matcher \<Rightarrow> registry \<Rightarrow> texpr_ref option \<Rightarrow> texpr_ref option \<Rightarrow> seen_pairs \<Rightarrow>
   texpr_ref option option \<Rightarrow> texpr_ref option option \<Rightarrow> (bool \<times> seen_pairs) option" where
  "match_rest m r a b seen ap bp =
     (if ap \<noteq> None \<or> bp \<noteq> None then
        (if ap = None \<or> bp = None then Some (False, seen) else m (the ap) (the bp) seen)
      else
        (case (signature_payload_shape r a, signature_payload_shape r b) of
           (Some ae, Some be) \<Rightarrow>
             run_step m (compare_shapes (te_shape (texpr_at r ae)) (te_shape (texpr_at r be))) seen
         | _ \<Rightarrow> Some (False, seen)))"

definition match_body ::
  "nat \<Rightarrow> matcher \<Rightarrow> registry \<Rightarrow> texpr_ref option \<Rightarrow> texpr_ref option \<Rightarrow> seen_pairs \<Rightarrow>
   (bool \<times> seen_pairs) option" where
  "match_body fuel m r a b seen =
     (if a = b then Some (True, seen)
      else if a = None \<or> b = None then Some (False, seen)
      else if (the a, the b) \<in> set seen then Some (True, seen)
      else
        (let seen = seen @ [(the a, the b)];
             ad = descriptor_for_type r a;
             bd = descriptor_for_type r b
         in
         if ad \<noteq> None \<and> bd \<noteq> None \<and> ad = bd then Some (True, seen)
         else
           Option.bind (signature_pointer_shape fuel r a) (\<lambda>ap.
           Option.bind (signature_pointer_shape fuel r b) (\<lambda>bp.
             match_rest m r a b seen ap bp))))"

primrec bound_signature_type_exprs_match :: "nat \<Rightarrow> registry \<Rightarrow> matcher" where
  "bound_signature_type_exprs_match 0 r = (\<lambda>a b seen. None)"
| "bound_signature_type_exprs_match (Suc fuel) r =
     match_body fuel (bound_signature_type_exprs_match fuel r) r"

definition bound_signature_params_match ::
  "nat \<Rightarrow> registry \<Rightarrow> reg_param list \<Rightarrow> reg_param list \<Rightarrow> bool option" where
  "bound_signature_params_match fuel r = params_match (bound_signature_type_exprs_match fuel r)"

definition bound_proc_signature_matches ::
  "nat \<Rightarrow> registry \<Rightarrow> reg_proc \<Rightarrow> reg_proc \<Rightarrow> bool option" where
  "bound_proc_signature_matches fuel r a b =
     (if \<not> (pd_kind a = pd_kind b \<and> pd_is_operator a = pd_is_operator b \<and>
            pd_is_class_method a = pd_is_class_method b) then Some False
      else Option.bind (bound_signature_type_exprs_match fuel r (pd_return a) (pd_return b) [])
        (\<lambda>(eq, _). if eq then bound_signature_params_match fuel r (pd_params a) (pd_params b)
                    else Some False))"

text \<open>
  \<open>prune_completed_interface_proc_impls\<close>: an implementation that completes a routine of the
  interface part is no second overload.
\<close>

fun matches_some :: "nat \<Rightarrow> registry \<Rightarrow> proc_info list \<Rightarrow> reg_proc \<Rightarrow> bool option" where
  "matches_some fuel r [] impl = Some False"
| "matches_some fuel r (p # ps) impl =
     (case pr_decl p of
        None \<Rightarrow> matches_some fuel r ps impl
      | Some decl \<Rightarrow>
          Option.bind (bound_proc_signature_matches fuel r decl impl) (\<lambda>eq.
            if eq then Some True else matches_some fuel r ps impl))"

fun prune_overloads ::
  "nat \<Rightarrow> registry \<Rightarrow> proc_info list \<Rightarrow> proc_info list \<Rightarrow> proc_info list option" where
  "prune_overloads fuel r ifaces [] = Some []"
| "prune_overloads fuel r ifaces (p # ps) =
     Option.bind
       (case pr_decl p of None \<Rightarrow> Some False | Some impl \<Rightarrow> matches_some fuel r ifaces impl) (\<lambda>eq.
       map_option (\<lambda>rest. if eq then rest else p # rest) (prune_overloads fuel r ifaces ps))"

fun prune_procs ::
  "nat \<Rightarrow> registry \<Rightarrow> proc_info list smap \<Rightarrow> proc_info list smap \<Rightarrow> proc_info list smap option" where
  "prune_procs fuel r ifaces [] = Some []"
| "prune_procs fuel r ifaces ((n, impls) # rest) =
     (case map_of ifaces n of
        None \<Rightarrow> map_option (\<lambda>m. (n, impls) # m) (prune_procs fuel r ifaces rest)
      | Some decls \<Rightarrow>
          Option.bind (prune_overloads fuel r decls impls) (\<lambda>kept.
            map_option (\<lambda>m. if kept = [] then m else (n, kept) # m)
              (prune_procs fuel r ifaces rest)))"

definition prune_completed_interface_proc_impls ::
  "nat \<Rightarrow> registry \<Rightarrow> unit_info \<Rightarrow> unit_info option" where
  "prune_completed_interface_proc_impls fuel r ui =
     map_option (\<lambda>m. ui\<lparr>impl_procs := m\<rparr>) (prune_procs fuel r (iface_procs ui) (impl_procs ui))"

end
