(* ===== verification/Reg_Sig_Facts.thy ===== *)
theory Reg_Sig_Facts
  imports Reg_Sig
begin

text \<open>
  Signature matching: more fuel does not change an answer, the order of the two signatures
  does not matter, and enough fuel gives an answer when procedural types do not take
  parameters of their own type. When they do, no fuel is enough.
\<close>

subsection \<open>More fuel\<close>

definition below :: "matcher \<Rightarrow> matcher \<Rightarrow> bool" where
  "below m m' \<longleftrightarrow> (\<forall>a b seen x. m a b seen = Some x \<longrightarrow> m' a b seen = Some x)"

lemma belowD: "below m m' \<Longrightarrow> m a b seen = Some x \<Longrightarrow> m' a b seen = Some x"
  unfolding below_def by blast

lemma pointer_shape_more:
  "signature_pointer_shape fuel r t = Some x \<Longrightarrow> signature_pointer_shape (fuel + k) r t = Some x"
  by (induction fuel r t rule: signature_pointer_shape.induct)
    (auto split: option.splits shape.splits)

lemma dims_match_below:
  "below m m' \<Longrightarrow> dims_match m xs ys seen = Some x \<Longrightarrow> dims_match m' xs ys seen = Some x"
proof (induction m xs ys seen rule: dims_match.induct)
  case (1 m u xs v ys seen)
  from 1(3) obtain eq s where d: "m (Some u) (Some v) seen = Some (eq, s)"
    and rest: "(if eq then dims_match m xs ys s else Some (False, s)) = Some x"
    by (auto simp: bind_eq_Some_conv)
  from belowD [OF 1(2) d] rest 1(1) [OF d refl _ 1(2)] show ?case by (cases eq) auto
qed simp_all

lemma flat_params_match_below:
  "below m m' \<Longrightarrow> flat_params_match m ps qs = Some x \<Longrightarrow> flat_params_match m' ps qs = Some x"
proof (induction m ps qs rule: flat_params_match.induct)
  case (1 m p ps q qs)
  show ?case
  proof (cases "param_mode p = param_mode q")
    case True
    with 1(3) obtain eq s where d: "m (param_type p) (param_type q) [] = Some (eq, s)"
      and rest: "(if eq then flat_params_match m ps qs else Some False) = Some x"
      by (auto simp: bind_eq_Some_conv)
    from belowD [OF 1(2) d] rest 1(1) [OF _ d refl _ 1(2)] True show ?thesis by (cases eq) auto
  qed (use 1(3) in simp)
qed simp_all

lemma run_step_below:
  assumes "below m m'" "run_step m st seen = Some x"
  shows "run_step m' st seen = Some x"
proof (cases st)
  case (Types a b)
  with assms show ?thesis by (simp add: run_step_def belowD)
next
  case (Arrays da db ea eb)
  with assms(2) obtain eq s where d: "dims_match m da db seen = Some (eq, s)"
    and rest: "(if eq then m (Some ea) (Some eb) s else Some (False, s)) = Some x"
    by (auto simp: run_step_def bind_eq_Some_conv)
  from dims_match_below [OF assms(1) d] rest belowD [OF assms(1)] Arrays show ?thesis
    by (auto simp: run_step_def split: if_splits)
next
  case (Procedurals ra rb pa pb)
  with assms(2) obtain eq s where d: "m ra rb seen = Some (eq, s)"
    and rest: "(if eq then map_option (\<lambda>eq. (eq, s)) (params_match m pa pb) else Some (False, s)) = Some x"
    by (auto simp: run_step_def bind_eq_Some_conv)
  have "params_match m pa pb = Some y \<Longrightarrow> params_match m' pa pb = Some y" for y
    using flat_params_match_below [OF assms(1)] by (auto simp: params_match_def split: if_splits)
  with belowD [OF assms(1) d] rest Procedurals show ?thesis
    by (auto simp: run_step_def split: if_splits)
qed (use assms(2) in \<open>simp add: run_step_def\<close>)

definition decided :: "registry \<Rightarrow> texpr_ref option \<Rightarrow> texpr_ref option \<Rightarrow> seen_pairs \<Rightarrow> bool" where
  "decided r a b seen \<longleftrightarrow>
     a = b \<or> a = None \<or> b = None \<or> (the a, the b) \<in> set seen \<or>
     (descriptor_for_type r a \<noteq> None \<and> descriptor_for_type r a = descriptor_for_type r b)"

lemma match_body_decided:
  assumes "decided r a b seen"
  shows "match_body fuel m r a b seen =
    (if a = b then Some (True, seen)
     else if a = None \<or> b = None then Some (False, seen)
     else if (the a, the b) \<in> set seen then Some (True, seen)
     else Some (True, seen @ [(the a, the b)]))"
proof (cases "a = b \<or> a = None \<or> b = None \<or> (the a, the b) \<in> set seen")
  case False
  with assms have "descriptor_for_type r a \<noteq> None \<and> descriptor_for_type r b \<noteq> None \<and>
      descriptor_for_type r a = descriptor_for_type r b" unfolding decided_def by metis
  with False show ?thesis unfolding match_body_def Let_def by presburger
qed (unfold match_body_def, presburger)

lemma match_body_open:
  "\<not> decided r a b seen \<Longrightarrow>
     match_body fuel m r a b seen =
       Option.bind (signature_pointer_shape fuel r a) (\<lambda>ap.
       Option.bind (signature_pointer_shape fuel r b) (\<lambda>bp.
         match_rest m r a b (seen @ [(the a, the b)]) ap bp))"
  unfolding match_body_def decided_def Let_def by auto

lemma match_body_below:
  assumes "below m m'" "match_body fuel m r a b seen = Some x"
  shows "match_body (fuel + k) m' r a b seen = Some x"
proof -
  have p: "signature_pointer_shape fuel r t = Some y \<Longrightarrow>
      signature_pointer_shape (fuel + k) r t = Some y" for t y
    by (rule pointer_shape_more)
  show ?thesis
  proof (cases "decided r a b seen")
    case True
    with assms(2) show ?thesis by (simp add: match_body_decided)
  next
    case False
    let ?seen = "seen @ [(the a, the b)]"
    note body = match_body_open [OF False]
    from assms(2) obtain ap bp where ap: "signature_pointer_shape fuel r a = Some ap"
      and bp: "signature_pointer_shape fuel r b = Some bp"
      and rest: "match_rest m r a b ?seen ap bp = Some x"
      unfolding body by (auto simp: bind_eq_Some_conv)
    from rest have "match_rest m' r a b ?seen ap bp = Some x"
      using belowD [OF assms(1)] run_step_below [OF assms(1)]
      by (auto simp: match_rest_def split: if_splits option.splits)
    then show ?thesis unfolding body by (simp add: p [OF ap] p [OF bp])
  qed
qed

lemma match_more:
  "bound_signature_type_exprs_match fuel r a b seen = Some x \<Longrightarrow>
     bound_signature_type_exprs_match (fuel + k) r a b seen = Some x"
proof (induction fuel arbitrary: a b seen x)
  case (Suc fuel)
  then have "below (bound_signature_type_exprs_match fuel r)
      (bound_signature_type_exprs_match (fuel + k) r)" by (simp add: below_def)
  from match_body_below [OF this] Suc.prems show ?case by simp
qed simp

subsection \<open>Order\<close>

definition swapped :: "seen_pairs \<Rightarrow> seen_pairs" where
  "swapped = map (\<lambda>(a, b). (b, a))"

definition flipped :: "(bool \<times> seen_pairs) option \<Rightarrow> (bool \<times> seen_pairs) option" where
  "flipped = map_option (\<lambda>(eq, s). (eq, swapped s))"

definition symmetric :: "matcher \<Rightarrow> bool" where
  "symmetric m \<longleftrightarrow> (\<forall>a b seen. m b a (swapped seen) = flipped (m a b seen))"

lemma symmetricD: "symmetric m \<Longrightarrow> m b a (swapped seen) = flipped (m a b seen)"
  by (simp add: symmetric_def)

lemma swapped_simps [simp]:
  "swapped [] = []" "swapped (seen @ [(a, b)]) = swapped seen @ [(b, a)]"
  "(b, a) \<in> set (swapped seen) \<longleftrightarrow> (a, b) \<in> set seen"
  by (auto simp: swapped_def)

lemma flipped_simps [simp]:
  "flipped None = None" "flipped (Some (eq, s)) = Some (eq, swapped s)"
  by (simp_all add: flipped_def)

lemma dims_match_swap:
  "symmetric m \<Longrightarrow> dims_match m ys xs (swapped seen) = flipped (dims_match m xs ys seen)"
proof (induction m xs ys seen rule: dims_match.induct)
  case (1 m x xs y ys seen)
  show ?case
  proof (cases "m (Some x) (Some y) seen")
    case (Some p)
    then obtain eq s where "m (Some x) (Some y) seen = Some (eq, s)" by (cases p) auto
    with symmetricD [OF 1(2), of "Some y" "Some x" seen] 1 show ?thesis by simp
  qed (use symmetricD [OF 1(2), of "Some y" "Some x" seen] in simp)
qed simp_all

lemma flat_params_match_swap:
  "symmetric m \<Longrightarrow> flat_params_match m qs ps = flat_params_match m ps qs"
proof (induction m ps qs rule: flat_params_match.induct)
  case (1 m p ps q qs)
  note sw = symmetricD [OF 1(2), of "param_type q" "param_type p" "[]"]
  show ?case
  proof (cases "m (param_type p) (param_type q) []")
    case (Some z)
    then obtain eq s where "m (param_type p) (param_type q) [] = Some (eq, s)" by (cases z) auto
    with sw 1 show ?thesis by auto
  qed (use sw in auto)
qed simp_all

fun swap_step :: "shape_step \<Rightarrow> shape_step" where
  "swap_step (Answer eq) = Answer eq"
| "swap_step (Types a b) = Types b a"
| "swap_step (Arrays da db ea eb) = Arrays db da eb ea"
| "swap_step (Procedurals ra rb pa pb) = Procedurals rb ra pb pa"

lemma compare_shapes_swap: "compare_shapes sb sa = swap_step (compare_shapes sa sb)"
  by (cases sa; cases sb) auto

lemma run_step_swap:
  assumes "symmetric m"
  shows "run_step m (swap_step st) (swapped seen) = flipped (run_step m st seen)"
proof (cases st)
  case (Answer eq)
  then show ?thesis by (simp add: run_step_def)
next
  case (Types a b)
  then show ?thesis by (simp add: run_step_def symmetricD [OF assms])
next
  case (Arrays da db ea eb)
  show ?thesis
  proof (cases "dims_match m da db seen")
    case (Some p)
    with Arrays dims_match_swap [OF assms, of db da seen] symmetricD [OF assms] show ?thesis
      by (cases p) (simp add: run_step_def)
  qed (use Arrays dims_match_swap [OF assms, of db da seen] in \<open>simp add: run_step_def\<close>)
next
  case (Procedurals ra rb pa pb)
  have ps: "params_match m pb pa = params_match m pa pb"
    using flat_params_match_swap [OF assms] by (simp add: params_match_def)
  show ?thesis
  proof (cases "m ra rb seen")
    case (Some p)
    with Procedurals symmetricD [OF assms, of rb ra seen] ps show ?thesis
      by (cases p; cases "params_match m pa pb") (simp_all add: run_step_def)
  qed (use Procedurals symmetricD [OF assms, of rb ra seen] in \<open>simp add: run_step_def\<close>)
qed

lemma match_rest_swap:
  assumes "symmetric m"
  shows "match_rest m r b a (swapped seen) bp ap = flipped (match_rest m r a b seen ap bp)"
proof (cases "ap \<noteq> None \<or> bp \<noteq> None")
  case True
  then show ?thesis by (auto simp: match_rest_def symmetricD [OF assms])
next
  case False
  show ?thesis
  proof (cases "signature_payload_shape r a = None \<or> signature_payload_shape r b = None")
    case True
    with False show ?thesis by (auto simp: match_rest_def split: option.splits)
  next
    case None: False
    then obtain ae be where sh: "signature_payload_shape r a = Some ae"
      "signature_payload_shape r b = Some be" by auto
    show ?thesis
      using False run_step_swap [OF assms, of "compare_shapes (te_shape (texpr_at r ae)) (te_shape (texpr_at r be))" seen]
      by (simp add: match_rest_def sh
          compare_shapes_swap [of "te_shape (texpr_at r be)" "te_shape (texpr_at r ae)"])
  qed
qed

lemma decided_swap: "decided r b a (swapped seen) = decided r a b seen"
  unfolding decided_def swapped_simps by metis

lemma match_body_swap:
  assumes "symmetric m"
  shows "match_body fuel m r b a (swapped seen) = flipped (match_body fuel m r a b seen)"
proof (cases "decided r a b seen")
  case True
  moreover from this have "decided r b a (swapped seen)" by (simp add: decided_swap)
  ultimately show ?thesis by (auto simp: match_body_decided)
next
  case False
  then have swap: "swapped (seen @ [(the a, the b)]) = swapped seen @ [(the b, the a)]" by simp
  have open': "\<not> decided r b a (swapped seen)" using False by (simp add: decided_swap)
  show ?thesis
    unfolding match_body_open [OF False] match_body_open [OF open']
    by (cases "signature_pointer_shape fuel r a"; cases "signature_pointer_shape fuel r b")
      (simp_all add: match_rest_swap [OF assms, where seen = "seen @ [(the a, the b)]", unfolded swap])
qed

lemma match_symmetric: "symmetric (bound_signature_type_exprs_match fuel r)"
proof (induction fuel)
  case (Suc fuel)
  from match_body_swap [OF Suc] show ?case by (simp add: symmetric_def)
qed (simp add: symmetric_def)

subsection \<open>Enough fuel\<close>

text \<open>The types that matching goes on to from a shape, without and with the parameters.\<close>

fun inner_types :: "shape \<Rightarrow> texpr_ref set" where
  "inner_types (NSet u _) = {u}"
| "inner_types (NFile u _) = set_option u"
| "inner_types (NPointer u) = set_option u"
| "inner_types (NDistinct u) = {u}"
| "inner_types (NArray ds u _ _) = insert u (set ds)"
| "inner_types (NProcedural _ _ u _ _) = set_option u"
| "inner_types _ = {}"

fun param_types :: "shape \<Rightarrow> texpr_ref set" where
  "param_types (NProcedural _ ps _ _ _) = {u. \<exists>p\<in>set ps. param_type p = Some u}"
| "param_types _ = {}"

text \<open>
  A registry is stratified when the types below the parameters of a procedural type have a
  smaller rank than the type itself, and distinct types do not name each other in a circle.
  All types are below \<open>N\<close>, the depth of distinct types is below \<open>D\<close>.
\<close>

definition stratified ::
  "registry \<Rightarrow> nat \<Rightarrow> nat \<Rightarrow> (texpr_ref \<Rightarrow> nat) \<Rightarrow> (texpr_ref \<Rightarrow> nat) \<Rightarrow> bool" where
  "stratified r N D rank depth \<longleftrightarrow>
     (\<forall>t<N. depth t \<le> D \<and>
        (case signature_payload_shape r (Some t) of
           None \<Rightarrow> True
         | Some e \<Rightarrow>
             (\<forall>u\<in>inner_types (te_shape (texpr_at r e)). u < N \<and> rank u \<le> rank t) \<and>
             (\<forall>u\<in>param_types (te_shape (texpr_at r e)). u < N \<and> rank u < rank t) \<and>
             (case te_shape (texpr_at r e) of NDistinct u \<Rightarrow> depth u < depth t | _ \<Rightarrow> True)))"

definition unseen :: "nat \<Rightarrow> seen_pairs \<Rightarrow> nat" where
  "unseen N seen = card ({..<N} \<times> {..<N} - set seen)"

definition weight :: "nat \<Rightarrow> (texpr_ref \<Rightarrow> nat) \<Rightarrow> texpr_ref option \<Rightarrow> seen_pairs \<Rightarrow> nat" where
  "weight N rank a seen =
     (case a of None \<Rightarrow> 0 | Some t \<Rightarrow> rank t * (N * N + 1) + unseen N seen)"

definition in_store :: "nat \<Rightarrow> texpr_ref option \<Rightarrow> bool" where
  "in_store N a \<longleftrightarrow> (\<forall>t. a = Some t \<longrightarrow> t < N)"

lemma unseen_mono: "set seen \<subseteq> set seen' \<Longrightarrow> unseen N seen' \<le> unseen N seen"
  unfolding unseen_def by (rule card_mono) auto

lemma weight_mono: "set seen \<subseteq> set seen' \<Longrightarrow> weight N rank a seen' \<le> weight N rank a seen"
  by (simp add: weight_def unseen_mono split: option.split)

lemma unseen_add:
  assumes "x < N" "y < N" "(x, y) \<notin> set seen"
  shows "unseen N (seen @ [(x, y)]) < unseen N seen"
  unfolding unseen_def by (rule psubset_card_mono) (use assms in auto)

lemma unseen_bound: "unseen N seen \<le> N * N"
proof -
  have "unseen N seen \<le> card ({..<N} \<times> {..<N})" unfolding unseen_def by (rule card_mono) auto
  then show ?thesis by simp
qed

lemma weight_inner:
  assumes "rank u \<le> rank t" "x < N" "y < N" "(x, y) \<notin> set seen"
  shows "weight N rank (Some u) (seen @ [(x, y)]) < weight N rank (Some t) seen"
proof -
  have "rank u * (N * N + 1) \<le> rank t * (N * N + 1)" using assms(1) by (rule mult_le_mono1)
  with unseen_add [OF assms(2-4)] show ?thesis by (simp add: weight_def)
qed

lemma weight_param:
  assumes "rank u < rank t" "x < N" "y < N" "(x, y) \<notin> set seen"
  shows "weight N rank (Some u) [] < weight N rank (Some t) seen"
proof -
  have "Suc (rank u) * (N * N + 1) \<le> rank t * (N * N + 1)"
    using assms(1) by (intro mult_le_mono1) simp
  with unseen_bound [of N "[]"] unseen_add [OF assms(2-4)] show ?thesis by (simp add: weight_def)
qed

lemma stratified_shape:
  assumes "stratified r N D rank depth" "t < N" "signature_payload_shape r (Some t) = Some e"
  shows "\<forall>u\<in>inner_types (te_shape (texpr_at r e)). u < N \<and> rank u \<le> rank t"
    and "\<forall>u\<in>param_types (te_shape (texpr_at r e)). u < N \<and> rank u < rank t"
    and "te_shape (texpr_at r e) = NDistinct u \<Longrightarrow> depth u < depth t"
proof -
  from assms(1,2) have "case signature_payload_shape r (Some t) of
           None \<Rightarrow> True
         | Some e \<Rightarrow>
             (\<forall>u\<in>inner_types (te_shape (texpr_at r e)). u < N \<and> rank u \<le> rank t) \<and>
             (\<forall>u\<in>param_types (te_shape (texpr_at r e)). u < N \<and> rank u < rank t) \<and>
             (case te_shape (texpr_at r e) of NDistinct u \<Rightarrow> depth u < depth t | _ \<Rightarrow> True)"
    unfolding stratified_def by blast
  note all = this [unfolded assms(3) option.case]
  from all show "\<forall>u\<in>inner_types (te_shape (texpr_at r e)). u < N \<and> rank u \<le> rank t" by blast
  from all show "\<forall>u\<in>param_types (te_shape (texpr_at r e)). u < N \<and> rank u < rank t" by blast
  from all show "te_shape (texpr_at r e) = NDistinct u \<Longrightarrow> depth u < depth t" by simp
qed

lemma pointer_shape_returns:
  assumes "stratified r N D rank depth"
  shows "t < N \<Longrightarrow> depth t < fuel \<Longrightarrow>
    \<exists>ap. signature_pointer_shape fuel r (Some t) = Some ap \<and>
      (\<forall>u. ap = Some (Some u) \<longrightarrow> u < N \<and> rank u \<le> rank t)"
proof (induction fuel arbitrary: t)
  case (Suc fuel)
  show ?case
  proof (cases "signature_payload_shape r (Some t)")
    case (Some e)
    note shape = stratified_shape [OF assms Suc.prems(1) Some]
    show ?thesis
    proof (cases "\<exists>u. te_shape (texpr_at r e) = NDistinct u")
      case True
      then obtain u where u: "te_shape (texpr_at r e) = NDistinct u" by blast
      with shape(1) shape(3) [OF u] Suc.prems have "u < N" "rank u \<le> rank t" "depth u < fuel"
        by auto
      with Suc.IH [of u] Some u show ?thesis by fastforce
    next
      case False
      with Some shape(1) show ?thesis by (auto split: shape.splits)
    qed
  qed simp
qed simp

text \<open>A matcher that returns on everything lighter than \<open>n\<close>, and only adds to \<open>seen\<close>.\<close>

definition returns_below :: "nat \<Rightarrow> (texpr_ref \<Rightarrow> nat) \<Rightarrow> nat \<Rightarrow> matcher \<Rightarrow> bool" where
  "returns_below N rank n m \<longleftrightarrow>
     (\<forall>a b seen. in_store N a \<and> in_store N b \<and> weight N rank a seen < n \<longrightarrow>
        (\<exists>eq seen'. m a b seen = Some (eq, seen') \<and> set seen \<subseteq> set seen'))"

lemma returns_belowD:
  assumes "returns_below N rank n m" "in_store N a" "in_store N b" "weight N rank a seen < n"
  obtains eq seen' where "m a b seen = Some (eq, seen')" "set seen \<subseteq> set seen'"
  using assms unfolding returns_below_def by blast

lemma dims_match_returns:
  assumes m: "returns_below N rank n m"
  shows "\<forall>x\<in>set xs. x < N \<and> weight N rank (Some x) seen < n \<Longrightarrow> \<forall>y\<in>set ys. y < N \<Longrightarrow>
    \<exists>eq seen'. dims_match m xs ys seen = Some (eq, seen') \<and> set seen \<subseteq> set seen'"
proof (induction xs arbitrary: ys seen)
  case (Cons x xs)
  show ?case
  proof (cases ys)
    case (Cons y zs)
    have "in_store N (Some x)" "in_store N (Some y)" "weight N rank (Some x) seen < n"
      using Cons.prems \<open>ys = y # zs\<close> by (simp_all add: in_store_def)
    then obtain eq s where r: "m (Some x) (Some y) seen = Some (eq, s)" "set seen \<subseteq> set s"
      by (rule returns_belowD [OF m])
    have "\<forall>x\<in>set xs. x < N \<and> weight N rank (Some x) s < n"
      using Cons.prems(1) weight_mono [OF r(2), of N rank] by (meson list.set_intros(2) order_le_less_trans)
    from Cons.IH [OF this, of zs] Cons.prems(2) \<open>ys = y # zs\<close> r show ?thesis
      by (cases eq) fastforce+
  qed auto
qed auto

lemma flat_params_match_returns:
  assumes m: "returns_below N rank n m"
  shows "\<forall>p\<in>set ps. in_store N (param_type p) \<and> weight N rank (param_type p) [] < n \<Longrightarrow>
    \<forall>q\<in>set qs. in_store N (param_type q) \<Longrightarrow> \<exists>eq. flat_params_match m ps qs = Some eq"
proof (induction ps arbitrary: qs)
  case (Cons p ps)
  show ?case
  proof (cases qs)
    case (Cons q qs')
    have "in_store N (param_type p)" "in_store N (param_type q)" "weight N rank (param_type p) [] < n"
      using Cons.prems \<open>qs = q # qs'\<close> by simp_all
    then obtain eq s where "m (param_type p) (param_type q) [] = Some (eq, s)"
      by (rule returns_belowD [OF m])
    with Cons.IH [of qs'] Cons.prems \<open>qs = q # qs'\<close> show ?thesis by (cases eq) auto
  qed auto
qed auto

lemma set_flattened_params: "set (flattened_params ps) = set ps"
  by (auto simp: flattened_params_def names_count_def)

lemma in_store_simps [simp]: "in_store N None" "in_store N (Some t) \<longleftrightarrow> t < N"
  by (simp_all add: in_store_def)

text \<open>What a type that is being matched leads to is lighter.\<close>

definition lighter :: "nat \<Rightarrow> (texpr_ref \<Rightarrow> nat) \<Rightarrow> nat \<Rightarrow> seen_pairs \<Rightarrow> shape \<Rightarrow> bool" where
  "lighter N rank n seen sh \<longleftrightarrow>
     (\<forall>u\<in>inner_types sh. u < N \<and> weight N rank (Some u) seen < n) \<and>
     (\<forall>u\<in>param_types sh. u < N \<and> weight N rank (Some u) [] < n)"

lemma returns_option:
  assumes m: "returns_below N rank n m" and ab: "in_store N a" "in_store N b"
    and w: "0 < n" "\<And>u. a = Some u \<Longrightarrow> weight N rank (Some u) seen < n"
  obtains eq seen' where "m a b seen = Some (eq, seen')" "set seen \<subseteq> set seen'"
proof -
  have "weight N rank a seen < n" using w by (cases a) (simp_all add: weight_def)
  with returns_belowD [OF m ab] that show thesis by blast
qed

lemma run_step_returns:
  assumes m: "returns_below N rank n m" and w: "0 < n"
    and sa: "lighter N rank n seen sa"
    and sb: "\<forall>u\<in>inner_types sb \<union> param_types sb. u < N"
  shows "\<exists>eq seen'. run_step m (compare_shapes sa sb) seen = Some (eq, seen') \<and> set seen \<subseteq> set seen'"
proof (cases "compare_shapes sa sb")
  case (Answer eq)
  then show ?thesis by (simp add: run_step_def)
next
  case (Types a b)
  then have "set_option a \<subseteq> inner_types sa" "set_option b \<subseteq> inner_types sb"
    by (cases sa; cases sb; auto split: if_splits)+
  then have ab: "in_store N a" "in_store N b" "\<And>u. a = Some u \<Longrightarrow> weight N rank (Some u) seen < n"
    using sa sb by (force simp: lighter_def in_store_def)+
  obtain eq s where "m a b seen = Some (eq, s)" "set seen \<subseteq> set s"
    by (rule returns_option [OF m ab(1,2) w ab(3)])
  with Types show ?thesis by (simp add: run_step_def)
next
  case (Arrays da db ea eb)
  then have inner: "insert ea (set da) \<subseteq> inner_types sa" "insert eb (set db) \<subseteq> inner_types sb"
    by (cases sa; cases sb; auto split: if_splits)+
  then have "\<forall>x\<in>set da. x < N \<and> weight N rank (Some x) seen < n" "\<forall>y\<in>set db. y < N"
    and e: "ea < N" "eb < N" "weight N rank (Some ea) seen < n"
    using sa sb by (auto simp: lighter_def)
  from dims_match_returns [OF m this(1,2)] obtain eq s where
    d: "dims_match m da db seen = Some (eq, s)" "set seen \<subseteq> set s" by blast
  have "weight N rank (Some ea) s < n"
    using weight_mono [OF d(2)] e(3) by (rule order_le_less_trans)
  with e(1,2) obtain eq' s' where "m (Some ea) (Some eb) s = Some (eq', s')" "set s \<subseteq> set s'"
    using returns_belowD [OF m, of "Some ea" "Some eb" s] by auto
  with d Arrays show ?thesis by (cases eq) (auto simp: run_step_def)
next
  case (Procedurals ra rb pa pb)
  then have inner: "set_option ra \<subseteq> inner_types sa" "set_option rb \<subseteq> inner_types sb"
    and par: "\<And>p u. p \<in> set pa \<Longrightarrow> param_type p = Some u \<Longrightarrow> u \<in> param_types sa"
      "\<And>p u. p \<in> set pb \<Longrightarrow> param_type p = Some u \<Longrightarrow> u \<in> param_types sb"
    by (cases sa; cases sb; auto split: if_splits)+
  from inner have ab: "in_store N ra" "in_store N rb"
    "\<And>u. ra = Some u \<Longrightarrow> weight N rank (Some u) seen < n"
    using sa sb by (force simp: lighter_def in_store_def)+
  obtain eq s where r: "m ra rb seen = Some (eq, s)" "set seen \<subseteq> set s"
    by (rule returns_option [OF m ab(1,2) w ab(3)])
  have "\<forall>p\<in>set pa. in_store N (param_type p) \<and> weight N rank (param_type p) [] < n"
  proof
    fix p assume "p \<in> set pa"
    with par(1) [of p] sa w show "in_store N (param_type p) \<and> weight N rank (param_type p) [] < n"
      by (cases "param_type p") (auto simp: lighter_def weight_def)
  qed
  moreover have "\<forall>q\<in>set pb. in_store N (param_type q)" using par(2) sb by (auto simp: in_store_def)
  ultimately have "\<exists>eq. params_match m pa pb = Some eq"
    using flat_params_match_returns [OF m, of "flattened_params pa" "flattened_params pb"]
    by (auto simp: params_match_def set_flattened_params)
  with r Procedurals show ?thesis by (cases eq) (auto simp: run_step_def)
qed

lemma match_returns:
  assumes st: "stratified r N D rank depth"
  shows "in_store N a \<Longrightarrow> in_store N b \<Longrightarrow> weight N rank a seen + D < fuel \<Longrightarrow>
    \<exists>eq seen'. bound_signature_type_exprs_match fuel r a b seen = Some (eq, seen') \<and>
      set seen \<subseteq> set seen'"
proof (induction fuel arbitrary: a b seen)
  case (Suc fuel)
  let ?m = "bound_signature_type_exprs_match fuel r"
  show ?case
  proof (cases "decided r a b seen")
    case True
    then show ?thesis by (auto simp: match_body_decided)
  next
    case False
    then have "a \<noteq> None" "b \<noteq> None" "(the a, the b) \<notin> set seen" by (simp_all add: decided_def)
    then obtain x y where xy: "a = Some x" "b = Some y" and new: "(x, y) \<notin> set seen" by auto
    from Suc.prems xy have lt: "x < N" "y < N" by simp_all
    let ?seen = "seen @ [(x, y)]" and ?n = "weight N rank a seen"
    have m: "returns_below N rank ?n ?m"
      unfolding returns_below_def using Suc.IH Suc.prems(3) by simp
    have n: "0 < ?n" using unseen_add [OF lt new] by (simp add: xy weight_def)
    have inner: "rank u \<le> rank x \<Longrightarrow> weight N rank (Some u) ?seen < ?n" for u
      using weight_inner [OF _ lt new] by (simp add: xy)
    have param: "rank u < rank x \<Longrightarrow> weight N rank (Some u) [] < ?n" for u
      using weight_param [OF _ lt new] by (simp add: xy)
    have "depth x < fuel" "depth y < fuel"
      using st lt n Suc.prems(3) unfolding stratified_def by fastforce+
    then obtain ap bp where
      ap: "signature_pointer_shape fuel r a = Some ap" "\<forall>u. ap = Some (Some u) \<longrightarrow> u < N \<and> rank u \<le> rank x" and
      bp: "signature_pointer_shape fuel r b = Some bp" "\<forall>u. bp = Some (Some u) \<longrightarrow> u < N \<and> rank u \<le> rank y"
      using pointer_shape_returns [OF st lt(1)] pointer_shape_returns [OF st lt(2)] unfolding xy by blast
    have rest: "\<exists>eq seen'. match_rest ?m r a b ?seen ap bp = Some (eq, seen') \<and> set ?seen \<subseteq> set seen'"
    proof (cases "ap \<noteq> None \<and> bp \<noteq> None")
      case True
      then obtain at bt where p: "ap = Some at" "bp = Some bt" by blast
      with ap(2) bp(2) have "in_store N at" "in_store N bt"
        "\<And>u. at = Some u \<Longrightarrow> weight N rank (Some u) ?seen < ?n"
        using inner by (auto simp: in_store_def)
      then obtain eq s where "?m at bt ?seen = Some (eq, s)" "set ?seen \<subseteq> set s"
        using returns_option [OF m _ _ n] by blast
      with p show ?thesis by (simp add: match_rest_def)
    next
      case no: False
      show ?thesis
      proof (cases "ap = None \<and> bp = None \<and> signature_payload_shape r a \<noteq> None \<and>
          signature_payload_shape r b \<noteq> None")
        case True
        then obtain ae be where e: "signature_payload_shape r (Some x) = Some ae"
          "signature_payload_shape r (Some y) = Some be" unfolding xy by auto
        have l: "lighter N rank ?n ?seen (te_shape (texpr_at r ae))"
          using stratified_shape(1,2) [OF st lt(1) e(1)] inner param by (auto simp: lighter_def)
        have be: "\<forall>u\<in>inner_types (te_shape (texpr_at r be)) \<union> param_types (te_shape (texpr_at r be)). u < N"
          using stratified_shape(1,2) [OF st lt(2) e(2)] by auto
        show ?thesis
          using run_step_returns [OF m n l be] True e by (simp add: match_rest_def xy)
      qed (use no in \<open>auto simp: match_rest_def split: option.splits\<close>)
    qed
    then show ?thesis
      using match_body_open [OF False] ap(1) bp(1) by (auto simp: xy)
  qed
qed simp

subsection \<open>Routines\<close>

lemma params_match_below:
  "below m m' \<Longrightarrow> params_match m ps qs = Some x \<Longrightarrow> params_match m' ps qs = Some x"
  by (auto simp: params_match_def dest: flat_params_match_below split: if_splits)

lemma below_more:
  "below (bound_signature_type_exprs_match fuel r) (bound_signature_type_exprs_match (fuel + k) r)"
  by (simp add: below_def match_more)

lemma proc_matches_more:
  assumes "bound_proc_signature_matches fuel r a b = Some x"
  shows "bound_proc_signature_matches (fuel + k) r a b = Some x"
proof (cases "pd_kind a = pd_kind b \<and> pd_is_operator a = pd_is_operator b \<and>
    pd_is_class_method a = pd_is_class_method b")
  case True
  with assms obtain eq s where
    ret: "bound_signature_type_exprs_match fuel r (pd_return a) (pd_return b) [] = Some (eq, s)" and
    rest: "(if eq then bound_signature_params_match fuel r (pd_params a) (pd_params b) else Some False) = Some x"
    by (auto simp: bound_proc_signature_matches_def bind_eq_Some_conv)
  from rest params_match_below [OF below_more] match_more [OF ret, of k] True show ?thesis
    by (cases eq) (auto simp: bound_proc_signature_matches_def bound_signature_params_match_def)
qed (use assms in \<open>auto simp: bound_proc_signature_matches_def\<close>)

lemma proc_matches_swap:
  "bound_proc_signature_matches fuel r b a = bound_proc_signature_matches fuel r a b"
proof (cases "pd_kind a = pd_kind b \<and> pd_is_operator a = pd_is_operator b \<and>
    pd_is_class_method a = pd_is_class_method b")
  case True
  have ps: "bound_signature_params_match fuel r (pd_params b) (pd_params a) =
      bound_signature_params_match fuel r (pd_params a) (pd_params b)"
    using flat_params_match_swap [OF match_symmetric]
    by (simp add: bound_signature_params_match_def params_match_def)
  show ?thesis
    using True ps symmetricD [OF match_symmetric, of fuel r "pd_return b" "pd_return a" "[]"]
    by (cases "bound_signature_type_exprs_match fuel r (pd_return a) (pd_return b) []")
      (auto simp: bound_proc_signature_matches_def)
qed (auto simp: bound_proc_signature_matches_def)

lemma proc_matches_returns:
  assumes st: "stratified r N D rank depth" and R: "\<forall>t<N. rank t \<le> R"
    and store: "in_store N (pd_return a)" "in_store N (pd_return b)"
      "\<forall>p\<in>set (pd_params a) \<union> set (pd_params b). in_store N (param_type p)"
    and fuel: "(R + 1) * (N * N + 1) + D < fuel"
  shows "\<exists>eq. bound_proc_signature_matches fuel r a b = Some eq"
proof -
  have w: "weight N rank t [] < (R + 1) * (N * N + 1)" if "in_store N t" for t
  proof (cases t)
    case (Some u)
    with R that have "rank u * (N * N + 1) \<le> R * (N * N + 1)" by (intro mult_le_mono1) simp
    with Some unseen_bound [of N "[]"] show ?thesis by (simp add: weight_def)
  qed (simp add: weight_def)
  then have m: "returns_below N rank ((R + 1) * (N * N + 1)) (bound_signature_type_exprs_match fuel r)"
    unfolding returns_below_def using match_returns [OF st] fuel by fastforce
  obtain eq s where "bound_signature_type_exprs_match fuel r (pd_return a) (pd_return b) [] = Some (eq, s)"
    using returns_belowD [OF m store(1,2) w [OF store(1)]] by blast
  moreover have "\<exists>eq. flat_params_match (bound_signature_type_exprs_match fuel r)
      (flattened_params (pd_params a)) (flattened_params (pd_params b)) = Some eq"
    by (rule flat_params_match_returns [OF m]) (use store(3) w in \<open>auto simp: set_flattened_params\<close>)
  ultimately show ?thesis
    by (auto simp: bound_proc_signature_matches_def bound_signature_params_match_def params_match_def)
qed

text \<open>C33. Matching the signatures of two routines ends when no procedural type takes, directly
  or through pointers, arrays, sets and files, a parameter of its own type; a call depth
  bounded by the number of types and their nesting is enough, the answer does not change with
  more, and it does not depend on which of the two routines comes first.\<close>

theorem signature_matching_total:
  assumes "stratified r N D rank depth" "\<forall>t<N. rank t \<le> R"
    "in_store N (pd_return a)" "in_store N (pd_return b)"
    "\<forall>p\<in>set (pd_params a) \<union> set (pd_params b). in_store N (param_type p)"
  shows "\<exists>eq. \<forall>fuel>(R + 1) * (N * N + 1) + D.
    bound_proc_signature_matches fuel r a b = Some eq \<and>
    bound_proc_signature_matches fuel r b a = Some eq"
proof -
  let ?f = "Suc ((R + 1) * (N * N + 1) + D)"
  obtain eq where eq: "bound_proc_signature_matches ?f r a b = Some eq"
    using proc_matches_returns [OF assms, of ?f] by auto
  have "bound_proc_signature_matches fuel r a b = Some eq" if "(R + 1) * (N * N + 1) + D < fuel" for fuel
    using proc_matches_more [OF eq, of "fuel - ?f"] le_add_diff_inverse [of ?f fuel] that
    by (metis Suc_leI)
  then show ?thesis using proc_matches_swap by auto
qed

subsection \<open>Types that name themselves\<close>

definition bare_texpr :: "shape \<Rightarrow> desc_ref option \<Rightarrow> texpr" where
  "bare_texpr sh d =
     \<lparr>te_loc = no_location, te_shape = sh, te_descriptor = d, te_symbol = None, te_context = None\<rparr>"

definition bare_descriptor :: "nat \<Rightarrow> texpr_ref option \<Rightarrow> type_descriptor" where
  "bare_descriptor d e =
     \<lparr>td_id = Suc d, td_expr = e, td_symbol = None, td_metaclass_target = None,
      td_ordinal = None, td_element = None, td_pointer_difference = None,
      td_real_division = None, td_string_concat = None, td_lo_hi = None,
      td_set_literal_element = None, td_low_high = None, td_primitive = None,
      td_is_method_carrier = False, td_payload = NoPayload\<rparr>"

definition value_param :: "string \<Rightarrow> texpr_ref \<Rightarrow> reg_param" where
  "value_param n t = Param ByValue [n] (Some t) None"

definition plain_procedure :: "string \<Rightarrow> reg_param list \<Rightarrow> reg_proc" where
  "plain_procedure n ps =
     ProcDecl no_location PProcedure n False [] NoIntrinsic [] False ps None
       \<lparr>is_virtual = False, is_abstract = False, is_override = False, is_final = False,
        is_forward = False, is_inline = False, is_cdecl = False, is_noreturn = False,
        is_external = False, is_assembler = False, is_overload = False, external_lib = [],
        external_name = []\<rparr> [] None"

text \<open>
  The declarations \<open>PA = ^TA; TA = procedure(x: PA); PB = ^TB; TB = procedure(x: PB)\<close>, and a
  parameter of each pointer type: addresses 0 and 5 are the types of the parameters of the
  two routines, 1--4 and 6--9 the two declarations.
\<close>

definition recursive_types :: registry where
  "recursive_types =
     empty_registry
       \<lparr>texprs :=
          [bare_texpr (NName ''pa'') (Some 0),
           bare_texpr (NPointer (Some 2)) (Some 0), bare_texpr (NName ''ta'') (Some 1),
           bare_texpr (NProcedural False [value_param ''x'' 4] None False False) (Some 1),
           bare_texpr (NName ''pa'') (Some 0),
           bare_texpr (NName ''pb'') (Some 2),
           bare_texpr (NPointer (Some 7)) (Some 2), bare_texpr (NName ''tb'') (Some 3),
           bare_texpr (NProcedural False [value_param ''x'' 9] None False False) (Some 3),
           bare_texpr (NName ''pb'') (Some 2)],
        descriptors :=
          [bare_descriptor 0 (Some 1), bare_descriptor 1 (Some 3),
           bare_descriptor 2 (Some 6), bare_descriptor 3 (Some 8)]\<rparr>"

lemma recursive_shapes:
  "descriptor_for_type recursive_types (Some 0) = Some 0"
  "descriptor_for_type recursive_types (Some 2) = Some 1"
  "descriptor_for_type recursive_types (Some 4) = Some 0"
  "descriptor_for_type recursive_types (Some 5) = Some 2"
  "descriptor_for_type recursive_types (Some 7) = Some 3"
  "descriptor_for_type recursive_types (Some 9) = Some 2"
  "signature_payload_shape recursive_types (Some 0) = Some 1"
  "signature_payload_shape recursive_types (Some 2) = Some 3"
  "signature_payload_shape recursive_types (Some 4) = Some 1"
  "signature_payload_shape recursive_types (Some 5) = Some 6"
  "signature_payload_shape recursive_types (Some 7) = Some 8"
  "signature_payload_shape recursive_types (Some 9) = Some 6"
  "te_shape (texpr_at recursive_types (Suc 0)) = NPointer (Some 2)"
  "te_shape (texpr_at recursive_types 3) = NProcedural False [value_param ''x'' 4] None False False"
  "te_shape (texpr_at recursive_types 6) = NPointer (Some 7)"
  "te_shape (texpr_at recursive_types 8) = NProcedural False [value_param ''x'' 9] None False False"
  by (simp_all add: signature_payload_shape_def descriptor_for_type_def recursive_types_def
      empty_registry_def bare_texpr_def bare_descriptor_def numeral_eq_Suc)

lemma recursive_inner_body:
  assumes "\<And>s. m None None s = Some (True, s)" "p \<noteq> (2, 7)" "m (Some 4) (Some 9) [] = None"
  shows "match_body fuel m recursive_types (Some 2) (Some 7) [p] = None"
  using assms
  by (cases fuel)
    (auto simp: match_body_def match_rest_def recursive_shapes Let_def run_step_def params_match_def
      flattened_params_def names_count_def value_param_def)

lemma recursive_inner:
  assumes "p \<noteq> (2, 7)"
    "bound_signature_type_exprs_match fuel recursive_types (Some 4) (Some 9) [] = None"
  shows "bound_signature_type_exprs_match (Suc fuel) recursive_types (Some 2) (Some 7) [p] = None"
proof (cases fuel)
  case 0
  with assms show ?thesis by (auto simp: match_body_def recursive_shapes)
next
  case (Suc g)
  let ?m = "bound_signature_type_exprs_match fuel recursive_types"
  have "\<And>s. ?m None None s = Some (True, s)" by (simp add: Suc match_body_def)
  from recursive_inner_body [of ?m, OF this assms] show ?thesis by simp
qed

lemma recursive_outer:
  assumes "(a, b) = (0, 5) \<or> (a, b) = (4, 9)"
    "bound_signature_type_exprs_match fuel recursive_types (Some 2) (Some 7) [(a, b)] = None"
  shows "bound_signature_type_exprs_match (Suc fuel) recursive_types (Some a) (Some b) [] = None"
  using assms
  by (cases fuel) (auto simp: match_body_def match_rest_def recursive_shapes Let_def)

lemma recursive_step:
  assumes "(a, b) = (0, 5) \<or> (a, b) = (4, 9)"
    "bound_signature_type_exprs_match fuel recursive_types (Some 4) (Some 9) [] = None"
  shows "bound_signature_type_exprs_match (Suc (Suc fuel)) recursive_types (Some a) (Some b) [] = None"
  by (rule recursive_outer [OF assms(1) recursive_inner [OF _ assms(2)]]) (use assms(1) in auto)

lemma recursive_never:
  assumes "(a, b) = (0, 5) \<or> (a, b) = (4, 9)"
  shows "bound_signature_type_exprs_match fuel recursive_types (Some a) (Some b) [] = None"
  using assms
proof (induction fuel arbitrary: a b rule: less_induct)
  case (less fuel)
  show ?case
  proof (cases fuel)
    case (Suc f)
    show ?thesis
    proof (cases f)
      case 0
      with Suc less.prems show ?thesis by (auto simp: match_body_def recursive_shapes)
    next
      case (Suc g)
      have "bound_signature_type_exprs_match g recursive_types (Some 4) (Some 9) [] = None"
        by (rule less.IH) (simp_all add: Suc \<open>fuel = Suc f\<close>)
      from recursive_step [OF less.prems this] show ?thesis unfolding \<open>fuel = Suc f\<close> Suc .
    qed
  qed simp
qed

text \<open>C34. Matching never ends for two routines whose parameters are pointers to procedural types
  that take such a pointer themselves, \<open>procedure foo(a: PA)\<close> and \<open>procedure foo(a: PB)\<close> with
  \<open>PA = ^TA; TA = procedure(x: PA); PB = ^TB; TB = procedure(x: PB)\<close>: the pairs that the matcher
  has seen are forgotten when it enters the parameters of a procedural type.\<close>

theorem recursive_signatures_never_match:
  "bound_proc_signature_matches fuel recursive_types
     (plain_procedure ''foo'' [value_param ''a'' 0]) (plain_procedure ''foo'' [value_param ''a'' 5]) = None"
proof -
  have "bound_signature_type_exprs_match fuel recursive_types (Some 0) (Some 5) [] = None"
    by (rule recursive_never) simp
  then show ?thesis
    by (cases fuel)
      (simp_all add: bound_proc_signature_matches_def plain_procedure_def match_body_def
        bound_signature_params_match_def params_match_def flattened_params_def names_count_def
        value_param_def)
qed

text \<open>Two procedural types with the same parameter, as types of a parameter.\<close>

definition plain_types :: registry where
  "plain_types =
     empty_registry
       \<lparr>texprs :=
          [bare_texpr (NName ''ta'') (Some 1),
           bare_texpr (NProcedural False [value_param ''x'' 2] None False False) (Some 1),
           bare_texpr (NName ''longint'') (Some 0),
           bare_texpr (NName ''tb'') (Some 2),
           bare_texpr (NProcedural False [value_param ''x'' 5] None False False) (Some 2),
           bare_texpr (NName ''longint'') (Some 0)],
        descriptors :=
          [bare_descriptor 0 None, bare_descriptor 1 (Some 1), bare_descriptor 2 (Some 4)]\<rparr>"

definition plain_rank :: "texpr_ref \<Rightarrow> nat" where
  "plain_rank t = (if t = 2 \<or> t = 5 then 0 else 1)"

lemma below_six: "(\<forall>t<6. P t) \<longleftrightarrow> P (0 :: nat) \<and> P 1 \<and> P 2 \<and> P 3 \<and> P 4 \<and> P 5"
  by (simp add: numeral_eq_Suc All_less_Suc conj_ac)

lemma plain_stratified: "stratified plain_types 6 0 plain_rank (\<lambda>_. 0)"
  unfolding stratified_def below_six
  by (simp add: plain_types_def plain_rank_def signature_payload_shape_def descriptor_for_type_def
      empty_registry_def bare_texpr_def bare_descriptor_def value_param_def)

lemma signature_matching_total_witness:
  "\<exists>eq. bound_proc_signature_matches 100 plain_types
     (plain_procedure ''foo'' [value_param ''a'' 0]) (plain_procedure ''foo'' [value_param ''a'' 3]) = Some eq"
proof -
  let ?a = "plain_procedure ''foo'' [value_param ''a'' 0]" and ?b = "plain_procedure ''foo'' [value_param ''a'' 3]"
  have R: "\<forall>t<6. plain_rank t \<le> 1" by (simp add: plain_rank_def)
  have ret: "in_store 6 (pd_return ?a)" "in_store 6 (pd_return ?b)"
    by (simp_all add: plain_procedure_def)
  have ps: "\<forall>p\<in>set (pd_params ?a) \<union> set (pd_params ?b). in_store 6 (param_type p)"
    by (simp add: plain_procedure_def value_param_def)
  from signature_matching_total [OF plain_stratified R ret ps] obtain eq where
    eq: "\<forall>fuel>(1 + 1) * (6 * 6 + 1) + 0.
      bound_proc_signature_matches fuel plain_types ?a ?b = Some eq \<and>
      bound_proc_signature_matches fuel plain_types ?b ?a = Some eq" by (elim exE)
  have "(1 + 1) * (6 * 6 + 1) + 0 < (100 :: nat)" by simp
  with eq have "bound_proc_signature_matches 100 plain_types ?a ?b = Some eq" by (elim allE) blast
  then show ?thesis by (rule exI)
qed

end
