(* ===== verification/Reg_Class_Facts.thy ===== *)
theory Reg_Class_Facts
  imports Reg_Class
begin

text \<open>
  What the ancestry lookups of \<open>Reg_Class\<close> return, on any registry: also on one whose classes
  inherit from each other in a cycle.
\<close>

subsection \<open>Ancestors\<close>

text \<open>The class \<open>n\<close> parent links above \<open>c\<close>.\<close>

primrec nth_parent :: "registry \<Rightarrow> nat \<Rightarrow> desc_ref \<Rightarrow> desc_ref option" where
  "nth_parent r 0 c = Some c"
| "nth_parent r (Suc n) c = Option.bind (nth_parent r n c) (lookup_parent_class r)"

lemma nth_parent_Suc_left:
  "nth_parent r (Suc n) c = Option.bind (lookup_parent_class r c) (nth_parent r n)"
  by (induction n) (auto simp: bind_assoc split: bind_splits)

text \<open>The classes that a walk visits.\<close>

function chain_from :: "registry \<Rightarrow> seen_chain \<Rightarrow> desc_ref option \<Rightarrow> desc_ref list" where
  "chain_from r seen None = []"
| "chain_from r seen (Some c) =
     (case mark c seen of
        (False, _) \<Rightarrow> []
      | (True, seen') \<Rightarrow> c # chain_from r seen' (lookup_parent_class r c))"
  by pat_completeness auto
termination
  by (relation "measure (\<lambda>(r, seen, c). walk_left r seen c)") (auto dest: sym [THEN walk_left_parent])

definition class_chain :: "registry \<Rightarrow> desc_ref \<Rightarrow> desc_ref list" where
  "class_chain r c = chain_from r new_seen (Some c)"

text \<open>The loop, as a loop over the visited classes.\<close>

fun loop_over :: "(desc_ref \<Rightarrow> 's \<Rightarrow> 'a + 's) \<Rightarrow> ('s \<Rightarrow> 'a) \<Rightarrow> 's \<Rightarrow> desc_ref list \<Rightarrow> 'a" where
  "loop_over body fin st [] = fin st"
| "loop_over body fin st (d # ds) =
     (case body d st of Inl a \<Rightarrow> a | Inr st' \<Rightarrow> loop_over body fin st' ds)"

lemma class_loop_chain:
  "class_loop r body fin seen st c = loop_over body fin st (chain_from r seen c)"
  by (induction r body fin seen st c rule: class_loop.induct)
    (auto split: prod.splits bool.splits sum.splits)

lemma walk_up_chain: "walk_up r body fin st c = loop_over body fin st (class_chain r c)"
  by (simp add: walk_up_def class_loop_chain class_chain_def)

lemma chain_from_new:
  "distinct (chain_from r seen c) \<and> set (chain_from r seen c) \<inter> seen_set seen = {}"
proof (induction r seen c rule: chain_from.induct)
  case (2 r seen c)
  obtain new seen' where m: "mark c seen = (new, seen')" by (cases "mark c seen")
  with mark_refines [of c seen] 2 show ?case by (auto split: bool.splits)
qed simp

lemma chain_from_nth:
  "i < length (chain_from r seen c) \<Longrightarrow>
     Option.bind c (nth_parent r i) = Some (chain_from r seen c ! i)"
proof (induction r seen c arbitrary: i rule: chain_from.induct)
  case (2 r seen c)
  obtain new seen' where m: "mark c seen = (new, seen')" by (cases "mark c seen")
  with 2 show ?case
    by (cases i) (auto simp: nth_parent_Suc_left simp del: nth_parent.simps(2) split: bool.splits)
qed simp

lemma chain_from_end:
  "Option.bind c (nth_parent r (length (chain_from r seen c))) = Some d \<Longrightarrow>
     d \<in> seen_set seen \<union> set (chain_from r seen c)"
proof (induction r seen c rule: chain_from.induct)
  case (2 r seen c)
  obtain new seen' where m: "mark c seen = (new, seen')" by (cases "mark c seen")
  with mark_refines [of c seen] 2 show ?case
    by (auto simp: nth_parent_Suc_left simp del: nth_parent.simps(2) split: bool.splits if_splits)
qed simp

lemma distinct_class_chain: "distinct (class_chain r c)"
  unfolding class_chain_def using chain_from_new by blast

lemma class_chain_nth:
  "i < length (class_chain r c) \<Longrightarrow> nth_parent r i c = Some (class_chain r c ! i)"
  using chain_from_nth [of i r new_seen "Some c"] by (simp add: class_chain_def)

lemma class_chain_Cons: "\<exists>ds. class_chain r c = c # ds"
  using mark_refines [of c new_seen] by (auto simp: class_chain_def split: prod.splits bool.splits)

lemma class_chain_covers: "nth_parent r n c = Some d \<Longrightarrow> d \<in> set (class_chain r c)"
proof (induction n arbitrary: d)
  case 0
  then show ?case using class_chain_Cons [of r c] by auto
next
  case (Suc n)
  then obtain e where e: "nth_parent r n c = Some e" and p: "lookup_parent_class r e = Some d"
    by (auto split: bind_splits)
  from Suc.IH [OF e] obtain i where i: "i < length (class_chain r c)" "class_chain r c ! i = e"
    by (auto simp: in_set_conv_nth)
  with p have d: "nth_parent r (Suc i) c = Some d" by (simp add: class_chain_nth)
  show ?case
  proof (cases "Suc i < length (class_chain r c)")
    case True
    from class_chain_nth [OF this] d show ?thesis using True by (auto simp: in_set_conv_nth)
  next
    case False
    with i have "Suc i = length (class_chain r c)" by simp
    with d chain_from_end [of "Some c" r new_seen d] show ?thesis by (simp add: class_chain_def)
  qed
qed

subsection \<open>Searching\<close>

abbreviation own_member :: "registry \<Rightarrow> (class_info \<Rightarrow> 'a option) \<Rightarrow> desc_ref \<Rightarrow> 'a option" where
  "own_member r found d \<equiv> Option.bind (class_at r d) found"

text \<open>The nearest class that has the member, counting parent links.\<close>

definition nearest_at :: "registry \<Rightarrow> (desc_ref \<Rightarrow> 'a option) \<Rightarrow> desc_ref \<Rightarrow> nat \<Rightarrow> 'a \<Rightarrow> bool" where
  "nearest_at r own c n x \<longleftrightarrow>
     (\<exists>d. nth_parent r n c = Some d \<and> own d = Some x) \<and>
     (\<forall>k<n. \<forall>e. nth_parent r k c = Some e \<longrightarrow> own e = None)"

definition nearest :: "registry \<Rightarrow> (desc_ref \<Rightarrow> 'a option) \<Rightarrow> desc_ref \<Rightarrow> 'a \<Rightarrow> bool" where
  "nearest r own c x \<longleftrightarrow> (\<exists>n. nearest_at r own c n x)"

lemma loop_over_find:
  "loop_over (\<lambda>d _. case own d of Some x \<Rightarrow> Inl (Some x) | None \<Rightarrow> Inr ()) (\<lambda>_. None) st ds =
     Some x \<longleftrightarrow>
   (\<exists>n<length ds. own (ds ! n) = Some x \<and> (\<forall>k<n. own (ds ! k) = None))"
proof (induction ds arbitrary: st)
  case (Cons d ds)
  show ?case
  proof (cases "own d")
    case None
    with Cons.IH [of "()"] show ?thesis by (simp add: Ex_less_Suc2 All_less_Suc2)
  next
    case (Some y)
    then show ?thesis by (simp add: Ex_less_Suc2 All_less_Suc2)
  qed
qed simp

lemma nearest_at_chain:
  "nearest_at r own c n x \<longleftrightarrow>
     n < length (class_chain r c) \<and> own (class_chain r c ! n) = Some x \<and>
     (\<forall>k<n. own (class_chain r c ! k) = None)"
  (is "?L \<longleftrightarrow> ?R")
proof
  assume n: ?R
  then have "\<forall>k<n. \<forall>e. nth_parent r k c = Some e \<longrightarrow> own e = None"
    using class_chain_nth by force
  with n class_chain_nth [of n r c] show ?L unfolding nearest_at_def by blast
next
  assume ?L
  then obtain d where n: "nth_parent r n c = Some d" "own d = Some x"
    "\<forall>k<n. \<forall>e. nth_parent r k c = Some e \<longrightarrow> own e = None" unfolding nearest_at_def by blast
  from class_chain_covers [OF n(1)] obtain i where
    i: "i < length (class_chain r c)" "class_chain r c ! i = d" by (auto simp: in_set_conv_nth)
  have "n \<le> i"
    using n(2) n(3) [rule_format, of i d] class_chain_nth [OF i(1)] i(2)
    by (metis linorder_not_le option.distinct(1))
  then have "n < length (class_chain r c)" using i(1) by simp
  with class_chain_nth n(1) have "class_chain r c ! n = d" by force
  moreover have "own (class_chain r c ! k) = None" if "k < n" for k
    using n(3) [rule_format, of k] class_chain_nth [of k r c] \<open>n < _\<close> that by simp
  ultimately show ?R using \<open>n < _\<close> n(2) by blast
qed

lemma nearest_chain:
  "nearest r own c x \<longleftrightarrow>
     (\<exists>n<length (class_chain r c). own (class_chain r c ! n) = Some x \<and>
        (\<forall>k<n. own (class_chain r c ! k) = None))"
  by (auto simp: nearest_def nearest_at_chain)

lemma search_up_nearest: "search_up r found c = Some x \<longleftrightarrow> nearest r (own_member r found) c x"
  unfolding search_up_def walk_up_chain nearest_chain by (rule loop_over_find)

lemma nearest_own: "own c = Some x \<Longrightarrow> nearest r own c x"
  unfolding nearest_def nearest_at_def by (rule exI [of _ 0]) simp

lemma nearest_at_Suc:
  assumes "own c = None"
  shows "nearest_at r own c n x \<longleftrightarrow>
     (\<exists>p m. n = Suc m \<and> lookup_parent_class r c = Some p \<and> nearest_at r own p m x)"
proof (cases n)
  case 0
  with assms show ?thesis by (simp add: nearest_at_def)
next
  case (Suc m)
  show ?thesis
  proof (cases "lookup_parent_class r c")
    case None
    with Suc show ?thesis by (simp add: nearest_at_def nth_parent_Suc_left del: nth_parent.simps(2))
  next
    case (Some p)
    then have step: "nth_parent r (Suc k) c = nth_parent r k p" for k
      by (simp only: nth_parent_Suc_left) simp
    show ?thesis
      using assms Some Suc
      by (simp add: nearest_at_def All_less_Suc2 step del: nth_parent.simps(2))
  qed
qed

lemma nearest_inherit:
  assumes "own c = None"
  shows "nearest r own c x \<longleftrightarrow> (\<exists>p. lookup_parent_class r c = Some p \<and> nearest r own p x)"
  unfolding nearest_def nearest_at_Suc [where own = own, OF assms] by blast

lemma nearest_unique: "nearest r own c x \<Longrightarrow> nearest r own c y \<Longrightarrow> x = y"
proof -
  assume "nearest r own c x" "nearest r own c y"
  then obtain n m where "nearest_at r own c n x" "nearest_at r own c m y"
    unfolding nearest_def by blast
  then show "x = y" unfolding nearest_at_chain by (metis linorder_neqE_nat option.distinct(1) option.inject)
qed

lemma nearest_exists:
  assumes "nth_parent r n c = Some d" "own d \<noteq> None"
  shows "\<exists>x. nearest r own c x"
  using assms
proof (induction n arbitrary: c)
  case 0
  then show ?case using nearest_own [of own c] by auto
next
  case (Suc n)
  then obtain p where "lookup_parent_class r c = Some p" "nth_parent r n p = Some d"
    by (auto simp only: nth_parent_Suc_left split: bind_splits)
  with Suc show ?case
    by (cases "own c") (auto simp: nearest_inherit dest: nearest_own [of own c])
qed

lemma nearest_iff:
  "(\<exists>x. nearest r own c x) \<longleftrightarrow> (\<exists>n d. nth_parent r n c = Some d \<and> own d \<noteq> None)"
proof
  assume "\<exists>x. nearest r own c x"
  then obtain x n d where "nth_parent r n c = Some d" "own d = Some x"
    unfolding nearest_def nearest_at_def by blast
  then show "\<exists>n d. nth_parent r n c = Some d \<and> own d \<noteq> None" by fastforce
qed (auto dest: nearest_exists [of r _ c _ own])

subsection \<open>The contract of a member lookup\<close>

text \<open>
  A lookup finds what the class declares itself, otherwise what its parent finds, and nothing
  when no ancestor declares the member. The last law is what the cycle guard is for.
\<close>

locale inherited_member =
  fixes own :: "'m \<Rightarrow> class_info \<Rightarrow> 'v option"
    and look :: "registry \<Rightarrow> desc_ref \<Rightarrow> 'm \<Rightarrow> 'v option"
  assumes own_first: "own_member r (own m) c = Some x \<Longrightarrow> look r c m = Some x"
    and inherit: "own_member r (own m) c = None \<Longrightarrow>
        look r c m = Option.bind (lookup_parent_class r c) (\<lambda>p. look r p m)"
    and nowhere: "(\<And>n d. nth_parent r n c = Some d \<Longrightarrow> own_member r (own m) d = None) \<Longrightarrow>
        look r c m = None"
begin

lemma found: "nearest_at r (own_member r (own m)) c n x \<Longrightarrow> look r c m = Some x"
proof (induction n arbitrary: c)
  case 0
  then show ?case by (auto simp: nearest_at_def intro: own_first)
next
  case (Suc n)
  then have none: "own_member r (own m) c = None" by (auto simp: nearest_at_def)
  from Suc.prems obtain p where "lookup_parent_class r c = Some p"
    "nearest_at r (own_member r (own m)) p n x"
    unfolding nearest_at_Suc [where own = "own_member r (own m)", OF none] by auto
  with Suc.IH show ?case by (simp add: inherit [OF none])
qed

lemma look_nearest: "look r c m = Some x \<longleftrightarrow> nearest r (own_member r (own m)) c x"
proof
  assume l: "look r c m = Some x"
  then obtain n d where "nth_parent r n c = Some d" "own_member r (own m) d \<noteq> None"
    using nowhere [of r c m] by fastforce
  then obtain y where y: "nearest r (own_member r (own m)) c y"
    using nearest_exists [of r n c d "own_member r (own m)"] by blast
  with l found show "nearest r (own_member r (own m)) c x"
    by (metis nearest_def option.inject)
qed (auto simp: nearest_def found)

lemma undeclared:
  "look r c m = None \<longleftrightarrow>
     (\<forall>n d. nth_parent r n c = Some d \<longrightarrow> own_member r (own m) d = None)"
  using nowhere [of r c m] look_nearest nearest_exists [of r _ c _ "own_member r (own m)"]
  by (metis option.distinct(1))

lemma inherited:
  assumes "nth_parent r n c = Some d" "look r d m \<noteq> None"
  shows "look r c m \<noteq> None"
  using assms
proof (induction n arbitrary: c)
  case (Suc n)
  then obtain p where p: "lookup_parent_class r c = Some p" "nth_parent r n p = Some d"
    by (auto simp only: nth_parent_Suc_left split: bind_splits)
  with Suc show ?case
    by (cases "own_member r (own m) c") (auto simp: inherit dest: own_first)
qed simp

end

lemma search_up_None:
  "search_up r found c = None \<longleftrightarrow> (\<nexists>x. nearest r (own_member r found) c x)"
  using search_up_nearest [of r found c] by (metis not_None_eq)

lemma search_inherited:
  assumes "\<And>r c m. look r c m = search_up r (own m) c"
  shows "inherited_member own look"
proof
  fix r m c x
  show "own_member r (own m) c = Some x \<Longrightarrow> look r c m = Some x"
    by (simp add: assms search_up_nearest nearest_own [of "own_member r (own m)"])
next
  fix r m c
  assume "own_member r (own m) c = None"
  note eq = nearest_inherit [where own = "own_member r (own m)", OF this]
  have "search_up r (own m) c = Some x \<longleftrightarrow>
      Option.bind (lookup_parent_class r c) (search_up r (own m)) = Some x" for x
    by (cases "lookup_parent_class r c") (simp_all add: search_up_nearest eq)
  then show "look r c m = Option.bind (lookup_parent_class r c) (\<lambda>p. look r p m)"
    unfolding assms by (metis not_None_eq)
next
  fix r m c
  assume none: "\<And>n d. nth_parent r n c = Some d \<Longrightarrow> own_member r (own m) d = None"
  then show "look r c m = None"
    unfolding assms search_up_None nearest_def nearest_at_def by fastforce
qed

interpretation field: inherited_member "\<lambda>m ci. map_of (ci_fields ci) m" lookup_class_field
  by (rule search_inherited) (simp add: lookup_class_field_def)

interpretation enum_label: inherited_member "\<lambda>m ci. map_of (ci_enum_members ci) m" lookup_class_enum_member
  by (rule search_inherited) (simp add: lookup_class_enum_member_def)

interpretation class_property: inherited_member "\<lambda>m ci. map_of (ci_properties ci) m" lookup_class_property
  by (rule search_inherited) (simp add: lookup_class_property_def)

interpretation default_property: inherited_member
  "\<lambda>_ ci. if ci_default_property ci \<noteq> [] then map_of (ci_properties ci) (ci_default_property ci)
          else None"
  "\<lambda>r c (_ :: unit). lookup_default_property r c"
  by (rule search_inherited) (simp add: lookup_default_property_def)


subsection \<open>Interfaces and depth\<close>

lemma implements_iff:
  "class_implements_interface r c info \<longleftrightarrow>
     (\<exists>n d ci t. nth_parent r n c = Some d \<and> class_at r d = Some ci \<and>
        ii_symbol info = Some t \<and> t \<in> set (ci_interfaces ci))"
proof -
  let ?f = "\<lambda>ci. case ii_symbol info of
      Some t \<Rightarrow> if t \<in> set (ci_interfaces ci) then Some () else None | None \<Rightarrow> None"
  have "own_member r ?f d \<noteq> None \<longleftrightarrow>
      (\<exists>ci t. class_at r d = Some ci \<and> ii_symbol info = Some t \<and> t \<in> set (ci_interfaces ci))" for d
    by (cases "class_at r d"; cases "ii_symbol info") auto
  then show ?thesis
    unfolding class_implements_interface_def search_up_None not_not nearest_iff by blast
qed

lemma loop_over_count:
  "(\<exists>n<length ds. P (ds ! n) \<and> (\<forall>k<n. \<not> P (ds ! k)) \<and>
       loop_over (\<lambda>d k. if P d then Inl k else Inr (k + 1)) (\<lambda>_. - 1) j ds = j + int n) \<or>
   ((\<forall>k<length ds. \<not> P (ds ! k)) \<and>
       loop_over (\<lambda>d k. if P d then Inl k else Inr (k + 1)) (\<lambda>_. - 1) j ds = - 1)"
proof (induction ds arbitrary: j)
  case (Cons d ds)
  show ?case using Cons.IH [of "j + 1"]
    by (simp add: Ex_less_Suc2 All_less_Suc2) (auto simp: algebra_simps)
qed simp

definition is_class :: "registry \<Rightarrow> desc_ref \<Rightarrow> desc_ref \<Rightarrow> unit option" where
  "is_class r a d = (if same_class_identity r a d then Some () else None)"

lemma depth_cases:
  "(\<exists>n. nearest_at r (is_class r a) c n () \<and> class_ancestor_depth r a c = int n) \<or>
   ((\<forall>n. \<not> nearest_at r (is_class r a) c n ()) \<and> class_ancestor_depth r a c = - 1)"
  using loop_over_count [of "class_chain r c" "same_class_identity r a" 0]
  unfolding class_ancestor_depth_def walk_up_chain nearest_at_chain is_class_def by auto

lemma depth_nearest:
  "class_ancestor_depth r a c = int n \<longleftrightarrow> nearest_at r (is_class r a) c n ()"
proof -
  have "nearest_at r (is_class r a) c i () \<Longrightarrow> nearest_at r (is_class r a) c j () \<Longrightarrow> i = j" for i j
    unfolding nearest_at_chain by (metis linorder_neqE_nat option.distinct(1))
  with depth_cases [of r a c] show ?thesis by auto
qed

lemma depth_unrelated:
  "class_ancestor_depth r a c = - 1 \<longleftrightarrow>
     \<not> (\<exists>n d. nth_parent r n c = Some d \<and> same_class_identity r a d)"
proof -
  have "(\<exists>n. nearest_at r (is_class r a) c n ()) \<longleftrightarrow>
      (\<exists>n d. nth_parent r n c = Some d \<and> is_class r a d \<noteq> None)"
    using nearest_iff [of r "is_class r a" c] by (simp add: nearest_def)
  moreover have "is_class r a d \<noteq> None \<longleftrightarrow> same_class_identity r a d" for d
    by (simp add: is_class_def)
  ultimately show ?thesis
    using depth_cases [of r a c] by (metis of_nat_0_le_iff neg_0_le_iff_le not_one_le_zero of_nat_1 zero_neq_neg_one)
qed

subsection \<open>Methods\<close>

text \<open>The overload sets that are visible: up to the first one that hides the rest.\<close>

fun visible_overloads :: "method_sig list list \<Rightarrow> method_sig list" where
  "visible_overloads [] = []"
| "visible_overloads (sigs # rest) =
     sigs @ (if list_ex ms_is_overload sigs then visible_overloads rest else [])"

definition declared_methods :: "registry \<Rightarrow> string \<Rightarrow> desc_ref \<Rightarrow> method_sig list option" where
  "declared_methods r m d = own_member r (\<lambda>ci. map_of (ci_methods ci) m) d"

lemma loop_over_merge:
  "loop_over
     (\<lambda>d merged. case declared_methods r m d of
          None \<Rightarrow> Inr merged
        | Some sigs \<Rightarrow> if list_ex ms_is_overload sigs then Inr (merged @ sigs) else Inl (merged @ sigs))
     (\<lambda>merged. merged) acc ds =
   acc @ visible_overloads (List.map_filter (declared_methods r m) ds)"
  by (induction ds arbitrary: acc) (auto simp: map_filter_simps split: option.splits)

lemma merge_methods_visible:
  "merge_methods r c m =
     visible_overloads (List.map_filter (declared_methods r m) (class_chain r c))"
  using loop_over_merge [of r m "[]" "class_chain r c"]
  by (simp add: merge_methods_def walk_up_chain declared_methods_def)

text \<open>
  The payload of every descriptor points back to it (\<open>bind_descriptor_payload\<close>), and the cache
  holds what the walk would return.
\<close>

definition payloads_bound :: "registry \<Rightarrow> bool" where
  "payloads_bound r =
     list_all (\<lambda>d. case class_at r d of None \<Rightarrow> True | Some ci \<Rightarrow> ci_descriptor ci = Some d)
       [0..<length (descriptors r)]"

definition cache_ok :: "registry \<Rightarrow> bool" where
  "cache_ok r =
     list_all (\<lambda>((d, m), v). case d of None \<Rightarrow> True | Some c \<Rightarrow> v = merge_methods r c m) (method_cache r)"

lemma payloads_bound_class:
  "payloads_bound r \<Longrightarrow> class_at r c = Some ci \<Longrightarrow> ci_descriptor ci = Some c"
  using class_at_in_range [of r c ci] by (auto simp: payloads_bound_def list_all_iff split: option.splits)

lemma cache_ok_lookup:
  "cache_ok r \<Longrightarrow> map_of (method_cache r) (Some c, m) = Some v \<Longrightarrow> v = merge_methods r c m"
  by (auto simp: cache_ok_def list_all_iff dest!: map_of_SomeD)

text \<open>What the walk reads does not include the cache.\<close>

lemma class_at_cache [simp]: "class_at (method_cache_update f r) = class_at r"
  by (simp add: class_at_def payload_at_def fun_eq_iff)

lemma sym_class_cache [simp]: "sym_class (method_cache_update f r) = sym_class r"
  by (simp add: sym_class_def sym_payload_def fun_eq_iff)

lemma parent_cache [simp]: "lookup_parent_class (method_cache_update f r) = lookup_parent_class r"
  unfolding lookup_parent_class_def class_at_cache sym_class_cache ..

lemma chain_from_cache: "chain_from (method_cache_update f r) seen c = chain_from r seen c"
  by (induction r seen c rule: chain_from.induct) (auto split: prod.splits bool.splits)

lemma merge_methods_cache [simp]:
  "merge_methods (method_cache_update f r) c m = merge_methods r c m"
  by (simp add: merge_methods_visible declared_methods_def [abs_def] class_chain_def chain_from_cache
      del: chain_from.simps)

lemma cache_ok_insert:
  assumes "cache_ok r"
  shows "cache_ok (r\<lparr>method_cache := snd (emplace (Some c, m) (merge_methods r c m) (method_cache r))\<rparr>)"
  using assms unfolding cache_ok_def merge_methods_cache by (simp add: emplace_def)

subsection \<open>Properties\<close>

text \<open>C30. Member lookup through the class hierarchy finds the nearest declaration: a field, an
  enumeration label or a property is the one of the first class, counting parent links from
  the class itself, that declares the name, and there is none when no ancestor declares it; a
  class implements the interfaces that it or an ancestor lists; the ancestor depth is the
  number of parent links to the first class of the same identity, and -1 for an unrelated
  class. This holds for every registry, so the walks also end and are right when classes
  inherit from each other in a cycle.\<close>

theorem ancestry_lookup:
  "(lookup_class_field r c m = Some f \<longleftrightarrow>
      nearest r (\<lambda>d. Option.bind (class_at r d) (\<lambda>ci. map_of (ci_fields ci) m)) c f) \<and>
   (lookup_class_enum_member r c m = Some e \<longleftrightarrow>
      nearest r (\<lambda>d. Option.bind (class_at r d) (\<lambda>ci. map_of (ci_enum_members ci) m)) c e) \<and>
   (lookup_class_property r c m = Some p \<longleftrightarrow>
      nearest r (\<lambda>d. Option.bind (class_at r d) (\<lambda>ci. map_of (ci_properties ci) m)) c p) \<and>
   (lookup_class_field r c m \<noteq> None \<longleftrightarrow>
      (\<exists>n d ci. nth_parent r n c = Some d \<and> class_at r d = Some ci \<and>
         m \<in> fst ` set (ci_fields ci))) \<and>
   (class_implements_interface r c info \<longleftrightarrow>
      (\<exists>n d ci t. nth_parent r n c = Some d \<and> class_at r d = Some ci \<and>
         ii_symbol info = Some t \<and> t \<in> set (ci_interfaces ci))) \<and>
   (class_ancestor_depth r a c = int n \<longleftrightarrow> nearest_at r (is_class r a) c n ()) \<and>
   (class_ancestor_depth r a c = - 1 \<longleftrightarrow>
      \<not> (\<exists>n d. nth_parent r n c = Some d \<and> same_class_identity r a d))"
proof -
  have own: "own_member r (\<lambda>ci. map_of (ci_fields ci) m) d \<noteq> None \<longleftrightarrow>
      (\<exists>ci. class_at r d = Some ci \<and> m \<in> fst ` set (ci_fields ci))" for d
    by (cases "class_at r d") (auto simp: map_of_eq_None_iff)
  have "lookup_class_field r c m \<noteq> None \<longleftrightarrow>
      (\<exists>n d ci. nth_parent r n c = Some d \<and> class_at r d = Some ci \<and>
         m \<in> fst ` set (ci_fields ci))"
    using own by (metis field.undeclared)
  then show ?thesis
    by (simp only: field.look_nearest enum_label.look_nearest class_property.look_nearest
      implements_iff depth_nearest depth_unrelated)
qed

lemma lookup_step:
  assumes "payloads_bound r" "cache_ok r" "class_at r c \<noteq> None"
  shows "fst (lookup_class_methods r c m) =
      nonempty (visible_overloads (List.map_filter (declared_methods r m) (class_chain r c)))"
    and "cache_ok (snd (lookup_class_methods r c m))"
    and "\<exists>f. snd (lookup_class_methods r c m) = method_cache_update f r"
proof -
  obtain ci where ci: "class_at r c = Some ci" using assms(3) by auto
  have key: "lookup_class_methods r c m = (case map_of (method_cache r) (Some c, m) of
      Some merged \<Rightarrow> (nonempty merged, r)
    | None \<Rightarrow> (nonempty (merge_methods r c m),
        r\<lparr>method_cache := snd (emplace (Some c, m) (merge_methods r c m) (method_cache r))\<rparr>))"
    using payloads_bound_class [OF assms(1) ci] ci by (simp add: lookup_class_methods_def Let_def split: option.split)
  have "fst (lookup_class_methods r c m) = nonempty (merge_methods r c m) \<and>
      cache_ok (snd (lookup_class_methods r c m)) \<and>
      (\<exists>f. snd (lookup_class_methods r c m) = method_cache_update f r)"
    using assms(2) cache_ok_insert [OF assms(2), of c m] cache_ok_lookup [OF assms(2), of c m]
    unfolding key by (auto split: option.split intro: exI [of _ "\<lambda>x. x"])
  then show "fst (lookup_class_methods r c m) =
      nonempty (visible_overloads (List.map_filter (declared_methods r m) (class_chain r c)))"
    "cache_ok (snd (lookup_class_methods r c m))"
    "\<exists>f. snd (lookup_class_methods r c m) = method_cache_update f r"
    by (simp_all add: merge_methods_visible)
qed

text \<open>A sequence of lookups, one after the other in the same registry.\<close>

primrec lookup_each ::
  "(desc_ref \<times> string) list \<Rightarrow> registry \<Rightarrow> method_sig list option list \<times> registry" where
  "lookup_each [] r = ([], r)"
| "lookup_each (q # qs) r =
     (let (found, r') = lookup_class_methods r (fst q) (snd q);
          (rest, r'') = lookup_each qs r'
      in (found # rest, r''))"

definition visible_methods :: "registry \<Rightarrow> desc_ref \<Rightarrow> string \<Rightarrow> method_sig list option" where
  "visible_methods r c m =
     nonempty (visible_overloads (List.map_filter (declared_methods r m) (class_chain r c)))"

lemma visible_methods_cache [simp]:
  "visible_methods (method_cache_update f r) c m = visible_methods r c m"
  by (simp add: visible_methods_def merge_methods_visible [symmetric])

lemma payloads_bound_cache [simp]: "payloads_bound (method_cache_update f r) = payloads_bound r"
  by (simp add: payloads_bound_def)

lemma lookup_each_visible:
  "payloads_bound r \<Longrightarrow> cache_ok r \<Longrightarrow> \<forall>q\<in>set qs. class_at r (fst q) \<noteq> None \<Longrightarrow>
    fst (lookup_each qs r) = map (\<lambda>q. visible_methods r (fst q) (snd q)) qs \<and>
    cache_ok (snd (lookup_each qs r)) \<and> (\<exists>f. snd (lookup_each qs r) = method_cache_update f r)"
proof (induction qs arbitrary: r)
  case Nil
  then show ?case by (intro conjI exI [of _ "\<lambda>x. x"]) simp_all
next
  case (Cons q qs)
  have ok: "class_at r (fst q) \<noteq> None" using Cons.prems(3) by simp
  note step = lookup_step [OF Cons.prems(1,2) ok, of "snd q"]
  obtain f where f: "snd (lookup_class_methods r (fst q) (snd q)) = method_cache_update f r"
    using step(3) by blast
  obtain g where rest: "fst (lookup_each qs (method_cache_update f r)) =
        map (\<lambda>q. visible_methods r (fst q) (snd q)) qs"
      "cache_ok (snd (lookup_each qs (method_cache_update f r)))"
      "snd (lookup_each qs (method_cache_update f r)) = method_cache_update g (method_cache_update f r)"
    using Cons.IH [of "method_cache_update f r"] Cons.prems step(2) f by auto
  have head: "fst (lookup_each (q # qs) r) =
        fst (lookup_class_methods r (fst q) (snd q)) # fst (lookup_each qs (method_cache_update f r))"
    "snd (lookup_each (q # qs) r) = snd (lookup_each qs (method_cache_update f r))"
    by (simp_all add: Let_def case_prod_unfold f)
  show ?case
  proof (intro conjI exI)
    show "fst (lookup_each (q # qs) r) = map (\<lambda>q. visible_methods r (fst q) (snd q)) (q # qs)"
      unfolding head(1) rest(1) step(1) visible_methods_def list.map ..
    show "cache_ok (snd (lookup_each (q # qs) r))" unfolding head(2) by (rule rest(2))
    show "snd (lookup_each (q # qs) r) = method_cache_update (g \<circ> f) r"
      unfolding head(2) rest(3) by simp
  qed
qed

text \<open>C31. A method name stands for the overload sets of the class and its ancestors, nearest
  first, up to the first set without an \<open>overload\<close> directive, which hides the rest. The
  cache of merged sets does not change that: from an empty cache, every lookup of a sequence
  answers so, whatever the lookups before it left in the cache, and nothing but the cache
  changes. No declarations are entered between the lookups: they would leave stale sets.\<close>

theorem method_lookup_cached:
  assumes "payloads_bound r" "method_cache r = []" "\<forall>q\<in>set qs. class_at r (fst q) \<noteq> None"
  shows "fst (lookup_each qs r) =
      map (\<lambda>(c, m). nonempty (visible_overloads (List.map_filter (declared_methods r m) (class_chain r c)))) qs \<and>
    method_cache_update (\<lambda>_. []) (snd (lookup_each qs r)) = r"
proof -
  have "cache_ok r" using assms(2) by (simp add: cache_ok_def)
  from lookup_each_visible [OF assms(1) this assms(3)] obtain f where
    "fst (lookup_each qs r) = map (\<lambda>q. visible_methods r (fst q) (snd q)) qs"
    "snd (lookup_each qs r) = method_cache_update f r" by blast
  moreover have "method_cache_update (\<lambda>_. []) r = r" using assms(2) by simp
  ultimately show ?thesis by (auto simp: visible_methods_def)
qed

subsection \<open>Two classes that inherit from each other\<close>

definition no_modifiers :: proc_modifiers where
  "no_modifiers =
     \<lparr>is_virtual = False, is_abstract = False, is_override = False, is_final = False,
      is_forward = False, is_inline = False, is_cdecl = False, is_noreturn = False,
      is_external = False, is_assembler = False, is_overload = False, external_lib = [],
      external_name = []\<rparr>"

definition sample_method :: "string \<Rightarrow> nat \<Rightarrow> bool \<Rightarrow> method_sig" where
  "sample_method owner n overload =
     \<lparr>ms_kind = MethodKind, ms_unit = ''u'', ms_declaring_type = owner,
      ms_declaring_symbol = None, ms_param_count = n, ms_accepts_zero_args = n = 0,
      ms_is_function = False, ms_is_virtual = False, ms_is_final = False,
      ms_is_overload = overload,
      ms_decl = ProcDecl no_location PProcedure ''foo'' False [] NoIntrinsic owner False [] None
        no_modifiers [] None\<rparr>"

definition sample_class :: "nat \<Rightarrow> string \<Rightarrow> nat \<Rightarrow> bool \<Rightarrow> type_descriptor" where
  "sample_class d name up overload =
     \<lparr>td_id = Suc d, td_expr = None, td_symbol = Some d, td_metaclass_target = None,
      td_ordinal = None, td_element = None, td_pointer_difference = None,
      td_real_division = None, td_string_concat = None, td_lo_hi = None,
      td_set_literal_element = None, td_low_high = None, td_primitive = None,
      td_is_method_carrier = False,
      td_payload = ClassPayload
        \<lparr>ci_descriptor = Some d, ci_name = name, ci_owner_path = [], ci_parent = [],
         ci_parent_symbol = Some up, ci_unit = ''u'', ci_symbol = Some d,
         ci_is_reference = True, ci_is_abstract = False, ci_is_forward = False,
         ci_interfaces = [], ci_fields = [],
         ci_methods = [(''foo'', [sample_method name d overload])], ci_properties = [],
         ci_nested = [], ci_enum_members = [], ci_default_property = []\<rparr>\<rparr>"

definition sample_registry :: registry where
  "sample_registry =
     empty_registry
       \<lparr>descriptors := [sample_class 0 ''ta'' 1 True, sample_class 1 ''tb'' 0 True],
        symbols := [\<lparr>ts_name = ''ta'', ts_unit = ''u'', ts_owner_path = [], ts_expr = None,
                     ts_descriptor = Some 0, ts_has_forward = False\<rparr>,
                    \<lparr>ts_name = ''tb'', ts_unit = ''u'', ts_owner_path = [], ts_expr = None,
                     ts_descriptor = Some 1, ts_has_forward = False\<rparr>]\<rparr>"

lemma sample_registry_ok:
  "payloads_bound sample_registry" "class_at sample_registry 0 \<noteq> None"
  "class_at sample_registry (Suc 0) \<noteq> None"
  by (simp_all add: payloads_bound_def sample_registry_def empty_registry_def
      class_at_def payload_at_def sample_class_def)

lemma sample_chain:
  "class_chain sample_registry 0 = [0, 1]" "class_chain sample_registry (Suc 0) = [1, 0]"
  by (simp_all add: class_chain_def sample_registry_def empty_registry_def sample_class_def mark_def
      new_seen_def lookup_parent_class_def class_at_def payload_at_def sym_class_def
      sym_payload_def)

lemma sample_declared:
  "declared_methods sample_registry ''foo'' 0 = Some [sample_method ''ta'' 0 True]"
  "declared_methods sample_registry ''foo'' (Suc 0) = Some [sample_method ''tb'' 1 True]"
  by (simp_all add: declared_methods_def class_at_def payload_at_def sample_registry_def
      empty_registry_def sample_class_def)

theorem method_lookup_cached_witness:
  "fst (lookup_each [(0, ''foo''), (1, ''foo''), (0, ''foo'')] sample_registry) =
     [Some [sample_method ''ta'' 0 True, sample_method ''tb'' 1 True],
      Some [sample_method ''tb'' 1 True, sample_method ''ta'' 0 True],
      Some [sample_method ''ta'' 0 True, sample_method ''tb'' 1 True]]"
proof -
  let ?qs = "[(0, ''foo''), (1, ''foo''), (0, ''foo'')] :: (desc_ref \<times> string) list"
  have empty: "method_cache sample_registry = []" by (simp add: sample_registry_def empty_registry_def)
  have classes: "\<forall>q\<in>set ?qs. class_at sample_registry (fst q) \<noteq> None"
    using sample_registry_ok(2,3) by simp
  from method_lookup_cached [OF sample_registry_ok(1) empty classes, THEN conjunct1]
  show ?thesis
    by (simp add: sample_chain map_filter_simps sample_declared nonempty_def sample_method_def)
qed

end
