(* ===== verification/Reg_Members.thy ===== *)
theory Reg_Members
  imports Reg_Sig
begin

text \<open>
  What \<open>src/typereg.cc\<close> reads off a declared type: the enumerations inside it, its fields,
  methods and properties, and the payload of its descriptor. Tables are built with the first
  declaration of a name kept and a report for each later one.

  The syntax tree is built bottom up, so the children of a type expression have smaller
  addresses; the recursion over a type only goes to smaller addresses.
\<close>

subsection \<open>Enumerations inside a type\<close>

definition param_list_types :: "reg_param list \<Rightarrow> texpr_ref list" where
  "param_list_types ps = List.map_filter param_type ps"

definition signature_types :: "reg_proc \<Rightarrow> texpr_ref list" where
  "signature_types pd = (case pd_return pd of None \<Rightarrow> [] | Some t \<Rightarrow> [t]) @ param_list_types (pd_params pd)"

primrec field_type :: "texpr_ref record_field \<Rightarrow> texpr_ref" where
  "field_type (RecordField _ t) = t"

primrec field_names :: "texpr_ref record_field \<Rightarrow> string list" where
  "field_names (RecordField ns _) = ns"

primrec variant_types :: "texpr_ref variant_part \<Rightarrow> texpr_ref list"
  and variant_case_types :: "texpr_ref variant_case \<Rightarrow> texpr_ref list" where
  "variant_types (VariantPart _ tag cases) = tag # concat (map variant_case_types cases)"
| "variant_case_types (VariantCase _ fs part) =
     map field_type fs @
     (case map_option variant_types part of None \<Rightarrow> [] | Some ts \<Rightarrow> ts)"

definition object_member_types :: "reg_member \<Rightarrow> texpr_ref list" where
  "object_member_types m =
     (case om_content m of
        FieldContent _ t _ \<Rightarrow> [t]
      | MethodContent pd \<Rightarrow> signature_types pd
      | PropertyContent p \<Rightarrow> prop_type p # param_list_types (prop_params p)
      | TypeContent _ \<Rightarrow> [])"

definition interface_member_types :: "reg_member \<Rightarrow> texpr_ref list" where
  "interface_member_types m =
     (case om_content m of MethodContent pd \<Rightarrow> signature_types pd | _ \<Rightarrow> [])"

text \<open>The types that \<open>append_enum_types\<close> goes into, in its order.\<close>

fun enum_children :: "shape \<Rightarrow> texpr_ref list" where
  "enum_children (NPointer t) = (case t of None \<Rightarrow> [] | Some u \<Rightarrow> [u])"
| "enum_children (NArray dims element _ _) = dims @ [element]"
| "enum_children (NSet u _) = [u]"
| "enum_children (NFile t _) = (case t of None \<Rightarrow> [] | Some u \<Rightarrow> [u])"
| "enum_children (NRecord fs _ _ part _) =
     map field_type fs @ (case part of None \<Rightarrow> [] | Some p \<Rightarrow> variant_types p)"
| "enum_children (NObject _ _ members _ _ _) = concat (map object_member_types members)"
| "enum_children (NInterface _ members) = concat (map interface_member_types members)"
| "enum_children (NProcedural _ ps ret _ _) =
     (case ret of None \<Rightarrow> [] | Some u \<Rightarrow> [u]) @ param_list_types ps"
| "enum_children (NDistinct u) = [u]"
| "enum_children _ = []"

function append_enum_types :: "registry \<Rightarrow> texpr_ref \<Rightarrow> texpr_ref list" where
  "append_enum_types r t =
     (case te_shape (texpr_at r t) of
        NEnum _ _ \<Rightarrow> [t]
      | sh \<Rightarrow> concat (map (\<lambda>u. if u < t then append_enum_types r u else []) (enum_children sh)))"
  by pat_completeness auto
termination
  by (relation "measure snd") auto

definition collect_enum_types :: "registry \<Rightarrow> texpr_ref \<Rightarrow> texpr_ref list" where
  "collect_enum_types r t = append_enum_types r t"

text \<open>
  The enumerations of a type, each once, with the key each gets: the owner's own name for the
  type of a declared enumeration (\<open>named_top_level\<close>) or for a variable's whole type, a
  numbered name otherwise.
\<close>

definition remdups_first :: "'a list \<Rightarrow> 'a list" where
  "remdups_first xs = rev (remdups (rev xs))"

fun enum_keys ::
  "texpr_ref \<Rightarrow> string \<Rightarrow> texpr_ref option \<Rightarrow> texpr_ref list \<Rightarrow> nat \<Rightarrow> (string \<times> texpr_ref) list" where
  "enum_keys t owner named [] i = []"
| "enum_keys t owner named (e # es) i =
     (if named = Some e then (owner, e) # enum_keys t owner named es i
      else
        ((if e = t \<and> named = None then owner else owner @ ''_enum'' @ decimal i), e)
          # enum_keys t owner named es (Suc i))"

definition register_enum_types_for_owner ::
  "registry \<Rightarrow> texpr_ref smap \<Rightarrow> texpr_ref option \<Rightarrow> string \<Rightarrow> texpr_ref option \<Rightarrow> texpr_ref smap" where
  "register_enum_types_for_owner r out t owner named =
     (case t of
        None \<Rightarrow> out
      | Some u \<Rightarrow>
          fold (\<lambda>(k, e). assign k e)
            (enum_keys u (ascii_lower owner) named (remdups_first (collect_enum_types r u)) 0) out)"

subsection \<open>Names\<close>

definition join_path :: "string list \<Rightarrow> string" where
  "join_path path = fold (\<lambda>segment out. (if out = [] then out else out @ ''.'') @ segment) path []"

definition nested_type_symbol_key :: "string \<Rightarrow> string list \<Rightarrow> string \<Rightarrow> string" where
  "nested_type_symbol_key u owner_path name =
     fold (\<lambda>owner out. out @ lower owner @ ''.'') owner_path (lower u @ ''$'') @ lower name"

definition type_source_name :: "string \<Rightarrow> string list \<Rightarrow> string" where
  "type_source_name name owner_path =
     (let out = join_path owner_path in (if out = [] then [] else out @ ''.'') @ lower name)"

subsection \<open>Fields\<close>

text \<open>A table under construction, with the reports so far.\<close>

type_synonym 'v table = "'v smap \<times> diag list"

definition duplicate :: "location \<Rightarrow> string \<Rightarrow> diag" where
  "duplicate loc key = Err loc (''duplicate identifier `'' @ key @ ''`'')"

definition insert_field_info :: "location \<Rightarrow> 'v \<Rightarrow> string \<Rightarrow> 'v table \<Rightarrow> 'v table" where
  "insert_field_info loc field name acc =
     (let key = lower name; (inserted, m) = emplace key field (fst acc) in
      (m, if inserted then snd acc else snd acc @ [duplicate loc key]))"

definition insert_fields :: "location \<Rightarrow> 'v \<Rightarrow> string list \<Rightarrow> 'v table \<Rightarrow> 'v table" where
  "insert_fields loc field names acc = fold (insert_field_info loc field) names acc"

definition field_of :: "texpr_ref \<Rightarrow> bool \<Rightarrow> bool \<Rightarrow> field_info" where
  "field_of t class_var variant =
     \<lparr>fi_type = Some t, fi_is_class_var = class_var, fi_is_variant = variant\<rparr>"

primrec append_record_variant_fields ::
    "location \<Rightarrow> texpr_ref variant_part \<Rightarrow> field_info table \<Rightarrow> field_info table"
  and append_variant_case_fields ::
    "location \<Rightarrow> texpr_ref variant_case \<Rightarrow> field_info table \<Rightarrow> field_info table" where
  "append_record_variant_fields loc (VariantPart tag_name tag_type cases) =
     (\<lambda>acc. fold id (map (append_variant_case_fields loc) cases)
        (if tag_name \<noteq> [] then insert_field_info loc (field_of tag_type False False) tag_name acc
         else acc))"
| "append_variant_case_fields loc (VariantCase _ fs part) =
     (\<lambda>acc.
        let acc' = fold (\<lambda>f. insert_fields loc (field_of (field_type f) False True) (field_names f))
          fs acc
        in (case map_option (append_record_variant_fields loc) part of
              None \<Rightarrow> acc' | Some rest \<Rightarrow> rest acc'))"

definition record_fields ::
  "location \<Rightarrow> texpr_ref record_field list \<Rightarrow> texpr_ref variant_part option \<Rightarrow> field_info table" where
  "record_fields loc fs part =
     (let acc = fold (\<lambda>f. insert_fields loc (field_of (field_type f) False False) (field_names f))
        fs ([], [])
      in (case part of None \<Rightarrow> acc | Some p \<Rightarrow> append_record_variant_fields loc p acc))"

definition class_fields :: "reg_member list \<Rightarrow> field_info table" where
  "class_fields members =
     fold (\<lambda>m acc. case om_content m of
             FieldContent names t class_var \<Rightarrow>
               insert_fields (om_loc m) (field_of t class_var False) names acc
           | _ \<Rightarrow> acc) members ([], [])"

subsection \<open>Enumeration labels of a class\<close>

definition add_labels ::
  "desc_ref \<Rightarrow> string list \<Rightarrow> enum_member_info smap \<Rightarrow> enum_member_info smap" where
  "add_labels d labels acc =
     fold (\<lambda>(i, label) acc. snd (emplace label \<lparr>em_owner = d, em_index = i\<rparr> acc))
       (enumerate 0 labels) acc"

definition add_enum_members ::
  "registry \<Rightarrow> texpr_ref option \<Rightarrow> enum_member_info smap \<Rightarrow> enum_member_info smap" where
  "add_enum_members r t acc =
     (case t of
        None \<Rightarrow> acc
      | Some u \<Rightarrow>
          fold (\<lambda>e acc.
              case te_descriptor (texpr_at r e) of
                None \<Rightarrow> acc
              | Some d \<Rightarrow>
                  (case enum_at r d of None \<Rightarrow> acc | Some info \<Rightarrow> add_labels d (ei_members info) acc))
            (collect_enum_types r u) acc)"

definition class_enum_members :: "registry \<Rightarrow> reg_member list \<Rightarrow> enum_member_info smap" where
  "class_enum_members r members =
     fold (\<lambda>m acc. case om_content m of
             FieldContent _ t _ \<Rightarrow> add_enum_members r (Some t) acc
           | _ \<Rightarrow> acc) members []"

definition refresh_class_enum_members :: "registry \<Rightarrow> class_info \<Rightarrow> class_info" where
  "refresh_class_enum_members r ci =
     ci\<lparr>ci_enum_members := fold (\<lambda>(_, f). add_enum_members r (fi_type f)) (ci_fields ci) []\<rparr>"

subsection \<open>Methods and properties\<close>

definition method_kind_for :: "reg_proc \<Rightarrow> sym_kind" where
  "method_kind_for pd =
     (if pd_is_class_method pd then ClassMethodKind
      else if pd_kind pd = PConstructor then ConstructorKind
      else if pd_kind pd = PDestructor then DestructorKind
      else MethodKind)"

definition method_sig_for :: "string \<Rightarrow> string \<Rightarrow> reg_proc \<Rightarrow> method_sig" where
  "method_sig_for u declaring pd =
     \<lparr>ms_kind = method_kind_for pd, ms_unit = u, ms_declaring_type = declaring,
      ms_declaring_symbol = None, ms_param_count = proc_param_count (pd_params pd),
      ms_accepts_zero_args = proc_accepts_zero_args pd,
      ms_is_function = (pd_kind pd = PFunction),
      ms_is_virtual = (is_virtual (pd_modifiers pd) \<or> is_abstract (pd_modifiers pd) \<or>
                       is_override (pd_modifiers pd)),
      ms_is_final = is_final (pd_modifiers pd),
      ms_is_overload = is_overload (pd_modifiers pd), ms_decl = pd\<rparr>"

definition class_methods :: "string \<Rightarrow> string \<Rightarrow> reg_member list \<Rightarrow> method_sig list smap" where
  "class_methods u declaring members =
     fold (\<lambda>m acc. case om_content m of
             MethodContent pd \<Rightarrow> push_at (lower (pd_name pd)) (method_sig_for u declaring pd) acc
           | _ \<Rightarrow> acc) members []"

definition property_of :: "texpr_ref property_decl \<Rightarrow> property_info" where
  "property_of p =
     \<lparr>pi_type = prop_type p, pi_params = prop_params p, pi_read = NoAccessor,
      pi_write = NoAccessor, pi_is_default = prop_default p\<rparr>"

definition class_properties :: "reg_member list \<Rightarrow> property_info table" where
  "class_properties members =
     fold (\<lambda>m acc. case om_content m of
             PropertyContent p \<Rightarrow> insert_field_info (om_loc m) (property_of p) (prop_name p) acc
           | _ \<Rightarrow> acc) members ([], [])"

fun class_default_property_name :: "reg_member list \<Rightarrow> string" where
  "class_default_property_name [] = []"
| "class_default_property_name (m # ms) =
     (case om_content m of
        PropertyContent p \<Rightarrow>
          if prop_default p then lower (prop_name p) else class_default_property_name ms
      | _ \<Rightarrow> class_default_property_name ms)"

definition interface_sig_for :: "string \<Rightarrow> reg_proc \<Rightarrow> method_sig" where
  "interface_sig_for u pd =
     \<lparr>ms_kind = MethodKind, ms_unit = u, ms_declaring_type = [],
      ms_declaring_symbol = None, ms_param_count = proc_param_count (pd_params pd),
      ms_accepts_zero_args = proc_accepts_zero_args pd,
      ms_is_function = (pd_kind pd = PFunction), ms_is_virtual = False, ms_is_final = False,
      ms_is_overload = False, ms_decl = pd\<rparr>"

definition interface_methods :: "string \<Rightarrow> reg_member list \<Rightarrow> method_sig list smap" where
  "interface_methods u members =
     fold (\<lambda>m acc. case om_content m of
             MethodContent pd \<Rightarrow> push_at (lower (pd_name pd)) (interface_sig_for u pd) acc
           | _ \<Rightarrow> acc) members []"

subsection \<open>Payloads\<close>

definition class_info_for ::
  "registry \<Rightarrow> string \<Rightarrow> string \<Rightarrow> string list \<Rightarrow> string \<Rightarrow> reg_member list \<Rightarrow> bool \<Rightarrow> bool \<Rightarrow> bool \<Rightarrow>
   class_info \<times> diag list" where
  "class_info_for r u name owner_path parent members reference abstract forward =
     (let (fs, e1) = class_fields members;
          (properties, e2) = class_properties members
      in (\<lparr>ci_descriptor = None, ci_name = name, ci_owner_path = owner_path,
           ci_parent = (if reference \<and> parent = [] then ''__rt__.tobject'' else lower parent),
           ci_parent_symbol = None, ci_unit = u, ci_symbol = None, ci_is_reference = reference,
           ci_is_abstract = abstract, ci_is_forward = forward, ci_interfaces = [],
           ci_fields = fs,
           ci_methods = class_methods u (type_source_name name owner_path) members,
           ci_properties = properties, ci_nested = [],
           ci_enum_members = class_enum_members r members,
           ci_default_property = class_default_property_name members\<rparr>, e1 @ e2))"

definition interface_info_for :: "string \<Rightarrow> string \<Rightarrow> string \<Rightarrow> reg_member list \<Rightarrow> interface_info" where
  "interface_info_for u name metadata members =
     \<lparr>ii_descriptor = None, ii_name = name, ii_unit = u, ii_symbol = None,
      ii_metadata = metadata, ii_methods = interface_methods u members\<rparr>"

definition record_info_for ::
  "string \<Rightarrow> string \<Rightarrow> location \<Rightarrow> texpr_ref record_field list \<Rightarrow> texpr_ref variant_part option \<Rightarrow>
   bool \<Rightarrow> record_info \<times> diag list" where
  "record_info_for u name loc fs part packed =
     (let (acc, e) = record_fields loc fs part in
      (\<lparr>ri_descriptor = None, ri_name = name, ri_unit = u, ri_is_packed = packed,
        ri_fields = acc, ri_nested = []\<rparr>, e))"

definition make_enum_info :: "string \<Rightarrow> string \<Rightarrow> string \<Rightarrow> texpr_ref \<Rightarrow> enum_member list \<Rightarrow> enum_info" where
  "make_enum_info u key cxx_name t members =
     \<lparr>ei_descriptor = None, ei_name = key, ei_unit = u, ei_type = Some t, ei_cxx_name = cxx_name,
      ei_members = map (\<lambda>m. case m of EnumMember n _ \<Rightarrow> lower n) members\<rparr>"

definition semantic_payload_for_type ::
  "registry \<Rightarrow> string \<Rightarrow> string \<Rightarrow> string list \<Rightarrow> texpr_ref \<Rightarrow> payload \<times> diag list" where
  "semantic_payload_for_type r u name owner_path t =
     (case te_shape (texpr_at r t) of
        NObject parent _ members reference abstract forward \<Rightarrow>
          (case class_info_for r u name owner_path parent members reference abstract forward of
             (ci, e) \<Rightarrow> (ClassPayload ci, e))
      | NRecord fs _ _ part packed \<Rightarrow>
          (case record_info_for u name (te_loc (texpr_at r t)) fs part packed of
             (ri, e) \<Rightarrow> (RecordPayload ri, e))
      | NInterface metadata members \<Rightarrow>
          (InterfacePayload (interface_info_for u name metadata members), [])
      | NEnum _ members \<Rightarrow>
          if name \<noteq> [] then (EnumPayload (make_enum_info u name (type_mangle name) t members), [])
          else (NoPayload, [])
      | _ \<Rightarrow> (NoPayload, []))"

definition make_proc_info :: "string \<Rightarrow> reg_proc \<Rightarrow> proc_info" where
  "make_proc_info u pd =
     \<lparr>pr_unit = u, pr_decl = Some pd, pr_param_count = proc_param_count (pd_params pd),
      pr_is_function = (pd_kind pd = PFunction),
      pr_is_overload = is_overload (pd_modifiers pd),
      pr_accepts_zero_args = proc_accepts_zero_args pd, pr_return_type_name = [],
      pr_return_symbol = None\<rparr>"

end
