(* ===== verification/Reg_Decl.thy ===== *)
theory Reg_Decl
  imports Reg_Members
begin

text \<open>
  How \<open>src/typereg.cc\<close> enters declarations: descriptors and symbols, nested types, forward
  classes and their completion, the symbol tables of a unit and the index of enumeration
  labels. Every operation takes the registry and returns the new one.
\<close>

subsection \<open>Writing the stores\<close>

definition upd_desc :: "desc_ref \<Rightarrow> (type_descriptor \<Rightarrow> type_descriptor) \<Rightarrow> registry \<Rightarrow> registry" where
  "upd_desc d f r = r\<lparr>descriptors := (descriptors r)[d := f (desc_at r d)]\<rparr>"

definition upd_sym :: "sym_ref \<Rightarrow> (type_symbol \<Rightarrow> type_symbol) \<Rightarrow> registry \<Rightarrow> registry" where
  "upd_sym s f r = r\<lparr>symbols := (symbols r)[s := f (sym_at r s)]\<rparr>"

definition upd_texpr :: "texpr_ref \<Rightarrow> (texpr \<Rightarrow> texpr) \<Rightarrow> registry \<Rightarrow> registry" where
  "upd_texpr t f r = r\<lparr>texprs := (texprs r)[t := f (texpr_at r t)]\<rparr>"

definition upd_unit :: "string \<Rightarrow> (unit_info \<Rightarrow> unit_info) \<Rightarrow> registry \<Rightarrow> registry" where
  "upd_unit u f r =
     (case map_of (units r) u of None \<Rightarrow> r | Some ui \<Rightarrow> r\<lparr>units := assign u (f ui) (units r)\<rparr>)"

definition add_reports :: "diag list \<Rightarrow> registry \<Rightarrow> registry" where
  "add_reports ds r = r\<lparr>reports := reports r @ ds\<rparr>"

definition store_symbol :: "type_symbol \<Rightarrow> registry \<Rightarrow> sym_ref \<times> registry" where
  "store_symbol ts r = (length (symbols r), r\<lparr>symbols := symbols r @ [ts]\<rparr>)"

subsection \<open>Descriptors\<close>

definition bind_payload :: "desc_ref \<Rightarrow> payload \<Rightarrow> payload" where
  "bind_payload d p =
     (case p of
        NoPayload \<Rightarrow> NoPayload
      | ClassPayload ci \<Rightarrow> ClassPayload (ci\<lparr>ci_descriptor := Some d\<rparr>)
      | RecordPayload ri \<Rightarrow> RecordPayload (ri\<lparr>ri_descriptor := Some d\<rparr>)
      | InterfacePayload ii \<Rightarrow> InterfacePayload (ii\<lparr>ii_descriptor := Some d\<rparr>)
      | EnumPayload ei \<Rightarrow> EnumPayload (ei\<lparr>ei_descriptor := Some d\<rparr>))"

definition bind_descriptor_payload :: "desc_ref \<Rightarrow> registry \<Rightarrow> registry" where
  "bind_descriptor_payload d = upd_desc d (td_payload_update (bind_payload d))"

definition builtin_descriptor :: "registry \<Rightarrow> string \<Rightarrow> desc_ref option" where
  "builtin_descriptor r name =
     Option.bind (builtin_literal r name) (\<lambda>s. ts_descriptor (sym_at r s))"

definition initialize_structural_descriptor_edges :: "desc_ref \<Rightarrow> registry \<Rightarrow> registry" where
  "initialize_structural_descriptor_edges d r =
     (case td_expr (desc_at r d) of
        None \<Rightarrow> r
      | Some t \<Rightarrow>
          (case te_shape (texpr_at r t) of
             NEnum _ _ \<Rightarrow>
               upd_desc d (\<lambda>x. x\<lparr>td_ordinal := builtin_descriptor r ''longint'',
                 td_set_literal_element := Some d\<rparr>) r
           | NSubrange _ _ \<Rightarrow>
               upd_desc d (\<lambda>x. x\<lparr>td_ordinal := Some d, td_set_literal_element := Some d\<rparr>) r
           | NDistinct u \<Rightarrow>
               if Option.bind (te_descriptor (texpr_at r u)) (\<lambda>e. td_ordinal (desc_at r e)) \<noteq> None
               then upd_desc d (\<lambda>x. x\<lparr>td_ordinal := Some d, td_set_literal_element := Some d\<rparr>) r
               else r
           | NPointer _ \<Rightarrow>
               upd_desc d (\<lambda>x. x\<lparr>td_pointer_difference := builtin_descriptor r ''ptrint''\<rparr>) r
           | NString _ \<Rightarrow> upd_desc d (\<lambda>x. x\<lparr>td_element := builtin_descriptor r ''char''\<rparr>) r
           | NArray _ _ _ k \<Rightarrow>
               if k \<noteq> Fixed
               then upd_desc d (\<lambda>x. x\<lparr>td_low_high := builtin_descriptor r ''longint''\<rparr>) r else r
           | _ \<Rightarrow> r))"

definition new_descriptor ::
  "nat \<Rightarrow> texpr_ref option \<Rightarrow> sym_ref option \<Rightarrow> sym_ref option \<Rightarrow> payload \<Rightarrow> primitive_info option \<Rightarrow>
   type_descriptor" where
  "new_descriptor i t s target p pinfo =
     \<lparr>td_id = i, td_expr = t, td_symbol = s, td_metaclass_target = target, td_ordinal = None,
      td_element = None, td_pointer_difference = None, td_real_division = None,
      td_string_concat = None, td_lo_hi = None, td_set_literal_element = None,
      td_low_high = None, td_primitive = pinfo, td_is_method_carrier = False, td_payload = p\<rparr>"

definition push_descriptor :: "type_descriptor \<Rightarrow> registry \<Rightarrow> registry" where
  "push_descriptor x r = r\<lparr>descriptors := descriptors r @ [x]\<rparr>"

definition make_type_descriptor ::
  "registry \<Rightarrow> texpr_ref option \<Rightarrow> sym_ref option \<Rightarrow> payload \<Rightarrow> primitive_info option \<Rightarrow>
   desc_ref \<times> registry" where
  "make_type_descriptor r t s p pinfo =
     (let d = length (descriptors r);
          r = push_descriptor (new_descriptor (d + 1) t s None p pinfo) r
      in (d, initialize_structural_descriptor_edges d (bind_descriptor_payload d r)))"

definition canonical_symbol :: "registry \<Rightarrow> sym_ref \<Rightarrow> sym_ref" where
  "canonical_symbol r s =
     (case Option.bind (ts_descriptor (sym_at r s)) (\<lambda>d. td_symbol (desc_at r d)) of
        Some owner \<Rightarrow> owner | None \<Rightarrow> s)"

definition make_metaclass_descriptor ::
  "registry \<Rightarrow> sym_ref option \<Rightarrow> desc_ref option \<times> registry" where
  "make_metaclass_descriptor r target =
     (case map_option (canonical_symbol r) target of
        None \<Rightarrow> (None, r)
      | Some s \<Rightarrow>
          (case map_of (metaclasses r) s of
             Some d \<Rightarrow> (Some d, r)
           | None \<Rightarrow>
               let d = length (descriptors r);
                   r = push_descriptor (new_descriptor (d + 1) None None (Some s) NoPayload None) r
               in (Some d, r\<lparr>metaclasses := assign s d (metaclasses r)\<rparr>)))"

definition metaclass_descriptor_for_target :: "registry \<Rightarrow> sym_ref option \<Rightarrow> desc_ref option" where
  "metaclass_descriptor_for_target r target =
     Option.bind (map_option (canonical_symbol r) target) (map_of (metaclasses r))"

definition bind_type_expr_descriptor :: "texpr_ref option \<Rightarrow> desc_ref option \<Rightarrow> registry \<Rightarrow> registry" where
  "bind_type_expr_descriptor t d r =
     (case (t, d) of
        (Some t, Some d) \<Rightarrow> upd_texpr t (\<lambda>x. x\<lparr>te_descriptor := Some d\<rparr>) r
      | _ \<Rightarrow> r)"

definition bind_type_expr_symbol :: "texpr_ref option \<Rightarrow> sym_ref option \<Rightarrow> registry \<Rightarrow> registry" where
  "bind_type_expr_symbol t s r =
     (case (t, s) of
        (Some t, Some s) \<Rightarrow> upd_texpr t (\<lambda>x. x\<lparr>te_symbol := Some s\<rparr>) r
      | _ \<Rightarrow> r)"

text \<open>A declaration that makes a type of its own: anything but a name and a \<open>class of\<close>.\<close>

definition fresh_shape :: "shape \<Rightarrow> bool" where
  "fresh_shape sh = (case sh of NName _ \<Rightarrow> False | NMetaclass _ \<Rightarrow> False | _ \<Rightarrow> True)"

definition declares_fresh :: "registry \<Rightarrow> texpr_ref option \<Rightarrow> bool" where
  "declares_fresh r t = (case t of None \<Rightarrow> False | Some u \<Rightarrow> fresh_shape (te_shape (texpr_at r u)))"

definition symbol_declares_fresh_type :: "registry \<Rightarrow> sym_ref \<Rightarrow> bool" where
  "symbol_declares_fresh_type r s = declares_fresh r (ts_expr (sym_at r s))"

definition bind_symbol_descriptor :: "sym_ref \<Rightarrow> desc_ref option \<Rightarrow> registry \<Rightarrow> registry" where
  "bind_symbol_descriptor s d r =
     (case d of
        None \<Rightarrow> r
      | Some e \<Rightarrow>
          let r = upd_sym s (\<lambda>x. x\<lparr>ts_descriptor := Some e\<rparr>) r;
              claims = (td_symbol (desc_at r e) = None \<and>
                (symbol_declares_fresh_type r s \<or> td_payload (desc_at r e) \<noteq> NoPayload));
              r = (if claims then upd_desc e (\<lambda>x. x\<lparr>td_symbol := Some s\<rparr>) r else r)
          in bind_type_expr_descriptor (ts_expr (sym_at r s)) (Some e) r)"

definition ensure_fresh_symbol_descriptor :: "sym_ref \<Rightarrow> registry \<Rightarrow> desc_ref \<times> registry" where
  "ensure_fresh_symbol_descriptor s r =
     (case ts_descriptor (sym_at r s) of
        Some d \<Rightarrow> (d, bind_symbol_descriptor s (Some d) r)
      | None \<Rightarrow>
          (case make_type_descriptor r (ts_expr (sym_at r s)) (Some s) NoPayload None of
             (d, r) \<Rightarrow> (d, bind_symbol_descriptor s (Some d) r)))"

subsection \<open>Type symbols\<close>

definition is_forward_reference_class_type :: "registry \<Rightarrow> texpr_ref option \<Rightarrow> bool" where
  "is_forward_reference_class_type r t =
     (case t of
        None \<Rightarrow> False
      | Some u \<Rightarrow>
          (case te_shape (texpr_at r u) of
             NObject _ _ _ reference _ forward \<Rightarrow> reference \<and> forward | _ \<Rightarrow> False))"

definition is_complete_reference_class_type :: "registry \<Rightarrow> texpr_ref option \<Rightarrow> bool" where
  "is_complete_reference_class_type r t =
     (case t of
        None \<Rightarrow> False
      | Some u \<Rightarrow>
          (case te_shape (texpr_at r u) of
             NObject _ _ _ reference _ forward \<Rightarrow> reference \<and> \<not> forward | _ \<Rightarrow> False))"

definition make_type_symbol_for_type_with_owner ::
  "registry \<Rightarrow> string \<Rightarrow> string \<Rightarrow> texpr_ref \<Rightarrow> string list \<Rightarrow> type_symbol \<times> registry" where
  "make_type_symbol_for_type_with_owner r u name t owner_path =
     (case semantic_payload_for_type r (lower u) (lower name) owner_path t of
        (payload, ds) \<Rightarrow>
          let r = add_reports ds r;
              ts = \<lparr>ts_name = lower name, ts_unit = lower u, ts_owner_path = owner_path,
                    ts_expr = Some t, ts_descriptor = None,
                    ts_has_forward = is_forward_reference_class_type r (Some t)\<rparr>
          in if declares_fresh r (Some t) then
               (case make_type_descriptor r (Some t) None payload None of
                  (d, r) \<Rightarrow>
                    (ts\<lparr>ts_descriptor := Some d\<rparr>, bind_type_expr_descriptor (Some t) (Some d) r))
             else (ts, r))"

definition make_type_symbol_for_type ::
  "registry \<Rightarrow> string \<Rightarrow> string \<Rightarrow> texpr_ref \<Rightarrow> type_symbol \<times> registry" where
  "make_type_symbol_for_type r u name t = make_type_symbol_for_type_with_owner r u name t []"

definition own_methods :: "sym_ref \<Rightarrow> method_sig list smap \<Rightarrow> method_sig list smap" where
  "own_methods s methods =
     map (\<lambda>(n, sigs). (n, map (\<lambda>m. m\<lparr>ms_declaring_symbol := Some s\<rparr>) sigs)) methods"

definition own_payload :: "sym_ref \<Rightarrow> payload \<Rightarrow> payload" where
  "own_payload s p =
     (case p of
        ClassPayload ci \<Rightarrow>
          ClassPayload (ci\<lparr>ci_symbol := Some s, ci_methods := own_methods s (ci_methods ci)\<rparr>)
      | InterfacePayload ii \<Rightarrow>
          InterfacePayload (ii\<lparr>ii_symbol := Some s, ii_methods := own_methods s (ii_methods ii)\<rparr>)
      | _ \<Rightarrow> p)"

definition bind_method_owner_symbol :: "sym_ref \<Rightarrow> registry \<Rightarrow> registry" where
  "bind_method_owner_symbol s r =
     (case ts_descriptor (sym_at r s) of
        None \<Rightarrow> r
      | Some d \<Rightarrow> upd_desc d (td_payload_update (own_payload s)) r)"

fun duplicate_labels :: "location \<Rightarrow> string list \<Rightarrow> string list \<Rightarrow> diag list" where
  "duplicate_labels loc seen [] = []"
| "duplicate_labels loc seen (m # ms) =
     (if m \<in> set seen then duplicate loc m # duplicate_labels loc seen ms
      else duplicate_labels loc (m # seen) ms)"

definition report_local_enum_duplicates :: "texpr_ref \<Rightarrow> registry \<Rightarrow> registry" where
  "report_local_enum_duplicates t r =
     (case te_shape (texpr_at r t) of
        NEnum _ members \<Rightarrow>
          add_reports (duplicate_labels (te_loc (texpr_at r t)) []
            (map (\<lambda>m. case m of EnumMember n _ \<Rightarrow> n) members)) r
      | _ \<Rightarrow> r)"

subsection \<open>Nested types\<close>

definition nested_decls :: "shape \<Rightarrow> texpr_ref type_decl list option" where
  "nested_decls sh =
     (case sh of
        NObject _ _ members _ _ _ \<Rightarrow>
          Some (List.map_filter
            (\<lambda>m. case om_content m of TypeContent td \<Rightarrow> Some td | _ \<Rightarrow> None) members)
      | NRecord _ nested _ _ _ \<Rightarrow> Some nested
      | _ \<Rightarrow> None)"

definition nested_payload :: "(sym_ref smap \<Rightarrow> sym_ref smap) \<Rightarrow> payload \<Rightarrow> payload" where
  "nested_payload f p =
     (case p of
        ClassPayload ci \<Rightarrow> ClassPayload (ci\<lparr>ci_nested := f (ci_nested ci)\<rparr>)
      | RecordPayload ri \<Rightarrow> RecordPayload (ri\<lparr>ri_nested := f (ri_nested ri)\<rparr>)
      | _ \<Rightarrow> p)"

definition upd_nested :: "sym_ref \<Rightarrow> (sym_ref smap \<Rightarrow> sym_ref smap) \<Rightarrow> registry \<Rightarrow> registry" where
  "upd_nested s f r =
     (case ts_descriptor (sym_at r s) of
        None \<Rightarrow> r
      | Some d \<Rightarrow> upd_desc d (td_payload_update (nested_payload f)) r)"

definition set_decl_symbol :: "texpr_ref \<Rightarrow> sym_ref \<Rightarrow> registry \<Rightarrow> registry" where
  "set_decl_symbol t s r = r\<lparr>decl_symbols := assign t s (decl_symbols r)\<rparr>"

text \<open>
  \<open>upsert_nested_type_symbol\<close>; \<open>populate\<close> is \<open>populate_nested_types\<close> on a new symbol.
\<close>

definition upsert_nested_type_symbol ::
  "(sym_ref \<Rightarrow> registry \<Rightarrow> registry) \<Rightarrow> registry \<Rightarrow> sym_ref \<Rightarrow> texpr_ref type_decl \<Rightarrow> string list \<Rightarrow>
   sym_ref \<times> registry" where
  "upsert_nested_type_symbol populate r owner td path =
     (let key = nested_type_symbol_key (ts_unit (sym_at r owner)) path (td_name td) in
      case (map_of (decl_symbols r) (td_type td), map_of (nested_symbols r) key) of
        (Some _, Some slot) \<Rightarrow> (slot, r)
      | (_, found) \<Rightarrow>
          (case make_type_symbol_for_type_with_owner r (ts_unit (sym_at r owner)) (td_name td)
                  (td_type td) path of
             (ts, r) \<Rightarrow>
               (case found of
                  Some slot \<Rightarrow>
                    (slot, set_decl_symbol (td_type td) slot
                       (report (td_loc td) (''duplicate identifier `'' @ lower (td_name td) @ ''`'') r))
                | None \<Rightarrow>
                    (case store_symbol ts r of
                       (s, r) \<Rightarrow>
                         let r = r\<lparr>nested_symbols := assign key s (nested_symbols r)\<rparr>;
                             r = bind_symbol_descriptor s (ts_descriptor ts) r;
                             r = report_local_enum_duplicates (td_type td) r;
                             r = bind_method_owner_symbol s r;
                             r = populate s r
                         in (s, set_decl_symbol (td_type td) s r)))))"

function populate_nested_types :: "texpr_ref \<Rightarrow> sym_ref \<Rightarrow> registry \<Rightarrow> registry" where
  "populate_nested_types t s r =
     (case nested_type_map r s of
        None \<Rightarrow> r
      | Some _ \<Rightarrow>
          (case nested_decls (te_shape (texpr_at r t)) of
             None \<Rightarrow> r
           | Some tds \<Rightarrow>
               let path = ts_owner_path (sym_at r s) @ [ts_name (sym_at r s)];
                   (r, wanted) = fold (\<lambda>td (r, wanted).
                     if td_type td < t then
                       (case upsert_nested_type_symbol
                               (\<lambda>c r. populate_nested_types (td_type td) c r) r s td path of
                          (c, r) \<Rightarrow>
                            let n = ts_name (sym_at r c) in
                            (upd_nested s (assign n c) r, wanted @ [n]))
                     else (r, wanted)) tds (r, [])
               in upd_nested s (filter (\<lambda>(n, _). n \<in> set wanted)) r))"
  by pat_completeness auto
termination
  by (relation "measure fst") auto

end
