(* ===== verification/Reg_Unit.thy ===== *)
theory Reg_Unit
  imports Reg_Decl
begin

text \<open>
  The symbol tables of a unit, \<open>src/typereg.cc\<close>: entering types, routines, variables and
  constants in declaration order (\<open>register_decl_list\<close>), the labels of enumerations, and the
  duplicates that are reported. A pointer to a \<open>UnitInfo\<close> is the unit's key, or null.
\<close>

subsection \<open>Enumerations\<close>

definition unit_value_name_is_taken :: "unit_info \<Rightarrow> bool \<Rightarrow> string \<Rightarrow> bool" where
  "unit_value_name_is_taken ui is_interface n =
     (if is_interface
      then find_export_var ui n \<noteq> None \<or> find_export_const ui n \<noteq> None \<or>
           find_export_procs ui n \<noteq> None
      else find_var ui n \<noteq> None \<or> find_const ui n \<noteq> None \<or> find_procs ui n \<noteq> None)"

definition add_unit_enum_members ::
  "string option \<Rightarrow> bool \<Rightarrow> desc_ref \<Rightarrow> string list \<Rightarrow> registry \<Rightarrow> registry" where
  "add_unit_enum_members u is_interface d labels r =
     (case u of
        None \<Rightarrow> r
      | Some k \<Rightarrow>
          upd_unit k (\<lambda>ui.
            if is_interface
            then ui\<lparr>iface_enum_members := add_labels d labels (iface_enum_members ui)\<rparr>
            else ui\<lparr>impl_enum_members := add_labels d labels (impl_enum_members ui)\<rparr>) r)"

text \<open>
  The loop of \<open>index_enum_info\<close> over the labels: the labels met so far, the table of the unit's
  labels and the reports.
\<close>

fun index_labels ::
  "location \<Rightarrow> (string \<Rightarrow> bool) \<Rightarrow> desc_ref \<Rightarrow> nat \<Rightarrow> string list \<Rightarrow> string list \<Rightarrow>
   enum_member_info table \<Rightarrow> enum_member_info table" where
  "index_labels loc taken d i seen [] acc = acc"
| "index_labels loc taken d i seen (m # ms) acc =
     (if m \<in> set seen then index_labels loc taken d (Suc i) seen ms (fst acc, snd acc @ [duplicate loc m])
      else if taken m
      then index_labels loc taken d (Suc i) (m # seen) ms (fst acc, snd acc @ [duplicate loc m])
      else
        (case map_of (fst acc) m of
           None \<Rightarrow>
             index_labels loc taken d (Suc i) (m # seen) ms
               (snd (emplace m \<lparr>em_owner = d, em_index = i\<rparr> (fst acc)), snd acc)
         | Some e \<Rightarrow>
             index_labels loc taken d (Suc i) (m # seen) ms
               (fst acc, if em_owner e = d then snd acc else snd acc @ [duplicate loc m])))"

definition index_enum_info :: "string option \<Rightarrow> bool \<Rightarrow> desc_ref \<Rightarrow> registry \<Rightarrow> registry" where
  "index_enum_info u is_interface d r =
     (case enum_at r d of
        None \<Rightarrow> r
      | Some info \<Rightarrow>
          (case ei_type info of
             None \<Rightarrow> r
           | Some t \<Rightarrow>
               let loc = te_loc (texpr_at r t);
                   taken = (\<lambda>m. case Option.bind u (map_of (units r)) of
                              None \<Rightarrow> False | Some ui \<Rightarrow> unit_value_name_is_taken ui is_interface m);
                   by_member = (case map_of (enum_by_unit r) (ei_unit info) of
                              None \<Rightarrow> [] | Some m \<Rightarrow> m);
                   (by_member, ds) = index_labels loc taken d 0 [] (ei_members info) (by_member, []);
                   r = r\<lparr>enum_by_unit := assign (ei_unit info) by_member (enum_by_unit r)\<rparr>
               in add_unit_enum_members u is_interface d (ei_members info) (add_reports ds r)))"

definition ensure_enum_descriptor_info ::
  "registry \<Rightarrow> texpr_ref \<Rightarrow> string \<Rightarrow> string \<Rightarrow> string \<Rightarrow> desc_ref \<times> registry" where
  "ensure_enum_descriptor_info r t u name cxx_name =
     (let (d, r) =
        (case te_descriptor (texpr_at r t) of
           Some d \<Rightarrow> (d, r)
         | None \<Rightarrow>
             (case make_type_descriptor r (Some t) None NoPayload None of
                (d, r) \<Rightarrow> (d, bind_type_expr_descriptor (Some t) (Some d) r)));
          members = (case te_shape (texpr_at r t) of NEnum _ ms \<Rightarrow> ms | _ \<Rightarrow> [])
      in (d, if enum_at r d \<noteq> None then r
             else bind_descriptor_payload d
               (upd_desc d (\<lambda>x. x\<lparr>td_payload := EnumPayload (make_enum_info u name cxx_name t members)\<rparr>) r)))"

fun register_enum_list ::
  "string option \<Rightarrow> bool \<Rightarrow> string \<Rightarrow> string \<Rightarrow> texpr_ref option \<Rightarrow> nat \<Rightarrow> texpr_ref list \<Rightarrow>
   registry \<Rightarrow> registry" where
  "register_enum_list u is_interface unit_name owner named i [] r = r"
| "register_enum_list u is_interface unit_name owner named i (t # ts) r =
     (if named = Some t then register_enum_list u is_interface unit_name owner named i ts r
      else
        (case ensure_enum_descriptor_info r t unit_name
                (unit_name @ ''$'' @ owner @ ''$enum'' @ decimal i)
                (type_mangle owner @ ''_enum'' @ decimal i) of
           (d, r) \<Rightarrow>
             register_enum_list u is_interface unit_name owner named (Suc i) ts
               (index_enum_info u is_interface d r)))"

definition register_enums_in_type ::
  "string option \<Rightarrow> bool \<Rightarrow> string \<Rightarrow> texpr_ref \<Rightarrow> string \<Rightarrow> texpr_ref option \<Rightarrow> registry \<Rightarrow> registry" where
  "register_enums_in_type u is_interface unit_name t owner named r =
     register_enum_list u is_interface unit_name (lower owner) named 0
       (remdups_first (collect_enum_types r t)) r"

subsection \<open>Types of a unit\<close>

definition find_unit_type_symbol :: "unit_info \<Rightarrow> string \<Rightarrow> sym_ref option" where
  "find_unit_type_symbol ui n =
     (case map_of (iface_types ui) n of Some s \<Rightarrow> Some s | None \<Rightarrow> map_of (impl_types ui) n)"

text \<open>The class of a symbol that is not stored yet.\<close>

definition value_class :: "registry \<Rightarrow> type_symbol \<Rightarrow> class_info option" where
  "value_class r ts = Option.bind (ts_descriptor ts) (class_at r)"

text \<open>
  A later \<open>class \<dots> end\<close> completes \<open>class;\<close>: the descriptor of the forward declaration takes the
  payload of the new one, which nothing points to afterwards, and the stored symbol becomes
  the new one.
\<close>

definition complete_forward_class :: "sym_ref \<Rightarrow> type_symbol \<Rightarrow> registry \<Rightarrow> registry" where
  "complete_forward_class s new r =
     (let old = sym_at r s;
          r = (case (ts_descriptor old, ts_descriptor new) of
                 (Some d, Some e) \<Rightarrow>
                   bind_descriptor_payload d
                     (upd_desc d (\<lambda>x. x\<lparr>td_expr := ts_expr new,
                        td_metaclass_target := td_metaclass_target (desc_at r e),
                        td_payload := td_payload (desc_at r e)\<rparr>) r)
               | _ \<Rightarrow> r);
          r = upd_sym s (\<lambda>_. new\<lparr>ts_descriptor := ts_descriptor old,
                ts_has_forward := ts_has_forward old\<rparr>) r
      in bind_type_expr_descriptor (ts_expr new) (ts_descriptor old) r)"

definition place_unit_type_symbol ::
  "string option \<Rightarrow> type_symbol \<Rightarrow> bool \<Rightarrow> registry \<Rightarrow> sym_ref \<times> registry" where
  "place_unit_type_symbol u new allow_forward r =
     (case Option.bind (Option.bind u (map_of (units r))) (\<lambda>ui. find_unit_type_symbol ui (ts_name new)) of
        None \<Rightarrow> store_symbol new r
      | Some s \<Rightarrow>
          (s, case (value_class r new, value_class r (sym_at r s)) of
                (Some next_class, Some current_class) \<Rightarrow>
                  if allow_forward \<and> ci_is_forward current_class \<and> \<not> ci_is_forward next_class
                  then complete_forward_class s new r else r
              | _ \<Rightarrow> r))"

definition populate_symbol :: "sym_ref \<Rightarrow> registry \<Rightarrow> registry" where
  "populate_symbol s r =
     (case ts_expr (sym_at r s) of None \<Rightarrow> r | Some t \<Rightarrow> populate_nested_types t s r)"

definition enter_type :: "string option \<Rightarrow> bool \<Rightarrow> string \<Rightarrow> sym_ref \<Rightarrow> registry \<Rightarrow> registry" where
  "enter_type u is_interface n s r =
     (case u of
        None \<Rightarrow> r
      | Some k \<Rightarrow>
          upd_unit k (\<lambda>ui.
            if is_interface \<or> map_of (iface_types ui) n \<noteq> None
            then ui\<lparr>iface_types := assign n s (iface_types ui)\<rparr>
            else ui\<lparr>impl_types := assign n s (impl_types ui)\<rparr>) r)"

definition upsert_unit_type_symbol ::
  "string option \<Rightarrow> bool \<Rightarrow> type_symbol \<Rightarrow> bool \<Rightarrow> registry \<Rightarrow> sym_ref \<times> registry" where
  "upsert_unit_type_symbol u is_interface new allow_forward r =
     (case place_unit_type_symbol u new allow_forward r of
        (s, r) \<Rightarrow>
          let r = bind_symbol_descriptor s (ts_descriptor (sym_at r s)) r;
              r = bind_method_owner_symbol s r;
              r = populate_symbol s r
          in (s, enter_type u is_interface (ts_name new) s r))"

subsection \<open>A list of declarations\<close>

definition insert_unit_storage_symbol :: "string \<Rightarrow> 'v \<Rightarrow> location \<Rightarrow> 'v smap \<Rightarrow> 'v table" where
  "insert_unit_storage_symbol n v loc m =
     (case emplace n v m of (inserted, m) \<Rightarrow> (m, if inserted then [] else [duplicate loc n]))"

text \<open>The state of the loop: the registry and the types of this list (\<open>seen_types\<close>).\<close>

type_synonym decl_state = "registry \<times> texpr_ref smap"

text \<open>Whether a type declaration completes a forward class, and whether it is a duplicate.\<close>

definition type_decl_status ::
  "registry \<Rightarrow> unit_info option \<Rightarrow> bool \<Rightarrow> texpr_ref smap \<Rightarrow> string \<Rightarrow> texpr_ref \<Rightarrow> bool \<times> bool" where
  "type_decl_status r ui is_interface seen n t =
     (let (allow, dup) =
        (case map_of seen n of
           Some prior \<Rightarrow>
             (let allow = (is_forward_reference_class_type r (Some prior) \<and>
                           is_complete_reference_class_type r (Some t))
              in (allow, \<not> allow))
         | None \<Rightarrow>
             (case ui of
                None \<Rightarrow> (False, False)
              | Some u \<Rightarrow>
                  let allow =
                    (case Option.bind (find_unit_type_symbol u n) (\<lambda>s. value_class r (sym_at r s)) of
                       None \<Rightarrow> False
                     | Some ci \<Rightarrow> ci_is_forward ci \<and> is_complete_reference_class_type r (Some t))
                  in (allow, \<not> allow \<and>
                        (map_of (iface_types u) n \<noteq> None \<or>
                         (\<not> is_interface \<and> map_of (impl_types u) n \<noteq> None)))))
      in (allow,
          dup \<or> (\<not> is_interface \<and> \<not> allow \<and>
            (case ui of None \<Rightarrow> False | Some u \<Rightarrow> map_of (iface_types u) n \<noteq> None))))"

definition register_type_decl ::
  "string \<Rightarrow> string option \<Rightarrow> bool \<Rightarrow> texpr_ref type_decl \<Rightarrow> decl_state \<Rightarrow> decl_state" where
  "register_type_decl unit_name u is_interface td st =
     (case st of (r, seen) \<Rightarrow>
        let n = lower (td_name td);
            t = td_type td;
            (allow, dup) = type_decl_status r (Option.bind u (map_of (units r))) is_interface seen n t
        in if dup then (add_reports [duplicate (td_loc td) n] r, seen)
           else
             let (ts, r) = make_type_symbol_for_type r unit_name n t;
                 (s, r) = upsert_unit_type_symbol u is_interface ts allow r;
                 r = set_decl_symbol t s r;
                 r = (case sym_enum r s of None \<Rightarrow> r | Some d \<Rightarrow> index_enum_info u is_interface d r);
                 named = (case te_shape (texpr_at r t) of NEnum _ _ \<Rightarrow> Some t | _ \<Rightarrow> None)
             in (register_enums_in_type u is_interface unit_name t n named r, assign n t seen))"

definition register_proc_decl :: "string \<Rightarrow> string option \<Rightarrow> bool \<Rightarrow> reg_proc \<Rightarrow> registry \<Rightarrow> registry" where
  "register_proc_decl unit_name u is_interface pd r =
     (if pd_of_type pd \<noteq> [] then r
      else if pd_is_operator pd then
        (if is_forward (pd_modifiers pd) then r
         else case u of
           None \<Rightarrow> r
         | Some k \<Rightarrow>
             upd_unit k (\<lambda>ui.
               if is_interface
               then ui\<lparr>iface_operators := push_at (pd_operator_token pd) (make_proc_info unit_name pd)
                         (iface_operators ui)\<rparr>
               else ui\<lparr>impl_operators := push_at (pd_operator_token pd) (make_proc_info unit_name pd)
                         (impl_operators ui)\<rparr>) r)
      else if is_forward (pd_modifiers pd) then r
      else
        (case Option.bind u (map_of (units r)) of
           None \<Rightarrow> r
         | Some ui \<Rightarrow>
             let n = lower (pd_name pd) in
             if has_enum_member ui n then add_reports [duplicate (pd_loc pd) n] r
             else upd_unit (the u) (\<lambda>ui.
                 if is_interface
                 then ui\<lparr>iface_procs := push_at n (make_proc_info unit_name pd) (iface_procs ui)\<rparr>
                 else ui\<lparr>impl_procs := push_at n (make_proc_info unit_name pd) (impl_procs ui)\<rparr>) r))"

definition storage_name_taken :: "unit_info \<Rightarrow> string \<Rightarrow> bool" where
  "storage_name_taken ui n = (find_var ui n \<noteq> None \<or> find_const ui n \<noteq> None \<or> has_enum_member ui n)"

definition register_var_name ::
  "string \<Rightarrow> string option \<Rightarrow> bool \<Rightarrow> location \<Rightarrow> texpr_ref \<Rightarrow> string \<Rightarrow> registry \<Rightarrow> registry" where
  "register_var_name unit_name u is_interface loc t name r =
     (case Option.bind u (map_of (units r)) of
        None \<Rightarrow> r
      | Some ui \<Rightarrow>
          let n = lower name; v = \<lparr>vi_unit = unit_name, vi_type = Some t, vi_loc = loc\<rparr> in
          if storage_name_taken ui n then add_reports [duplicate loc n] r
          else
            (case insert_unit_storage_symbol n v loc
                    (if is_interface then iface_vars ui else impl_vars ui) of
               (m, ds) \<Rightarrow>
                 add_reports ds
                   (upd_unit (the u) (\<lambda>ui. if is_interface then ui\<lparr>iface_vars := m\<rparr>
                                           else ui\<lparr>impl_vars := m\<rparr>) r)))"

definition register_const ::
  "string \<Rightarrow> string option \<Rightarrow> bool \<Rightarrow> location \<Rightarrow> string \<Rightarrow> texpr_ref option \<Rightarrow> expr \<Rightarrow> registry \<Rightarrow> registry"
where
  "register_const unit_name u is_interface loc name t e r =
     (case Option.bind u (map_of (units r)) of
        None \<Rightarrow> r
      | Some ui \<Rightarrow>
          let n = lower name;
              v = \<lparr>co_unit = unit_name, co_type = t, co_value = Some e, co_loc = loc\<rparr> in
          if storage_name_taken ui n then add_reports [duplicate loc n] r
          else
            (case insert_unit_storage_symbol n v loc
                    (if is_interface then iface_consts ui else impl_consts ui) of
               (m, ds) \<Rightarrow>
                 add_reports ds
                   (upd_unit (the u) (\<lambda>ui. if is_interface then ui\<lparr>iface_consts := m\<rparr>
                                           else ui\<lparr>impl_consts := m\<rparr>) r)))"

definition register_decl :: "string \<Rightarrow> string option \<Rightarrow> bool \<Rightarrow> reg_decl \<Rightarrow> decl_state \<Rightarrow> decl_state" where
  "register_decl unit_name u is_interface d st =
     (case d of
        RType td \<Rightarrow> register_type_decl unit_name u is_interface td st
      | RProc pd \<Rightarrow> (register_proc_decl unit_name u is_interface pd (fst st), snd st)
      | RVar loc names t \<Rightarrow>
          let r = fold (register_var_name unit_name u is_interface loc t) names (fst st)
          in (if names = [] then r
              else register_enums_in_type u is_interface unit_name t (lower (hd names)) None r, snd st)
      | RConst loc name t e \<Rightarrow>
          let r = register_const unit_name u is_interface loc name t e (fst st)
          in (case t of
                None \<Rightarrow> r
              | Some t \<Rightarrow> register_enums_in_type u is_interface unit_name t (lower name) None r, snd st)
      | RLabel _ _ \<Rightarrow> st)"

definition register_decl_list :: "registry \<Rightarrow> string \<Rightarrow> reg_decl list \<Rightarrow> bool \<Rightarrow> registry" where
  "register_decl_list r unit_name decls is_interface =
     (let u = (if map_of (units r) unit_name = None then None else Some unit_name)
      in fst (fold (register_decl unit_name u is_interface) decls (r, [])))"

subsection \<open>Types and values of one name\<close>

definition type_value_collision_location :: "registry \<Rightarrow> unit_info \<Rightarrow> string \<Rightarrow> location" where
  "type_value_collision_location r ui n =
     (case find_var ui n of
        Some v \<Rightarrow> vi_loc v
      | None \<Rightarrow>
     (case find_const ui n of
        Some c \<Rightarrow> co_loc c
      | None \<Rightarrow>
     (case Option.bind (find_procs ui n) (\<lambda>ps. find (\<lambda>p. pr_decl p \<noteq> None) ps) of
        Some p \<Rightarrow> pd_loc (the (pr_decl p))
      | None \<Rightarrow>
     (case Option.bind (find_type ui n) (\<lambda>s. ts_expr (sym_at r s)) of
        Some t \<Rightarrow> te_loc (texpr_at r t)
      | None \<Rightarrow> no_location))))"

definition unit_type_names :: "unit_info \<Rightarrow> string list" where
  "unit_type_names ui = remdups (map fst (iface_types ui) @ map fst (impl_types ui))"

definition unit_value_names :: "unit_info \<Rightarrow> string list" where
  "unit_value_names ui =
     map fst (iface_vars ui) @ map fst (impl_vars ui) @ map fst (iface_consts ui) @
     map fst (impl_consts ui) @ map fst (iface_procs ui) @ map fst (impl_procs ui) @
     map fst (iface_enum_members ui) @ map fst (impl_enum_members ui)"

definition report_type_value_collisions :: "unit_info \<Rightarrow> registry \<Rightarrow> registry" where
  "report_type_value_collisions ui r =
     add_reports
       (map (\<lambda>n. duplicate (type_value_collision_location r ui n) n)
          (filter (\<lambda>n. n \<in> set (unit_value_names ui)) (unit_type_names ui))) r"

definition unit_info_for :: "string \<Rightarrow> unit_info" where
  "unit_info_for u =
     \<lparr>ui_name = u, ui_iface_uses = [], ui_impl_uses = [], iface_vars = [], iface_consts = [],
      iface_procs = [], iface_operators = [], iface_types = [], iface_enum_members = [],
      impl_vars = [], impl_consts = [], impl_procs = [], impl_operators = [], impl_types = [],
      impl_enum_members = []\<rparr>"

end
