(* ===== verification/Reg_Decl_Facts.thy ===== *)
theory Reg_Decl_Facts
  imports Reg_Class_Facts Reg_Scope_Facts Reg_Unit
begin

text \<open>
  What entering declarations keeps: payloads point back to their descriptor, a unit's tables
  only grow, reports are only added. Most operations touch neither units nor frames, which is
  the relation \<open>quiet\<close> between the registry before and after.
\<close>

named_theorems quiet \<open>operations that touch descriptors, symbols and types only\<close>

definition quiet :: "registry \<Rightarrow> registry \<Rightarrow> bool" where
  "quiet r r' \<longleftrightarrow>
     units r' = units r \<and> frames r' = frames r \<and>
     method_cache r' = method_cache r \<and> (\<exists>ds. reports r' = reports r @ ds) \<and>
     (payloads_bound r \<longrightarrow> payloads_bound r')"

lemma quiet_refl [simp]: "quiet r r"
  by (simp add: quiet_def)

lemma quiet_trans: "quiet a b \<Longrightarrow> quiet b c \<Longrightarrow> quiet a c"
  by (auto simp: quiet_def)

lemma quiet_after: "quiet b c \<Longrightarrow> quiet a b \<Longrightarrow> quiet a c"
  by (rule quiet_trans)

text \<open>\<open>payloads_bound\<close> in terms of the descriptors alone.\<close>

definition bound_at :: "nat \<Rightarrow> type_descriptor \<Rightarrow> bool" where
  "bound_at d x \<longleftrightarrow> (case td_payload x of ClassPayload ci \<Rightarrow> ci_descriptor ci = Some d | _ \<Rightarrow> True)"

lemma payloads_bound_iff:
  "payloads_bound r \<longleftrightarrow> (\<forall>d<length (descriptors r). bound_at d (desc_at r d))"
  by (auto simp: payloads_bound_def list_all_iff class_at_def payload_at_def bound_at_def
      split: payload.splits)

lemma payloads_bound_same: "descriptors r' = descriptors r \<Longrightarrow> payloads_bound r' = payloads_bound r"
  by (simp add: payloads_bound_iff)

lemma bound_at_simps [simp]:
  "bound_at d (x\<lparr>td_symbol := a\<rparr>) = bound_at d x"
  "bound_at d (x\<lparr>td_expr := b\<rparr>) = bound_at d x"
  by (simp_all add: bound_at_def)

lemma bind_payload_bound: "bound_at d (td_payload_update (bind_payload d) x)"
  by (simp add: bound_at_def bind_payload_def split: payload.splits)

lemma own_payload_bound: "bound_at d (td_payload_update (own_payload s) x) = bound_at d x"
  by (simp add: bound_at_def own_payload_def split: payload.splits)

lemma nested_payload_bound: "bound_at d (td_payload_update (nested_payload f) x) = bound_at d x"
  by (simp add: bound_at_def nested_payload_def split: payload.splits)

lemma quiet_upd_desc:
  assumes "bound_at d (desc_at r d) \<Longrightarrow> bound_at d (f (desc_at r d))"
  shows "quiet r (upd_desc d f r)"
proof -
  have "bound_at e ((descriptors r)[d := f (desc_at r d)] ! e)"
    if "\<forall>d<length (descriptors r). bound_at d (desc_at r d)" "e < length (descriptors r)" for e
    using that assms by (cases "e = d") auto
  then show ?thesis by (auto simp: quiet_def upd_desc_def payloads_bound_iff)
qed

lemma quiet_upd_sym [quiet]: "quiet r (upd_sym s f r)"
  by (simp add: quiet_def upd_sym_def payloads_bound_iff)

lemma quiet_upd_texpr [quiet]: "quiet r (upd_texpr t f r)"
  by (simp add: quiet_def upd_texpr_def payloads_bound_iff)

lemma quiet_add_reports [quiet]: "quiet r (add_reports ds r)"
  by (simp add: quiet_def add_reports_def payloads_bound_iff)

lemma quiet_report [quiet]: "quiet r (report loc msg r)"
  by (simp add: quiet_def report_def payloads_bound_iff)

lemma quiet_store_symbol [quiet]: "quiet r (snd (store_symbol ts r))"
  by (simp add: quiet_def store_symbol_def payloads_bound_iff)

lemma quiet_set_decl_symbol [quiet]: "quiet r (set_decl_symbol t s r)"
  by (simp add: quiet_def set_decl_symbol_def payloads_bound_iff)

lemma quiet_nested_symbols [quiet]: "quiet r (r\<lparr>nested_symbols := m\<rparr>)"
  by (simp add: quiet_def payloads_bound_iff)

lemma quiet_enum_by_unit [quiet]: "quiet r (r\<lparr>enum_by_unit := m\<rparr>)"
  by (simp add: quiet_def payloads_bound_iff)

lemma quiet_bind_descriptor_payload [quiet]: "quiet r (bind_descriptor_payload d r)"
  unfolding bind_descriptor_payload_def by (rule quiet_upd_desc) (rule bind_payload_bound)

lemma bound_at_payload: "td_payload y = td_payload x \<Longrightarrow> bound_at d y = bound_at d x"
  by (simp add: bound_at_def)

lemma quiet_edges [quiet]: "quiet r (initialize_structural_descriptor_edges d r)"
  by (auto simp: initialize_structural_descriptor_edges_def bound_at_def
      intro!: quiet_upd_desc split: option.splits shape.splits)

lemma quiet_make_type_descriptor [quiet]: "quiet r (snd (make_type_descriptor r t s p i))"
proof -
  let ?d = "length (descriptors r)"
  let ?x = "new_descriptor (?d + 1) t s None p i"
  have "quiet r (bind_descriptor_payload ?d (push_descriptor ?x r))"
    using bind_payload_bound [of ?d ?x]
    by (auto simp: quiet_def bind_descriptor_payload_def push_descriptor_def upd_desc_def
        payloads_bound_iff nth_append nth_list_update less_Suc_eq)
  from quiet_trans [OF this quiet_edges] show ?thesis
    by (simp add: make_type_descriptor_def Let_def)
qed

lemma quiet_bind_type_expr_descriptor [quiet]: "quiet r (bind_type_expr_descriptor t d r)"
  by (auto simp: bind_type_expr_descriptor_def intro: quiet split: option.splits)

lemma quiet_bind_symbol_descriptor [quiet]: "quiet r (bind_symbol_descriptor s d r)"
proof (cases d)
  case (Some e)
  let ?r = "upd_sym s (\<lambda>x. x\<lparr>ts_descriptor := Some e\<rparr>) r"
  have "quiet ?r (upd_desc e (\<lambda>x. x\<lparr>td_symbol := Some s\<rparr>) ?r)" by (rule quiet_upd_desc) simp
  then show ?thesis
    using quiet_upd_sym [of r s] quiet_bind_type_expr_descriptor quiet_trans Some
    unfolding bind_symbol_descriptor_def Let_def by (simp split: if_splits) (meson quiet_trans)
qed (simp add: bind_symbol_descriptor_def)

lemma quiet_bind_method_owner_symbol [quiet]: "quiet r (bind_method_owner_symbol s r)"
  by (auto simp: bind_method_owner_symbol_def own_payload_bound intro!: quiet_upd_desc split: option.splits)

lemma quiet_upd_nested [quiet]: "quiet r (upd_nested s f r)"
  by (auto simp: upd_nested_def nested_payload_bound intro!: quiet_upd_desc split: option.splits)

lemma quiet_report_local_enum_duplicates [quiet]: "quiet r (report_local_enum_duplicates t r)"
  by (auto simp: report_local_enum_duplicates_def intro: quiet split: shape.splits)

lemma quiet_make_type_symbol [quiet]:
  "quiet r (snd (make_type_symbol_for_type_with_owner r u n t path))"
proof (cases "semantic_payload_for_type r (lower u) (lower n) path t")
  case (Pair p ds)
  let ?q = "add_reports ds r"
  have "quiet r ?q" by (rule quiet)
  moreover obtain d q' where m: "make_type_descriptor ?q (Some t) None p None = (d, q')" by fastforce
  moreover from this have "quiet ?q q'" using quiet_make_type_descriptor [of ?q "Some t" None p None] by simp
  ultimately show ?thesis
    using quiet_bind_type_expr_descriptor [of q'] Pair
    by (auto simp: make_type_symbol_for_type_with_owner_def Let_def intro: quiet_trans)
qed

lemma quiet_upsert_nested [quiet]:
  assumes "\<And>c q. quiet q (populate c q)"
  shows "quiet r (snd (upsert_nested_type_symbol populate r s td path))"
proof -
  let ?key = "nested_type_symbol_key (ts_unit (sym_at r s)) path (td_name td)"
  let ?found = "map_of (nested_symbols r) ?key"
  obtain ts q where m: "make_type_symbol_for_type_with_owner r (ts_unit (sym_at r s)) (td_name td)
      (td_type td) path = (ts, q)" by fastforce
  with quiet_make_type_symbol have q: "quiet r q" by (metis snd_conv)
  obtain c q1 where st: "store_symbol ts q = (c, q1)" by fastforce
  with quiet_store_symbol have q1: "quiet q q1" by (metis snd_conv)
  have "quiet r (set_decl_symbol (td_type td) c (populate c (bind_method_owner_symbol c
      (report_local_enum_duplicates (td_type td) (bind_symbol_descriptor c (ts_descriptor ts)
        (q1\<lparr>nested_symbols := assign ?key c (nested_symbols q1)\<rparr>))))))"
    by (intro quiet_after [OF quiet_set_decl_symbol] quiet_after [OF assms]
        quiet_after [OF quiet_bind_method_owner_symbol]
        quiet_after [OF quiet_report_local_enum_duplicates] quiet_after [OF quiet_bind_symbol_descriptor]
        quiet_after [OF quiet_nested_symbols] quiet_trans [OF q q1])
  moreover have "quiet r (set_decl_symbol (td_type td) slot (report loc msg q))" for slot loc msg
    by (intro quiet_after [OF quiet_set_decl_symbol] quiet_after [OF quiet_report] q)
  ultimately show ?thesis
    by (simp add: upsert_nested_type_symbol_def Let_def m st split: option.splits)
qed

declare populate_nested_types.simps [simp del] append_enum_types.simps [simp del]

lemma quiet_fold:
  assumes "\<And>x q w. quiet q (fst (f x (q, w)))"
  shows "quiet r (fst (fold f xs (r, w)))"
proof (induction xs arbitrary: r w)
  case (Cons x xs)
  obtain q v where "f x (r, w) = (q, v)" by fastforce
  with assms [of r x w] Cons [of q v] show ?case by (auto intro: quiet_trans)
qed simp

lemma quiet_populate_nested_types [quiet]: "quiet r (populate_nested_types t s r)"
proof (induction t arbitrary: s r rule: less_induct)
  case (less t)
  show ?case
  proof (cases "nested_type_map r s = None \<or> nested_decls (te_shape (texpr_at r t)) = None")
    case True
    then show ?thesis by (subst populate_nested_types.simps) (auto split: option.splits)
  next
    case False
    then obtain m tds where md: "nested_type_map r s = Some m"
      "nested_decls (te_shape (texpr_at r t)) = Some tds" by auto
    let ?path = "ts_owner_path (sym_at r s) @ [ts_name (sym_at r s)]"
    let ?f = "\<lambda>td (r, wanted). if td_type td < t then
        (case upsert_nested_type_symbol (\<lambda>c r. populate_nested_types (td_type td) c r) r s td ?path of
           (c, r) \<Rightarrow> let n = ts_name (sym_at r c) in (upd_nested s (assign n c) r, wanted @ [n]))
        else (r, wanted)"
    have step: "quiet q (fst (?f td (q, w)))" for td q w
    proof (cases "td_type td < t")
      case True
      have "quiet q (snd (upsert_nested_type_symbol (\<lambda>c r. populate_nested_types (td_type td) c r) q s td ?path))"
        by (rule quiet_upsert_nested) (rule less [OF True])
      then show ?thesis
        using True quiet_upd_nested by (auto simp: Let_def split: prod.splits intro: quiet_trans)
    qed simp
    obtain q w where f: "fold ?f tds (r, []) = (q, w)" by fastforce
    with quiet_fold [of ?f r tds "[]", OF step] have "quiet r q" by simp
    moreover have "populate_nested_types t s r = upd_nested s (filter (\<lambda>(n, _). n \<in> set w)) q"
      using f by (subst populate_nested_types.simps) (simp add: md Let_def)
    ultimately show ?thesis using quiet_upd_nested quiet_trans by metis
  qed
qed

lemma upd_desc_twice: "upd_desc d g (upd_desc d f r) = upd_desc d (\<lambda>x. g (f x)) r"
  by (cases "d < length (descriptors r)") (simp_all add: upd_desc_def list_update_beyond)

lemma quiet_rebind: "quiet r (bind_descriptor_payload d (upd_desc d f r))"
  unfolding bind_descriptor_payload_def upd_desc_twice by (rule quiet_upd_desc) (rule bind_payload_bound)

lemma quiet_ensure_enum [quiet]: "quiet r (snd (ensure_enum_descriptor_info r t u name cxx))"
proof -
  obtain d q where m: "make_type_descriptor r (Some t) None NoPayload None = (d, q)" by fastforce
  then have "quiet r q" using quiet_make_type_descriptor [of r "Some t" None NoPayload None] by simp
  then have "quiet r (bind_type_expr_descriptor (Some t) (Some d) q)"
    by (rule quiet_after [OF quiet_bind_type_expr_descriptor])
  then show ?thesis
    by (auto simp: ensure_enum_descriptor_info_def Let_def m intro: quiet_rebind quiet_after [OF quiet_rebind]
        split: option.splits)
qed

lemma quiet_complete_forward_class [quiet]: "quiet r (complete_forward_class s new r)"
  unfolding complete_forward_class_def Let_def
  by (intro quiet_after [OF quiet_bind_type_expr_descriptor] quiet_after [OF quiet_upd_sym])
    (auto intro: quiet_rebind split: option.splits)

lemma quiet_place [quiet]: "quiet r (snd (place_unit_type_symbol u new allow r))"
  by (auto simp: place_unit_type_symbol_def intro: quiet split: option.splits)

lemma quiet_populate_symbol [quiet]: "quiet r (populate_symbol s r)"
  by (auto simp: populate_symbol_def intro: quiet split: option.splits)

subsection \<open>Tables that only grow\<close>

text \<open>A list of overloads gets later declarations at its end.\<close>

definition lists_grow :: "'v list smap \<Rightarrow> 'v list smap \<Rightarrow> bool" where
  "lists_grow m m' \<longleftrightarrow> (\<forall>k vs. map_of m k = Some vs \<longrightarrow> (\<exists>ws. map_of m' k = Some (vs @ ws)))"

definition unit_grows :: "unit_info \<Rightarrow> unit_info \<Rightarrow> bool" where
  "unit_grows a b \<longleftrightarrow>
     map_of (iface_vars a) \<subseteq>\<^sub>m map_of (iface_vars b) \<and> map_of (impl_vars a) \<subseteq>\<^sub>m map_of (impl_vars b) \<and>
     map_of (iface_consts a) \<subseteq>\<^sub>m map_of (iface_consts b) \<and>
     map_of (impl_consts a) \<subseteq>\<^sub>m map_of (impl_consts b) \<and>
     map_of (iface_types a) \<subseteq>\<^sub>m map_of (iface_types b) \<and>
     map_of (impl_types a) \<subseteq>\<^sub>m map_of (impl_types b) \<and> find_type a \<subseteq>\<^sub>m find_type b \<and>
     map_of (iface_enum_members a) \<subseteq>\<^sub>m map_of (iface_enum_members b) \<and>
     map_of (impl_enum_members a) \<subseteq>\<^sub>m map_of (impl_enum_members b) \<and>
     lists_grow (iface_procs a) (iface_procs b) \<and> lists_grow (impl_procs a) (impl_procs b) \<and>
     lists_grow (iface_operators a) (iface_operators b) \<and>
     lists_grow (impl_operators a) (impl_operators b)"

text \<open>
  Names of values of one unit: a variable, a constant and a label never share one, nor do a
  routine and a label. While an interface is entered there is no implementation yet.
\<close>

definition name_clear :: "unit_info \<Rightarrow> string \<Rightarrow> bool" where
  "name_clear ui n \<longleftrightarrow>
     (find_var ui n \<noteq> None \<longrightarrow> find_const ui n = None \<and> \<not> has_enum_member ui n) \<and>
     (find_const ui n \<noteq> None \<longrightarrow> \<not> has_enum_member ui n) \<and>
     (find_procs ui n \<noteq> None \<longrightarrow> \<not> has_enum_member ui n)"

definition value_names_clear :: "unit_info \<Rightarrow> bool" where
  "value_names_clear ui \<longleftrightarrow> (\<forall>n. name_clear ui n)"

definition implementation_empty :: "unit_info \<Rightarrow> bool" where
  "implementation_empty ui \<longleftrightarrow> impl_vars ui = [] \<and> impl_consts ui = [] \<and> impl_procs ui = []"

definition unit_clear :: "string \<Rightarrow> bool \<Rightarrow> registry \<Rightarrow> bool" where
  "unit_clear u is_interface r \<longleftrightarrow>
     (\<forall>ui. map_of (units r) u = Some ui \<longrightarrow>
        value_names_clear ui \<and> (is_interface \<longrightarrow> implementation_empty ui))"

text \<open>
  What each step of \<open>register_decl_list\<close> does to the registry; \<open>unit_clear\<close> is only kept
  where nothing is reported.
\<close>

definition enters :: "string \<Rightarrow> bool \<Rightarrow> registry \<Rightarrow> registry \<Rightarrow> bool" where
  "enters u i r r' \<longleftrightarrow>
     frames r' = frames r \<and> method_cache r' = method_cache r \<and> (\<exists>ds. reports r' = reports r @ ds) \<and>
     (payloads_bound r \<longrightarrow> payloads_bound r') \<and>
     (\<forall>k. map_of (units r') k = None \<longleftrightarrow> map_of (units r) k = None) \<and>
     (\<forall>k a b. map_of (units r) k = Some a \<longrightarrow> map_of (units r') k = Some b \<longrightarrow> unit_grows a b) \<and>
     (unit_clear u i r \<longrightarrow> reports r' = reports r \<longrightarrow> unit_clear u i r')"

lemma lists_grow_refl [simp]: "lists_grow m m"
  by (auto simp: lists_grow_def)

lemma lists_grow_trans: "lists_grow a b \<Longrightarrow> lists_grow b c \<Longrightarrow> lists_grow a c"
  unfolding lists_grow_def by fastforce

lemma lists_grow_push_at: "lists_grow m (push_at k v m)"
  by (auto simp: lists_grow_def push_at_def split: option.splits)

lemma unit_grows_refl [simp]: "unit_grows a a"
  by (simp add: unit_grows_def)

lemma unit_grows_trans: "unit_grows a b \<Longrightarrow> unit_grows b c \<Longrightarrow> unit_grows a c"
  unfolding unit_grows_def by (meson map_le_trans lists_grow_trans)

lemma enters_refl [simp]: "enters u i r r"
  by (simp add: enters_def)

lemma enters_trans:
  assumes ab: "enters u i a b" and bc: "enters u i b c"
  shows "enters u i a c"
proof -
  have "unit_grows x z" if "map_of (units a) k = Some x" "map_of (units c) k = Some z" for k x z
  proof -
    from ab that(1) obtain y where y: "map_of (units b) k = Some y" by (fastforce simp: enters_def)
    with ab bc that have "unit_grows x y" "unit_grows y z" by (auto simp: enters_def)
    then show ?thesis by (rule unit_grows_trans)
  qed
  then show ?thesis using ab bc by (auto simp: enters_def)
qed

lemma enters_after: "enters u i b c \<Longrightarrow> enters u i a b \<Longrightarrow> enters u i a c"
  by (rule enters_trans)

lemma enters_clear:
  "enters u i r r' \<Longrightarrow> unit_clear u i r \<Longrightarrow> reports r' = reports r \<Longrightarrow> unit_clear u i r'"
  by (simp add: enters_def)

lemma enters_reports:
  assumes "enters u i r r'"
  obtains ds where "reports r' = reports r @ ds"
  using assms unfolding enters_def by blast

lemma quiet_enters: "quiet a b \<Longrightarrow> enters u i a b"
  by (auto simp: quiet_def enters_def unit_clear_def)

lemma enters_unit:
  assumes "map_of (units r) u = Some ui" "unit_grows ui ui'"
    and "ds = [] \<Longrightarrow> value_names_clear ui \<Longrightarrow> (i \<longrightarrow> implementation_empty ui) \<Longrightarrow>
      value_names_clear ui' \<and> (i \<longrightarrow> implementation_empty ui')"
    and "units r' = assign u ui' (units r)" "reports r' = reports r @ ds"
    and "frames r' = frames r" "method_cache r' = method_cache r" "descriptors r' = descriptors r"
  shows "enters u i r r'"
  using assms by (auto simp: enters_def unit_clear_def payloads_bound_iff)

subsection \<open>Each kind of declaration\<close>

lemma find_in_None: "find_in a b n = None \<longleftrightarrow> map_of a n = None \<and> map_of b n = None"
  by (simp add: find_in_def split: option.splits)

lemmas unit_lookups =
  find_var_def find_const_def find_procs_def find_type_def has_enum_member_def find_in_None
  find_export_var_def find_export_const_def find_export_procs_def

lemma emplace_grows: "map_of m \<subseteq>\<^sub>m map_of (snd (emplace k v m))"
  by (auto simp: map_of_emplace map_le_def)

lemma add_labels_grow:
  "map_of m \<subseteq>\<^sub>m map_of (add_labels d ls m) \<and>
   (\<forall>n. map_of (add_labels d ls m) n = None \<longleftrightarrow> map_of m n = None \<and> n \<notin> set ls)"
proof -
  have "map_of m \<subseteq>\<^sub>m map_of (fold (\<lambda>(i, l) acc. snd (emplace l \<lparr>em_owner = d, em_index = i\<rparr> acc)) xs m) \<and>
    (\<forall>n. map_of (fold (\<lambda>(i, l) acc. snd (emplace l \<lparr>em_owner = d, em_index = i\<rparr> acc)) xs m) n = None \<longleftrightarrow>
      map_of m n = None \<and> n \<notin> snd ` set xs)" for xs :: "(nat \<times> string) list"
  proof (induction xs arbitrary: m)
    case (Cons x xs)
    obtain i l where x: "x = (i, l)" by fastforce
    have "map_of m \<subseteq>\<^sub>m map_of (snd (emplace l \<lparr>em_owner = d, em_index = i\<rparr> m))" by (rule emplace_grows)
    with Cons.IH [of "snd (emplace l \<lparr>em_owner = d, em_index = i\<rparr> m)"] show ?case
      by (auto simp: x map_of_emplace intro: map_le_trans)
  qed simp
  from this [of "enumerate 0 ls"] show ?thesis
    by (simp add: add_labels_def) (metis map_snd_enumerate set_map)
qed

lemma index_labels_reports:
  "\<exists>ds. snd (index_labels loc taken d j seen ms acc) = snd acc @ ds \<and>
        (ds = [] \<longrightarrow> (\<forall>m\<in>set ms. \<not> taken m))"
proof (induction loc taken d j seen ms acc rule: index_labels.induct)
  case (2 loc taken d j seen m ms acc)
  then show ?case by (auto split: option.splits)
qed simp

lemma enters_index_enum:
  assumes "u = None \<or> u = Some k"
  shows "enters k i r (index_enum_info u i d r)"
proof (cases "enum_at r d")
  case None
  then show ?thesis by (simp add: index_enum_info_def)
next
  case (Some info)
  show ?thesis
  proof (cases "ei_type info")
    case None
    with Some show ?thesis by (simp add: index_enum_info_def)
  next
    case t: (Some t)
    let ?taken = "\<lambda>m. case Option.bind u (map_of (units r)) of
       None \<Rightarrow> False | Some ui \<Rightarrow> unit_value_name_is_taken ui i m"
    let ?tab = "case map_of (enum_by_unit r) (ei_unit info) of None \<Rightarrow> [] | Some m \<Rightarrow> m"
    obtain tab ds where ix: "index_labels (te_loc (texpr_at r t)) ?taken d 0 [] (ei_members info) (?tab, []) = (tab, ds)"
      by fastforce
    let ?q = "add_reports ds (r\<lparr>enum_by_unit := assign (ei_unit info) tab (enum_by_unit r)\<rparr>)"
    have eq: "index_enum_info u i d r = add_unit_enum_members u i d (ei_members info) ?q"
      by (simp add: index_enum_info_def Some t ix Let_def)
    have quiet: "quiet r ?q" by (rule quiet_after [OF quiet_add_reports quiet_enum_by_unit])
    show ?thesis
    proof (cases "Option.bind u (map_of (units r))")
      case None
      with quiet have "index_enum_info u i d r = ?q"
        by (auto simp: eq add_unit_enum_members_def upd_unit_def quiet_def split: option.splits)
      with quiet show ?thesis by (simp add: quiet_enters)
    next
      case ui: (Some ui)
      with assms have u: "u = Some k" "map_of (units r) k = Some ui" by auto
      have free: "\<forall>m\<in>set (ei_members info). \<not> unit_value_name_is_taken ui i m" if "ds = []"
        using index_labels_reports [of "te_loc (texpr_at r t)" ?taken d 0 "[]" "ei_members info" "(?tab, [])"]
        unfolding ix using that u by simp
      let ?ui = "if i then ui\<lparr>iface_enum_members := add_labels d (ei_members info) (iface_enum_members ui)\<rparr>
                 else ui\<lparr>impl_enum_members := add_labels d (ei_members info) (impl_enum_members ui)\<rparr>"
      show ?thesis
        unfolding eq
      proof (rule enters_unit [of r k ui ?ui ds])
        show "unit_grows ui ?ui" using add_labels_grow by (auto simp: unit_grows_def find_type_def)
        assume "ds = []" "value_names_clear ui" "i \<longrightarrow> implementation_empty ui"
        with free show "value_names_clear ?ui \<and> (i \<longrightarrow> implementation_empty ?ui)"
          using add_labels_grow
          by (auto simp: value_names_clear_def name_clear_def implementation_empty_def unit_lookups
              unit_value_name_is_taken_def split: if_splits)
      qed (simp_all add: u add_unit_enum_members_def upd_unit_def add_reports_def)
    qed
  qed
qed

lemma enters_enum_list:
  assumes "u = None \<or> u = Some k"
  shows "enters k i r (register_enum_list u i unit_name owner named j ts r)"
proof (induction ts arbitrary: j r)
  case (Cons t ts)
  let ?e = "ensure_enum_descriptor_info r t unit_name
    (unit_name @ ''$'' @ owner @ ''$enum'' @ decimal j) (type_mangle owner @ ''_enum'' @ decimal j)"
  have "enters k i r (index_enum_info u i (fst ?e) (snd ?e))"
    by (rule enters_after [OF enters_index_enum [OF assms] quiet_enters [OF quiet_ensure_enum]])
  then have "enters k i r (register_enum_list u i unit_name owner named (Suc j) ts
    (index_enum_info u i (fst ?e) (snd ?e)))"
    by (rule enters_trans) (rule Cons.IH)
  with Cons.IH show ?case by (cases "named = Some t") (simp_all add: case_prod_unfold)
qed simp

lemma enters_enums_in_type:
  "u = None \<or> u = Some k \<Longrightarrow> enters k i r (register_enums_in_type u i unit_name t owner named r)"
  unfolding register_enums_in_type_def by (rule enters_enum_list)

text \<open>A symbol that is placed is the one already found under its name, if there is one.\<close>

lemma placed_symbol:
  "map_of (units r) k = Some ui \<Longrightarrow> place_unit_type_symbol (Some k) new allow r = (s, q) \<Longrightarrow>
   find_type ui (ts_name new) = None \<or> find_type ui (ts_name new) = Some s"
  by (auto simp: place_unit_type_symbol_def find_unit_type_symbol_def find_type_def find_in_def
      split: option.splits)

lemma enters_upsert_type:
  assumes u: "u = None \<or> u = Some k"
  shows "enters k i r (snd (upsert_unit_type_symbol u i new allow r))"
proof -
  obtain s q where sq: "place_unit_type_symbol u new allow r = (s, q)" by fastforce
  have "quiet r (snd (place_unit_type_symbol u new allow r))" by (rule quiet_place)
  then have q: "quiet r q" by (simp add: sq)
  let ?q = "populate_symbol s (bind_method_owner_symbol s
    (bind_symbol_descriptor s (ts_descriptor (sym_at q s)) q))"
  have r: "quiet r ?q"
    by (intro quiet_after [OF quiet_populate_symbol] quiet_after [OF quiet_bind_method_owner_symbol]
        quiet_after [OF quiet_bind_symbol_descriptor] q)
  have eq: "snd (upsert_unit_type_symbol u i new allow r) = enter_type u i (ts_name new) s ?q"
    by (simp add: upsert_unit_type_symbol_def sq Let_def)
  show ?thesis
  proof (cases "Option.bind u (map_of (units r))")
    case None
    with r have "enter_type u i (ts_name new) s ?q = ?q"
      by (auto simp: enter_type_def upd_unit_def quiet_def split: option.splits)
    with r show ?thesis by (simp add: eq quiet_enters)
  next
    case (Some ui)
    with u have u: "u = Some k" and ui: "map_of (units r) k = Some ui" by auto
    let ?n = "ts_name new"
    let ?f = "\<lambda>ui. if i \<or> map_of (iface_types ui) ?n \<noteq> None
      then ui\<lparr>iface_types := assign ?n s (iface_types ui)\<rparr>
      else ui\<lparr>impl_types := assign ?n s (impl_types ui)\<rparr>"
    have s: "find_type ui ?n = None \<or> find_type ui ?n = Some s"
      using placed_symbol [OF ui] sq u by blast
    have uq: "map_of (units ?q) k = Some ui" using r ui by (simp add: quiet_def)
    have "enters k i ?q (enter_type u i ?n s ?q)"
    proof (rule enters_unit [OF uq, of "?f ui" "[]"])
      show "unit_grows ui (?f ui)" using s
        by (auto simp: unit_grows_def map_le_def find_type_def find_in_def split: option.splits if_splits)
    qed (simp_all add: enter_type_def u upd_unit_def uq value_names_clear_def
        name_clear_def implementation_empty_def unit_lookups)
    then show ?thesis unfolding eq by (rule enters_after) (rule quiet_enters [OF r])
  qed
qed

lemma enters_type_decl:
  assumes "u = None \<or> u = Some k"
  shows "enters k i r (fst (register_type_decl unit_name u i td (r, seen)))"
proof -
  let ?t = "td_type td" and ?n = "lower (td_name td)"
  obtain allow dup where st: "type_decl_status r (Option.bind u (map_of (units r))) i seen ?n ?t = (allow, dup)"
    by fastforce
  obtain ts q where mk: "make_type_symbol_for_type r unit_name ?n ?t = (ts, q)" by fastforce
  have "quiet r (snd (make_type_symbol_for_type r unit_name ?n ?t))"
    unfolding make_type_symbol_for_type_def by (rule quiet_make_type_symbol)
  then have q: "enters k i r q" unfolding mk by (simp add: quiet_enters)
  obtain s q1 where up: "upsert_unit_type_symbol u i ts allow q = (s, q1)" by fastforce
  have "enters k i q (snd (upsert_unit_type_symbol u i ts allow q))" by (rule enters_upsert_type [OF assms])
  then have "enters k i r q1" unfolding up using q by (auto intro: enters_trans)
  then have q2: "enters k i r (set_decl_symbol ?t s q1)"
    by (rule enters_after [OF quiet_enters [OF quiet_set_decl_symbol]])
  show ?thesis
    by (auto simp: register_type_decl_def Let_def st mk up
        intro: quiet_enters quiet_add_reports q2 enters_after [OF enters_enums_in_type [OF assms]]
          enters_after [OF enters_index_enum [OF assms]] split: option.splits)
qed

lemma name_clear_at: "value_names_clear a \<Longrightarrow> name_clear a x"
  by (simp add: value_names_clear_def)

lemma clear_step:
  assumes "value_names_clear a" "name_clear b n" "\<And>x. x \<noteq> n \<Longrightarrow> name_clear b x = name_clear a x"
  shows "value_names_clear b"
  unfolding value_names_clear_def
proof
  fix x
  show "name_clear b x" using assms(2,3) name_clear_at [OF assms(1)] by (cases "x = n") simp_all
qed

lemma clear_new_proc:
  assumes "value_names_clear a" "\<not> has_enum_member a n"
    and "\<And>x. find_procs b x = None \<longleftrightarrow> find_procs a x = None \<and> x \<noteq> n"
    and "find_var b = find_var a" "has_enum_member b = has_enum_member a" "find_const b = find_const a"
  shows "value_names_clear b"
  using name_clear_at [OF assms(1), of n] assms(2)
  by (intro clear_step [OF assms(1), of b n]) (auto simp: name_clear_def assms(3-))

lemma enters_upd_unit:
  assumes "map_of (units r) k = Some ui" "unit_grows ui (f ui)"
    and "value_names_clear ui \<Longrightarrow> (i \<longrightarrow> implementation_empty ui) \<Longrightarrow>
      value_names_clear (f ui) \<and> (i \<longrightarrow> implementation_empty (f ui))"
  shows "enters k i r (add_reports ds (upd_unit k f r))"
  by (rule enters_unit [OF assms(1,2), of ds]) (use assms in \<open>simp_all add: upd_unit_def add_reports_def\<close>)

lemma add_no_reports [simp]: "add_reports [] r = r"
  by (simp add: add_reports_def)

lemma keys_push_at: "map_of (push_at n v m) k = None \<longleftrightarrow> map_of m k = None \<and> k \<noteq> n"
  by (simp add: push_at_def)

lemma enters_proc_decl:
  assumes u: "u = None \<or> u = Some k"
  shows "enters k i r (register_proc_decl unit_name u i pd r)"
proof (cases "Option.bind u (map_of (units r))")
  case None
  then show ?thesis by (auto simp: register_proc_decl_def upd_unit_def split: option.splits)
next
  case (Some ui)
  with u have u: "u = Some k" and ui: "map_of (units r) k = Some ui" by auto
  let ?p = "make_proc_info unit_name pd" and ?n = "lower (pd_name pd)"
  note grow = enters_upd_unit [OF ui, where i = i and ds = "[]", simplified]
  have "enters k i r (upd_unit k (\<lambda>ui. if i
      then ui\<lparr>iface_operators := push_at tok ?p (iface_operators ui)\<rparr>
      else ui\<lparr>impl_operators := push_at tok ?p (impl_operators ui)\<rparr>) r)" for tok
    by (rule grow) (auto simp: unit_grows_def lists_grow_push_at find_type_def value_names_clear_def
        name_clear_def implementation_empty_def unit_lookups)
  moreover let ?f = "\<lambda>ui. if i
      then ui\<lparr>iface_procs := push_at ?n ?p (iface_procs ui)\<rparr>
      else ui\<lparr>impl_procs := push_at ?n ?p (impl_procs ui)\<rparr>"
  have "enters k i r (upd_unit k ?f r)" if "\<not> has_enum_member ui ?n"
  proof (rule grow)
    show "value_names_clear (?f ui) \<and> (i \<longrightarrow> implementation_empty (?f ui))"
      if "value_names_clear ui" "i \<longrightarrow> implementation_empty ui"
      using that(2)
      by (intro conjI clear_new_proc [OF that(1) \<open>\<not> has_enum_member ui ?n\<close>])
        (auto simp: implementation_empty_def unit_lookups keys_push_at fun_eq_iff)
  qed (auto simp: unit_grows_def lists_grow_push_at find_type_def)
  ultimately show ?thesis
    by (auto simp: register_proc_decl_def u ui Let_def intro: quiet_enters quiet_add_reports)
qed

lemma storage_inserted:
  "insert_unit_storage_symbol n v loc m = (m', ds) \<Longrightarrow>
   map_of m \<subseteq>\<^sub>m map_of m' \<and> (\<forall>k. map_of m' k = None \<longleftrightarrow> map_of m k = None \<and> k \<noteq> n)"
  by (auto simp: insert_unit_storage_symbol_def emplace_def map_le_def split: if_splits option.splits)

lemma clear_new_var:
  assumes "value_names_clear a" "\<not> storage_name_taken a n"
    and "\<And>x. find_var b x = None \<longleftrightarrow> find_var a x = None \<and> x \<noteq> n"
    and "find_const b = find_const a" "has_enum_member b = has_enum_member a" "find_procs b = find_procs a"
  shows "value_names_clear b"
  using name_clear_at [OF assms(1), of n] assms(2)
  by (intro clear_step [OF assms(1), of b n]) (auto simp: name_clear_def storage_name_taken_def assms(3-))

lemma clear_new_const:
  assumes "value_names_clear a" "\<not> storage_name_taken a n"
    and "\<And>x. find_const b x = None \<longleftrightarrow> find_const a x = None \<and> x \<noteq> n"
    and "find_var b = find_var a" "has_enum_member b = has_enum_member a" "find_procs b = find_procs a"
  shows "value_names_clear b"
  using name_clear_at [OF assms(1), of n] assms(2)
  by (intro clear_step [OF assms(1), of b n]) (auto simp: name_clear_def storage_name_taken_def assms(3-))

lemma enters_var_name:
  assumes u: "u = None \<or> u = Some k"
  shows "enters k i r (register_var_name unit_name u i loc t name r)"
proof (cases "Option.bind u (map_of (units r))")
  case None
  then show ?thesis by (simp add: register_var_name_def)
next
  case (Some ui)
  with u have u: "u = Some k" and ui: "map_of (units r) k = Some ui" by auto
  let ?n = "lower name" and ?v = "\<lparr>vi_unit = unit_name, vi_type = Some t, vi_loc = loc\<rparr>"
  let ?m = "if i then iface_vars ui else impl_vars ui"
  obtain m ds where ins: "insert_unit_storage_symbol ?n ?v loc ?m = (m, ds)" by fastforce
  let ?f = "\<lambda>ui. if i then ui\<lparr>iface_vars := m\<rparr> else ui\<lparr>impl_vars := m\<rparr>"
  have eq: "register_var_name unit_name u i loc t name r =
      (if storage_name_taken ui ?n then add_reports [duplicate loc ?n] r
       else add_reports ds (upd_unit k ?f r))"
    by (simp add: register_var_name_def u ui Let_def ins)
  note m = storage_inserted [OF ins, THEN conjunct1] and keys = storage_inserted [OF ins, THEN conjunct2, rule_format]
  have "enters k i r (add_reports ds (upd_unit k ?f r))" if free: "\<not> storage_name_taken ui ?n"
  proof (rule enters_upd_unit [OF ui])
    show "unit_grows ui (?f ui)" using m by (auto simp: unit_grows_def find_type_def)
    show "value_names_clear (?f ui) \<and> (i \<longrightarrow> implementation_empty (?f ui))"
      if "value_names_clear ui" "i \<longrightarrow> implementation_empty ui"
      using that(2) keys
      by (intro conjI clear_new_var [OF that(1) free]) (auto simp: implementation_empty_def unit_lookups fun_eq_iff)
  qed
  then show ?thesis by (simp add: eq quiet_enters quiet_add_reports)
qed

lemma enters_const:
  assumes u: "u = None \<or> u = Some k"
  shows "enters k i r (register_const unit_name u i loc name t e r)"
proof (cases "Option.bind u (map_of (units r))")
  case None
  then show ?thesis by (simp add: register_const_def)
next
  case (Some ui)
  with u have u: "u = Some k" and ui: "map_of (units r) k = Some ui" by auto
  let ?n = "lower name"
  let ?v = "\<lparr>co_unit = unit_name, co_type = t, co_value = Some e, co_loc = loc\<rparr>"
  let ?m = "if i then iface_consts ui else impl_consts ui"
  obtain m ds where ins: "insert_unit_storage_symbol ?n ?v loc ?m = (m, ds)" by fastforce
  let ?f = "\<lambda>ui. if i then ui\<lparr>iface_consts := m\<rparr> else ui\<lparr>impl_consts := m\<rparr>"
  have eq: "register_const unit_name u i loc name t e r =
      (if storage_name_taken ui ?n then add_reports [duplicate loc ?n] r
       else add_reports ds (upd_unit k ?f r))"
    by (simp add: register_const_def u ui Let_def ins)
  note m = storage_inserted [OF ins, THEN conjunct1] and keys = storage_inserted [OF ins, THEN conjunct2, rule_format]
  have "enters k i r (add_reports ds (upd_unit k ?f r))" if free: "\<not> storage_name_taken ui ?n"
  proof (rule enters_upd_unit [OF ui])
    show "unit_grows ui (?f ui)" using m by (auto simp: unit_grows_def find_type_def)
    show "value_names_clear (?f ui) \<and> (i \<longrightarrow> implementation_empty (?f ui))"
      if "value_names_clear ui" "i \<longrightarrow> implementation_empty ui"
      using that(2) keys
      by (intro conjI clear_new_const [OF that(1) free]) (auto simp: implementation_empty_def unit_lookups fun_eq_iff)
  qed
  then show ?thesis by (simp add: eq quiet_enters quiet_add_reports)
qed

lemma enters_fold:
  assumes "\<And>x q. enters k i q (f x q)"
  shows "enters k i r (fold f xs r)"
  by (induction xs arbitrary: r) (auto intro: enters_trans assms)

lemma enters_decl:
  assumes "u = None \<or> u = Some k"
  shows "enters k i r (fst (register_decl unit_name u i d (r, seen)))"
proof (cases d)
  case (RVar loc names t)
  have "enters k i r (fold (register_var_name unit_name u i loc t) names r)"
    by (rule enters_fold) (rule enters_var_name [OF assms])
  then show ?thesis
    by (simp add: register_decl_def RVar Let_def enters_after [OF enters_enums_in_type [OF assms]])
next
  case (RConst loc name t e)
  have "enters k i r (register_const unit_name u i loc name t e r)" by (rule enters_const [OF assms])
  then show ?thesis
    by (auto simp: register_decl_def RConst Let_def split: option.splits
        intro: enters_after [OF enters_enums_in_type [OF assms]])
qed (simp_all add: register_decl_def enters_type_decl [OF assms] enters_proc_decl [OF assms])

lemma enters_decl_list: "enters unit_name i r (register_decl_list r unit_name ds i)"
proof -
  have "enters unit_name i q (fst (fold (register_decl unit_name u i) ds (q, seen)))"
    if "u = None \<or> u = Some unit_name" for u q seen
  proof (induction ds arbitrary: q seen)
    case (Cons d ds)
    obtain q' seen' where d: "register_decl unit_name u i d (q, seen) = (q', seen')" by fastforce
    with enters_decl [OF that, of i q unit_name d seen] have "enters unit_name i q q'" by simp
    with Cons.IH show ?case by (auto simp: d intro: enters_trans)
  qed simp
  then show ?thesis by (simp add: register_decl_list_def Let_def)
qed

subsection \<open>The properties\<close>

text \<open>C35. Entering a list of declarations only adds: no unit appears or goes, every variable,
  constant, type and label keeps what its name first meant, later overloads of a routine or an
  operator come after the earlier ones, scope frames and the method cache are untouched, earlier
  reports stay, and payloads still point back to their descriptors.\<close>

theorem declarations_only_add:
  "(\<forall>k. map_of (units (register_decl_list r u ds i)) k = None \<longleftrightarrow> map_of (units r) k = None) \<and>
   (\<forall>k a b. map_of (units r) k = Some a \<longrightarrow>
      map_of (units (register_decl_list r u ds i)) k = Some b \<longrightarrow> unit_grows a b) \<and>
   frames (register_decl_list r u ds i) = frames r \<and>
   method_cache (register_decl_list r u ds i) = method_cache r \<and>
   (\<exists>new. reports (register_decl_list r u ds i) = reports r @ new) \<and>
   (payloads_bound r \<longrightarrow> payloads_bound (register_decl_list r u ds i))"
  using enters_decl_list [of u i r ds] unfolding enters_def by (elim conjE) (intro conjI)

definition register_sections ::
  "string \<Rightarrow> reg_decl list list \<Rightarrow> reg_decl list list \<Rightarrow> registry \<Rightarrow> registry" where
  "register_sections u iface impl r =
     fold (\<lambda>ds r. register_decl_list r u ds False) impl
       (fold (\<lambda>ds r. register_decl_list r u ds True) iface r)"

lemma enters_sections:
  "enters u i r (fold (\<lambda>ds r. register_decl_list r u ds i) dss r)"
  by (rule enters_fold) (rule enters_decl_list)

lemma unit_clear_sections:
  assumes "unit_clear u True r" "reports (register_sections u iface impl r) = reports r"
  shows "unit_clear u False (register_sections u iface impl r)"
proof -
  let ?q = "fold (\<lambda>ds r. register_decl_list r u ds True) iface r"
  have q: "enters u True r ?q" by (rule enters_sections)
  have e: "enters u False ?q (register_sections u iface impl r)"
    unfolding register_sections_def by (rule enters_sections)
  from q obtain a where "reports ?q = reports r @ a" by (rule enters_reports)
  moreover from e obtain b where "reports (register_sections u iface impl r) = reports ?q @ b"
    by (rule enters_reports)
  ultimately have same: "reports ?q = reports r" "reports (register_sections u iface impl r) = reports ?q"
    using assms(2) by auto
  from enters_clear [OF q assms(1) same(1)] have "unit_clear u False ?q" by (simp add: unit_clear_def)
  from enters_clear [OF e this same(2)] show ?thesis .
qed

lemma no_collision_reports:
  "reports (report_type_value_collisions ui r) = reports r \<Longrightarrow>
   n \<in> set (unit_type_names ui) \<Longrightarrow> n \<notin> set (unit_value_names ui)"
  by (auto simp: report_type_value_collisions_def add_reports_def filter_empty_conv)

lemma unit_type_names_has: "has_type ui n \<longleftrightarrow> n \<in> set (unit_type_names ui)"
  by (auto simp: has_type_def find_type_def find_in_None unit_type_names_def map_of_eq_None_iff)

lemma unit_value_names_none:
  "n \<notin> set (unit_value_names ui) \<longleftrightarrow>
     find_var ui n = None \<and> find_const ui n = None \<and> find_procs ui n = None \<and> \<not> has_enum_member ui n"
  by (simp add: unit_lookups unit_value_names_def map_of_eq_None_iff)

text \<open>C36. A unit that is entered, interface sections first, without a report and that also passes
  the check of types against values has clear names: no variable, constant and enumeration label
  share a name, no routine shares one with a label, and no type has the name of a variable,
  constant, routine or label.\<close>

theorem accepted_names_clear:
  assumes "map_of (units r) u = Some (unit_info_for u)"
    and "r' = register_sections u iface impl r" "map_of (units r') u = Some ui"
    and "reports (report_type_value_collisions ui r') = reports r"
  shows "value_names_clear ui \<and>
    (\<forall>n. has_type ui n \<longrightarrow>
       find_var ui n = None \<and> find_const ui n = None \<and> find_procs ui n = None \<and> \<not> has_enum_member ui n)"
proof -
  let ?q = "fold (\<lambda>ds r. register_decl_list r u ds True) iface r"
  have "enters u True r ?q" "enters u False ?q r'"
    unfolding assms(2) register_sections_def by (rule enters_sections)+
  then obtain ds where ds: "reports r' = reports r @ ds" by (auto simp: enters_def)
  with assms(4) have same: "reports r' = reports r"
    by (simp add: report_type_value_collisions_def add_reports_def)
  have "unit_clear u True r"
    using assms(1) by (auto simp: unit_clear_def unit_info_for_def value_names_clear_def name_clear_def
        implementation_empty_def unit_lookups)
  with same assms(2) have "unit_clear u False r'" using unit_clear_sections by blast
  with assms(3) have "value_names_clear ui" by (simp add: unit_clear_def)
  moreover have "n \<notin> set (unit_value_names ui)" if "has_type ui n" for n
    using no_collision_reports [of ui r' n] assms(4) same that by (simp add: unit_type_names_has)
  ultimately show ?thesis using unit_value_names_none by blast
qed

subsection \<open>A unit that is accepted, and one that should not be\<close>

definition sample_types :: registry where
  "sample_types =
     empty_registry
       \<lparr>units := [(''u'', unit_info_for ''u'')],
        texprs :=
          [\<lparr>te_loc = no_location, te_shape = NName ''longint'', te_descriptor = None,
            te_symbol = None, te_context = None\<rparr>,
           \<lparr>te_loc = no_location, te_shape = NEnum 0 [EnumMember ''Red'' None, EnumMember ''Blue'' None],
            te_descriptor = None, te_symbol = None, te_context = None\<rparr>]\<rparr>"

definition sample_proc :: reg_proc where
  "sample_proc =
     ProcDecl no_location PProcedure ''Go'' False [] NoIntrinsic [] False [] None no_modifiers [] None"

definition sample_iface :: "reg_decl list" where
  "sample_iface = [RType (TypeDecl no_location ''TColor'' 1 0), RVar no_location [''X''] 0]"

definition sample_impl :: "reg_decl list" where
  "sample_impl = [RProc sample_proc, RConst no_location ''Top'' None (EBoolLit no_location True)]"

lemma declarations_only_add_witness:
  "(\<exists>b. map_of (units (register_decl_list sample_types ''u'' sample_iface True)) ''u'' = Some b \<and>
     unit_grows (unit_info_for ''u'') b) \<and>
   payloads_bound (register_decl_list sample_types ''u'' sample_iface True)"
proof -
  note keep = declarations_only_add [of sample_types "''u''" sample_iface True]
  have s: "map_of (units sample_types) ''u'' = Some (unit_info_for ''u'')" "payloads_bound sample_types"
    by (simp_all add: sample_types_def empty_registry_def payloads_bound_def)
  with keep obtain b where "map_of (units (register_decl_list sample_types ''u'' sample_iface True)) ''u'' = Some b"
    by fastforce
  with keep s show ?thesis by blast
qed

lemma sample_accepted:
  "map (\<lambda>(_, ui). (map fst (iface_types ui), map fst (iface_vars ui), map fst (impl_procs ui),
       map fst (impl_consts ui), map fst (iface_enum_members ui)))
     (units (register_sections ''u'' [sample_iface] [sample_impl] sample_types)) =
   [([''tcolor''], [''x''], [''go''], [''top''], [''red'', ''blue''])]"
  by code_simp

definition sample_sections :: registry where
  "sample_sections = register_sections ''u'' [sample_iface] [sample_impl] sample_types"

lemma accepted_names_clear_witness:
  "\<exists>ui. map_of (units sample_sections) ''u'' = Some ui \<and> value_names_clear ui"
proof -
  have "case map_of (units sample_sections) ''u'' of None \<Rightarrow> False
      | Some ui \<Rightarrow> reports (report_type_value_collisions ui sample_sections) = []"
    by code_simp
  then obtain ui where ui: "map_of (units sample_sections) ''u'' = Some ui"
    "reports (report_type_value_collisions ui sample_sections) = []" by (auto split: option.splits)
  have "map_of (units sample_types) ''u'' = Some (unit_info_for ''u'')" "reports sample_types = []"
    by (simp_all add: sample_types_def empty_registry_def)
  with accepted_names_clear [OF _ sample_sections_def ui(1)] ui show ?thesis by simp
qed

text \<open>
  A variable may take the name of a routine of its unit: neither the declaration nor the final
  check reports it.
\<close>

lemma routine_name_taken_silently:
  "case map_of (units (register_sections ''u'' [] [[RProc sample_proc, RVar no_location [''Go''] 0]] sample_types)) ''u'' of
     None \<Rightarrow> False
   | Some ui \<Rightarrow>
       has_proc ui ''go'' \<and> find_var ui ''go'' \<noteq> None \<and>
       reports (report_type_value_collisions ui
         (register_sections ''u'' [] [[RProc sample_proc, RVar no_location [''Go''] 0]] sample_types)) = []"
  by code_simp

end
