(* ===== verification/Emit_Fold.thy ===== *)
theory Emit_Fold
  imports Emit_Support Reg_Scope
begin

text \<open>
  Integer carriers and the folding of constant expressions, \<open>src/emit_analysis.h\<close>,
  \<open>src/emit_analysis.cc\<close>: the type in which an operation on two integers is carried out, the
  storage of ordinal types, conversion of constants, and \<open>eval_const_int_expr\<close>.

  A type expression enters only through the primitive type and the ordinal domain it denotes,
  so those are the arguments here. A thrown \<open>std::logic_error\<close> is \<open>Inl\<close>.
\<close>

subsection \<open>The target\<close>

definition on_checked :: "'a checked \<Rightarrow> ('a \<Rightarrow> 'b checked) \<Rightarrow> 'b checked" where
  "on_checked x f = (case x of Inl e \<Rightarrow> Inl e | Inr v \<Rightarrow> f v)"

text \<open>
  The interned primitive types of the registry, the primitive of the builtin \<open>boolean\<close>, and
  \<open>TargetInfo\<close>.
\<close>

record emit_target =
  prims :: "primitive_info list"
  boolean_prim :: "primitive_info option"
  pointer_bits :: nat

definition resolved_primitive_bits :: "emit_target \<Rightarrow> primitive_info \<Rightarrow> nat checked" where
  "resolved_primitive_bits em info = primitive_bits info (pointer_bits em)"

text \<open>The widths of two operands.\<close>

definition with_bits ::
  "emit_target \<Rightarrow> primitive_info \<Rightarrow> primitive_info \<Rightarrow> (nat \<Rightarrow> nat \<Rightarrow> 'a checked) \<Rightarrow> 'a checked" where
  "with_bits em l r f =
     on_checked (resolved_primitive_bits em l) (\<lambda>lb. on_checked (resolved_primitive_bits em r) (f lb))"

subsection \<open>The carrier of an operation\<close>

definition default_integer_primitive :: "emit_target \<Rightarrow> primitive_int_kind \<Rightarrow> primitive_info option" where
  "default_integer_primitive em k = ordinal_integer_primitive (prims em) k (pointer_bits em)"

definition common_integer_primitive ::
  "emit_target \<Rightarrow> primitive_info \<Rightarrow> primitive_info \<Rightarrow> primitive_info option checked" where
  "common_integer_primitive em l r =
     with_bits em l r (\<lambda>lb rb. Inr
       (if int_kind l = int_kind r then ordinal_integer_primitive (prims em) (int_kind l) (max lb rb)
        else
          let sb = (if int_kind l = SignedInt then lb else rb);
              ub = (if int_kind l = UnsignedInt then lb else rb)
          in if sb > ub then ordinal_integer_primitive (prims em) SignedInt sb
             else if ub < 64 then
               ordinal_integer_primitive (prims em) SignedInt
                 (if ub < 8 then 8 else if ub < 16 then 16 else if ub < 32 then 32 else 64)
             else ordinal_integer_primitive (prims em) UnsignedInt 64))"

definition native_unsigned :: "emit_target \<Rightarrow> primitive_info \<Rightarrow> nat \<Rightarrow> bool" where
  "native_unsigned em info bits = (int_kind info = UnsignedInt \<and> bits = pointer_bits em)"

definition integer_arithmetic_primitive ::
  "emit_target \<Rightarrow> binop \<Rightarrow> primitive_info \<Rightarrow> primitive_info \<Rightarrow> primitive_info option checked" where
  "integer_arithmetic_primitive em op l r =
     with_bits em l r (\<lambda>lb rb. Inr
       (if (int_kind l = SignedInt \<and> lb = 64) \<or> (int_kind r = SignedInt \<and> rb = 64)
        then ordinal_integer_primitive (prims em) SignedInt 64
        else if (int_kind l = UnsignedInt \<and> lb = 64) \<or> (int_kind r = UnsignedInt \<and> rb = 64)
        then ordinal_integer_primitive (prims em) UnsignedInt 64
        else if pointer_bits em = 32 \<and> (native_unsigned em l lb \<or> native_unsigned em r rb) \<and>
                (int_kind l = SignedInt \<or> int_kind r = SignedInt \<or> op = BSub)
        then ordinal_integer_primitive (prims em) SignedInt 64
        else if int_kind l = SignedInt \<or> int_kind r = SignedInt \<or> op = BSub
        then default_integer_primitive em SignedInt
        else default_integer_primitive em UnsignedInt))"

definition integer_bitwise_primitive ::
  "emit_target \<Rightarrow> binop \<Rightarrow> primitive_info \<Rightarrow> primitive_info \<Rightarrow> primitive_info option checked" where
  "integer_bitwise_primitive em op l r =
     (if prim_kind l = KCurrency \<or> prim_kind r = KCurrency then Inr None
      else with_bits em l r (\<lambda>lb rb.
        if op = BAnd then
          (let sb = (if int_kind l = SignedInt then lb else rb);
               ub = (if int_kind l = UnsignedInt then lb else rb)
           in if int_kind l \<noteq> int_kind r \<and> ub \<ge> sb \<and> ub \<ge> min (pointer_bits em) 32
              then Inr (ordinal_integer_primitive (prims em) UnsignedInt ub)
              else common_integer_primitive em l r)
        else if int_kind l = int_kind r \<and> lb < 64 \<and> rb < 64 then common_integer_primitive em l r
        else integer_arithmetic_primitive em BAdd l r))"

subsection \<open>Constants\<close>

text \<open>
  \<open>ConstIntExprInfo\<close> and \<open>ConvertedConstInt\<close>: \<open>value\<close> is the signed reading, \<open>bits\<close> the pattern.
\<close>

record const_int =
  cv_value :: i64
  cv_bits :: u64
  cv_type :: "primitive_info option"

definition const_of :: "i64 \<Rightarrow> primitive_info option \<Rightarrow> const_int" where
  "const_of v t = \<lparr>cv_value = v, cv_bits = v, cv_type = t\<rparr>"

definition has_kind :: "primitive_int_kind \<Rightarrow> primitive_info option \<Rightarrow> bool" where
  "has_kind k t = (case t of None \<Rightarrow> False | Some info \<Rightarrow> int_kind info = k)"

definition const_int_fits_primitive :: "emit_target \<Rightarrow> const_int \<Rightarrow> primitive_info \<Rightarrow> bool checked" where
  "const_int_fits_primitive em v target =
     (if int_kind target = NoInt then Inr False
      else on_checked (resolved_primitive_bits em target) (\<lambda>width.
        let unsigned_source = has_kind UnsignedInt (cv_type v) in
        if int_kind target = UnsignedInt then
          on_checked (unsigned_mask_for_bits width) (\<lambda>msk. Inr
            (if unsigned_source then width \<ge> 64 \<or> cv_bits v \<le> msk
             else 0 \<le>s cv_value v \<and> (width \<ge> 64 \<or> cv_value v \<le> msk)))
        else
          on_checked (signed_min_for_bits width) (\<lambda>low.
          on_checked (signed_max_for_bits width) (\<lambda>high. Inr
            (if unsigned_source then cv_bits v \<le> (if width \<ge> 64 then 0x7FFFFFFFFFFFFFFF else high)
             else low \<le>s cv_value v \<and> cv_value v \<le>s high)))))"

text \<open>
  \<open>convert_const_int_value\<close>: the converted constant, and whether a range warning is given.
\<close>

definition convert_const_int_value ::
  "emit_target \<Rightarrow> const_int \<Rightarrow> primitive_info option \<Rightarrow> bool \<Rightarrow> bool \<Rightarrow> (const_int \<times> bool) option checked" where
  "convert_const_int_value em v target explicit diagnose =
     (case target of
        None \<Rightarrow> Inr None
      | Some info \<Rightarrow>
          if int_kind info = NoInt then Inr None
          else on_checked (resolved_primitive_bits em info) (\<lambda>width.
            on_checked (const_int_fits_primitive em v info) (\<lambda>fits.
            on_checked (low_bits (cv_bits v) width) (\<lambda>bits.
            on_checked (low_bits 0xFFFFFFFFFFFFFFFF width) (\<lambda>msk. Inr (Some
              (\<lparr>cv_value =
                  (if int_kind info = UnsignedInt \<or> width = 64 \<or> bits AND push_bit (width - 1) 1 = 0
                   then bits else bits OR NOT msk),
                cv_bits = bits, cv_type = Some info\<rparr>,
               \<not> fits \<and> diagnose \<and> \<not> explicit)))))))"

definition compare_constant_integers :: "binop \<Rightarrow> const_int option \<Rightarrow> const_int option \<Rightarrow> bool option" where
  "compare_constant_integers op lhs rhs =
     (case (lhs, rhs) of
        (Some l, Some r) \<Rightarrow>
          let ln = (has_kind SignedInt (cv_type l) \<and> cv_value l <s 0);
              rn = (has_kind SignedInt (cv_type r) \<and> cv_value r <s 0);
              order = (if ln \<noteq> rn then (if ln then -1 else 1)
                 else if ln then (if cv_value l <s cv_value r then -1
                                  else if cv_value r <s cv_value l then 1 else 0)
                 else (if cv_bits l < cv_bits r then -1
                       else if cv_bits r < cv_bits l then 1 else 0)) :: int
          in (case op of
                BEq \<Rightarrow> Some (order = 0) | BNotEq \<Rightarrow> Some (order \<noteq> 0)
              | BLt \<Rightarrow> Some (order < 0) | BGt \<Rightarrow> Some (order > 0)
              | BLtEq \<Rightarrow> Some (order \<le> 0) | BGtEq \<Rightarrow> Some (order \<ge> 0)
              | _ \<Rightarrow> None)
      | _ \<Rightarrow> None)"

text \<open>The operand expressions of a division or a comparison enter by their folded values.\<close>

definition const_expr_fits_primitive ::
  "emit_target \<Rightarrow> const_int option \<Rightarrow> primitive_info \<Rightarrow> bool checked" where
  "const_expr_fits_primitive em c target =
     (case c of None \<Rightarrow> Inr False | Some v \<Rightarrow> const_int_fits_primitive em v target)"

definition division_carrier :: "emit_target \<Rightarrow> primitive_info \<Rightarrow> primitive_info \<Rightarrow> primitive_info option checked" where
  "division_carrier em l r =
     with_bits em l r (\<lambda>lb rb. Inr
       (if lb = 64 \<or> rb = 64
        then ordinal_integer_primitive (prims em)
               (if int_kind l = SignedInt \<or> int_kind r = SignedInt then SignedInt else UnsignedInt) 64
        else if pointer_bits em = 32 \<and> (native_unsigned em l lb \<or> native_unsigned em r rb) \<and>
                (int_kind l = SignedInt \<or> int_kind r = SignedInt)
        then ordinal_integer_primitive (prims em) SignedInt 64
        else if native_unsigned em l lb \<or> native_unsigned em r rb
        then default_integer_primitive em UnsignedInt
        else default_integer_primitive em SignedInt))"

definition integer_division_primitive ::
  "emit_target \<Rightarrow> const_int option \<Rightarrow> primitive_info \<Rightarrow> const_int option \<Rightarrow> primitive_info \<Rightarrow>
   primitive_info option checked" where
  "integer_division_primitive em lc l rc r =
     with_bits em l r (\<lambda>lb rb.
     on_checked (const_expr_fits_primitive em lc r) (\<lambda>lfits.
     on_checked (const_expr_fits_primitive em rc l) (\<lambda>rfits.
       division_carrier em
         (if int_kind r = UnsignedInt \<and> (lfits \<or> int_kind l = UnsignedInt \<and> rb \<ge> lb) then r else l)
         (if int_kind l = UnsignedInt \<and> (rfits \<or> int_kind r = UnsignedInt \<and> lb \<ge> rb) then l else r))))"

definition integer_comparison_primitive ::
  "emit_target \<Rightarrow> const_int option \<Rightarrow> primitive_info \<Rightarrow> const_int option \<Rightarrow> primitive_info \<Rightarrow>
   primitive_info option checked" where
  "integer_comparison_primitive em lc l rc r =
     with_bits em l r (\<lambda>lb rb.
       if int_kind l = int_kind r \<and> lb < 64 \<and> rb < 64 then common_integer_primitive em l r
       else
         on_checked (const_expr_fits_primitive em lc r) (\<lambda>lfits.
         on_checked (const_expr_fits_primitive em rc l) (\<lambda>rfits.
           if int_kind l \<noteq> int_kind r \<and> lfits then Inr (Some r)
           else if int_kind l \<noteq> int_kind r \<and> rfits then Inr (Some l)
           else integer_arithmetic_primitive em BAdd l r)))"

text \<open>
  \<open>canonicalize_for_arithmetic\<close> on an integer subrange: the kind and width of the type that
  stands for it.
\<close>

definition subrange_carrier :: "i64 \<Rightarrow> i64 \<Rightarrow> (primitive_int_kind \<times> nat) checked" where
  "subrange_carrier low high =
     (if low <s 0 then
        on_checked (signed_max_for_bits 8) (\<lambda>m8.
        on_checked (signed_max_for_bits 16) (\<lambda>m16.
        on_checked (signed_max_for_bits 32) (\<lambda>m32. Inr
          (SignedInt, if high \<le>s m8 then 8 else if high \<le>s m16 then 16
                      else if high \<le>s m32 then 32 else 64))))
      else
        on_checked (unsigned_mask_for_bits 8) (\<lambda>m8.
        on_checked (unsigned_mask_for_bits 16) (\<lambda>m16.
        on_checked (unsigned_mask_for_bits 32) (\<lambda>m32. Inr
          (UnsignedInt, if high \<le>s m8 then 8 else if high \<le>s m16 then 16
                        else if high \<le>s m32 then 32 else 64)))))"

datatype (plugins only: code) ordinal_family =
    InvalidFamily | IntegerFamily | BooleanFamily | CharFamily | WideCharFamily | EnumFamily

text \<open>\<open>OrdinalDomain\<close>, without the identity of the enumeration.\<close>

record ordinal_domain =
  od_family :: ordinal_family
  od_low :: i64
  od_high :: i64

definition ordinal_integer_primitive_for_domain ::
  "emit_target \<Rightarrow> ordinal_domain \<Rightarrow> primitive_info option checked" where
  "ordinal_integer_primitive_for_domain em d =
     (let inside = (\<lambda>w. on_checked (signed_min_for_bits w) (\<lambda>lo.
            on_checked (signed_max_for_bits w) (\<lambda>hi. Inr (lo \<le>s od_low d \<and> od_high d \<le>s hi))))
      in if od_low d <s 0 then
        on_checked (inside 8) (\<lambda>b8. on_checked (inside 16) (\<lambda>b16. on_checked (inside 32) (\<lambda>b32. Inr
          (ordinal_integer_primitive (prims em) SignedInt
             (if b8 then 8 else if b16 then 16 else if b32 then 32 else 64)))))
      else
        on_checked (unsigned_mask_for_bits 8) (\<lambda>m8.
        on_checked (unsigned_mask_for_bits 16) (\<lambda>m16.
        on_checked (unsigned_mask_for_bits 32) (\<lambda>m32. Inr
          (ordinal_integer_primitive (prims em) UnsignedInt
             (if od_high d \<le> m8 then 8 else if od_high d \<le> m16 then 16
              else if od_high d \<le> m32 then 32 else 64))))))"

text \<open>
  The storage of an enumeration in \<open>ordinal_storage_primitive\<close>, from \<open>{$packenum}\<close> and the
  domain of its labels; none when it has no labels.
\<close>

definition enum_storage_bits :: "nat \<Rightarrow> i64 \<Rightarrow> i64 \<Rightarrow> nat" where
  "enum_storage_bits packenum low high =
     (if low <s -2147483648 \<or> 4294967295 <s high then 64
      else if packenum \<ge> 4 \<or> low <s -32768 \<or> 65535 <s high then 32
      else if packenum \<ge> 2 \<or> low <s -128 \<or> 255 <s high then 16
      else 8)"

definition enum_storage_primitive ::
  "emit_target \<Rightarrow> nat \<Rightarrow> ordinal_domain option \<Rightarrow> primitive_info option" where
  "enum_storage_primitive em packenum d =
     (case d of
        None \<Rightarrow> ordinal_integer_primitive (prims em) SignedInt 32
      | Some d \<Rightarrow>
          ordinal_integer_primitive (prims em) (if od_low d <s 0 then SignedInt else UnsignedInt)
            (enum_storage_bits packenum (od_low d) (od_high d)))"

definition abs_sqr_primitive :: "emit_target \<Rightarrow> bool \<Rightarrow> primitive_info \<Rightarrow> primitive_info option checked" where
  "abs_sqr_primitive em is_abs info =
     (if float_tier info \<noteq> NoTier then Inr (Some info)
      else if prim_family info \<noteq> FamInteger \<or> prim_kind info = KCurrency \<or> int_kind info = NoInt
      then Inr None
      else on_checked (resolved_primitive_bits em info) (\<lambda>bits. Inr
        (if int_kind info = SignedInt
         then ordinal_integer_primitive (prims em) SignedInt (if bits \<le> 32 then 32 else 64)
         else if bits \<le> 16 then ordinal_integer_primitive (prims em) SignedInt 32
         else if is_abs
         then (if bits = 32 then ordinal_integer_primitive (prims em) SignedInt 64 else None)
         else ordinal_integer_primitive (prims em) UnsignedInt 64)))"

subsection \<open>Binding an operation on integers\<close>

datatype (plugins only: code) bound_kind =
    Unbound | IntegerAdd | IntegerSub | IntegerMul | IntegerDiv | IntegerMod | IntegerBitwise
  | IntegerCompare | IntegerShift | PointerAdd | PointerSubtract | PointerDifference | PointerEqual
  | PointerOrder | InvalidPointer | SetUnion | SetDifference | SetIntersection | SetSymmetricDifference

record bound_binary =
  bb_kind :: bound_kind
  bb_lhs :: primitive_info
  bb_rhs :: primitive_info
  bb_result :: primitive_info
  bb_check_overflow :: bool
  bb_constant :: "bool option"

definition binop_is_comparison :: "binop \<Rightarrow> bool" where
  "binop_is_comparison op \<longleftrightarrow> op \<in> {BEq, BNotEq, BLt, BGt, BLtEq, BGtEq}"

text \<open>The three conversions of an operation: of the operands and of the result.\<close>

type_synonym conversions = "primitive_info option \<times> primitive_info option \<times> primitive_info option"

definition same_conversion :: "bound_kind \<Rightarrow> primitive_info option \<Rightarrow> (bound_kind \<times> conversions) option" where
  "same_conversion k p = Some (k, p, p, p)"

definition bind_conversions ::
  "emit_target \<Rightarrow> binop \<Rightarrow> const_int option \<Rightarrow> primitive_info \<Rightarrow> const_int option \<Rightarrow> primitive_info \<Rightarrow>
   (bound_kind \<times> conversions) option checked" where
  "bind_conversions em op lc l rc r =
     (let arithmetic = (\<lambda>k. on_checked (integer_arithmetic_primitive em op l r)
            (\<lambda>p. Inr (same_conversion k p)));
          division = (\<lambda>k. on_checked (integer_division_primitive em lc l rc r)
            (\<lambda>p. Inr (same_conversion k p)))
      in if op = BAdd then arithmetic IntegerAdd
         else if op = BSub then arithmetic IntegerSub
         else if op = BMul then arithmetic IntegerMul
         else if op = BIntDiv then division IntegerDiv
         else if op = BMod then division IntegerMod
         else if op = BAnd \<or> op = BOr \<or> op = BXor then
           on_checked (integer_bitwise_primitive em op l r)
             (\<lambda>p. Inr (same_conversion IntegerBitwise p))
         else if binop_is_comparison op then
           on_checked (integer_comparison_primitive em lc l rc r)
             (\<lambda>p. Inr (Some (IntegerCompare, p, p, boolean_prim em)))
         else if op = BShl \<or> op = BShr then
           on_checked (shift_carrier_primitive (prims em) (Some l) (pointer_bits em))
             (\<lambda>p. Inr (Some (IntegerShift, p, default_integer_primitive em SignedInt, p)))
         else Inr None)"

text \<open>
  The part of \<open>bind_binary_operation\<close> for operands that are neither sets nor pointers. Every
  primitive type of the registry has a descriptor, so a primitive stands for its descriptor.
\<close>

definition integer_operand :: "primitive_info option \<Rightarrow> bool" where
  "integer_operand p =
     (case p of
        None \<Rightarrow> False
      | Some info \<Rightarrow> int_kind info \<noteq> NoInt \<and> prim_family info = FamInteger \<and> prim_kind info \<noteq> KCurrency)"

definition bind_integer_operation ::
  "emit_target \<Rightarrow> binop \<Rightarrow> bool \<Rightarrow> const_int option \<Rightarrow> primitive_info option \<Rightarrow>
   const_int option \<Rightarrow> primitive_info option \<Rightarrow> bound_binary option checked" where
  "bind_integer_operation em op q_check lc l rc r =
     (if \<not> integer_operand l \<or> \<not> integer_operand r then Inr None
      else on_checked (bind_conversions em op lc (the l) rc (the r)) (\<lambda>b. Inr
        (case b of
           Some (kind, Some lhs, Some rhs, Some result) \<Rightarrow>
             Some \<lparr>bb_kind = kind, bb_lhs = lhs, bb_rhs = rhs, bb_result = result,
               bb_check_overflow = q_check,
               bb_constant = (if kind = IntegerCompare then compare_constant_integers op lc rc
                              else None)\<rparr>
         | _ \<Rightarrow> None)))"

subsection \<open>Folding one operation\<close>

text \<open>
  The result of a fold: the constant, or nothing, and whether an overflow was met.
\<close>

type_synonym folded = "const_int option \<times> bool"

definition unfolded :: folded where
  "unfolded = (None, False)"

definition fold_value :: "emit_target \<Rightarrow> i64 \<Rightarrow> const_int" where
  "fold_value em v = const_of v (primitive_info_for_value (prims em) v)"

definition const_negative :: "const_int \<Rightarrow> bool" where
  "const_negative v = (cv_value v <s 0 \<and> \<not> has_kind UnsignedInt (cv_type v))"

definition const_magnitude :: "const_int \<Rightarrow> u64" where
  "const_magnitude v = (if const_negative v then 0 - cv_bits v else cv_bits v)"

definition make_result :: "emit_target \<Rightarrow> bool \<Rightarrow> u64 \<Rightarrow> folded" where
  "make_result em negative m =
     (if negative then
        if 0x8000000000000000 < m then (None, True)
        else (Some (fold_value em (if m = 0x8000000000000000 then 0x8000000000000000 else - m)), False)
      else if m \<le> 0x7FFFFFFFFFFFFFFF then (Some (fold_value em m), False)
      else (Some \<lparr>cv_value = m, cv_bits = m,
                  cv_type = ordinal_integer_primitive (prims em) UnsignedInt 64\<rparr>, False))"

definition add_signed_magnitudes :: "emit_target \<Rightarrow> bool \<Rightarrow> u64 \<Rightarrow> bool \<Rightarrow> u64 \<Rightarrow> folded" where
  "add_signed_magnitudes em ln lm rn rm =
     (if ln \<noteq> rn then
        if rm \<le> lm then make_result em ln (lm - rm) else make_result em rn (rm - lm)
      else if 0xFFFFFFFFFFFFFFFF - rm < lm then (None, True)
      else make_result em ln (lm + rm))"

definition fold_product :: "emit_target \<Rightarrow> bound_kind \<Rightarrow> const_int \<Rightarrow> const_int \<Rightarrow> folded" where
  "fold_product em kind l r =
     (let ln = const_negative l; rn = const_negative r;
          lm = const_magnitude l; rm = const_magnitude r
      in if rm = 0 \<and> (kind = IntegerDiv \<or> kind = IntegerMod) then unfolded
         else if kind = IntegerMul \<and> rm \<noteq> 0 \<and> 0xFFFFFFFFFFFFFFFF div rm < lm then (None, True)
         else if kind = IntegerMul then make_result em (ln \<noteq> rn) (lm * rm)
         else if kind = IntegerDiv then make_result em (ln \<noteq> rn) (lm div rm)
         else make_result em ln (lm mod rm))"

definition fold_shift :: "emit_target \<Rightarrow> binop \<Rightarrow> const_int \<Rightarrow> const_int \<Rightarrow> folded checked" where
  "fold_shift em op l r =
     on_checked
       (if op = BShl
        then checked_pascal_shl_int64 (cv_value l) (cv_type l) (cv_value r) (pointer_bits em)
        else checked_pascal_shr_int64 (cv_value l) (cv_type l) (cv_value r) (pointer_bits em))
       (\<lambda>v. case v of
          None \<Rightarrow> Inr unfolded
        | Some v \<Rightarrow>
            on_checked (shift_carrier_primitive (prims em) (cv_type l) (pointer_bits em))
              (\<lambda>carrier. Inr (case carrier of
                 None \<Rightarrow> unfolded | Some c \<Rightarrow> (Some (const_of v (Some c)), False))))"

definition fold_bitwise :: "emit_target \<Rightarrow> binop \<Rightarrow> const_int \<Rightarrow> const_int \<Rightarrow> folded" where
  "fold_bitwise em op l r =
     (Some (fold_value em
        (if op = BAnd then cv_value l AND cv_value r
         else if op = BOr then cv_value l OR cv_value r
         else cv_value l XOR cv_value r)), False)"

definition fold_binary ::
  "emit_target \<Rightarrow> binop \<Rightarrow> bound_kind \<Rightarrow> const_int \<Rightarrow> const_int \<Rightarrow> folded checked" where
  "fold_binary em op kind l r =
     (if kind = IntegerCompare then Inr unfolded
      else if kind = IntegerAdd then
        Inr (add_signed_magnitudes em (const_negative l) (const_magnitude l)
               (const_negative r) (const_magnitude r))
      else if kind = IntegerSub then
        Inr (add_signed_magnitudes em (const_negative l) (const_magnitude l)
               (\<not> const_negative r) (const_magnitude r))
      else if kind = IntegerMul \<or> kind = IntegerDiv \<or> kind = IntegerMod
      then Inr (fold_product em kind l r)
      else if kind = IntegerShift then fold_shift em op l r
      else if kind \<noteq> IntegerBitwise then Inr unfolded
      else Inr (fold_bitwise em op l r))"

definition fold_literal :: "emit_target \<Rightarrow> u64 \<Rightarrow> const_int" where
  "fold_literal em n =
     (if 0x7FFFFFFFFFFFFFFF < n
      then \<lparr>cv_value = n, cv_bits = n, cv_type = ordinal_integer_primitive (prims em) UnsignedInt 64\<rparr>
      else fold_value em n)"

definition fold_unary :: "emit_target \<Rightarrow> unop \<Rightarrow> const_int \<Rightarrow> folded" where
  "fold_unary em op v =
     (if op = UPlus then (Some v, False)
      else if op \<noteq> UNeg then unfolded
      else case checked_sub_int64 0 (cv_value v) of
        None \<Rightarrow> (None, True)
      | Some n \<Rightarrow> (Some (fold_value em n), False))"

text \<open>
  \<open>eval_const_low_high\<close> on what the type operand denotes: a primitive type, an ordinal domain,
  or a set over such a type.
\<close>

datatype (plugins only: code) type_operand =
    ScalarOperand "primitive_info option" "ordinal_domain option"
  | SetOperand type_operand

definition scalar_low_high ::
  "emit_target \<Rightarrow> primitive_info option \<Rightarrow> ordinal_domain option \<Rightarrow> bool \<Rightarrow> const_int option checked" where
  "scalar_low_high em p d want_low =
     (let plain = (\<lambda>b. Inr (Some (const_of b p)));
          rest = Inr (map_option (\<lambda>d. fold_value em (if want_low then od_low d else od_high d)) d)
      in case p of
           None \<Rightarrow> rest
         | Some info \<Rightarrow>
             if prim_kind info = KBoolean then plain (if want_low then 0 else 1)
             else if prim_kind info = KChar then plain (if want_low then 0 else 255)
             else if prim_kind info = KWideChar then plain (if want_low then 0 else 65535)
             else if int_kind info \<noteq> NoInt then
               on_checked (resolved_primitive_bits em info) (\<lambda>w.
                 if int_kind info = UnsignedInt
                 then (if want_low then plain 0 else on_checked (unsigned_mask_for_bits w) plain)
                 else on_checked (if want_low then signed_min_for_bits w else signed_max_for_bits w) plain)
             else rest)"

primrec eval_const_low_high :: "emit_target \<Rightarrow> bool \<Rightarrow> type_operand \<Rightarrow> const_int option checked" where
  "eval_const_low_high em want_low (ScalarOperand p d) = scalar_low_high em p d want_low"
| "eval_const_low_high em want_low (SetOperand t) = eval_const_low_high em want_low t"

text \<open>
  A bound \<open>Succ\<close> or \<open>Pred\<close>: the carrier, the storage of the operand's type and its domain, and
  the checks that are on.
\<close>

record ordinal_step =
  st_succ :: bool
  st_carrier :: primitive_info
  st_storage :: "primitive_info option"
  st_domain :: "ordinal_domain option"
  st_check_overflow :: bool
  st_check_range :: bool

definition signed_carrier_value :: "nat \<Rightarrow> u64 \<Rightarrow> u64 \<Rightarrow> i64" where
  "signed_carrier_value width msk bits =
     (let b = bits AND msk in
      if width = 64 \<or> b AND push_bit (width - 1) 1 = 0 then b else b OR NOT msk)"

text \<open>The step itself: the new pattern, or nothing and whether that is an overflow.\<close>

definition stepped_bits ::
  "emit_target \<Rightarrow> ordinal_step \<Rightarrow> nat \<Rightarrow> u64 \<Rightarrow> u64 \<Rightarrow> (u64 option \<times> bool) checked" where
  "stepped_bits em step width msk bits =
     (if st_check_overflow step \<and> int_kind (st_carrier step) = SignedInt then
        let v = signed_carrier_value width msk bits;
            result = (if st_succ step then checked_add_int64 v 1 else checked_sub_int64 v 1)
        in case result of
             None \<Rightarrow> Inr (None, True)
           | Some n \<Rightarrow>
               on_checked (signed_min_for_bits width) (\<lambda>lo.
               on_checked (signed_max_for_bits width) (\<lambda>hi. Inr
                 (if width < 64 \<and> (n <s lo \<or> hi <s n) then (None, True) else (Some (n AND msk), False))))
      else Inr (Some ((if st_succ step then bits + 1 else bits - 1) AND msk), False))"

definition step_in_domain :: "ordinal_step \<Rightarrow> nat \<Rightarrow> u64 \<Rightarrow> u64 \<Rightarrow> bool" where
  "step_in_domain step width msk bits =
     (\<not> st_check_range step \<or>
      (case st_domain step of
         None \<Rightarrow> False
       | Some d \<Rightarrow>
           if int_kind (st_carrier step) = SignedInt
           then (let v = signed_carrier_value width msk bits in od_low d \<le>s v \<and> v \<le>s od_high d)
           else \<not> (od_low d <s 0) \<and> bits \<le> od_high d))"

definition stored_step :: "emit_target \<Rightarrow> primitive_info \<Rightarrow> u64 \<Rightarrow> const_int checked" where
  "stored_step em storage bits =
     on_checked (resolved_primitive_bits em storage) (\<lambda>w.
     on_checked (unsigned_mask_for_bits w) (\<lambda>msk.
       let b = bits AND msk in Inr
         \<lparr>cv_value = (if int_kind storage = SignedInt \<and> w < 64 \<and> b AND push_bit (w - 1) 1 \<noteq> 0
                      then b OR NOT msk else b),
          cv_bits = b, cv_type = Some storage\<rparr>))"

text \<open>\<open>eval_bound_ordinal_step\<close>, given the folded operand or, failing that, its ordinal.\<close>

definition fold_step ::
  "emit_target \<Rightarrow> ordinal_step \<Rightarrow> const_int option \<Rightarrow> i64 option \<Rightarrow> folded checked" where
  "fold_step em step source ordinal =
     (case st_storage step of
        None \<Rightarrow> Inr unfolded
      | Some storage \<Rightarrow>
          if int_kind storage = NoInt \<or> int_kind (st_carrier step) = NoInt then Inr unfolded
          else
            (case (case source of
                     Some v \<Rightarrow> Some v
                   | None \<Rightarrow> map_option (\<lambda>v. const_of v (Some storage)) ordinal) of
               None \<Rightarrow> Inr unfolded
             | Some v \<Rightarrow>
                 on_checked (convert_const_int_value em v (Some (st_carrier step)) True False)
                   (\<lambda>converted. case converted of
                      None \<Rightarrow> Inr unfolded
                    | Some (c, _) \<Rightarrow>
                        on_checked (resolved_primitive_bits em (st_carrier step)) (\<lambda>w.
                        on_checked (unsigned_mask_for_bits w) (\<lambda>msk.
                        on_checked (stepped_bits em step w msk (cv_bits c AND msk)) (\<lambda>(b, ovf).
                          case b of
                            None \<Rightarrow> Inr (None, ovf)
                          | Some b \<Rightarrow>
                              if step_in_domain step w msk b
                              then on_checked (stored_step em storage b) (\<lambda>v. Inr (Some v, False))
                              else Inr unfolded))))))"

subsection \<open>Folding an expression\<close>

text \<open>
  What the folder asks the rest of the analysis: the frames in scope from the innermost, the
  local constants (typed or not, initializer), the primitive type of an operand
  (\<open>deduce_type\<close> and \<open>canonicalize_for_arithmetic\<close>), the intrinsic a callee names, the type
  operand of \<open>low\<close> and \<open>high\<close>, \<open>eval_ordinal_expr\<close>, the ordinal of a visible label, the target of a
  cast and the bound operation of a \<open>Succ\<close> or \<open>Pred\<close>.
\<close>

record fold_env =
  fe_target :: emit_target
  fe_registry :: registry
  fe_frames :: "scope_frame list"
  fe_locals :: "(string \<times> (bool \<times> expr option)) list"
  operand_prim :: "expr \<Rightarrow> primitive_info option"
  intrinsic_name :: "expr \<Rightarrow> string option"
  operand_type :: "expr \<Rightarrow> type_operand option"
  ordinal_of :: "expr \<Rightarrow> i64 option"
  label_ordinal :: "string \<Rightarrow> i64 option option"
  cast_target :: "expr \<Rightarrow> primitive_info option"
  step_of :: "expr \<Rightarrow> ordinal_step option"

fun frames_const :: "registry \<Rightarrow> scope_frame list \<Rightarrow> string \<Rightarrow> const_info option" where
  "frames_const r [] n = None"
| "frames_const r (f # fs) n =
     (case scope_frame_find_const r f n of Some c \<Rightarrow> Some c | None \<Rightarrow> frames_const r fs n)"

text \<open>\<open>fold_untyped_const_decl\<close>, \<open>fold_untyped_const_info\<close>: the initializer that may be folded.\<close>

definition fold_untyped_const :: "bool \<Rightarrow> expr option \<Rightarrow> expr option" where
  "fold_untyped_const typed v = (if typed then None else v)"

definition const_initializer :: "fold_env \<Rightarrow> string \<Rightarrow> expr option" where
  "const_initializer env n =
     (case map_of (fe_locals env) n of
        Some (typed, Some v) \<Rightarrow> fold_untyped_const typed (Some v)
      | _ \<Rightarrow>
          (case frames_const (fe_registry env) (fe_frames env) n of
             None \<Rightarrow> None
           | Some c \<Rightarrow> fold_untyped_const (co_type c \<noteq> None) (co_value c)))"

definition operand_domain :: "type_operand \<Rightarrow> ordinal_domain option" where
  "operand_domain t = (case t of ScalarOperand _ d \<Rightarrow> d | SetOperand _ \<Rightarrow> None)"

text \<open>What a call with one argument folds to: a value, or what to do with the folded argument.\<close>

datatype (plugins only: code) call_plan =
    NotConstant
  | KnownConstant const_int
  | StepArgument ordinal_step
  | CastArgument primitive_info

definition step_ready :: "ordinal_step \<Rightarrow> bool" where
  "step_ready s =
     (case st_storage s of None \<Rightarrow> False
      | Some storage \<Rightarrow> int_kind storage \<noteq> NoInt \<and> int_kind (st_carrier s) \<noteq> NoInt)"

definition plan_cast :: "fold_env \<Rightarrow> expr \<Rightarrow> call_plan" where
  "plan_cast env e =
     (case cast_target env e of
        None \<Rightarrow> NotConstant
      | Some t \<Rightarrow> if int_kind t = NoInt then NotConstant else CastArgument t)"

definition plan_known :: "const_int option \<Rightarrow> call_plan" where
  "plan_known v = (case v of None \<Rightarrow> NotConstant | Some c \<Rightarrow> KnownConstant c)"

text \<open>\<open>ord\<close> of \<open>low\<close> or \<open>high\<close> of a type, else the ordinal of the argument.\<close>

definition plan_ord :: "fold_env \<Rightarrow> expr \<Rightarrow> i64 option" where
  "plan_ord env a =
     (let inner = (case a of
            ECall _ callee [x] _ _ _ _ \<Rightarrow>
              (if intrinsic_name env callee = Some ''low'' \<or> intrinsic_name env callee = Some ''high''
               then map_option (\<lambda>d. if intrinsic_name env callee = Some ''low'' then od_low d else od_high d)
                 (Option.bind (operand_type env x) operand_domain)
               else None)
          | _ \<Rightarrow> None)
      in case inner of Some v \<Rightarrow> Some v | None \<Rightarrow> ordinal_of env a)"

definition plan_call :: "fold_env \<Rightarrow> expr \<Rightarrow> expr \<Rightarrow> expr \<Rightarrow> call_plan checked" where
  "plan_call env e callee a =
     (let em = fe_target env; name = intrinsic_name env callee; cast = Inr (plan_cast env e) in
      if name = Some ''length'' then
        (case a of
           EStringLit _ s \<Rightarrow> Inr (KnownConstant (fold_value em (word_of_nat (length s))))
         | _ \<Rightarrow> cast)
      else if name = Some ''low'' \<or> name = Some ''high'' then
        (case operand_type env a of
           Some t \<Rightarrow> on_checked (eval_const_low_high em (name = Some ''low'') t) (\<lambda>v. Inr (plan_known v))
         | None \<Rightarrow> cast)
      else if name = Some ''pred'' \<or> name = Some ''succ'' then
        (case step_of env e of
           Some s \<Rightarrow> Inr (if step_ready s then StepArgument s else NotConstant)
         | None \<Rightarrow> cast)
      else if name = Some ''ord'' then
        (case plan_ord env a of
           Some v \<Rightarrow> Inr (KnownConstant (fold_value em v))
         | None \<Rightarrow> cast)
      else cast)"

text \<open>Names whose initializer may be folded; each is entered once on the way down.\<close>

definition const_names :: "fold_env \<Rightarrow> string set" where
  "const_names env = {n. const_initializer env n \<noteq> None}"

lemma finite_table: "finite {n. \<exists>v. map_of m n = Some v}"
  using finite_dom_map_of [of m] by (simp add: dom_def)

lemma finite_in_section: "finite {n. in_section r f iface impl n \<noteq> None}"
  by (cases "frame_unit r f"; cases "sf_kind f") (auto simp: in_section_def finite_table)

lemma finite_frame_const: "finite {n. scope_frame_find_const r f n \<noteq> None}"
proof (rule finite_subset)
  show "{n. scope_frame_find_const r f n \<noteq> None} \<subseteq>
      {n. map_of (sf_consts f) n \<noteq> None} \<union> {n. in_section r f iface_consts impl_consts n \<noteq> None}"
    by (auto simp: scope_frame_find_const_def split: option.splits if_splits)
  show "finite \<dots>"
    by (simp only: finite_Un finite_in_section finite_dom_map_of [unfolded dom_def] simp_thms)
qed

lemma finite_frames_const: "finite {n. frames_const r fs n \<noteq> None}"
proof (induction fs)
  case (Cons f fs)
  have "{n. frames_const r (f # fs) n \<noteq> None} \<subseteq>
      {n. scope_frame_find_const r f n \<noteq> None} \<union> {n. frames_const r fs n \<noteq> None}"
    by (auto split: option.splits)
  then show ?case by (rule finite_subset) (simp only: finite_Un finite_frame_const Cons simp_thms)
qed simp

lemma finite_const_names: "finite (const_names env)"
proof (rule finite_subset)
  show "const_names env \<subseteq> {n. map_of (fe_locals env) n \<noteq> None} \<union>
      {n. frames_const (fe_registry env) (fe_frames env) n \<noteq> None}"
    by (auto simp: const_names_def const_initializer_def split: option.splits prod.splits)
  show "finite \<dots>"
    by (simp only: finite_Un finite_frames_const finite_dom_map_of [unfolded dom_def] simp_thms)
qed

lemma const_names_left:
  assumes "n \<notin> set vis" "const_initializer env n = Some e"
  shows "card (const_names env - insert n (set vis)) < card (const_names env - set vis)"
proof (rule psubset_card_mono)
  show "finite (const_names env - set vis)" using finite_const_names by simp
  show "const_names env - insert n (set vis) \<subset> const_names env - set vis"
    using assms by (auto simp: const_names_def)
qed

lemma on_checked_cong [fundef_cong]:
  "x = y \<Longrightarrow> (\<And>v. y = Inr v \<Longrightarrow> f v = g v) \<Longrightarrow> on_checked x f = on_checked y g"
  by (auto simp: on_checked_def split: sum.splits)

definition with_overflow :: "bool \<Rightarrow> folded \<Rightarrow> folded" where
  "with_overflow f r = (fst r, f \<or> snd r)"

text \<open>
  \<open>eval_const_int_expr_impl\<close>, with the names being folded. The binder folds the operands of a
  division or comparison itself, starting with no names: that gives the same values, because
  an operand that needs a name being folded is part of a cycle and never folds.
\<close>

function fold_const :: "fold_env \<Rightarrow> string list \<Rightarrow> expr \<Rightarrow> folded checked" where
  "fold_const env vis e =
     (let em = fe_target env in
      case e of
        EIntLit _ n \<Rightarrow> Inr (Some (fold_literal em n), False)
      | EUnary _ op a _ \<Rightarrow>
          on_checked (fold_const env vis a) (\<lambda>(v, f).
            case v of None \<Rightarrow> Inr (None, f) | Some v \<Rightarrow> Inr (with_overflow f (fold_unary em op v)))
      | EBinary _ op a b q \<Rightarrow>
          on_checked (fold_const env vis a) (\<lambda>(v, f).
          on_checked (fold_const env vis b) (\<lambda>(w, g).
          on_checked (bind_integer_operation em op q v (operand_prim env a) w (operand_prim env b))
            (\<lambda>bound. case (bound, v, w) of
               (Some o1, Some v, Some w) \<Rightarrow>
                 on_checked (fold_binary em op (bb_kind o1) v w) (\<lambda>r. Inr (with_overflow (f \<or> g) r))
             | (None, _) \<Rightarrow> Inr unfolded
             | _ \<Rightarrow> Inr (None, f \<or> g))))
      | ECall _ callee args _ _ _ _ \<Rightarrow>
          (case args of
             [a] \<Rightarrow>
               on_checked (plan_call env e callee a) (\<lambda>plan.
                 case plan of
                   NotConstant \<Rightarrow> Inr unfolded
                 | KnownConstant c \<Rightarrow> Inr (Some c, False)
                 | StepArgument s \<Rightarrow>
                     on_checked (fold_const env vis a) (\<lambda>(v, f).
                     on_checked (fold_step em s v (ordinal_of env a)) (\<lambda>r. Inr (with_overflow f r)))
                 | CastArgument t \<Rightarrow>
                     on_checked (fold_const env vis a) (\<lambda>(v, f).
                       case v of
                         None \<Rightarrow> Inr (None, f)
                       | Some v \<Rightarrow>
                           on_checked (convert_const_int_value em v (Some t) True False)
                             (\<lambda>c. Inr (map_option fst c, f))))
           | _ \<Rightarrow> Inr unfolded)
      | EIdent _ n \<Rightarrow>
          (case label_ordinal env n of
             Some ordinal \<Rightarrow> Inr (map_option (fold_value em) ordinal, False)
           | None \<Rightarrow>
               if n \<in> set vis then Inr unfolded
               else (case const_initializer env n of
                       None \<Rightarrow> Inr unfolded
                     | Some i \<Rightarrow> fold_const env (n # vis) i))
      | _ \<Rightarrow> Inr unfolded)"
  by pat_completeness auto
termination
  by (relation "measures [\<lambda>(env, vis, e). card (const_names env - set vis), \<lambda>(env, vis, e). size e]")
    (auto simp: const_names_left)

declare fold_const.simps [simp del]

definition eval_const_int_expr :: "fold_env \<Rightarrow> expr \<Rightarrow> const_int option checked" where
  "eval_const_int_expr env e = on_checked (fold_const env [] e) (\<lambda>r. Inr (fst r))"

definition required_const_int_expr_overflows :: "fold_env \<Rightarrow> expr \<Rightarrow> bool checked" where
  "required_const_int_expr_overflows env e = on_checked (fold_const env [] e) (\<lambda>r. Inr (snd r))"

end
