(* ===== verification/Emit_Ordinals.thy ===== *)
theory Emit_Ordinals
  imports Emit_Fold
begin

text \<open>
  Ordinal values and domains, set literals and set conversions, \<open>src/emit_analysis.h\<close>,
  \<open>src/emit_analysis.cc\<close>: the ordinals of the labels of an enumeration, the domain of a type, the
  bounds of a set literal and when one set type converts to another, and the binding of \<open>Succ\<close>
  and \<open>Pred\<close>.
\<close>

subsection \<open>Enumerations\<close>

text \<open>
  A label has no value of its own, or one that does not fold, or a constant. The ordinals found
  so far are the entry of \<open>enum_ordinal_cache_\<close>; \<open>previous\<close> is none before the first label.
\<close>

datatype (plugins only: code) label_value = NoValue | NotFolded | FoldedTo const_int

definition label_result :: "label_value \<Rightarrow> i64 option \<Rightarrow> i64 option" where
  "label_result l previous =
     (case l of
        NotFolded \<Rightarrow> None
      | FoldedTo c \<Rightarrow>
          if has_kind UnsignedInt (cv_type c) \<and> 0x7FFFFFFFFFFFFFFF < cv_bits c then None
          else Some (cv_value c)
      | NoValue \<Rightarrow> (case previous of None \<Rightarrow> Some 0 | Some p \<Rightarrow> checked_add_int64 p 1))"

text \<open>The loop of \<open>evaluate_enum_ordinals\<close>: the new entry, and a report for each label out of order.\<close>

fun evaluate_labels ::
  "i64 option \<Rightarrow> (label_value \<times> i64 option) list \<Rightarrow> i64 option list \<times> nat" where
  "evaluate_labels previous [] = ([], 0)"
| "evaluate_labels previous ((l, known) # rest) =
     (case (case known of Some v \<Rightarrow> Some v | None \<Rightarrow> label_result l previous) of
        None \<Rightarrow> (None # map snd rest, 0)
      | Some v \<Rightarrow>
          let (vs, errors) = evaluate_labels (Some v) rest in
          (Some v # vs,
           if (case previous of None \<Rightarrow> False | Some p \<Rightarrow> v \<le>s p) then Suc errors else errors))"

definition evaluate_enum_ordinals :: "(label_value \<times> i64 option) list \<Rightarrow> i64 option list \<times> nat" where
  "evaluate_enum_ordinals labels = evaluate_labels None labels"

definition enum_member_ordinal :: "(label_value \<times> i64 option) list \<Rightarrow> nat \<Rightarrow> i64 option" where
  "enum_member_ordinal labels i =
     (if i < length labels then fst (evaluate_enum_ordinals labels) ! i else None)"

subsection \<open>Domains\<close>

text \<open>\<open>OrdinalExprValue\<close> and \<open>OrdinalDomain\<close> with the identity of the enumeration.\<close>

record ordinal_value =
  ov_value :: i64
  ov_family :: ordinal_family
  ov_enum :: "desc_ref option"

record keyed_domain = ordinal_domain +
  od_enum :: "desc_ref option"

definition keyed :: "ordinal_family \<Rightarrow> i64 \<Rightarrow> i64 \<Rightarrow> desc_ref option \<Rightarrow> keyed_domain" where
  "keyed f lo hi k = \<lparr>od_family = f, od_low = lo, od_high = hi, od_enum = k\<rparr>"

definition signed_min :: "i64 \<Rightarrow> i64 \<Rightarrow> i64" where
  "signed_min a b = (if b <s a then b else a)"

definition signed_max :: "i64 \<Rightarrow> i64 \<Rightarrow> i64" where
  "signed_max a b = (if a <s b then b else a)"

definition subrange_domain :: "ordinal_value option \<Rightarrow> ordinal_value option \<Rightarrow> keyed_domain option" where
  "subrange_domain lo hi =
     (case (lo, hi) of
        (Some l, Some h) \<Rightarrow>
          if ov_family l \<noteq> ov_family h \<or> ov_enum l \<noteq> ov_enum h then None
          else Some (keyed (ov_family l) (signed_min (ov_value l) (ov_value h))
                 (signed_max (ov_value l) (ov_value h)) (ov_enum l))
      | _ \<Rightarrow> None)"

text \<open>An enumeration that the registry describes; one that it does not has plain positions.\<close>

definition enum_domain ::
  "(label_value \<times> i64 option) list \<Rightarrow> nat \<Rightarrow> desc_ref option \<Rightarrow> keyed_domain option" where
  "enum_domain labels members key =
     (if labels \<noteq> [] then
        (case (enum_member_ordinal labels 0, enum_member_ordinal labels (length labels - 1)) of
           (Some lo, Some hi) \<Rightarrow> Some (keyed EnumFamily lo hi key)
         | _ \<Rightarrow> None)
      else Some (keyed EnumFamily 0 (if members = 0 then 0 else word_of_nat (members - 1)) key))"

definition primitive_domain :: "emit_target \<Rightarrow> primitive_info option \<Rightarrow> keyed_domain option checked" where
  "primitive_domain em p =
     (case p of
        None \<Rightarrow> Inr None
      | Some info \<Rightarrow>
          if prim_kind info = KBoolean then Inr (Some (keyed BooleanFamily 0 1 None))
          else if prim_kind info = KChar then Inr (Some (keyed CharFamily 0 255 None))
          else if prim_kind info = KWideChar then Inr (Some (keyed WideCharFamily 0 65535 None))
          else if int_kind info \<noteq> NoInt then
            on_checked (resolved_primitive_bits em info) (\<lambda>w.
              if int_kind info = UnsignedInt then
                (if w \<ge> 64 then Inr (Some (keyed IntegerFamily 0 0x7FFFFFFFFFFFFFFF None))
                 else on_checked (unsigned_mask_for_bits w)
                        (\<lambda>m. Inr (Some (keyed IntegerFamily 0 m None))))
              else on_checked (signed_min_for_bits w) (\<lambda>lo. on_checked (signed_max_for_bits w)
                     (\<lambda>hi. Inr (Some (keyed IntegerFamily lo hi None)))))
          else Inr None)"

subsection \<open>Ordinal comparisons\<close>

text \<open>The comparison of two constant ordinals in \<open>eval_ordinal_expr\<close>.\<close>

definition compare_ordinals ::
  "binop \<Rightarrow> ordinal_value option \<Rightarrow> ordinal_value option \<Rightarrow> ordinal_value option" where
  "compare_ordinals op lhs rhs =
     (case (lhs, rhs) of
        (Some l, Some r) \<Rightarrow>
          if ov_family l \<noteq> ov_family r \<or> ov_enum l \<noteq> ov_enum r \<or> \<not> binop_is_comparison op then None
          else
            let a = ov_value l; b = ov_value r;
                holds = (if op = BEq then a = b else if op = BNotEq then a \<noteq> b
                         else if op = BLt then a <s b else if op = BGt then b <s a
                         else if op = BLtEq then a \<le>s b else b \<le>s a)
            in Some \<lparr>ov_value = (if holds then 1 else 0), ov_family = BooleanFamily, ov_enum = None\<rparr>
      | _ \<Rightarrow> None)"

subsection \<open>Set literals\<close>

text \<open>An element is an expression or a range; it enters by its constant ordinals.\<close>

datatype (plugins only: code) set_element =
    OneElement "ordinal_value option"
  | RangeElement "ordinal_value option" "ordinal_value option"

record literal_summary =
  ls_family :: ordinal_family
  ls_enum :: "desc_ref option"
  ls_low :: i64
  ls_high :: i64

definition extend_set_literal_ordinal_summary ::
  "literal_summary option \<Rightarrow> ordinal_value option \<Rightarrow> literal_summary option" where
  "extend_set_literal_ordinal_summary summary e =
     (case e of
        None \<Rightarrow> None
      | Some v \<Rightarrow>
          (case summary of
             None \<Rightarrow> Some \<lparr>ls_family = ov_family v, ls_enum = ov_enum v, ls_low = ov_value v, ls_high = ov_value v\<rparr>
           | Some s \<Rightarrow>
               if ls_family s \<noteq> ov_family v \<or> ls_enum s \<noteq> ov_enum v then None
               else Some (s\<lparr>ls_low := signed_min (ls_low s) (ov_value v),
                            ls_high := signed_max (ls_high s) (ov_value v)\<rparr>)))"

fun summarize_from :: "literal_summary option \<Rightarrow> set_element list \<Rightarrow> literal_summary option" where
  "summarize_from summary [] = summary"
| "summarize_from summary (OneElement e # es) =
     (case extend_set_literal_ordinal_summary summary e of
        None \<Rightarrow> None | Some s \<Rightarrow> summarize_from (Some s) es)"
| "summarize_from summary (RangeElement lo hi # es) =
     (case extend_set_literal_ordinal_summary summary lo of
        None \<Rightarrow> None
      | Some s \<Rightarrow>
          (case extend_set_literal_ordinal_summary (Some s) hi of
             None \<Rightarrow> None | Some s \<Rightarrow> summarize_from (Some s) es))"

definition summarize_set_literal_ordinals :: "set_element list \<Rightarrow> literal_summary option" where
  "summarize_set_literal_ordinals es = summarize_from None es"

subsection \<open>Set conversions\<close>

datatype (plugins only: code) set_conversion_kind = Incompatible | Exact | Compatible

text \<open>\<open>ordinal_domain_for_set_type\<close>: the element's domain, or the explicit bounds.\<close>

definition set_domain :: "keyed_domain option \<Rightarrow> (i64 \<times> i64) option \<Rightarrow> keyed_domain option" where
  "set_domain d bounds =
     map_option (\<lambda>d. case bounds of None \<Rightarrow> d | Some (lo, hi) \<Rightarrow> d\<lparr>od_low := lo, od_high := hi\<rparr>) d"

text \<open>The domains of two set types, and whether their element types are the same.\<close>

definition classify_set_conversion ::
  "keyed_domain option \<Rightarrow> keyed_domain option \<Rightarrow> bool \<Rightarrow> set_conversion_kind" where
  "classify_set_conversion source target same_element =
     (case (source, target) of
        (Some s, Some d) \<Rightarrow>
          let compatible =
            (case od_family d of
               InvalidFamily \<Rightarrow> False
             | EnumFamily \<Rightarrow> od_family s = EnumFamily \<and> od_enum s = od_enum d
             | f \<Rightarrow> od_family s = f)
          in if \<not> compatible then Incompatible
             else if od_low s <s od_low d \<or> od_high d <s od_high s then Incompatible
             else if od_low s = od_low d \<and> od_high s = od_high d \<and> same_element then Exact
             else Compatible
      | _ \<Rightarrow> Incompatible)"

text \<open>
  \<open>set_literal_elements_convert_to\<close>: an element enters by the domain of its type, or by its
  ordinal when the type has none.
\<close>

definition element_domain :: "keyed_domain option \<times> ordinal_value option \<Rightarrow> keyed_domain option" where
  "element_domain e =
     (case e of
        (Some d, _) \<Rightarrow> Some d
      | (None, v) \<Rightarrow> map_option (\<lambda>v. keyed (ov_family v) (ov_value v) (ov_value v) (ov_enum v)) v)"

definition set_literal_elements_convert_to ::
  "(keyed_domain option \<times> ordinal_value option) list \<Rightarrow> keyed_domain option \<Rightarrow> bool" where
  "set_literal_elements_convert_to elements target =
     (case target of
        None \<Rightarrow> False
      | Some t \<Rightarrow>
          list_all (\<lambda>e. case element_domain e of
              None \<Rightarrow> False
            | Some d \<Rightarrow> od_family d = od_family t \<and> od_enum d = od_enum t) elements)"

subsection \<open>The type of a set literal\<close>

text \<open>
  An operand of a literal as \<open>deduce_set_literal_type\<close> sees it: the ordinal domain of its type,
  its constant ordinal, and the domain of the element type that its type gives a set literal
  (\<open>set_literal_element_result\<close>, which may be missing or have no ordinal domain). A set type is the
  domain of its elements.
\<close>

record literal_operand =
  lo_type :: "keyed_domain option"
  lo_value :: "ordinal_value option"
  lo_element :: "keyed_domain option option"

datatype (plugins only: code) literal_element =
    OneOperand literal_operand
  | OperandRange literal_operand literal_operand

primrec element_operands :: "literal_element \<Rightarrow> literal_operand list" where
  "element_operands (OneOperand a) = [a]"
| "element_operands (OperandRange a b) = [a, b]"

primrec element_ordinals :: "literal_element \<Rightarrow> set_element" where
  "element_ordinals (OneOperand a) = OneElement (lo_value a)"
| "element_ordinals (OperandRange a b) = RangeElement (lo_value a) (lo_value b)"

definition literal_operands :: "literal_element list \<Rightarrow> literal_operand list" where
  "literal_operands es = concat (map element_operands es)"

text \<open>\<open>add_element_type\<close>, over all elements: the domain of the first, shared by the others.\<close>

fun common_element_domain :: "literal_operand list \<Rightarrow> keyed_domain option" where
  "common_element_domain [] = None"
| "common_element_domain (a # rest) =
     (case lo_type a of
        None \<Rightarrow> None
      | Some d \<Rightarrow>
          if list_all (\<lambda>b. case lo_type b of
               None \<Rightarrow> False
             | Some e \<Rightarrow> od_family d = od_family e \<and> od_enum d = od_enum e) rest
          then Some d else None)"

definition inferred_set_type :: "literal_element list \<Rightarrow> keyed_domain option option" where
  "inferred_set_type es =
     (case summarize_set_literal_ordinals (map element_ordinals es) of
        None \<Rightarrow> map_option Some (common_element_domain (literal_operands es))
      | Some s \<Rightarrow>
          (case literal_operands es of
             [] \<Rightarrow> None
           | a # _ \<Rightarrow> map_option (\<lambda>e. set_domain e (Some (ls_low s, ls_high s))) (lo_element a)))"

datatype (plugins only: code) literal_type =
    NoLiteralType
  | InferredSet "keyed_domain option"
  | TargetSet

definition contextual_set_type ::
  "keyed_domain option \<Rightarrow> literal_element list \<Rightarrow> keyed_domain option option \<Rightarrow> bool \<Rightarrow> literal_type" where
  "contextual_set_type inferred es target same_element =
     (case target of
        None \<Rightarrow> InferredSet inferred
      | Some t \<Rightarrow>
          if classify_set_conversion inferred t same_element \<noteq> Incompatible then TargetSet
          else if set_literal_elements_convert_to (map (\<lambda>a. (lo_type a, lo_value a)) (literal_operands es)) t
          then TargetSet
          else NoLiteralType)"

text \<open>
  \<open>deduce_set_literal_type\<close>: the first argument and the second result are the set type kept at the
  literal (\<open>result_descriptor\<close>).
\<close>

definition deduce_set_literal_type ::
  "keyed_domain option option \<Rightarrow> literal_element list \<Rightarrow> keyed_domain option option \<Rightarrow> bool \<Rightarrow>
    literal_type \<times> keyed_domain option option" where
  "deduce_set_literal_type known es target same_element =
     (case known of
        Some inferred \<Rightarrow> (contextual_set_type inferred es target same_element, known)
      | None \<Rightarrow>
          if es = [] then (if target = None then NoLiteralType else TargetSet, None)
          else (case inferred_set_type es of
                  None \<Rightarrow> (NoLiteralType, None)
                | Some inferred \<Rightarrow> (contextual_set_type inferred es target same_element, Some inferred)))"

text \<open>
  The operation of a binary operator on sets, and the domain of its result type: the type of an
  operand to which the other converts, or a new set type over both.
\<close>

definition set_operation_kind :: "binop \<Rightarrow> bound_kind" where
  "set_operation_kind op =
     (if op = BAdd then SetUnion else if op = BSub then SetDifference
      else if op = BMul then SetIntersection else if op = BSymDiff then SetSymmetricDifference
      else Unbound)"

definition holds_bounds :: "keyed_domain option \<Rightarrow> i64 \<Rightarrow> i64 \<Rightarrow> bool" where
  "holds_bounds e low high = (case e of None \<Rightarrow> False | Some d \<Rightarrow> od_low d \<le>s low \<and> high \<le>s od_high d)"

definition joined_domain ::
  "emit_target \<Rightarrow> keyed_domain \<Rightarrow> keyed_domain \<Rightarrow> keyed_domain option \<Rightarrow> keyed_domain option \<Rightarrow>
   keyed_domain option checked" where
  "joined_domain em l r lelem relem =
     (let low = signed_min (od_low l) (od_low r); high = signed_max (od_high l) (od_high r);
          over = (\<lambda>e. set_domain e (Some (low, high)))
      in if od_family l \<noteq> IntegerFamily \<or> holds_bounds lelem low high then Inr (over lelem)
         else if holds_bounds relem low high then Inr (over relem)
         else on_checked (ordinal_integer_primitive_for_domain em
                \<lparr>od_family = IntegerFamily, od_low = low, od_high = high\<rparr>)
                (\<lambda>p. on_checked (primitive_domain em p) (\<lambda>d. Inr (over d))))"

definition set_operation_domain ::
  "emit_target \<Rightarrow> keyed_domain option \<Rightarrow> keyed_domain option \<Rightarrow> keyed_domain option \<Rightarrow>
   keyed_domain option \<Rightarrow> bool \<Rightarrow> keyed_domain option checked" where
  "set_operation_domain em lhs rhs lelem relem same_element =
     (case (lhs, rhs) of
        (Some l, Some r) \<Rightarrow>
          if od_family l \<noteq> od_family r \<or> od_enum l \<noteq> od_enum r then Inr None
          else if classify_set_conversion rhs lhs same_element \<noteq> Incompatible then Inr lhs
          else if classify_set_conversion lhs rhs same_element \<noteq> Incompatible then Inr rhs
          else joined_domain em l r lelem relem
      | _ \<Rightarrow> Inr None)"

subsection \<open>Pointer operations\<close>

text \<open>
  What \<open>bind_binary_operation\<close> asks of an operand: its descriptor, whether it takes part in typed
  pointer arithmetic, is a pointer or class reference, is \<open>nil\<close> or an integer, and whether its
  pointer type has a target.
\<close>

record operand_view =
  view_source :: "desc_ref option"
  view_pointer :: bool
  view_pointer_value :: bool
  view_nil :: bool
  view_integer :: bool
  view_target :: bool

datatype (plugins only: code) pointer_binding =
    NotPointer
  | Rejected
  | PointerBinding bound_kind "desc_ref option" "desc_ref option" "desc_ref option" bool

definition bind_pointer_operation ::
  "binop \<Rightarrow> operand_view \<Rightarrow> operand_view \<Rightarrow> desc_ref option \<Rightarrow> desc_ref option \<Rightarrow> desc_ref option \<Rightarrow> bool \<Rightarrow>
   pointer_binding" where
  "bind_pointer_operation op l r common boolean ptrint targets_match =
     (let pointer = (if view_pointer l then view_source l else view_source r);
          invalid = PointerBinding InvalidPointer (view_source l) (view_source r) None True;
          lv = view_pointer_value l; rv = view_pointer_value r
      in if binop_is_comparison op \<and> (lv \<and> (rv \<or> view_nil r) \<or> rv \<and> view_nil l \<or> view_nil l \<and> view_nil r) then
           (if common = None \<or> boolean = None then invalid
            else PointerBinding (if op = BEq \<or> op = BNotEq then PointerEqual else PointerOrder)
                   common common boolean True)
         else if binop_is_comparison op \<and> (lv \<or> rv) then invalid
         else if ptrint \<noteq> None \<and> op = BAdd \<and> (view_pointer l \<and> view_integer r \<or> view_integer l \<and> view_pointer r) then
           PointerBinding PointerAdd (if view_pointer l then view_source l else ptrint)
             (if view_pointer r then view_source r else ptrint) pointer (view_pointer l)
         else if ptrint \<noteq> None \<and> op = BSub \<and> view_pointer l \<and> view_integer r then
           PointerBinding PointerSubtract (view_source l) ptrint (view_source l) True
         else if ptrint \<noteq> None \<and> op = BSub \<and> view_pointer l \<and> view_pointer r then
           (if view_target l \<and> view_target r \<and> \<not> targets_match then Rejected
            else let c = (if \<not> view_target l then view_source r else view_source l)
                 in PointerBinding PointerDifference c c ptrint True)
         else if (op = BAdd \<or> op = BSub) \<and>
                 (lv \<and> (rv \<or> view_integer r \<or> view_nil r) \<or> rv \<and> (lv \<or> view_integer l \<or> view_nil l)) then invalid
         else NotPointer)"

subsection \<open>Binding \<open>Succ\<close> and \<open>Pred\<close>\<close>

text \<open>
  \<open>bind_intrinsic_operation\<close> for these two: the storage is the carrier unless a check is on, when
  the carrier also holds the signed one that is added or subtracted.
\<close>

definition bind_ordinal_step ::
  "emit_target \<Rightarrow> bool \<Rightarrow> primitive_info option \<Rightarrow> ordinal_domain option \<Rightarrow> bool \<Rightarrow> bool \<Rightarrow>
   ordinal_step option checked" where
  "bind_ordinal_step em is_succ storage domain q_check r_check =
     (case storage of
        None \<Rightarrow> Inr None
      | Some s \<Rightarrow>
          on_checked
            (if q_check \<or> r_check then
               (case ordinal_integer_primitive (prims em) SignedInt 8 of
                  None \<Rightarrow> Inr None
                | Some one \<Rightarrow> integer_arithmetic_primitive em (if is_succ then BAdd else BSub) s one)
             else Inr (Some s))
            (\<lambda>carrier. Inr (map_option (\<lambda>c.
               \<lparr>st_succ = is_succ, st_carrier = c, st_storage = storage, st_domain = domain,
                st_check_overflow = q_check, st_check_range = r_check\<rparr>) carrier)))"

end
