(* ===== verification/Emit_Carriers.thy ===== *)
theory Emit_Carriers
  imports Emit_Fold Support_Facts
begin

text \<open>
  The primitive integer types of the registry with their ranges, and the types that
  \<open>src/emit_analysis.cc\<close> chooses to carry out an operation: the carrier holds both operands except
  where no 64-bit type does.
\<close>

subsection \<open>Primitive types of the registry\<close>

definition standard_target :: "emit_target \<Rightarrow> bool" where
  "standard_target em \<longleftrightarrow>
     set (prims em) = snd ` set primitive_type_map \<and> (pointer_bits em = 32 \<or> pointer_bits em = 64) \<and>
     boolean_prim em = find_primitive ''boolean''"

definition table_integer :: "primitive_info \<Rightarrow> bool" where
  "table_integer info \<longleftrightarrow> info \<in> snd ` set primitive_type_map \<and> int_kind info \<noteq> NoInt"

definition prim_width :: "emit_target \<Rightarrow> primitive_info \<Rightarrow> nat" where
  "prim_width em info = (if pointer_sized info then pointer_bits em else prim_bits info)"

definition range_of :: "emit_target \<Rightarrow> primitive_info \<Rightarrow> int set" where
  "range_of em info = int_range (int_kind info, prim_width em info)"

lemma table_widths:
  "list_all (\<lambda>c. int_kind c \<noteq> NoInt \<longrightarrow> pointer_sized c \<or> prim_bits c \<in> {8, 16, 32, 64})
     (map snd primitive_type_map)"
  "list_all (\<lambda>c. is_ordinal_integer c \<longrightarrow> \<not> pointer_sized c) (map snd primitive_type_map)"
  by code_simp+

lemma width_cases:
  assumes "standard_target em" "table_integer info"
  shows "prim_width em info \<in> {8, 16, 32, 64}"
proof -
  have "int_kind info \<noteq> NoInt \<longrightarrow> pointer_sized info \<or> prim_bits info \<in> {8, 16, 32, 64}"
    using table_widths(1) assms(2) unfolding list_all_iff table_integer_def by auto
  with assms show ?thesis by (auto simp: standard_target_def table_integer_def prim_width_def)
qed

lemma resolved_width [simp]:
  assumes "standard_target em" "table_integer info"
  shows "resolved_primitive_bits em info = Inr (prim_width em info)"
  using width_cases [OF assms] assms
  by (cases "pointer_sized info")
    (auto simp: resolved_primitive_bits_def primitive_bits_def prim_width_def standard_target_def table_integer_def)

lemma ordinal_in_table:
  assumes "standard_target em" "(k, b) \<in> set ordinals"
  obtains c where "ordinal_integer_primitive (prims em) k b = Some c" "int_kind c = k"
    "prim_width em c = b" "table_integer c" "prim_bits c = b"
proof -
  have st: "set (prims em) = snd ` set primitive_type_map" using assms by (simp add: standard_target_def)
  obtain c where c: "ordinal_integer_primitive (prims em) k b = Some c" "is_ordinal_integer c"
    "int_kind c = k" "prim_bits c = b" by (rule ordinal_found [OF st assms(2)])
  then have "c \<in> set (prims em)" by (auto simp: ordinal_integer_primitive_def find_Some_iff)
  with st have "c \<in> snd ` set primitive_type_map" by simp
  moreover from this have "is_ordinal_integer c \<longrightarrow> \<not> pointer_sized c"
    using table_widths(2) unfolding list_all_iff by auto
  ultimately show thesis using that [of c] c assms(2) by (auto simp: prim_width_def table_integer_def)
qed

lemma ordinal_kind: "ordinal_integer_primitive st k b = Some c \<Longrightarrow> int_kind c = k"
  by (auto simp: ordinal_integer_primitive_def find_Some_iff)

subsection \<open>Carriers\<close>

text \<open>One operand is signed and the other unsigned with 64 bits: no type holds both.\<close>

definition mixed_with_qword :: "emit_target \<Rightarrow> primitive_info \<Rightarrow> primitive_info \<Rightarrow> bool" where
  "mixed_with_qword em l r \<longleftrightarrow>
     int_kind l \<noteq> int_kind r \<and>
     (int_kind l = UnsignedInt \<and> prim_width em l = 64 \<or> int_kind r = UnsignedInt \<and> prim_width em r = 64)"

text \<open>An answer that is a type of the table which holds the given ranges as far as possible.\<close>

definition carries ::
  "emit_target \<Rightarrow> primitive_info \<Rightarrow> primitive_info \<Rightarrow> primitive_info option checked \<Rightarrow> bool" where
  "carries em l r answer \<longleftrightarrow>
     (\<exists>c. answer = Inr (Some c) \<and> table_integer c \<and>
        (range_of em l \<union> range_of em r \<subseteq> range_of em c \<longleftrightarrow> \<not> mixed_with_qword em l r))"

lemma carriesI:
  assumes "standard_target em" "(k, b) \<in> set ordinals"
    and "answer = Inr (ordinal_integer_primitive (prims em) k b)"
    and "range_of em l \<union> range_of em r \<subseteq> int_range (k, b) \<longleftrightarrow> \<not> mixed_with_qword em l r"
  shows "carries em l r answer"
proof -
  obtain c where "ordinal_integer_primitive (prims em) k b = Some c" "int_kind c = k"
    "prim_width em c = b" "table_integer c" by (rule ordinal_in_table [OF assms(1,2)])
  with assms(3,4) show ?thesis by (auto simp: carries_def range_of_def)
qed

lemma kind_cases: "table_integer info \<Longrightarrow> int_kind info = SignedInt \<or> int_kind info = UnsignedInt"
  by (cases "int_kind info") (auto simp: table_integer_def)

lemma range_subset:
  assumes "k = SignedInt \<or> k = UnsignedInt" "k' = SignedInt \<or> k' = UnsignedInt"
    and "b \<in> {8, 16, 32, 64}" "b' \<in> {8, 16, 32, 64}"
  shows "int_range (k, b) \<subseteq> int_range (k', b') \<longleftrightarrow>
    k = k' \<and> b \<le> b' \<or> k = UnsignedInt \<and> k' = SignedInt \<and> b < b'"
  using assms unfolding insert_iff empty_iff
  by (elim disjE) (simp_all add: int_range_def signed_range_def unsigned_range_def)

text \<open>
  A carrier chosen from the kinds and widths of the operands: it is enough to check the 64
  combinations.
\<close>

definition choice_ok :: "primitive_int_kind \<times> nat \<Rightarrow> (primitive_int_kind \<times> nat) \<times> (primitive_int_kind \<times> nat) \<Rightarrow> bool" where
  "choice_ok c ops =
     (case (c, ops) of ((k, b), ((lk, lb), (rk, rb))) \<Rightarrow>
       (k, b) \<in> set ordinals \<and>
       ((lk = k \<and> lb \<le> b \<or> lk = UnsignedInt \<and> k = SignedInt \<and> lb < b) \<and>
        (rk = k \<and> rb \<le> b \<or> rk = UnsignedInt \<and> k = SignedInt \<and> rb < b)) =
       (\<not> (lk \<noteq> rk \<and> (lk = UnsignedInt \<and> lb = 64 \<or> rk = UnsignedInt \<and> rb = 64))))"

definition operand_choices :: "((primitive_int_kind \<times> nat) \<times> (primitive_int_kind \<times> nat)) list" where
  "operand_choices = List.product ordinals ordinals"

definition common_choice :: "primitive_int_kind \<times> nat \<Rightarrow> primitive_int_kind \<times> nat \<Rightarrow> primitive_int_kind \<times> nat" where
  "common_choice l r =
     (case (l, r) of ((lk, lb), (rk, rb)) \<Rightarrow>
       if lk = rk then (lk, max lb rb)
       else if lk = UnsignedInt \<and> lb = 64 \<or> rk = UnsignedInt \<and> rb = 64 then (UnsignedInt, 64)
       else let sb = (if lk = SignedInt then lb else rb); ub = (if lk = UnsignedInt then lb else rb)
            in (SignedInt, if sb > ub then sb else 2 * ub))"

definition arithmetic_choice ::
  "nat \<Rightarrow> bool \<Rightarrow> primitive_int_kind \<times> nat \<Rightarrow> primitive_int_kind \<times> nat \<Rightarrow> primitive_int_kind \<times> nat" where
  "arithmetic_choice pb sub l r =
     (case (l, r) of ((lk, lb), (rk, rb)) \<Rightarrow>
       if lk = SignedInt \<and> lb = 64 \<or> rk = SignedInt \<and> rb = 64 then (SignedInt, 64)
       else if lk = UnsignedInt \<and> lb = 64 \<or> rk = UnsignedInt \<and> rb = 64 then (UnsignedInt, 64)
       else if pb = 32 \<and> (lk = UnsignedInt \<and> lb = pb \<or> rk = UnsignedInt \<and> rb = pb) \<and>
               (lk = SignedInt \<or> rk = SignedInt \<or> sub) then (SignedInt, 64)
       else if lk = SignedInt \<or> rk = SignedInt \<or> sub then (SignedInt, pb) else (UnsignedInt, pb))"

definition division_choice ::
  "nat \<Rightarrow> primitive_int_kind \<times> nat \<Rightarrow> primitive_int_kind \<times> nat \<Rightarrow> primitive_int_kind \<times> nat" where
  "division_choice pb l r =
     (case (l, r) of ((lk, lb), (rk, rb)) \<Rightarrow>
       if lb = 64 \<or> rb = 64
       then (if lk = SignedInt \<or> rk = SignedInt then SignedInt else UnsignedInt, 64)
       else let native = (lk = UnsignedInt \<and> lb = pb \<or> rk = UnsignedInt \<and> rb = pb)
         in if pb = 32 \<and> native \<and> (lk = SignedInt \<or> rk = SignedInt) then (SignedInt, 64)
            else if native then (UnsignedInt, pb) else (SignedInt, pb))"

lemma common_choice_ok:
  "list_all (\<lambda>(l, r). choice_ok (common_choice l r) (l, r)) operand_choices"
  by code_simp

lemma arithmetic_choice_ok:
  "list_all (\<lambda>pb. list_all (\<lambda>sub. list_all (\<lambda>(l, r). choice_ok (arithmetic_choice pb sub l r) (l, r))
     operand_choices) [False, True]) [32, 64]"
  by code_simp

lemma division_choice_ok:
  "list_all (\<lambda>pb. list_all (\<lambda>(l, r). choice_ok (division_choice pb l r) (l, r)) operand_choices) [32, 64]"
  by code_simp

abbreviation kind_width :: "emit_target \<Rightarrow> primitive_info \<Rightarrow> primitive_int_kind \<times> nat" where
  "kind_width em info \<equiv> (int_kind info, prim_width em info)"

lemma kind_width_ordinal:
  assumes "standard_target em" "table_integer info"
  shows "kind_width em info \<in> set ordinals"
  using width_cases [OF assms] kind_cases [OF assms(2)] by auto

lemma carries_choice:
  assumes em: "standard_target em" and l: "table_integer l" and r: "table_integer r"
    and choice: "list_all (\<lambda>(l, r). choice_ok (choice l r) (l, r)) operand_choices"
    and answer: "answer = Inr (ordinal_integer_primitive (prims em)
       (fst (choice (kind_width em l) (kind_width em r))) (snd (choice (kind_width em l) (kind_width em r))))"
  shows "carries em l r answer"
proof -
  obtain k b where kb: "choice (kind_width em l) (kind_width em r) = (k, b)" by fastforce
  have "(kind_width em l, kind_width em r) \<in> set operand_choices"
    unfolding operand_choices_def set_product by (intro SigmaI kind_width_ordinal em l r)
  with choice kb have ok: "choice_ok (k, b) (kind_width em l, kind_width em r)"
    unfolding list_all_iff by (metis (no_types, lifting) case_prod_conv)
  then have ord: "(k, b) \<in> set ordinals" by (simp add: choice_ok_def)
  then have kb': "k = SignedInt \<or> k = UnsignedInt" "b \<in> {8, 16, 32, 64}" by auto
  note w = width_cases [OF em l] width_cases [OF em r] and kinds = kind_cases [OF l] kind_cases [OF r]
  show ?thesis
  proof (rule carriesI [OF em ord])
    show "answer = Inr (ordinal_integer_primitive (prims em) k b)" using answer kb by simp
    show "range_of em l \<union> range_of em r \<subseteq> int_range (k, b) \<longleftrightarrow> \<not> mixed_with_qword em l r"
      using ok
      unfolding range_of_def mixed_with_qword_def Un_subset_iff choice_ok_def prod.case
        range_subset [OF kinds(1) kb'(1) w(1) kb'(2)] range_subset [OF kinds(2) kb'(1) w(2) kb'(2)]
      by (rule conjunct2)
  qed
qed

lemma choices_at:
  assumes "standard_target em"
  shows "list_all (\<lambda>(l, r). choice_ok (arithmetic_choice (pointer_bits em) sub l r) (l, r)) operand_choices"
    and "list_all (\<lambda>(l, r). choice_ok (division_choice (pointer_bits em) l r) (l, r)) operand_choices"
proof -
  have "pointer_bits em \<in> set [32, 64]" "sub \<in> set [False, True]"
    using assms by (auto simp: standard_target_def)
  with arithmetic_choice_ok division_choice_ok show
    "list_all (\<lambda>(l, r). choice_ok (arithmetic_choice (pointer_bits em) sub l r) (l, r)) operand_choices"
    "list_all (\<lambda>(l, r). choice_ok (division_choice (pointer_bits em) l r) (l, r)) operand_choices"
    unfolding list_all_iff by blast+
qed

lemma common_carries:
  assumes "standard_target em" "table_integer l" "table_integer r"
  shows "carries em l r (common_integer_primitive em l r)"
proof (rule carries_choice [OF assms common_choice_ok])
  show "common_integer_primitive em l r = Inr (ordinal_integer_primitive (prims em)
      (fst (common_choice (kind_width em l) (kind_width em r)))
      (snd (common_choice (kind_width em l) (kind_width em r))))"
    using width_cases [OF assms(1,2)] width_cases [OF assms(1,3)] kind_cases [OF assms(2)] kind_cases [OF assms(3)]
    unfolding insert_iff empty_iff
    by (elim disjE)
      (simp_all add: common_integer_primitive_def with_bits_def on_checked_def assms common_choice_def)
qed

lemma arithmetic_carries:
  assumes "standard_target em" "table_integer l" "table_integer r"
  shows "carries em l r (integer_arithmetic_primitive em op l r)"
proof (rule carries_choice [OF assms choices_at(1) [OF assms(1), of "op = BSub"]])
  have "pointer_bits em = 32 \<or> pointer_bits em = 64" using assms by (simp add: standard_target_def)
  then show "integer_arithmetic_primitive em op l r = Inr (ordinal_integer_primitive (prims em)
      (fst (arithmetic_choice (pointer_bits em) (op = BSub) (kind_width em l) (kind_width em r)))
      (snd (arithmetic_choice (pointer_bits em) (op = BSub) (kind_width em l) (kind_width em r))))"
    by (elim disjE) (auto simp: integer_arithmetic_primitive_def with_bits_def on_checked_def assms
        arithmetic_choice_def native_unsigned_def default_integer_primitive_def)
qed

lemma division_carries:
  assumes "standard_target em" "table_integer l" "table_integer r"
  shows "carries em l r (division_carrier em l r)"
proof (rule carries_choice [OF assms choices_at(2) [OF assms(1)]])
  have "pointer_bits em = 32 \<or> pointer_bits em = 64" using assms by (simp add: standard_target_def)
  then show "division_carrier em l r = Inr (ordinal_integer_primitive (prims em)
      (fst (division_choice (pointer_bits em) (kind_width em l) (kind_width em r)))
      (snd (division_choice (pointer_bits em) (kind_width em l) (kind_width em r))))"
    by (elim disjE) (auto simp: division_carrier_def with_bits_def on_checked_def assms Let_def
        division_choice_def native_unsigned_def default_integer_primitive_def)
qed

subsection \<open>What every choice of a carrier gives\<close>

locale operand_carrier =
  fixes pick :: "emit_target \<Rightarrow> primitive_info \<Rightarrow> primitive_info \<Rightarrow> primitive_info option checked"
  assumes holds: "standard_target em \<Longrightarrow> table_integer l \<Longrightarrow> table_integer r \<Longrightarrow> carries em l r (pick em l r)"
begin

lemma chosen:
  assumes "standard_target em" "table_integer l" "table_integer r"
  shows "\<exists>c. pick em l r = Inr (Some c) \<and> table_integer c \<and>
    (range_of em l \<union> range_of em r \<subseteq> range_of em c \<longleftrightarrow> \<not> mixed_with_qword em l r)"
  using holds [OF assms] by (simp add: carries_def)

lemma signed_chosen:
  assumes "standard_target em" "table_integer l" "table_integer r" "\<not> mixed_with_qword em l r"
    and "int_kind r = SignedInt"
  obtains c where "pick em l r = Inr (Some c)" "table_integer c" "int_kind c = SignedInt"
    "range_of em l \<subseteq> range_of em c"
proof -
  obtain c where c: "pick em l r = Inr (Some c)" "table_integer c"
    "range_of em l \<subseteq> range_of em c" "range_of em r \<subseteq> range_of em c" using chosen [OF assms(1-3)] assms(4) by auto
  have "- 1 \<in> range_of em r"
    using assms(5) width_cases [OF assms(1,3)] by (auto simp: range_of_def int_range_def signed_range_def)
  with c(4) have "- 1 \<in> range_of em c" by blast
  then have "int_kind c \<noteq> UnsignedInt" by (auto simp: range_of_def int_range_def unsigned_range_def)
  with kind_cases [OF c(2)] that c show thesis by blast
qed

end

interpretation common: operand_carrier common_integer_primitive
  by unfold_locales (rule common_carries)

interpretation arithmetic: operand_carrier "\<lambda>em. integer_arithmetic_primitive em op" for op
  by unfold_locales (rule arithmetic_carries)

interpretation division: operand_carrier division_carrier
  by unfold_locales (rule division_carries)

end
