(* ===== verification/Emit_Fold_Facts.thy ===== *)
theory Emit_Fold_Facts
  imports Emit_Carriers "HOL-Library.Signed_Division"
begin

text \<open>
  What the folding of constants in \<open>src/emit_analysis.cc\<close> achieves: a folded constant is the exact
  integer or there is none, and where the code falls short of that.
\<close>

subsection \<open>The integer a constant stands for\<close>

definition const_value :: "const_int \<Rightarrow> int" where
  "const_value v = (if has_kind UnsignedInt (cv_type v) then uint (cv_bits v) else sint (cv_value v))"

text \<open>
  A constant is well formed when a negative one has a typed value and its pattern is the value
  otherwise; it is plain when its pattern is the 64-bit value, which a negative constant that was
  cast to a narrower type is not.
\<close>

definition const_wf :: "const_int \<Rightarrow> bool" where
  "const_wf v \<longleftrightarrow>
     (cv_value v <s 0 \<longrightarrow> has_kind SignedInt (cv_type v) \<or> has_kind UnsignedInt (cv_type v)) \<and>
     (0 \<le>s cv_value v \<or> has_kind UnsignedInt (cv_type v) \<longrightarrow> cv_bits v = cv_value v)"

definition const_plain :: "const_int \<Rightarrow> bool" where
  "const_plain v \<longleftrightarrow>
     cv_bits v = cv_value v \<and>
     (cv_value v <s 0 \<longrightarrow> has_kind SignedInt (cv_type v) \<or> has_kind UnsignedInt (cv_type v))"

lemma plain_wf: "const_plain v \<Longrightarrow> const_wf v"
  by (simp add: const_plain_def const_wf_def)

lemma has_kind_excl: "has_kind SignedInt t \<Longrightarrow> \<not> has_kind UnsignedInt t"
  by (auto simp: has_kind_def split: option.splits)

lemma value_primitive_signed:
  assumes "standard_target em" "v <s 0"
  shows "has_kind SignedInt (primitive_info_for_value (prims em) v)"
proof -
  have neg: "\<not> 0 \<le>s v" using assms(2) by (simp add: word_sless_alt word_sle_eq)
  have "has_kind SignedInt (ordinal_integer_primitive (prims em) SignedInt b)" if "b \<in> {8, 16, 32, 64}" for b
  proof -
    have "(SignedInt, b) \<in> set ordinals" using that by auto
    then obtain c where "ordinal_integer_primitive (prims em) SignedInt b = Some c" "int_kind c = SignedInt"
      by (rule ordinal_in_table [OF assms(1)])
    then show ?thesis by (simp add: has_kind_def)
  qed
  with neg show ?thesis by (simp add: primitive_info_for_value_def)
qed

lemma fold_value_simps [simp]:
  "cv_value (fold_value em v) = v" "cv_bits (fold_value em v) = v"
  "cv_type (fold_value em v) = primitive_info_for_value (prims em) v"
  by (simp_all add: fold_value_def const_of_def)

lemma fold_value_plain: "standard_target em \<Longrightarrow> const_plain (fold_value em v)"
  using value_primitive_signed [of em v] by (simp add: const_plain_def)

lemma fold_value_const: "standard_target em \<Longrightarrow> const_value (fold_value em v) = sint v"
proof (cases "v <s 0")
  case True
  assume "standard_target em"
  from value_primitive_signed [OF this True] show ?thesis
    by (auto simp: const_value_def dest: has_kind_excl)
next
  case False
  then have "0 \<le> sint v" by (simp add: word_sless_alt)
  then show ?thesis by (simp add: const_value_def sint_nonneg)
qed

lemma qword_const:
  assumes "standard_target em"
  shows "const_plain \<lparr>cv_value = n, cv_bits = n, cv_type = ordinal_integer_primitive (prims em) UnsignedInt 64\<rparr>"
    "const_value \<lparr>cv_value = n, cv_bits = n, cv_type = ordinal_integer_primitive (prims em) UnsignedInt 64\<rparr> =
      uint n"
proof -
  have "(UnsignedInt, 64) \<in> set ordinals" by simp
  then obtain c where "ordinal_integer_primitive (prims em) UnsignedInt 64 = Some c" "int_kind c = UnsignedInt"
    by (rule ordinal_in_table [OF assms(1)])
  then show "const_plain \<lparr>cv_value = n, cv_bits = n, cv_type = ordinal_integer_primitive (prims em) UnsignedInt 64\<rparr>"
    "const_value \<lparr>cv_value = n, cv_bits = n, cv_type = ordinal_integer_primitive (prims em) UnsignedInt 64\<rparr> =
      uint n"
    by (simp_all add: const_plain_def const_value_def has_kind_def)
qed

text \<open>The sign and the magnitude that the folder computes with.\<close>

lemma const_sign:
  assumes "const_wf v"
  shows "const_negative v \<longleftrightarrow> const_value v < 0"
  using assms by (auto simp: const_negative_def const_value_def word_sless_alt)

lemma const_magnitude_abs:
  assumes "const_plain v"
  shows "uint (const_magnitude v) = \<bar>const_value v\<bar>"
proof (cases "const_negative v")
  case True
  then have neg: "sint (cv_value v) < 0" and k: "\<not> has_kind UnsignedInt (cv_type v)"
    by (simp_all add: const_negative_def word_sless_alt)
  have "uint (- cv_value v) = take_bit 64 (- sint (cv_value v))"
    using uint_word_of_int_eq [of "- sint (cv_value v)", where 'a = 64] by simp
  also have "\<dots> = - sint (cv_value v)"
    using neg sint_in_range [of "cv_value v"]
    by (intro take_bit_int_eq_self) (simp_all add: signed_range_def)
  finally show ?thesis using True assms neg k by (simp add: const_magnitude_def const_plain_def const_value_def)
next
  case False
  then have "has_kind UnsignedInt (cv_type v) \<or> 0 \<le> sint (cv_value v)"
    by (auto simp: const_negative_def word_sless_alt)
  with False assms show ?thesis
    by (auto simp: const_magnitude_def const_plain_def const_value_def sint_nonneg)
qed

definition foldable_range :: "int set" where
  "foldable_range = {- 9223372036854775808 ..< 18446744073709551616}"

text \<open>The fold that stands for the integer \<open>k\<close>: the constant, or an overflow.\<close>

definition folds_to :: "int \<Rightarrow> folded \<Rightarrow> bool" where
  "folds_to k r \<longleftrightarrow>
     (if k \<in> foldable_range then \<exists>v. r = (Some v, False) \<and> const_value v = k \<and> const_plain v
      else r = (None, True))"

lemma sint_small:
  assumes "uint m < 9223372036854775808"
  shows "sint (m :: u64) = uint m"
proof -
  have "- 9223372036854775808 \<le> uint m" using uint_ge_0 [of m] by linarith
  with assms have "signed_take_bit 63 (uint m) = uint m"
    by (intro signed_take_bit_int_eq_self) simp_all
  then show ?thesis by (simp add: sint_uint)
qed

lemma make_result_folds:
  assumes "standard_target em"
  shows "folds_to (if neg then - uint m else uint m) (make_result em neg m)"
proof (cases neg)
  case True
  show ?thesis
  proof (cases "0x8000000000000000 < m")
    case True
    then have "9223372036854775808 < uint m" by (simp add: word_less_def)
    with True \<open>neg\<close> show ?thesis by (simp add: folds_to_def foldable_range_def make_result_def)
  next
    case False
    then have le: "uint m \<le> 9223372036854775808" by (simp add: word_less_def)
    have s: "sint (- m) = - uint m"
    proof (cases "m = 0x8000000000000000")
      case True
      then show ?thesis by simp
    next
      case False
      then have "uint m \<noteq> uint (0x8000000000000000 :: u64)" by (metis word_uint_eqI)
      then have "uint m \<noteq> 9223372036854775808" by simp
      with le sint_small [of m] have "sint m = uint m" by simp
      moreover have "- uint m < 9223372036854775808" using uint_ge_0 [of m] by linarith
      ultimately show ?thesis using le sint_minus_exact [of m] by (simp add: signed_range_def)
    qed
    have "(if m = 0x8000000000000000 then 0x8000000000000000 else - m) = - m" by simp
    moreover have "- uint m < 18446744073709551616" using uint_ge_0 [of m] by linarith
    ultimately show ?thesis
      using False \<open>neg\<close> s le fold_value_const [OF assms, of "- m"] fold_value_plain [OF assms, of "- m"]
      by (simp add: folds_to_def foldable_range_def make_result_def)
  qed
next
  case False
  have r: "uint m < 18446744073709551616" using uint_lt2p [of m] by simp
  have nonneg: "- 9223372036854775808 \<le> uint m" using uint_ge_0 [of m] by linarith
  show ?thesis
  proof (cases "m \<le> 0x7FFFFFFFFFFFFFFF")
    case True
    then have "uint m \<le> 9223372036854775807" by (simp add: word_le_def)
    then have "sint m = uint m" by (intro sint_small) simp
    then show ?thesis
      using True False r nonneg fold_value_const [OF assms, of m] fold_value_plain [OF assms, of m]
      by (simp add: folds_to_def foldable_range_def make_result_def)
  next
    case False
    with \<open>\<not> neg\<close> r nonneg qword_const [OF assms, of m] show ?thesis
      by (simp add: folds_to_def foldable_range_def make_result_def)
  qed
qed

lemma add_magnitudes_fold:
  assumes "standard_target em"
  shows "folds_to ((if ln then - uint lm else uint lm) + (if rn then - uint rm else uint rm))
    (add_signed_magnitudes em ln lm rn rm)"
proof (cases "ln = rn")
  case True
  show ?thesis
  proof (cases "0xFFFFFFFFFFFFFFFF - rm < lm")
    case True
    have "uint (0xFFFFFFFFFFFFFFFF - rm) = 18446744073709551615 - uint rm"
      using uint_sub_lem [of rm "0xFFFFFFFFFFFFFFFF"] uint_lt2p [of rm] by simp
    with True have "18446744073709551615 < uint lm + uint rm" by (simp add: word_less_def)
    with True \<open>ln = rn\<close> show ?thesis
      by (auto simp: add_signed_magnitudes_def folds_to_def foldable_range_def)
  next
    case False
    have "uint (0xFFFFFFFFFFFFFFFF - rm) = 18446744073709551615 - uint rm"
      using uint_sub_lem [of rm "0xFFFFFFFFFFFFFFFF"] uint_lt2p [of rm] by simp
    with False have "uint lm + uint rm < 18446744073709551616" by (simp add: word_less_def)
    then have "uint (lm + rm) = uint lm + uint rm" using uint_add_lem [of lm rm] by simp
    with False \<open>ln = rn\<close> make_result_folds [OF assms, of ln "lm + rm"] show ?thesis
      by (auto simp: add_signed_magnitudes_def)
  qed
next
  case False
  show ?thesis
  proof (cases "rm \<le> lm")
    case True
    then have "uint (lm - rm) = uint lm - uint rm" using uint_sub_lem [of rm lm] by (simp add: word_le_def)
    with True False make_result_folds [OF assms, of ln "lm - rm"] show ?thesis
      by (auto simp: add_signed_magnitudes_def)
  next
    case gt: False
    then have "uint (rm - lm) = uint rm - uint lm" using uint_sub_lem [of lm rm] by (simp add: word_le_def)
    with gt False make_result_folds [OF assms, of rn "rm - lm"] show ?thesis
      by (auto simp: add_signed_magnitudes_def)
  qed
qed

text \<open>The integer result of an operation, division truncating; nothing for a division by zero.\<close>

definition exact_op :: "bound_kind \<Rightarrow> int \<Rightarrow> int \<Rightarrow> int option" where
  "exact_op kind a b =
     (if kind = IntegerAdd then Some (a + b)
      else if kind = IntegerSub then Some (a - b)
      else if kind = IntegerMul then Some (a * b)
      else if b = 0 then None
      else if kind = IntegerDiv then Some (a sdiv b)
      else Some (a smod b))"

definition arithmetic_kind :: "bound_kind \<Rightarrow> bool" where
  "arithmetic_kind kind \<longleftrightarrow>
     kind = IntegerAdd \<or> kind = IntegerSub \<or> kind = IntegerMul \<or> kind = IntegerDiv \<or> kind = IntegerMod"

lemma signed_parts:
  assumes "const_plain v"
  shows "(if const_negative v then - uint (const_magnitude v) else uint (const_magnitude v)) = const_value v"
  using const_sign [OF plain_wf [OF assms]] const_magnitude_abs [OF assms] by auto

lemma div_less_product:
  assumes "c div r < l" "0 < r"
  shows "c < l * (r :: int)"
proof -
  have "c = r * (c div r) + c mod r" by simp
  also have "\<dots> < r * (c div r) + r"
    by (rule add_strict_left_mono) (rule pos_mod_bound [OF assms(2)])
  also have "\<dots> = r * (c div r + 1)" by (simp add: distrib_left)
  also have "\<dots> \<le> r * l" using assms by (intro mult_left_mono) simp_all
  finally show ?thesis by (simp only: mult.commute)
qed

lemma le_div_product:
  assumes "l \<le> c div r" "0 < r"
  shows "l * r \<le> (c :: int)"
proof -
  have "l * r \<le> (c div r) * r" using assms by (intro mult_right_mono) simp_all
  also have "\<dots> = c - c mod r" by (simp add: minus_mod_eq_div_mult)
  also have "\<dots> \<le> c" using pos_mod_sign [OF assms(2), of c] by linarith
  finally show ?thesis .
qed

lemma uint_pos: "m \<noteq> 0 \<Longrightarrow> 0 < uint m" for m :: u64
  by (simp add: order_less_le uint_0_iff)

lemma negative_nonzero:
  "(neg \<longleftrightarrow> k < 0) \<Longrightarrow> k = (if neg then - uint m else uint m) \<Longrightarrow> neg \<Longrightarrow> m \<noteq> 0"
  by auto

lemma fold_product_exact:
  assumes "standard_target em" "const_plain l" "const_plain r"
    and "kind = IntegerMul \<or> kind = IntegerDiv \<or> kind = IntegerMod"
  shows "case exact_op kind (const_value l) (const_value r) of
      None \<Rightarrow> fold_product em kind l r = unfolded
    | Some k \<Rightarrow> folds_to k (fold_product em kind l r)"
proof -
  define ln rn lm rm where d: "ln = const_negative l" "rn = const_negative r"
    "lm = const_magnitude l" "rm = const_magnitude r"
  let ?s = "\<lambda>n (m :: u64). if n then - uint m else uint m"
  have l: "const_value l = ?s ln lm" and r: "const_value r = ?s rn rm"
    unfolding d by (rule signed_parts [OF assms(2), symmetric] signed_parts [OF assms(3), symmetric])+
  have ln0: "ln \<Longrightarrow> lm \<noteq> 0"
    by (rule negative_nonzero [OF const_sign [OF plain_wf [OF assms(2)], folded d] l])
  have rn0: "rn \<Longrightarrow> rm \<noteq> 0"
    by (rule negative_nonzero [OF const_sign [OF plain_wf [OF assms(3)], folded d] r])
  have zero: "const_value r = 0 \<longleftrightarrow> rm = 0" by (auto simp: r uint_0_iff)
  note fp = fold_product_def [of em kind l r, unfolded Let_def, folded d]
  consider (zero) "rm = 0" "kind \<noteq> IntegerMul" | (mul) "kind = IntegerMul"
    | (div) "kind = IntegerDiv" "rm \<noteq> 0" | (rem) "kind = IntegerMod" "rm \<noteq> 0"
    using assms(4) by blast
  then show ?thesis
  proof cases
    case zero
    with assms(4) show ?thesis using fp \<open>const_value r = 0 \<longleftrightarrow> rm = 0\<close> by (auto simp: exact_op_def)
  next
    case mul
    have exact: "exact_op kind (const_value l) (const_value r) = Some (?s (ln \<noteq> rn) 1 * (uint lm * uint rm))"
      by (simp add: mul exact_op_def l r)
    have bound: "uint (0xFFFFFFFFFFFFFFFF div rm) = 18446744073709551615 div uint rm"
      by (simp add: uint_div)
    show ?thesis
    proof (cases "rm \<noteq> 0 \<and> 0xFFFFFFFFFFFFFFFF div rm < lm")
      case True
      then have pos: "0 < uint rm" by (metis uint_0_iff word_neq_0_conv word_gt_0 uint_nonnegative order_le_less)
      from True bound have "18446744073709551615 div uint rm < uint lm" by (simp add: word_less_def)
      then have "18446744073709551615 < uint lm * uint rm"
        using pos by (rule div_less_product)
      with True mul show ?thesis
        unfolding exact fp by (auto simp: folds_to_def foldable_range_def)
    next
      case False
      have "uint lm * uint rm < 18446744073709551616"
      proof (cases "rm = 0")
        case False
        with \<open>\<not> (rm \<noteq> 0 \<and> _)\<close> bound have "\<not> 18446744073709551615 div uint rm < uint lm"
          by (simp add: word_less_def)
        moreover from False have "0 < uint rm" by (simp add: order_less_le uint_0_iff)
        ultimately have "uint lm * uint rm \<le> 18446744073709551615"
          by (intro le_div_product) simp_all
        then show ?thesis by simp
      qed simp
      then have "uint (lm * rm) = uint lm * uint rm" using uint_mult_lem [of lm rm] by simp
      with False mul make_result_folds [OF assms(1), of "ln \<noteq> rn" "lm * rm"] show ?thesis
        unfolding exact fp by auto
    qed
  next
    case div
    have "exact_op kind (const_value l) (const_value r) = Some (?s (ln \<noteq> rn) (lm div rm))"
      using div zero ln0 rn0 uint_pos [of lm] uint_pos [of rm]
      by (cases "lm = 0") (auto simp: exact_op_def signed_divide_int_def uint_div l r sgn_if uint_0_iff)
    with div make_result_folds [OF assms(1), of "ln \<noteq> rn" "lm div rm"] show ?thesis
      unfolding fp by auto
  next
    case rem
    have "exact_op kind (const_value l) (const_value r) = Some (?s ln (lm mod rm))"
      using rem zero ln0 rn0 uint_pos [of lm] uint_pos [of rm]
      by (cases "lm = 0") (auto simp: exact_op_def signed_modulo_int_def signed_divide_int_def uint_mod l r
          sgn_if uint_0_iff minus_mult_div_eq_mod minus_div_mult_eq_mod)
    with rem make_result_folds [OF assms(1), of ln "lm mod rm"] show ?thesis
      unfolding fp by auto
  qed
qed

lemma fold_binary_exact:
  assumes "standard_target em" "const_plain l" "const_plain r" "arithmetic_kind kind"
  shows "\<exists>res. fold_binary em op kind l r = Inr res \<and>
    (case exact_op kind (const_value l) (const_value r) of
       None \<Rightarrow> res = unfolded | Some k \<Rightarrow> folds_to k res)"
proof -
  note parts = signed_parts [OF assms(2)] signed_parts [OF assms(3)]
  consider (add) "kind = IntegerAdd" | (sub) "kind = IntegerSub"
    | (product) "kind = IntegerMul \<or> kind = IntegerDiv \<or> kind = IntegerMod"
    using assms(4) by (auto simp: arithmetic_kind_def)
  then show ?thesis
  proof cases
    case add
    have "folds_to (const_value l + const_value r) (add_signed_magnitudes em (const_negative l)
        (const_magnitude l) (const_negative r) (const_magnitude r))"
      using add_magnitudes_fold [OF assms(1)] unfolding parts [symmetric] .
    with add show ?thesis by (simp add: fold_binary_def exact_op_def)
  next
    case sub
    have minus: "- const_value r =
        (if \<not> const_negative r then - uint (const_magnitude r) else uint (const_magnitude r))"
      using parts(2) by (cases "const_negative r") auto
    have "folds_to (const_value l + - const_value r) (add_signed_magnitudes em (const_negative l)
        (const_magnitude l) (\<not> const_negative r) (const_magnitude r))"
      unfolding minus using add_magnitudes_fold [OF assms(1)] unfolding parts(1) [symmetric] .
    with sub show ?thesis by (simp add: fold_binary_def exact_op_def)
  next
    case product
    then have "fold_binary em op kind l r = Inr (fold_product em kind l r)" by (auto simp: fold_binary_def)
    with fold_product_exact [OF assms(1-3) product] show ?thesis by (auto split: option.splits)
  qed
qed

lemma fold_literal_exact:
  assumes "standard_target em"
  shows "const_value (fold_literal em n) = uint n" "const_plain (fold_literal em n)"
proof -
  have "sint n = uint n" if "n \<le> 0x7FFFFFFFFFFFFFFF" using that by (intro sint_small) (simp add: word_le_def)
  then show "const_value (fold_literal em n) = uint n" "const_plain (fold_literal em n)"
    using qword_const [OF assms, of n] fold_value_const [OF assms, of n] fold_value_plain [OF assms, of n]
    by (auto simp: fold_literal_def not_less)
qed

text \<open>Negation reads the operand as a signed number and cannot go beyond the signed range.\<close>

definition negatable_range :: "int set" where
  "negatable_range = {- 9223372036854775807 ..< 9223372036854775808}"

lemma fold_minus_exact:
  assumes "standard_target em" "const_plain v" "const_value v \<in> negatable_range"
  shows "folds_to (- const_value v) (fold_unary em UNeg v)"
proof -
  have k: "sint (cv_value v) = const_value v"
  proof (cases "has_kind UnsignedInt (cv_type v)")
    case True
    with assms(2,3) show ?thesis
      by (simp add: const_value_def const_plain_def sint_small negatable_range_def)
  qed (simp add: const_value_def)
  have inside: "- const_value v \<in> signed_range 64" "- const_value v \<in> foldable_range"
    using assms(3) by (auto simp: negatable_range_def signed_range_def foldable_range_def)
  then have "sint (- cv_value v) = - const_value v" using sint_minus_exact [of "cv_value v"] by (simp add: k)
  with inside fold_value_const [OF assms(1), of "- cv_value v"] fold_value_plain [OF assms(1), of "- cv_value v"]
  show ?thesis by (simp add: fold_unary_def checked_sub_int64_exact k folds_to_def)
qed

lemma width_masks:
  assumes "w \<in> {8, 16, 32, 64}"
  obtains m lo hi where "unsigned_mask_for_bits w = Inr m" "uint m = 2 ^ w - 1"
    "signed_min_for_bits w = Inr lo" "sint lo = - (2 ^ (w - 1))"
    "signed_max_for_bits w = Inr hi" "sint hi = 2 ^ (w - 1) - 1" "uint hi = 2 ^ (w - 1) - 1"
  using assms that unfolding insert_iff empty_iff
  by (elim disjE) (simp_all add: unsigned_mask_for_bits_def signed_min_for_bits_def signed_max_for_bits_def
      valid_width_def)

lemma fits_exact:
  assumes "standard_target em" "table_integer t" "const_wf v"
  shows "const_int_fits_primitive em v t = Inr (const_value v \<in> range_of em t)"
proof -
  let ?w = "prim_width em t"
  from width_masks [OF width_cases [OF assms(1,2)]] obtain m lo hi where
    m: "unsigned_mask_for_bits ?w = Inr m" "uint m = 2 ^ ?w - 1" and
    lo: "signed_min_for_bits ?w = Inr lo" "sint lo = - (2 ^ (?w - 1))" and
    hi: "signed_max_for_bits ?w = Inr hi" "sint hi = 2 ^ (?w - 1) - 1" "uint hi = 2 ^ (?w - 1) - 1" .
  have w: "?w \<le> 64" "64 \<le> ?w \<longleftrightarrow> ?w = 64" using width_cases [OF assms(1,2)] by auto
  have k: "int_kind t \<noteq> NoInt" using assms(2) by (simp add: table_integer_def)
  have top: "uint x < 2 ^ ?w" if "?w = 64" for x :: u64 using uint_lt2p [of x] that by simp
  have bits: "resolved_primitive_bits em t = Inr ?w" using assms by simp
  show ?thesis
  proof (cases "int_kind t = UnsignedInt")
    case True
    then have r: "range_of em t = {0 ..< 2 ^ ?w}" by (simp add: range_of_def int_range_def unsigned_range_def)
    show ?thesis
    proof (cases "has_kind UnsignedInt (cv_type v)")
      case unsigned: True
      have "(64 \<le> ?w \<or> cv_bits v \<le> m) = (uint (cv_bits v) < 2 ^ ?w)"
        using top [of "cv_bits v"] w by (auto simp: word_le_def m)
      with True unsigned show ?thesis
        by (simp add: const_int_fits_primitive_def on_checked_def bits m r const_value_def)
    next
      case False
      have "(0 \<le>s cv_value v \<and> (64 \<le> ?w \<or> cv_value v \<le> m)) =
          (0 \<le> sint (cv_value v) \<and> sint (cv_value v) < 2 ^ ?w)"
        using top [of "cv_value v"] w sint_nonneg [of "cv_value v"] by (auto simp: word_le_def word_sle_eq m)
      with True False show ?thesis
        by (simp add: const_int_fits_primitive_def on_checked_def bits m r const_value_def)
    qed
  next
    case False
    with kind_cases [OF assms(2)] have r: "range_of em t = {- (2 ^ (?w - 1)) ..< 2 ^ (?w - 1)}"
      by (simp add: range_of_def int_range_def signed_range_def)
    show ?thesis
    proof (cases "has_kind UnsignedInt (cv_type v)")
      case unsigned: True
      have "uint (if 64 \<le> ?w then 0x7FFFFFFFFFFFFFFF else hi) = 2 ^ (?w - 1) - 1" using w by (simp add: hi)
      then have "(cv_bits v \<le> (if 64 \<le> ?w then 0x7FFFFFFFFFFFFFFF else hi)) =
          (uint (cv_bits v) < 2 ^ (?w - 1))" by (auto simp: word_le_def)
      moreover have "- (2 ^ (?w - 1)) \<le> uint (cv_bits v)" using uint_ge_0 [of "cv_bits v"]
        by (meson le_minus_iff order_trans zero_le_numeral zero_le_power neg_le_0_iff_le)
      ultimately show ?thesis using False unsigned k
        by (simp add: const_int_fits_primitive_def on_checked_def bits lo hi r const_value_def Let_def)
    next
      case signed: False
      have "(lo \<le>s cv_value v \<and> cv_value v \<le>s hi) =
          (- (2 ^ (?w - 1)) \<le> sint (cv_value v) \<and> sint (cv_value v) < 2 ^ (?w - 1))"
        by (auto simp: word_sle_eq lo hi)
      with False signed k show ?thesis
        by (simp add: const_int_fits_primitive_def on_checked_def bits lo hi r const_value_def)
    qed
  qed
qed

subsection \<open>Comparison and conversion\<close>

lemma signed_reading:
  assumes "const_wf v"
  shows "(has_kind SignedInt (cv_type v) \<and> cv_value v <s 0) = (const_value v < 0)"
    and "const_value v < 0 \<Longrightarrow> const_value v = sint (cv_value v)"
    and "\<not> const_value v < 0 \<Longrightarrow> const_value v = uint (cv_bits v)"
  using assms by (auto simp: const_wf_def const_value_def word_sless_alt word_sle_eq sint_nonneg
      dest: has_kind_excl)

lemma order_sign:
  assumes "const_wf l" "const_wf r"
  shows "(if (const_value l < 0) \<noteq> (const_value r < 0) then if const_value l < 0 then - 1 else 1
     else if const_value l < 0 then if cv_value l <s cv_value r then - 1 else if cv_value r <s cv_value l then 1 else 0
     else if cv_bits l < cv_bits r then - 1 else if cv_bits r < cv_bits l then 1 else 0) =
    sgn (const_value l - const_value r)"
proof -
  consider (nn) "const_value l < 0" "const_value r < 0" | (np) "const_value l < 0" "\<not> const_value r < 0"
    | (pn) "\<not> const_value l < 0" "const_value r < 0" | (pp) "\<not> const_value l < 0" "\<not> const_value r < 0"
    by blast
  then show ?thesis
  proof cases
    case nn
    then show ?thesis
      using signed_reading(2) [OF assms(1) nn(1), symmetric] signed_reading(2) [OF assms(2) nn(2), symmetric]
      by (simp add: word_sless_alt sgn_if)
  next
    case pp
    then show ?thesis
      using signed_reading(3) [OF assms(1) pp(1), symmetric] signed_reading(3) [OF assms(2) pp(2), symmetric]
      by (simp add: word_less_def sgn_if)
  qed (simp_all add: sgn_if)
qed

lemma compare_exact:
  assumes "const_wf l" "const_wf r"
  shows "compare_constant_integers op (Some l) (Some r) =
    (if op = BEq then Some (const_value l = const_value r)
     else if op = BNotEq then Some (const_value l \<noteq> const_value r)
     else if op = BLt then Some (const_value l < const_value r)
     else if op = BGt then Some (const_value l > const_value r)
     else if op = BLtEq then Some (const_value l \<le> const_value r)
     else if op = BGtEq then Some (const_value l \<ge> const_value r) else None)"
  unfolding compare_constant_integers_def option.case prod.case Let_def
    signed_reading(1) [OF assms(1)] signed_reading(1) [OF assms(2)] order_sign [OF assms]
  by (cases op) (simp_all add: sgn_if)

text \<open>
  Conversion of a constant: the low bits are read in the target, so the result is the operand
  reduced to the range of the target, and an implicit conversion warns exactly about a change.
\<close>

definition reduced_to :: "emit_target \<Rightarrow> primitive_info \<Rightarrow> int \<Rightarrow> int \<Rightarrow> bool" where
  "reduced_to em t k k' \<longleftrightarrow> k' \<in> range_of em t \<and> k' mod 2 ^ prim_width em t = k mod 2 ^ prim_width em t"

lemma plain_residue:
  assumes "const_plain v" "n \<le> 64"
  shows "const_value v mod 2 ^ n = uint (cv_bits v) mod 2 ^ n"
proof -
  have "sint (cv_bits v) mod 2 ^ n = uint (cv_bits v) mod 2 ^ n"
    using assms(2) by (simp add: sint_uint take_bit_signed_take_bit flip: take_bit_eq_mod)
  then show ?thesis using assms(1) by (simp add: const_value_def const_plain_def)
qed

lemma sign_extension_word:
  assumes "0 < n" "n < 64" "take_bit n x = (x :: u64)"
  shows "(if x AND push_bit (n - 1) 1 = 0 then x else x OR NOT (mask n)) = signed_take_bit (n - 1) x"
proof -
  have "(0xFFFFFFFFFFFFFFFF :: u64) = - 1" by simp
  then have "0xFFFFFFFFFFFFFFFF AND (push_bit n 1 - 1) = (mask n :: u64)"
    by (simp only: mask_eq_exp_minus_1 push_bit_eq_mult) simp
  from this [symmetric] show ?thesis
    using sign_extended_eq [OF assms] unfolding sign_extended_def by (simp only:)
qed

lemma converted_value:
  assumes em: "standard_target em" and t: "table_integer t" and v: "const_plain v"
    and b: "b = take_bit (prim_width em t) (cv_bits v)"
    and c: "c = \<lparr>cv_value = (if int_kind t = UnsignedInt \<or> prim_width em t = 64 \<or>
        b AND push_bit (prim_width em t - 1) 1 = 0 then b else b OR NOT (mask (prim_width em t))),
      cv_bits = b, cv_type = Some t\<rparr>"
  shows "const_wf c" "reduced_to em t (const_value v) (const_value c)"
proof -
  let ?w = "prim_width em t"
  have w: "0 < ?w" "?w \<le> 64" "?w \<noteq> 64 \<longleftrightarrow> ?w < 64" using width_cases [OF em t] by auto
  have ub: "uint b = uint (cv_bits v) mod 2 ^ ?w" by (simp add: b unsigned_take_bit_eq flip: take_bit_eq_mod)
  have residue: "const_value v mod 2 ^ ?w = uint b mod 2 ^ ?w" by (simp add: ub plain_residue [OF v w(2)])
  have res: "const_wf c \<and> reduced_to em t (const_value v) (const_value c)"
  proof (cases "int_kind t = UnsignedInt")
    case True
    then have "const_value c = uint b" "const_wf c" by (simp_all add: c const_value_def const_wf_def has_kind_def)
    with True residue show ?thesis
      by (simp add: reduced_to_def range_of_def int_range_def unsigned_range_def ub)
  next
    case False
    then have kind: "int_kind t = SignedInt" using kind_cases [OF t] by simp
    have s: "cv_value c = signed_take_bit (?w - 1) b"
    proof (cases "?w = 64")
      case True
      have "signed_take_bit 63 b = b"
      proof (rule bit_word_eqI)
        fix n assume "n < LENGTH(64)"
        then have "min 63 n = n" by simp
        with \<open>n < LENGTH(64)\<close> show "bit (signed_take_bit 63 b) n = bit b n"
          by (simp add: bit_signed_take_bit_iff)
      qed
      with True show ?thesis by (simp add: c)
    next
      case False
      with kind show ?thesis using sign_extension_word [of ?w b] w by (simp add: c b)
    qed
    then have k: "const_value c = signed_take_bit (?w - 1) (uint b)"
      using kind w sint_signed_take_bit [of ?w b] by (simp add: const_value_def c has_kind_def)
    have "signed_take_bit (?w - 1) (uint b) mod 2 ^ ?w = uint b mod 2 ^ ?w"
      using w take_bit_signed_take_bit [of ?w "?w - 1" "uint b"] by (simp add: take_bit_eq_mod)
    then have "reduced_to em t (const_value v) (const_value c)"
      using residue kind w unfolding reduced_to_def k
      by (simp add: range_of_def int_range_def signed_range_def)
    moreover have "const_wf c"
    proof (cases "?w = 64 \<or> b AND push_bit (?w - 1) 1 = 0")
      case False
      then have "bit (cv_value c) 63" using kind w by (simp add: c bit_simps)
      then have "sint (cv_value c) < 0" using bit_last_iff [of "cv_value c"] by simp
      with kind show ?thesis by (simp add: const_wf_def c has_kind_def word_sle_eq)
    qed (use kind in \<open>auto simp: const_wf_def c has_kind_def\<close>)
    ultimately show ?thesis by simp
  qed
  from res show "const_wf c" by simp
  from res show "reduced_to em t (const_value v) (const_value c)" by simp
qed

lemma convert_exact:
  assumes em: "standard_target em" and t: "table_integer t" and v: "const_plain v"
  shows "\<exists>c. convert_const_int_value em v (Some t) explicit diagnose =
      Inr (Some (c, const_value v \<notin> range_of em t \<and> diagnose \<and> \<not> explicit)) \<and>
    const_wf c \<and> cv_type c = Some t \<and> reduced_to em t (const_value v) (const_value c)"
proof -
  let ?w = "prim_width em t"
  have w: "valid_width ?w" using width_cases [OF em t] by (auto simp: valid_width_def)
  have k: "int_kind t \<noteq> NoInt" using t by (simp add: table_integer_def)
  have "take_bit ?w (0xFFFFFFFFFFFFFFFF :: u64) = mask ?w"
  proof -
    have "(0xFFFFFFFFFFFFFFFF :: u64) = - 1" by simp
    then show ?thesis by (simp only: take_bit_minus_one_eq_mask)
  qed
  then have "low_bits 0xFFFFFFFFFFFFFFFF ?w = Inr (mask ?w)" by (simp add: low_bits_eq [OF w])
  with converted_value [OF em t v refl refl] show ?thesis
    using k fits_exact [OF em t plain_wf [OF v]]
    by (simp add: convert_const_int_value_def on_checked_def low_bits_eq [OF w] em t)
qed

end
