(* ===== verification/Emit_Fold_Eval.thy ===== *)
theory Emit_Fold_Eval
  imports Emit_Fold_Facts
begin

text \<open>
  A reference semantics of the constant integer expressions of \<open>src/emit_analysis.cc\<close>: literals,
  signs, the arithmetic operators and the names of untyped constants, over the integers. The
  folder of the code agrees with it.
\<close>

subsection \<open>Reference semantics\<close>

definition operator_kind :: "binop \<Rightarrow> bound_kind option" where
  "operator_kind op =
     (if op = BAdd then Some IntegerAdd else if op = BSub then Some IntegerSub
      else if op = BMul then Some IntegerMul else if op = BIntDiv then Some IntegerDiv
      else if op = BMod then Some IntegerMod else None)"

text \<open>The value of an expression, or none, and whether an operation left the foldable range.\<close>

definition exact_result :: "bound_kind \<Rightarrow> int option \<Rightarrow> int option \<Rightarrow> bool \<Rightarrow> int option \<times> bool" where
  "exact_result kind x y f =
     (case (x, y) of
        (Some a, Some b) \<Rightarrow>
          (case exact_op kind a b of
             None \<Rightarrow> (None, f)
           | Some k \<Rightarrow> if k \<in> foldable_range then (Some k, f) else (None, True))
      | _ \<Rightarrow> (None, f))"

definition plain_operand :: "primitive_info option \<Rightarrow> bool" where
  "plain_operand p \<longleftrightarrow> integer_operand p \<and> (\<exists>info. p = Some info \<and> table_integer info)"

inductive evaluates :: "fold_env \<Rightarrow> expr \<Rightarrow> int option \<times> bool \<Rightarrow> bool" for env where
  literal: "evaluates env (EIntLit loc n) (Some (uint n), False)"
| identity: "evaluates env a r \<Longrightarrow> evaluates env (EUnary loc UPlus a d) r"
| negated: "evaluates env a (Some k, f) \<Longrightarrow> k \<in> negatable_range \<Longrightarrow>
    evaluates env (EUnary loc UNeg a d) (Some (- k), f)"
| negated_none: "evaluates env a (None, f) \<Longrightarrow> evaluates env (EUnary loc UNeg a d) (None, f)"
| operation: "operator_kind op = Some kind \<Longrightarrow>
    plain_operand (operand_prim env a) \<Longrightarrow> plain_operand (operand_prim env b) \<Longrightarrow>
    evaluates env a (x, f) \<Longrightarrow> evaluates env b (y, g) \<Longrightarrow>
    evaluates env (EBinary loc op a b q) (exact_result kind x y (f \<or> g))"
| named: "label_ordinal env n = None \<Longrightarrow> const_initializer env n = Some i \<Longrightarrow>
    evaluates env i r \<Longrightarrow> evaluates env (EIdent loc n) r"

text \<open>What an expression is computed from; a name needs its initializer.\<close>

inductive needs :: "fold_env \<Rightarrow> expr \<Rightarrow> expr \<Rightarrow> bool" for env where
  "needs env a (EUnary loc op a d)"
| "needs env a (EBinary loc op a b q)"
| "needs env b (EBinary loc op a b q)"
| "const_initializer env n = Some i \<Longrightarrow> needs env i (EIdent loc n)"

inductive_cases needs_literal: "needs env x (EIntLit loc n)"
inductive_cases needs_unary: "needs env x (EUnary loc op a d)"
inductive_cases needs_binary: "needs env x (EBinary loc op a b q)"
inductive_cases needs_name: "needs env x (EIdent loc n)"

lemma evaluates_grounded: "evaluates env e r \<Longrightarrow> Wellfounded.accp (needs env) e"
proof (induction rule: evaluates.induct)
  case (literal loc n)
  show ?case by (rule accp.accI) (erule needs_literal)
next
  case (identity a r loc d)
  then show ?case by - (rule accp.accI, erule needs_unary, simp)
next
  case (negated a k f loc d)
  then show ?case by - (rule accp.accI, erule needs_unary, simp)
next
  case (negated_none a f loc d)
  then show ?case by - (rule accp.accI, erule needs_unary, simp)
next
  case (operation op kind a b x f y g loc q)
  then show ?case by - (rule accp.accI, erule needs_binary, simp_all)
next
  case (named n i r loc)
  then show ?case by - (rule accp.accI, erule needs_name, simp)
qed

lemma accp_no_cycle:
  assumes "Wellfounded.accp R x"
  shows "\<not> R\<^sup>+\<^sup>+ x x"
  using assms
proof (rule accp_induct)
  fix x assume step: "\<forall>y. R y x \<longrightarrow> \<not> R\<^sup>+\<^sup>+ y y"
  show "\<not> R\<^sup>+\<^sup>+ x x"
  proof
    assume "R\<^sup>+\<^sup>+ x x"
    then obtain y where y: "R\<^sup>*\<^sup>* x y" "R y x" by (metis tranclp.cases tranclp_into_rtranclp rtranclp.rtrancl_refl)
    then have "R\<^sup>+\<^sup>+ y y" by (meson rtranclp_into_tranclp2)
    with step y(2) show False by blast
  qed
qed

text \<open>The names being folded lead to the expression, so a grounded one meets none of them.\<close>

definition leads_to :: "fold_env \<Rightarrow> string list \<Rightarrow> expr \<Rightarrow> bool" where
  "leads_to env vis e \<longleftrightarrow>
     (\<forall>n\<in>set vis. \<exists>i. const_initializer env n = Some i \<and> (needs env)\<^sup>*\<^sup>* e i)"

lemma leads_to_step: "leads_to env vis e \<Longrightarrow> needs env a e \<Longrightarrow> leads_to env vis a"
  unfolding leads_to_def by (meson converse_rtranclp_into_rtranclp)

lemma leads_to_fresh:
  assumes "leads_to env vis (EIdent loc n)" "Wellfounded.accp (needs env) (EIdent loc n)"
  shows "n \<notin> set vis"
proof
  assume "n \<in> set vis"
  with assms(1) obtain i where i: "const_initializer env n = Some i" "(needs env)\<^sup>*\<^sup>* (EIdent loc n) i"
    by (auto simp: leads_to_def)
  then have "needs env i (EIdent loc n)" by (auto intro: needs.intros)
  with i(2) have "(needs env)\<^sup>+\<^sup>+ (EIdent loc n) (EIdent loc n)" by (meson rtranclp_into_tranclp1)
  with accp_no_cycle [OF assms(2)] show False by blast
qed

lemma leads_to_name:
  assumes "leads_to env vis (EIdent loc n)" "const_initializer env n = Some i"
  shows "leads_to env (n # vis) i"
proof -
  have "needs env i (EIdent loc n)" using assms(2) by (rule needs.intros)
  from leads_to_step [OF assms(1) this] show ?thesis using assms(2) by (auto simp: leads_to_def)
qed

subsection \<open>Agreement\<close>

text \<open>A fold that has the given value and overflow, where the constant is plain.\<close>

definition agrees :: "int option \<times> bool \<Rightarrow> folded \<Rightarrow> bool" where
  "agrees r fo \<longleftrightarrow>
     map_option const_value (fst fo) = fst r \<and> snd fo = snd r \<and> (\<forall>v. fst fo = Some v \<longrightarrow> const_plain v)"

lemma operator_kind_arithmetic: "operator_kind op = Some kind \<Longrightarrow> arithmetic_kind kind"
  by (auto simp: operator_kind_def arithmetic_kind_def split: if_splits)

lemma const_expr_fits_plain:
  assumes "standard_target em" "table_integer t" "\<forall>v. c = Some v \<longrightarrow> const_plain v"
  shows "\<exists>b. const_expr_fits_primitive em c t = Inr b"
  using assms(3) fits_exact [OF assms(1,2) plain_wf]
  by (cases c) (auto simp: const_expr_fits_primitive_def)

lemma division_bound:
  assumes em: "standard_target em" and l: "table_integer l" and r: "table_integer r"
    and lc: "\<forall>v. lc = Some v \<longrightarrow> const_plain v" and rc: "\<forall>v. rc = Some v \<longrightarrow> const_plain v"
  shows "\<exists>c. integer_division_primitive em lc l rc r = Inr (Some c)"
proof -
  obtain a b where ab: "const_expr_fits_primitive em lc r = Inr a" "const_expr_fits_primitive em rc l = Inr b"
    using const_expr_fits_plain [OF em r lc] const_expr_fits_plain [OF em l rc] by blast
  obtain l' r' where e: "integer_division_primitive em lc l rc r = division_carrier em l' r'"
    and "l' \<in> {l, r}" "r' \<in> {l, r}"
    by (simp add: integer_division_primitive_def with_bits_def on_checked_def em l r ab)
  with l r have "table_integer l'" "table_integer r'" by auto
  with division.chosen [OF em] e show ?thesis by metis
qed

lemma operation_bound:
  assumes em: "standard_target em" and op: "operator_kind op = Some kind"
    and l: "plain_operand l" and r: "plain_operand r"
    and lc: "\<forall>v. lc = Some v \<longrightarrow> const_plain v" and rc: "\<forall>v. rc = Some v \<longrightarrow> const_plain v"
  shows "\<exists>b. bind_integer_operation em op q lc l rc r = Inr (Some b) \<and> bb_kind b = kind"
proof -
  from l r obtain l' r' where lr: "l = Some l'" "r = Some r'" "table_integer l'" "table_integer r'"
    "integer_operand l" "integer_operand r" by (auto simp: plain_operand_def)
  obtain c where c: "integer_arithmetic_primitive em op l' r' = Inr (Some c)"
    using arithmetic.chosen [OF em lr(3,4), of op] by blast
  obtain d where d: "integer_division_primitive em lc l' rc r' = Inr (Some d)"
    using division_bound [OF em lr(3,4) lc rc] by blast
  show ?thesis using op c d lr
    by (auto simp: bind_integer_operation_def bind_conversions_def on_checked_def same_conversion_def
        operator_kind_def split: if_splits)
qed

lemma agreesE:
  assumes "\<exists>fo. fold_const env vis e = Inr fo \<and> agrees (x, f) fo"
  obtains v where "fold_const env vis e = Inr (v, f)" "map_option const_value v = x"
    "\<forall>c. v = Some c \<longrightarrow> const_plain c"
  using assms by (auto simp: agrees_def)

lemma operation_agrees:
  assumes em: "standard_target (fe_target env)" and op: "operator_kind op = Some kind"
    and prims: "plain_operand (operand_prim env a)" "plain_operand (operand_prim env b)"
    and a: "\<exists>fo. fold_const env vis a = Inr fo \<and> agrees (x, f) fo"
    and b: "\<exists>fo. fold_const env vis b = Inr fo \<and> agrees (y, g) fo"
  shows "\<exists>fo. fold_const env vis (EBinary loc op a b q) = Inr fo \<and> agrees (exact_result kind x y (f \<or> g)) fo"
proof -
  obtain v where v: "fold_const env vis a = Inr (v, f)" "map_option const_value v = x"
    "\<forall>c. v = Some c \<longrightarrow> const_plain c" using a by (rule agreesE)
  obtain w where w: "fold_const env vis b = Inr (w, g)" "map_option const_value w = y"
    "\<forall>c. w = Some c \<longrightarrow> const_plain c" using b by (rule agreesE)
  obtain o1 where o1: "bind_integer_operation (fe_target env) op q v (operand_prim env a) w
      (operand_prim env b) = Inr (Some o1)" "bb_kind o1 = kind"
    using operation_bound [OF em op prims v(3) w(3)] by blast
  note step = fold_const.simps [of env vis "EBinary loc op a b q"] v(1) w(1) o1 on_checked_def
  show ?thesis
  proof (cases "v = None \<or> w = None")
    case True
    then have "exact_result kind x y (f \<or> g) = (None, f \<or> g)"
      using v(2) w(2) by (auto simp: exact_result_def split: option.splits)
    with True show ?thesis by (auto simp: step agrees_def split: option.splits)
  next
    case False
    then obtain c d where cd: "v = Some c" "w = Some d" by auto
    with v w have xy: "x = Some (const_value c)" "y = Some (const_value d)" and
      pl: "const_plain c" "const_plain d" by auto
    obtain res where res: "fold_binary (fe_target env) op kind c d = Inr res"
      "case exact_op kind (const_value c) (const_value d) of
        None \<Rightarrow> res = unfolded | Some k \<Rightarrow> folds_to k res"
      using fold_binary_exact [OF em pl operator_kind_arithmetic [OF op]] by blast
    have "fold_const env vis (EBinary loc op a b q) = Inr (with_overflow (f \<or> g) res)"
      using o1(1) v(1) w(1) res(1) unfolding cd
      by (simp add: fold_const.simps [of env vis "EBinary loc op a b q"] on_checked_def o1(2))
    moreover have "agrees (exact_result kind x y (f \<or> g)) (with_overflow (f \<or> g) res)"
      using res(2) by (auto simp: xy exact_result_def agrees_def with_overflow_def folds_to_def unfolded_def
          split: option.splits if_splits)
    ultimately show ?thesis by blast
  qed
qed

lemma fold_agrees:
  assumes em: "standard_target (fe_target env)"
  shows "evaluates env e r \<Longrightarrow> leads_to env vis e \<Longrightarrow>
    \<exists>fo. fold_const env vis e = Inr fo \<and> agrees r fo"
proof (induction arbitrary: vis rule: evaluates.induct)
  case (literal loc n)
  then show ?case using fold_literal_exact [OF em, of n] by (simp add: fold_const.simps agrees_def)
next
  case (identity a r loc d)
  from identity.IH [OF leads_to_step [OF identity.prems needs.intros(1)]] obtain v f where
    "fold_const env vis a = Inr (v, f)" "agrees r (v, f)" by auto
  then show ?case
    by (cases v) (auto simp: fold_const.simps [of env vis "EUnary loc UPlus a d"] on_checked_def agrees_def
        fold_unary_def with_overflow_def)
next
  case (negated a k f loc d)
  from agreesE [OF negated.IH [OF leads_to_step [OF negated.prems needs.intros(1)]]] obtain v where
    v: "fold_const env vis a = Inr (v, f)" "map_option const_value v = Some k"
    "\<forall>c. v = Some c \<longrightarrow> const_plain c" .
  then obtain c where c: "v = Some c" "const_value c = k" "const_plain c" by auto
  from fold_minus_exact [OF em c(3)] negated.hyps c(2) have "folds_to (- k) (fold_unary (fe_target env) UNeg c)"
    by simp
  moreover have "- k \<in> foldable_range" using negated.hyps by (auto simp: negatable_range_def foldable_range_def)
  ultimately show ?case
    using v(1) c(1) by (auto simp: fold_const.simps [of env vis "EUnary loc UNeg a d"] on_checked_def agrees_def
        folds_to_def with_overflow_def)
next
  case (negated_none a f loc d)
  from agreesE [OF negated_none.IH [OF leads_to_step [OF negated_none.prems needs.intros(1)]]] obtain v where
    "fold_const env vis a = Inr (v, f)" "map_option const_value v = None" .
  then show ?case by (simp add: fold_const.simps [of env vis "EUnary loc UNeg a d"] on_checked_def agrees_def)
next
  case (operation op kind a b x f y g loc q)
  show ?case
    by (rule operation_agrees [OF em operation.hyps(1-3)])
      (rule operation.IH, rule leads_to_step [OF operation.prems], rule needs.intros)+
next
  case (named n i r loc)
  have "n \<notin> set vis"
    by (rule leads_to_fresh [OF named.prems evaluates_grounded]) (rule evaluates.named [OF named.hyps])
  moreover obtain fo where "fold_const env (n # vis) i = Inr fo" "agrees r fo"
    using named.IH [OF leads_to_name [OF named.prems named.hyps(2)]] by blast
  ultimately show ?case
    using named.hyps by (simp add: fold_const.simps [of env vis "EIdent loc n"])
qed

end
