(* ===== verification/Emit_Storage.thy ===== *)
theory Emit_Storage
  imports Emit_Fold_Eval
begin

text \<open>
  Storage of ordinal types, \<open>ordinal_integer_primitive_for_domain\<close> and
  \<open>ordinal_storage_primitive\<close> of \<open>src/emit_analysis.cc\<close>, and closed runs of the folder where it
  departs from the integers.
\<close>

subsection \<open>Ordinal domains\<close>

lemma on_Inr: "on_checked (Inr v) f = f v"
  by (simp add: on_checked_def)

lemma inside_signed:
  assumes "w \<in> {8, 16, 32, 64}"
  shows "on_checked (signed_min_for_bits w) (\<lambda>lo. on_checked (signed_max_for_bits w)
      (\<lambda>hi. Inr (lo \<le>s a \<and> b \<le>s hi))) =
    Inr (sint a \<in> {- (2 ^ (w - 1)) ..} \<and> sint b \<in> {..< 2 ^ (w - 1)})"
proof -
  from width_masks [OF assms] obtain lo hi where
    "signed_min_for_bits w = Inr lo" "sint lo = - (2 ^ (w - 1))"
    "signed_max_for_bits w = Inr hi" "sint hi = 2 ^ (w - 1) - 1" .
  then show ?thesis by (auto simp: on_checked_def word_sle_eq)
qed

lemma mask_word:
  assumes "w \<in> {8, 16, 32, 64}"
  shows "\<exists>m. unsigned_mask_for_bits w = Inr m \<and> (\<forall>b. b \<le> m \<longleftrightarrow> uint b < 2 ^ w)"
proof -
  from width_masks [OF assms] obtain m where m: "unsigned_mask_for_bits w = Inr m" "uint m = 2 ^ w - 1" .
  then have "b \<le> m \<longleftrightarrow> uint b < 2 ^ w" for b by (auto simp: word_le_def)
  with m(1) show ?thesis by blast
qed

text \<open>The width that the chain of tests selects.\<close>

definition domain_width :: "int \<Rightarrow> int \<Rightarrow> nat" where
  "domain_width low high =
     (if low < 0 then
        if - 128 \<le> low \<and> high < 128 then 8
        else if - 32768 \<le> low \<and> high < 32768 then 16
        else if - 2147483648 \<le> low \<and> high < 2147483648 then 32 else 64
      else if high < 256 then 8 else if high < 65536 then 16 else if high < 4294967296 then 32 else 64)"

definition domain_kind :: "int \<Rightarrow> primitive_int_kind" where
  "domain_kind low = (if low < 0 then SignedInt else UnsignedInt)"

lemma domain_primitive:
  assumes "od_low d \<le>s od_high d"
  shows "ordinal_integer_primitive_for_domain em d = Inr (ordinal_integer_primitive (prims em)
    (domain_kind (sint (od_low d))) (domain_width (sint (od_low d)) (sint (od_high d))))"
proof (cases "sint (od_low d) < 0")
  case True
  then show ?thesis
    by (simp add: ordinal_integer_primitive_for_domain_def inside_signed on_Inr Let_def
        domain_kind_def domain_width_def word_sless_alt)
next
  case False
  from mask_word [of 8] mask_word [of 16] mask_word [of 32] obtain m8 m16 m32 where
    m: "unsigned_mask_for_bits 8 = Inr m8" "\<And>b. b \<le> m8 \<longleftrightarrow> uint b < 2 ^ 8"
    "unsigned_mask_for_bits 16 = Inr m16" "\<And>b. b \<le> m16 \<longleftrightarrow> uint b < 2 ^ 16"
    "unsigned_mask_for_bits 32 = Inr m32" "\<And>b. b \<le> m32 \<longleftrightarrow> uint b < 2 ^ 32" by auto
  from False assms have "sint (od_high d) = uint (od_high d)"
    by (intro sint_nonneg) (simp add: word_sle_eq)
  with False m show ?thesis
    by (simp add: ordinal_integer_primitive_for_domain_def on_checked_def Let_def
        domain_kind_def domain_width_def word_sless_alt)
qed

lemma domain_width_range:
  assumes "low \<le> high" "low \<in> signed_range 64" "high \<in> signed_range 64"
  shows "domain_width low high \<in> {8, 16, 32, 64}"
    and "{low .. high} \<subseteq> int_range (domain_kind low, domain_width low high)"
  using assms by (auto simp: domain_width_def domain_kind_def int_range_def signed_range_def unsigned_range_def)

lemma domain_width_least:
  assumes "low \<le> high" "{low .. high} \<subseteq> int_range (domain_kind low, w)" "w \<in> {8, 16, 32, 64}"
  shows "domain_width low high \<le> w"
proof -
  have "low \<in> int_range (domain_kind low, w)" "high \<in> int_range (domain_kind low, w)"
    using assms(1,2) by auto
  then show ?thesis using assms(3)
    by (auto simp: domain_width_def domain_kind_def int_range_def signed_range_def unsigned_range_def
        split: if_splits)
qed

text \<open>The storage of a domain is the narrowest type of its kind that holds every ordinal.\<close>

lemma domain_storage:
  assumes "standard_target em" "od_low d \<le>s od_high d"
  shows "\<exists>c. ordinal_integer_primitive_for_domain em d = Inr (Some c) \<and> table_integer c \<and>
    {sint (od_low d) .. sint (od_high d)} \<subseteq> range_of em c \<and>
    (\<forall>c'. table_integer c' \<and> int_kind c' = int_kind c \<and>
       {sint (od_low d) .. sint (od_high d)} \<subseteq> range_of em c' \<longrightarrow> prim_width em c \<le> prim_width em c')"
proof -
  define low high where d: "low = sint (od_low d)" "high = sint (od_high d)"
  have le: "low \<le> high" using assms(2) by (simp add: d word_sle_eq)
  have r: "low \<in> signed_range 64" "high \<in> signed_range 64" unfolding d using sint_in_range [where 'a = 64] by simp_all
  have ord: "(domain_kind low, domain_width low high) \<in> set ordinals"
    using domain_width_range(1) [OF le r] by (auto simp: domain_kind_def)
  obtain c where c: "ordinal_integer_primitive (prims em) (domain_kind low) (domain_width low high) = Some c"
    "int_kind c = domain_kind low" "prim_width em c = domain_width low high" "table_integer c"
    by (rule ordinal_in_table [OF assms(1) ord])
  have "prim_width em c \<le> prim_width em c'"
    if "table_integer c'" "int_kind c' = int_kind c" "{low .. high} \<subseteq> range_of em c'" for c'
    using that domain_width_least [OF le, of "prim_width em c'"] width_cases [OF assms(1) that(1)] c
    by (simp add: range_of_def)
  with domain_primitive [OF assms(2), of em] c domain_width_range(2) [OF le r] show ?thesis
    by (auto simp: d range_of_def)
qed

subsection \<open>Constant comparisons\<close>

lemma comparison_primitive_some:
  assumes em: "standard_target em" and l: "table_integer l" and r: "table_integer r"
    and c: "const_plain c" and d: "const_plain d"
  shows "\<exists>p. integer_comparison_primitive em (Some c) l (Some d) r = Inr (Some p)"
proof -
  obtain a b where "const_expr_fits_primitive em (Some c) r = Inr a"
    "const_expr_fits_primitive em (Some d) l = Inr b"
    using const_expr_fits_plain [OF em r, of "Some c"] const_expr_fits_plain [OF em l, of "Some d"] c d by auto
  moreover obtain p p' where "common_integer_primitive em l r = Inr (Some p)"
    "integer_arithmetic_primitive em BAdd l r = Inr (Some p')"
    using common.chosen [OF em l r] arithmetic.chosen [OF em l r, of BAdd] by blast
  ultimately show ?thesis
    by (simp add: integer_comparison_primitive_def with_bits_def on_Inr em l r)
qed

definition comparison_holds :: "binop \<Rightarrow> int \<Rightarrow> int \<Rightarrow> bool" where
  "comparison_holds op x y =
     (if op = BEq then x = y else if op = BNotEq then x \<noteq> y else if op = BLt then x < y
      else if op = BGt then x > y else if op = BLtEq then x \<le> y else x \<ge> y)"

lemma comparison_bound:
  assumes em: "standard_target em" and op: "binop_is_comparison op"
    and l: "plain_operand l" and r: "plain_operand r" and c: "const_plain c" and d: "const_plain d"
  shows "\<exists>b. bind_integer_operation em op q (Some c) l (Some d) r = Inr (Some b) \<and>
    bb_kind b = IntegerCompare \<and> bb_constant b = Some (comparison_holds op (const_value c) (const_value d))"
proof -
  from l r obtain l' r' where lr: "l = Some l'" "r = Some r'" "table_integer l'" "table_integer r'"
    "integer_operand l" "integer_operand r" by (auto simp: plain_operand_def)
  obtain p where p: "integer_comparison_primitive em (Some c) l' (Some d) r' = Inr (Some p)"
    using comparison_primitive_some [OF em lr(3,4) c d] by blast
  have "find_primitive ''boolean'' \<noteq> None" by code_simp
  then obtain boolean where boolean: "boolean_prim em = Some boolean"
    using em by (auto simp: standard_target_def)
  have "compare_constant_integers op (Some c) (Some d) =
      Some (comparison_holds op (const_value c) (const_value d))"
    using op compare_exact [OF plain_wf [OF c] plain_wf [OF d], of op]
    by (auto simp: binop_is_comparison_def comparison_holds_def)
  then show ?thesis using op p boolean lr
    by (auto simp: bind_integer_operation_def bind_conversions_def on_Inr binop_is_comparison_def)
qed

subsection \<open>Where the folder departs from the integers\<close>

definition sample_target :: emit_target where
  "sample_target = \<lparr>prims = map snd primitive_type_map, boolean_prim = find_primitive ''boolean'',
     pointer_bits = 64\<rparr>"

lemma sample_standard: "standard_target sample_target"
  by (simp add: sample_target_def standard_target_def)

definition folded_value :: "folded \<Rightarrow> int option" where
  "folded_value f = map_option const_value (fst f)"

text \<open>Negation of an unsigned constant beyond the signed range is wrong or reported as overflow.\<close>

lemma unsigned_negation_wrong:
  "folded_value (fold_unary sample_target UNeg (fold_literal sample_target 18446744073709551615)) = Some 1"
  "fold_unary sample_target UNeg (fold_literal sample_target 9223372036854775808) = (None, True)"
  by code_simp+

text \<open>The cast of a negative constant to a narrower type is no longer a negative number.\<close>

definition cast_value :: "string \<Rightarrow> const_int \<Rightarrow> const_int option" where
  "cast_value name v =
     (case convert_const_int_value sample_target v (find_primitive name) True False of
        Inr (Some (c, _)) \<Rightarrow> Some c | _ \<Rightarrow> None)"

lemma narrow_cast_not_plain:
  "map_option const_value (Option.bind (cast_value ''shortint'' (fold_value sample_target (- 1)))
     (cast_value ''longint'')) = Some 255"
  by code_simp

text \<open>A bitwise operation on unsigned 64-bit constants gives a negative one.\<close>

lemma unsigned_bitwise_negative:
  "folded_value (fold_bitwise sample_target BOr (fold_literal sample_target 9223372036854775808)
     (fold_literal sample_target 0)) = Some (- 9223372036854775808)"
  by code_simp

text \<open>An enumeration with a negative label and one above 127 gets signed 8-bit storage.\<close>

lemma enum_storage_too_narrow:
  "map_option (\<lambda>p. (int_kind p, prim_bits p)) (enum_storage_primitive sample_target 1
     (Some \<lparr>od_family = EnumFamily, od_low = - 1, od_high = 200\<rparr>)) = Some (SignedInt, 8)"
  by code_simp

text \<open>The carrier of a subrange with a negative low bound is chosen from the high bound only.\<close>

lemma subrange_carrier_too_narrow: "subrange_carrier (- 300) 100 = Inr (SignedInt, 8)"
  by code_simp

end
