(* ===== verification/Emit_Ordinal_Facts.thy ===== *)
theory Emit_Ordinal_Facts
  imports Emit_Ordinals Emit_Storage
begin

text \<open>
  Ordinals of \<open>src/emit_analysis.cc\<close>: the labels of an enumeration ascend within its domain, a set
  literal converts to a set type exactly when its elements belong to it, and a range-checked
  \<open>Succ\<close> or \<open>Pred\<close> is the exact successor or predecessor.
\<close>

subsection \<open>Labels\<close>

definition ascending_from :: "i64 option \<Rightarrow> i64 list \<Rightarrow> bool" where
  "ascending_from previous vs \<longleftrightarrow>
     sorted_wrt (<) (map sint vs) \<and> (\<forall>p v. previous = Some p \<and> v \<in> set vs \<longrightarrow> sint p < sint v)"

lemma labels_ascend:
  "evaluate_labels previous ls = (map Some vs, 0) \<Longrightarrow> ascending_from previous vs"
proof (induction previous ls arbitrary: vs rule: evaluate_labels.induct)
  case (2 previous l known rest)
  then obtain v ws where v: "(case known of Some v \<Rightarrow> Some v | None \<Rightarrow> label_result l previous) = Some v"
    and ws: "vs = v # ws" "evaluate_labels (Some v) rest = (map Some ws, 0)"
    and above: "\<not> (case previous of None \<Rightarrow> False | Some p \<Rightarrow> v \<le>s p)"
    by (auto split: option.splits prod.splits if_splits)
  from "2.IH" [OF v ws(2)] above show ?case
    unfolding ws(1) by (cases previous) (fastforce simp: ascending_from_def word_sle_eq)+
qed (simp add: ascending_from_def)

lemma ascending_bounds:
  assumes "ascending_from p vs" "v \<in> set vs"
  shows "sint (hd vs) \<le> sint v" "sint v \<le> sint (last vs)"
proof -
  from assms(2) obtain i where i: "i < length vs" "v = vs ! i" by (auto simp: in_set_conv_nth)
  have s: "sorted_wrt (<) (map sint vs)" using assms(1) by (simp add: ascending_from_def)
  have step: "sint (vs ! a) \<le> sint (vs ! b)" if "a \<le> b" "b < length vs" for a b
    using sorted_wrt_nth_less [OF s, of a b] that by (cases "a = b") simp_all
  have "vs \<noteq> []" using assms(2) by auto
  then show "sint (hd vs) \<le> sint v" "sint v \<le> sint (last vs)"
    using step [of 0 i] step [of i "length vs - 1"] i by (auto simp: hd_conv_nth last_conv_nth)
qed

text \<open>
  With every label evaluated and no report, the ordinals differ and the domain of the type is
  exactly the interval from the first to the last.
\<close>

lemma enum_domain_bounds:
  assumes "evaluate_enum_ordinals labels = (map Some vs, 0)" "labels \<noteq> []" "length vs = length labels"
  shows "enum_domain labels n key = Some (keyed EnumFamily (hd vs) (last vs) key) \<and>
    distinct vs \<and> (\<forall>v\<in>set vs. hd vs \<le>s v \<and> v \<le>s last vs)"
proof -
  have asc: "ascending_from None vs"
    using assms(1) unfolding evaluate_enum_ordinals_def by (rule labels_ascend)
  then have "distinct (map sint vs)"
    unfolding ascending_from_def strict_sorted_iff by simp
  then have "distinct vs" by (simp add: distinct_map)
  moreover have "vs \<noteq> []" "length labels - Suc 0 < length labels" using assms(2,3) by auto
  ultimately show ?thesis
    using assms ascending_bounds [OF asc]
    by (simp add: enum_domain_def enum_member_ordinal_def word_sle_eq hd_conv_nth last_conv_nth)
qed

subsection \<open>Set literals\<close>

fun literal_values :: "set_element list \<Rightarrow> ordinal_value option list" where
  "literal_values [] = []"
| "literal_values (OneElement e # es) = e # literal_values es"
| "literal_values (RangeElement lo hi # es) = lo # hi # literal_values es"

fun extend_all :: "literal_summary option \<Rightarrow> ordinal_value option list \<Rightarrow> literal_summary option" where
  "extend_all summary [] = summary"
| "extend_all summary (e # es) =
     (case extend_set_literal_ordinal_summary summary e of None \<Rightarrow> None | Some s \<Rightarrow> extend_all (Some s) es)"

lemma summarize_extend: "summarize_from summary es = extend_all summary (literal_values es)"
  by (induction summary es rule: summarize_from.induct) (auto split: option.splits)

definition same_domain :: "literal_summary \<Rightarrow> ordinal_value \<Rightarrow> bool" where
  "same_domain s v \<longleftrightarrow> ov_family v = ls_family s \<and> ov_enum v = ls_enum s"

lemma sint_min_max:
  "sint (signed_min a b) = min (sint a) (sint b)" "sint (signed_max a b) = max (sint a) (sint b)"
  by (simp_all add: signed_min_def signed_max_def word_sless_alt min_def max_def)

lemma extend_some:
  "extend_set_literal_ordinal_summary (Some s) e = Some s' \<Longrightarrow>
    \<exists>v. e = Some v \<and> same_domain s v \<and> ls_family s' = ls_family s \<and> ls_enum s' = ls_enum s \<and>
      sint (ls_low s') = min (sint (ls_low s)) (sint (ov_value v)) \<and>
      sint (ls_high s') = max (sint (ls_high s)) (sint (ov_value v))"
  by (cases e) (auto simp: extend_set_literal_ordinal_summary_def same_domain_def sint_min_max split: if_splits)

lemma extend_all_bounds:
  "extend_all (Some s) es = Some t \<Longrightarrow>
    ls_family t = ls_family s \<and> ls_enum t = ls_enum s \<and> (\<forall>e\<in>set es. \<exists>v. e = Some v \<and> same_domain s v) \<and>
    (\<forall>lo hi. sint (ls_low t) \<ge> lo \<and> sint (ls_high t) \<le> hi \<longleftrightarrow>
       sint (ls_low s) \<ge> lo \<and> sint (ls_high s) \<le> hi \<and>
       (\<forall>v. Some v \<in> set es \<longrightarrow> sint (ov_value v) \<in> {lo .. hi}))"
proof (induction es arbitrary: s)
  case (Cons e es)
  then obtain s' where s': "extend_set_literal_ordinal_summary (Some s) e = Some s'"
    "extend_all (Some s') es = Some t" by (auto split: option.splits)
  from extend_some [OF s'(1)] obtain v where v: "e = Some v" "same_domain s v"
    "ls_family s' = ls_family s" "ls_enum s' = ls_enum s"
    "sint (ls_low s') = min (sint (ls_low s)) (sint (ov_value v))"
    "sint (ls_high s') = max (sint (ls_high s)) (sint (ov_value v))" by blast
  have same: "same_domain s' = same_domain s" using v by (auto simp: same_domain_def)
  note ih = Cons.IH [OF s'(2)]
  have "\<forall>lo hi. sint (ls_low t) \<ge> lo \<and> sint (ls_high t) \<le> hi \<longleftrightarrow>
       sint (ls_low s) \<ge> lo \<and> sint (ls_high s) \<le> hi \<and>
       (\<forall>v. Some v \<in> set (e # es) \<longrightarrow> sint (ov_value v) \<in> {lo .. hi})"
    using ih unfolding v(1,5,6) by auto
  then show ?case using ih v(1-4) same by auto
qed simp

lemma extend_first:
  "extend_set_literal_ordinal_summary None e = Some s \<Longrightarrow>
    \<exists>v. e = Some v \<and> same_domain s v \<and> ls_low s = ov_value v \<and> ls_high s = ov_value v"
  by (cases e) (auto simp: extend_set_literal_ordinal_summary_def same_domain_def)

text \<open>A summary spans its ordinals: it lies in an interval exactly when every ordinal does.\<close>

lemma summary_spans:
  assumes "summarize_set_literal_ordinals es = Some s"
  shows "\<forall>e\<in>set (literal_values es). \<exists>v. e = Some v \<and> same_domain s v"
    and "sint (ls_low s) \<ge> lo \<and> sint (ls_high s) \<le> hi \<longleftrightarrow>
      (\<forall>v. Some v \<in> set (literal_values es) \<longrightarrow> sint (ov_value v) \<in> {lo .. hi})"
    and "literal_values es \<noteq> []"
proof -
  have all: "extend_all None (literal_values es) = Some s"
    using assms by (simp add: summarize_set_literal_ordinals_def summarize_extend)
  then obtain e rest s1 where e: "literal_values es = e # rest"
    "extend_set_literal_ordinal_summary None e = Some s1" "extend_all (Some s1) rest = Some s"
    by (cases "literal_values es") (auto split: option.splits)
  from extend_first [OF e(2)] obtain v where v: "e = Some v" "same_domain s1 v"
    "ls_low s1 = ov_value v" "ls_high s1 = ov_value v" by blast
  note rest = extend_all_bounds [OF e(3)]
  have same: "same_domain s = same_domain s1" using rest by (auto simp: same_domain_def)
  show "\<forall>e\<in>set (literal_values es). \<exists>v. e = Some v \<and> same_domain s v"
    unfolding e(1) same using rest v(1,2) by auto
  show "sint (ls_low s) \<ge> lo \<and> sint (ls_high s) \<le> hi \<longleftrightarrow>
      (\<forall>v. Some v \<in> set (literal_values es) \<longrightarrow> sint (ov_value v) \<in> {lo .. hi})"
    unfolding e(1) using rest v by auto
  show "literal_values es \<noteq> []" by (simp add: e(1))
qed

subsection \<open>Set conversions\<close>

definition same_ordinals :: "keyed_domain \<Rightarrow> keyed_domain \<Rightarrow> bool" where
  "same_ordinals s d \<longleftrightarrow>
     od_family d \<noteq> InvalidFamily \<and> od_family s = od_family d \<and>
     (od_family d = EnumFamily \<longrightarrow> od_enum s = od_enum d)"

lemma conversion_iff:
  "classify_set_conversion (Some s) (Some d) same \<noteq> Incompatible \<longleftrightarrow>
    same_ordinals s d \<and> sint (od_low d) \<le> sint (od_low s) \<and> sint (od_high s) \<le> sint (od_high d)"
  by (cases "od_family d")
    (auto simp: classify_set_conversion_def same_ordinals_def word_sless_alt Let_def)

lemma conversion_trans:
  assumes "classify_set_conversion a b p \<noteq> Incompatible" "classify_set_conversion b c q \<noteq> Incompatible"
  shows "classify_set_conversion a c r \<noteq> Incompatible"
proof -
  from assms obtain x y z where "a = Some x" "b = Some y" "c = Some z"
    by (cases a; cases b; cases c) (auto simp: classify_set_conversion_def)
  with assms show ?thesis by (auto simp: conversion_iff same_ordinals_def)
qed

lemma literal_converts:
  assumes "summarize_set_literal_ordinals es = Some s"
    and "od_family e = ls_family s" "od_enum e = ls_enum s"
  shows "classify_set_conversion (set_domain (Some e) (Some (ls_low s, ls_high s))) (Some d) same \<noteq> Incompatible \<longleftrightarrow>
    (\<forall>v. Some v \<in> set (literal_values es) \<longrightarrow>
       od_family d \<noteq> InvalidFamily \<and> ov_family v = od_family d \<and>
       (od_family d = EnumFamily \<longrightarrow> ov_enum v = od_enum d) \<and>
       sint (ov_value v) \<in> {sint (od_low d) .. sint (od_high d)})"
proof -
  note spans = summary_spans [OF assms(1)]
  obtain v where v: "Some v \<in> set (literal_values es)"
    using spans(1,3) by (cases "literal_values es") auto
  have same: "ov_family v = ls_family s \<and> ov_enum v = ls_enum s" if "Some v \<in> set (literal_values es)" for v
    using that spans(1) by (auto simp: same_domain_def)
  have "classify_set_conversion (set_domain (Some e) (Some (ls_low s, ls_high s))) (Some d) same \<noteq> Incompatible \<longleftrightarrow>
      od_family d \<noteq> InvalidFamily \<and> ls_family s = od_family d \<and>
      (od_family d = EnumFamily \<longrightarrow> ls_enum s = od_enum d) \<and>
      sint (ls_low s) \<ge> sint (od_low d) \<and> sint (ls_high s) \<le> sint (od_high d)"
    by (auto simp: set_domain_def conversion_iff same_ordinals_def assms(2,3))
  then show ?thesis unfolding spans(2) using same v by metis
qed

text \<open>
  An operand has an ordinal type, its ordinal belongs to the family of that type, and so does the
  element type it gives a set. Only enumerations have an identity.
\<close>

definition keyed_ok :: "keyed_domain \<Rightarrow> bool" where
  "keyed_ok d \<longleftrightarrow> od_family d \<noteq> InvalidFamily \<and> (od_family d \<noteq> EnumFamily \<longrightarrow> od_enum d = None)"

definition same_base :: "keyed_domain \<Rightarrow> keyed_domain \<Rightarrow> bool" where
  "same_base d e \<longleftrightarrow> od_family d = od_family e \<and> od_enum d = od_enum e"

definition ordinal_operand :: "literal_operand \<Rightarrow> bool" where
  "ordinal_operand a \<longleftrightarrow>
     (\<exists>d e. lo_type a = Some d \<and> keyed_ok d \<and> lo_element a = Some (Some e) \<and> same_base d e \<and>
        (\<forall>v. lo_value a = Some v \<longrightarrow> ov_family v = od_family d \<and> ov_enum v = od_enum d))"

definition base_of :: "literal_operand \<Rightarrow> keyed_domain" where
  "base_of a = the (lo_type a)"

lemma same_base_trans: "same_base c d \<Longrightarrow> same_base c e \<Longrightarrow> same_base d e"
  by (simp add: same_base_def)

lemma operand_base:
  assumes "ordinal_operand a"
  shows "lo_type a = Some (base_of a)" "keyed_ok (base_of a)"
    "\<exists>e. lo_element a = Some (Some e) \<and> same_base (base_of a) e"
    "lo_value a = Some v \<Longrightarrow> ov_family v = od_family (base_of a) \<and> ov_enum v = od_enum (base_of a)"
  using assms by (auto simp: ordinal_operand_def base_of_def)

lemma keyed_ok_base: "same_base d e \<Longrightarrow> keyed_ok d \<Longrightarrow> keyed_ok e"
  by (simp add: same_base_def keyed_ok_def)

lemma elements_convert:
  assumes "\<forall>a\<in>set as. ordinal_operand a"
  shows "set_literal_elements_convert_to (map (\<lambda>a. (lo_type a, lo_value a)) as) (Some d) \<longleftrightarrow>
    (\<forall>a\<in>set as. same_base (base_of a) d)"
  using assms operand_base(1)
  by (fastforce simp: set_literal_elements_convert_to_def element_domain_def list_all_iff same_base_def)

lemma common_element_domain_iff:
  assumes "\<forall>a\<in>set as. ordinal_operand a" "as \<noteq> []"
  shows "common_element_domain as =
    (if \<forall>a\<in>set as. same_base (base_of (hd as)) (base_of a) then Some (base_of (hd as)) else None)"
proof -
  obtain a rest where as: "as = a # rest" using assms(2) by (cases as) auto
  have "list_all (\<lambda>b. case lo_type b of None \<Rightarrow> False
      | Some e \<Rightarrow> od_family (base_of a) = od_family e \<and> od_enum (base_of a) = od_enum e) rest \<longleftrightarrow>
    (\<forall>b\<in>set rest. same_base (base_of a) (base_of b))"
    using assms(1) operand_base(1) by (fastforce simp: as list_all_iff same_base_def)
  then show ?thesis
    using operand_base(1) assms(1) by (simp add: as same_base_def [of "base_of a" "base_of a"])
qed

lemma literal_values_operands:
  "literal_values (map element_ordinals es) = map lo_value (literal_operands es)"
proof (induction es)
  case (Cons e es)
  then show ?case by (cases e) (simp_all add: literal_operands_def)
qed (simp add: literal_operands_def)

lemma literal_operands_Nil: "literal_operands es = [] \<longleftrightarrow> es = []"
proof (cases es)
  case (Cons e rest)
  then show ?thesis by (cases e) (simp_all add: literal_operands_def)
qed (simp add: literal_operands_def)

definition one_base :: "literal_element list \<Rightarrow> bool" where
  "one_base es \<longleftrightarrow>
     (\<forall>a\<in>set (literal_operands es). same_base (base_of (hd (literal_operands es))) (base_of a))"

lemma extend_all_total:
  "\<forall>e\<in>set xs. \<exists>v. e = Some v \<and> same_domain s v \<Longrightarrow> \<exists>t. extend_all (Some s) xs = Some t"
proof (induction xs arbitrary: s)
  case (Cons e xs)
  then obtain v where v: "e = Some v" "same_domain s v" by auto
  then obtain s' where "extend_set_literal_ordinal_summary (Some s) e = Some s'" "same_domain s' = same_domain s"
    by (auto simp: extend_set_literal_ordinal_summary_def same_domain_def fun_eq_iff)
  with Cons show ?case by auto
qed simp

lemma summary_of_base:
  assumes ok: "\<forall>a\<in>set (literal_operands es). ordinal_operand a" and "es \<noteq> []"
  shows "summarize_set_literal_ordinals (map element_ordinals es) = Some s \<Longrightarrow> one_base es"
    and "one_base es \<Longrightarrow> \<forall>a\<in>set (literal_operands es). lo_value a \<noteq> None \<Longrightarrow>
      \<exists>s. summarize_set_literal_ordinals (map element_ordinals es) = Some s"
    and "summarize_set_literal_ordinals (map element_ordinals es) = Some s \<Longrightarrow>
      a \<in> set (literal_operands es) \<Longrightarrow> \<exists>v. lo_value a = Some v"
proof -
  let ?as = "literal_operands es"
  have ne: "?as \<noteq> []" using assms(2) literal_operands_Nil by blast
  { assume s: "summarize_set_literal_ordinals (map element_ordinals es) = Some s"
    have v: "\<exists>v. lo_value a = Some v \<and> same_domain s v" if "a \<in> set ?as" for a
      using summary_spans(1) [OF s] that unfolding literal_values_operands by auto
    then have "od_family (base_of a) = ls_family s \<and> od_enum (base_of a) = ls_enum s" if "a \<in> set ?as" for a
      using that ok operand_base(4) by (force simp: same_domain_def)
    then show "one_base es" using ne by (simp add: one_base_def same_base_def)
    show "\<exists>v. lo_value a = Some v" if "a \<in> set ?as" using v that by blast }
  assume one: "one_base es" and all: "\<forall>a\<in>set ?as. lo_value a \<noteq> None"
  obtain a rest where as: "?as = a # rest" using ne by (cases ?as) auto
  from all as obtain v where v: "lo_value a = Some v" by auto
  define s1 where "s1 = \<lparr>ls_family = ov_family v, ls_enum = ov_enum v, ls_low = ov_value v, ls_high = ov_value v\<rparr>"
  have s1: "extend_set_literal_ordinal_summary None (Some v) = Some s1" "same_domain s1 v"
    by (simp_all add: s1_def extend_set_literal_ordinal_summary_def same_domain_def)
  have "\<exists>w. lo_value b = Some w \<and> same_domain s1 w" if b: "b \<in> set rest" for b
  proof -
    obtain w where w: "lo_value b = Some w" using all as b by (cases "lo_value b") auto
    have "same_base (base_of a) (base_of b)" using one as b by (simp add: one_base_def)
    then show ?thesis
      using w v s1(2) operand_base(4) [of b w] operand_base(4) [of a v] ok as b
      by (simp add: same_base_def same_domain_def)
  qed
  with extend_all_total [of "map lo_value rest" s1]
  show "\<exists>s. summarize_set_literal_ordinals (map element_ordinals es) = Some s"
    using s1(1) v unfolding summarize_set_literal_ordinals_def summarize_extend literal_values_operands as
    by auto
qed

text \<open>A non-empty literal has a set type of its own exactly when its operands share a base type.\<close>

lemma inferred_set_type_base:
  assumes ok: "\<forall>a\<in>set (literal_operands es). ordinal_operand a" and ne: "es \<noteq> []"
  shows "inferred_set_type es \<noteq> None \<longleftrightarrow> one_base es"
    and "inferred_set_type es = Some i \<Longrightarrow>
      \<exists>e. i = Some e \<and> same_base (base_of (hd (literal_operands es))) e"
proof -
  obtain a rest where as: "literal_operands es = a # rest"
    using ne literal_operands_Nil [of es] by (cases "literal_operands es") auto
  obtain e where e: "lo_element a = Some (Some e)" "same_base (base_of a) e"
    using operand_base(3) [of a] ok as by auto
  have common: "common_element_domain (a # rest) = (if one_base es then Some (base_of a) else None)"
    using common_element_domain_iff [OF ok] as unfolding one_base_def by simp
  show "inferred_set_type es \<noteq> None \<longleftrightarrow> one_base es"
    using summary_of_base(1) [OF ok ne] e(1) common
    by (auto simp: inferred_set_type_def as split: option.splits)
  show "\<exists>e. i = Some e \<and> same_base (base_of (hd (literal_operands es))) e" if "inferred_set_type es = Some i"
    using that e common
    by (auto simp: inferred_set_type_def as set_domain_def same_base_def split: option.splits if_splits)
qed

lemma target_literal_type:
  assumes ok: "\<forall>a\<in>set (literal_operands es). ordinal_operand a" and ne: "es \<noteq> []" and d: "keyed_ok d"
  shows "fst (deduce_set_literal_type None es (Some (Some d)) same) =
    (if \<forall>a\<in>set (literal_operands es). same_base (base_of a) d then TargetSet else NoLiteralType)"
proof (cases "inferred_set_type es")
  case None
  then have "\<not> one_base es" using inferred_set_type_base(1) [OF ok ne] by simp
  moreover have "hd (literal_operands es) \<in> set (literal_operands es)" using ne literal_operands_Nil by auto
  ultimately have "\<not> (\<forall>a\<in>set (literal_operands es). same_base (base_of a) d)"
    unfolding one_base_def same_base_def by metis
  then show ?thesis using None ne by (simp add: deduce_set_literal_type_def)
next
  case (Some i)
  let ?as = "literal_operands es"
  obtain e where e: "i = Some e" "same_base (base_of (hd ?as)) e"
    using inferred_set_type_base(2) [OF ok ne Some] by blast
  have "one_base es" using inferred_set_type_base(1) [OF ok ne] Some by simp
  moreover have hd: "hd ?as \<in> set ?as" using ne literal_operands_Nil by auto
  ultimately have base: "(\<forall>a\<in>set ?as. same_base (base_of a) d) \<longleftrightarrow> same_base (base_of (hd ?as)) d"
    unfolding one_base_def same_base_def by metis
  have "keyed_ok e" using keyed_ok_base e(2) operand_base(2) ok hd by blast
  then have "classify_set_conversion (Some e) (Some d) same \<noteq> Incompatible \<Longrightarrow> same_base (base_of (hd ?as)) d"
    using e(2) d by (auto simp: conversion_iff same_ordinals_def same_base_def keyed_ok_def)
  then show ?thesis
    using Some ne elements_convert [OF ok, of d, unfolded base] unfolding base
    by (auto simp: deduce_set_literal_type_def contextual_set_type_def e(1))
qed

lemma constant_literal_type:
  assumes ok: "\<forall>a\<in>set (literal_operands es). ordinal_operand a" and ne: "es \<noteq> []" and d: "keyed_ok d"
    and vs: "map lo_value (literal_operands es) = map Some vs"
    and i: "inferred_set_type es = Some i"
  shows "classify_set_conversion i (Some d) same \<noteq> Incompatible \<longleftrightarrow>
    (\<forall>v\<in>set vs. ov_family v = od_family d \<and> ov_enum v = od_enum d \<and>
       sint (ov_value v) \<in> {sint (od_low d) .. sint (od_high d)})"
proof -
  let ?as = "literal_operands es"
  have "one_base es" using inferred_set_type_base(1) [OF ok ne] i by simp
  moreover have "\<forall>a\<in>set ?as. lo_value a \<noteq> None"
    using vs by (metis image_eqI list.set_map option.distinct(1) imageE)
  ultimately obtain s where s: "summarize_set_literal_ordinals (map element_ordinals es) = Some s"
    using summary_of_base(2) [OF ok ne] by blast
  obtain a rest where as: "?as = a # rest" using ne literal_operands_Nil [of es] by (cases ?as) auto
  obtain e where e: "lo_element a = Some (Some e)" "same_base (base_of a) e" "keyed_ok (base_of a)"
    using operand_base(2,3) [of a] ok as by auto
  have i': "i = set_domain (Some e) (Some (ls_low s, ls_high s))"
    using i s e(1) by (simp add: inferred_set_type_def as)
  obtain v where v: "lo_value a = Some v" using summary_of_base(3) [OF ok ne s, of a] as by auto
  have "same_domain s v" using summary_spans(1) [OF s] v unfolding literal_values_operands as by auto
  then have ef: "od_family e = ls_family s" "od_enum e = ls_enum s"
    using operand_base(4) [of a v] ok as v e(2) by (auto simp: same_domain_def same_base_def)
  have key: "ov_enum w = None" if "Some w \<in> set (literal_values (map element_ordinals es))" "ov_family w \<noteq> EnumFamily" for w
    using summary_spans(1) [OF s] that ef e(2,3)
    by (auto simp: same_domain_def same_base_def keyed_ok_def)
  have mem: "Some w \<in> set (literal_values (map element_ordinals es)) \<longleftrightarrow> w \<in> set vs" for w
    unfolding literal_values_operands vs by auto
  show ?thesis
    unfolding i' literal_converts [OF s ef] using key d unfolding mem keyed_ok_def by metis
qed

text \<open>The set type of the result of an operation holds the elements of both operands.\<close>

lemma primitive_domain_integer:
  assumes "standard_target em" "table_integer c" "prim_kind c \<notin> {KBoolean, KChar, KWideChar}"
  shows "\<exists>d. primitive_domain em (Some c) = Inr (Some d) \<and> od_family d = IntegerFamily"
proof -
  from width_masks [OF width_cases [OF assms(1,2)]] obtain m lo hi where
    "unsigned_mask_for_bits (prim_width em c) = Inr m" "signed_min_for_bits (prim_width em c) = Inr lo"
    "signed_max_for_bits (prim_width em c) = Inr hi" .
  then show ?thesis using assms kind_cases [OF assms(2)]
    by (auto simp: primitive_domain_def on_Inr keyed_def table_integer_def)
qed

lemma ordinals_are_integers:
  "list_all (\<lambda>c. is_ordinal_integer c \<longrightarrow> prim_kind c \<notin> {KBoolean, KChar, KWideChar}) (map snd primitive_type_map)"
  by code_simp

lemma domain_primitive_domain:
  assumes em: "standard_target em" and d: "od_low d \<le>s od_high d"
  shows "\<exists>c e. ordinal_integer_primitive_for_domain em d = Inr (Some c) \<and>
    primitive_domain em (Some c) = Inr (Some e) \<and> od_family e = IntegerFamily"
proof -
  obtain c where c: "ordinal_integer_primitive_for_domain em d = Inr (Some c)" "table_integer c"
    using domain_storage [OF em d] by blast
  from c(1) domain_primitive [OF d, of em] have "c \<in> set (prims em) \<and> is_ordinal_integer c"
    by (auto simp: ordinal_integer_primitive_def find_Some_iff)
  with em ordinals_are_integers have "prim_kind c \<notin> {KBoolean, KChar, KWideChar}"
    unfolding standard_target_def list_all_iff by auto
  from primitive_domain_integer [OF em c(2) this] c(1) show ?thesis by blast
qed

lemma joined_holds:
  assumes em: "standard_target em" and "od_low l \<le>s od_high l"
    and e: "lelem = Some e" "od_family e = od_family l" and f: "relem = Some f" "od_family f = od_family l"
  shows "\<exists>d. joined_domain em l r lelem relem = Inr (Some d) \<and> od_family d = od_family l \<and>
    sint (od_low d) = min (sint (od_low l)) (sint (od_low r)) \<and>
    sint (od_high d) = max (sint (od_high l)) (sint (od_high r))"
proof -
  let ?d = "\<lparr>od_family = IntegerFamily, od_low = signed_min (od_low l) (od_low r),
    od_high = signed_max (od_high l) (od_high r)\<rparr>"
  have "od_low ?d \<le>s od_high ?d" using assms(2) by (simp add: word_sle_eq sint_min_max)
  from domain_primitive_domain [OF em this] obtain c g where
    "ordinal_integer_primitive_for_domain em ?d = Inr (Some c)"
    "primitive_domain em (Some c) = Inr (Some g)" "od_family g = IntegerFamily" by blast
  then show ?thesis using e f
    by (simp add: joined_domain_def Let_def on_Inr set_domain_def sint_min_max)
qed

lemma set_operation_holds:
  assumes em: "standard_target em" and l: "od_low l \<le>s od_high l"
    and same: "od_family l = od_family r" "od_enum l = od_enum r"
    and e: "lelem = Some e" "od_family e = od_family l" and f: "relem = Some f" "od_family f = od_family l"
  shows "\<exists>d. set_operation_domain em (Some l) (Some r) lelem relem p = Inr (Some d) \<and> od_family d = od_family l \<and>
    {sint (od_low l) .. sint (od_high l)} \<union> {sint (od_low r) .. sint (od_high r)} \<subseteq>
      {sint (od_low d) .. sint (od_high d)}"
proof -
  consider (left) "classify_set_conversion (Some r) (Some l) p \<noteq> Incompatible"
    | (right) "classify_set_conversion (Some r) (Some l) p = Incompatible"
      "classify_set_conversion (Some l) (Some r) p \<noteq> Incompatible"
    | (joined) "classify_set_conversion (Some r) (Some l) p = Incompatible"
      "classify_set_conversion (Some l) (Some r) p = Incompatible" by blast
  then show ?thesis
  proof cases
    case left
    with conversion_iff [of r l p] same show ?thesis by (auto simp: set_operation_domain_def)
  next
    case right
    with conversion_iff [of l r p] same show ?thesis by (auto simp: set_operation_domain_def)
  next
    case joined
    from joined_holds [OF em l e f, of r] obtain d where
      d: "joined_domain em l r lelem relem = Inr (Some d)" "od_family d = od_family l"
      "sint (od_low d) = min (sint (od_low l)) (sint (od_low r))"
      "sint (od_high d) = max (sint (od_high l)) (sint (od_high r))" by blast
    have "set_operation_domain em (Some l) (Some r) lelem relem p = Inr (Some d)"
      using joined same d(1) by (simp add: set_operation_domain_def)
    with d(2-4) show ?thesis by auto
  qed
qed

text \<open>An operator on a pointer is never bound as an operation on integers.\<close>

lemma pointer_operation_bound:
  assumes "binop_is_comparison op \<or> op = BAdd \<or> op = BSub"
    and "view_pointer_value l \<and> (view_pointer_value r \<or> view_integer r \<or> view_nil r) \<or>
      view_pointer_value r \<and> (view_integer l \<or> view_nil l)"
  shows "bind_pointer_operation op l r common boolean ptrint targets_match \<noteq> NotPointer"
  using assms by (auto simp: bind_pointer_operation_def Let_def)

subsection \<open>\<open>Succ\<close> and \<open>Pred\<close>\<close>

lemma and_mask_word:
  assumes "w \<in> {8, 16, 32, 64}"
  shows "unsigned_mask_for_bits w = Inr (mask w)"
proof -
  from width_masks [OF assms] obtain m where m: "unsigned_mask_for_bits w = Inr m" "uint m = 2 ^ w - 1" .
  have "uint (mask w :: u64) = 2 ^ w - 1" using assms by (auto simp: mask_eq_exp_minus_1)
  with m have "m = mask w" by (simp add: word_uint_eq_iff)
  with m(1) show ?thesis by simp
qed

lemma carrier_value_eq:
  assumes "0 < w" "w \<le> 64"
  shows "signed_carrier_value w (mask w) b = signed_take_bit (w - 1) b"
proof (cases "w = 64")
  case True
  have "take_bit 64 b = b" by (rule take_bit_word_eq_self) simp
  then have "b AND mask 64 = b" by (simp flip: take_bit_eq_mask)
  moreover have "signed_take_bit 63 b = b"
  proof (rule bit_word_eqI)
    fix n assume "n < LENGTH(64)"
    then have "min 63 n = n" by simp
    with \<open>n < LENGTH(64)\<close> show "bit (signed_take_bit 63 b) n = bit b n" by (simp add: bit_signed_take_bit_iff)
  qed
  ultimately show ?thesis using True by (simp add: signed_carrier_value_def)
next
  case False
  with assms have "signed_carrier_value w (mask w) b = signed_take_bit (w - 1) (take_bit w b)"
    using sign_extension_word [of w "take_bit w b"]
    by (simp add: signed_carrier_value_def Let_def flip: take_bit_eq_mask)
  also have "\<dots> = signed_take_bit (w - 1) b"
    using assms by (simp add: signed_take_bit_eq_iff_take_bit_eq)
  finally show ?thesis .
qed

text \<open>A pattern of width \<open>w\<close> that is congruent to a number of the signed range reads as it.\<close>

lemma read_signed:
  assumes "0 < w" "w \<le> 64" "take_bit w (uint b) = take_bit w k" "k \<in> signed_range w"
  shows "sint (signed_carrier_value w (mask w) b) = k"
proof -
  have "sint (signed_carrier_value w (mask w) b) = signed_take_bit (w - 1) (uint b)"
    using assms(1,2) sint_signed_take_bit [of w b] by (simp add: carrier_value_eq)
  also have "\<dots> = signed_take_bit (w - 1) k"
    using assms(1,3) by (simp add: signed_take_bit_eq_iff_take_bit_eq)
  also have "\<dots> = k" using assms(4) by (simp only: signed_take_bit_range)
  finally show ?thesis .
qed

lemma uint_and_mask: "uint (b AND mask w :: u64) = take_bit w (uint b)"
  by (simp add: unsigned_take_bit_eq flip: take_bit_eq_mask)

lemma stored_exact:
  assumes em: "standard_target em" and t: "table_integer t" and k: "k \<in> range_of em t"
    and b: "take_bit (prim_width em t) (uint b) = take_bit (prim_width em t) k"
  shows "\<exists>c. stored_step em t b = Inr c \<and> const_value c = k \<and> cv_type c = Some t"
proof -
  let ?w = "prim_width em t"
  have w: "?w \<in> {8, 16, 32, 64}" by (rule width_cases [OF em t])
  then have w0: "0 < ?w" "?w \<le> 64" "?w \<noteq> 64 \<longleftrightarrow> ?w < 64" by auto
  show ?thesis
  proof (cases "int_kind t = SignedInt")
    case True
    with k have "k \<in> signed_range ?w" by (simp add: range_of_def int_range_def)
    with read_signed [OF w0(1,2) b] have "sint (signed_carrier_value ?w (mask ?w) b) = k" .
    with True show ?thesis
      using w0 by (auto simp: stored_step_def on_Inr em t and_mask_word [OF w] Let_def const_value_def
          has_kind_def signed_carrier_value_def split: if_splits)
  next
    case False
    with kind_cases [OF t] k have "int_kind t = UnsignedInt" "k \<in> unsigned_range ?w"
      by (auto simp: range_of_def int_range_def)
    moreover from this b have "uint (b AND mask ?w) = k"
      unfolding uint_and_mask by (simp only: take_bit_range)
    ultimately show ?thesis
      by (simp add: stored_step_def on_Inr em t and_mask_word [OF w] Let_def const_value_def has_kind_def)
  qed
qed

text \<open>The step itself, on a signed carrier that holds the result.\<close>

definition step_result :: "ordinal_step \<Rightarrow> int \<Rightarrow> int" where
  "step_result s k = (if st_succ s then k + 1 else k - 1)"

lemma take_bit_step:
  fixes b :: u64
  assumes "take_bit w (uint b) = take_bit w k" "w \<le> 64"
  shows "take_bit w (uint (if st_succ s then b + 1 else b - 1)) = take_bit w (step_result s k)"
proof -
  have "uint (b + 1) = take_bit 64 (uint b + 1)" "uint (b - 1) = take_bit 64 (uint b - 1)"
    by (simp_all add: uint_word_ariths take_bit_eq_mod)
  then have "take_bit w (uint (b + 1)) = take_bit w (uint b + 1)" "take_bit w (uint (b - 1)) = take_bit w (uint b - 1)"
    using assms(2) by (simp_all add: min_def)
  moreover have "take_bit w (uint b + 1) = take_bit w (k + 1)" "take_bit w (uint b - 1) = take_bit w (k - 1)"
    using assms(1) by (metis take_bit_add, metis take_bit_diff)
  ultimately show ?thesis by (simp add: step_result_def)
qed

lemma stepped_exact:
  assumes w: "w \<in> {8, 16, 32, 64}" and kind: "int_kind (st_carrier s) = SignedInt"
    and b: "take_bit w (uint b) = take_bit w k" and k: "k \<in> signed_range w" "step_result s k \<in> signed_range w"
  shows "\<exists>b'. stepped_bits em s w (mask w) b = Inr (Some b', False) \<and>
    take_bit w (uint b') = take_bit w (step_result s k)"
proof (cases "st_check_overflow s")
  case True
  from w have w0: "0 < w" "w \<le> 64" by auto
  from width_masks [OF w] obtain lo hi where
    lo: "signed_min_for_bits w = Inr lo" "sint lo = - (2 ^ (w - 1))" and
    hi: "signed_max_for_bits w = Inr hi" "sint hi = 2 ^ (w - 1) - 1" .
  define v where "v = signed_carrier_value w (mask w) b"
  have v: "sint v = k" unfolding v_def by (rule read_signed [OF w0 b k(1)])
  have r: "step_result s k \<in> signed_range 64" using k(2) w by (auto simp: signed_range_def)
  have one: "sint (1 :: i64) = 1" by simp
  obtain n where n: "(if st_succ s then checked_add_int64 v 1 else checked_sub_int64 v 1) = Some n"
    "sint n = step_result s k"
    using r checked_add_int64_exact [of v 1] checked_sub_int64_exact [of v 1]
      sint_add_exact [of v 1] sint_diff_exact [of v 1]
    by (cases "st_succ s") (auto simp: step_result_def v)
  have inside: "\<not> (n <s lo \<or> hi <s n)" using k(2) by (auto simp: word_sless_alt lo hi n signed_range_def)
  have "take_bit w (uint (n AND mask w)) = take_bit w (step_result s k)"
    using w0 n(2) by (simp add: uint_and_mask take_bit_uint_sint)
  with True kind n(1) inside show ?thesis
    by (simp add: stepped_bits_def v_def [symmetric] Let_def on_Inr lo hi)
next
  case False
  from w have "w \<le> 64" by auto
  with False take_bit_step [OF b this, of s] show ?thesis by (auto simp: stepped_bits_def uint_and_mask)
qed

lemma converted_carrier:
  assumes em: "standard_target em" and t: "table_integer t" and v: "const_plain v"
  shows "\<exists>c. convert_const_int_value em v (Some t) True False = Inr (Some (c, False)) \<and>
    take_bit (prim_width em t) (uint (cv_bits c AND mask (prim_width em t))) =
      take_bit (prim_width em t) (const_value v)"
proof -
  let ?w = "prim_width em t"
  have w: "valid_width ?w" "?w \<le> 64" using width_cases [OF em t] by (auto simp: valid_width_def)
  have k: "int_kind t \<noteq> NoInt" using t by (simp add: table_integer_def)
  obtain m where "low_bits 0xFFFFFFFFFFFFFFFF ?w = Inr m" by (simp add: low_bits_eq [OF w(1)])
  moreover have "take_bit ?w (const_value v) = take_bit ?w (uint (cv_bits v))"
    using plain_residue [OF v w(2)] by (simp add: take_bit_eq_mod)
  then have "take_bit ?w (uint (take_bit ?w (cv_bits v) AND mask ?w)) = take_bit ?w (const_value v)"
    by (simp add: uint_and_mask unsigned_take_bit_eq)
  ultimately show ?thesis
    using k fits_exact [OF em t plain_wf [OF v]]
    by (simp add: convert_const_int_value_def on_Inr low_bits_eq [OF w(1)] em t)
qed

lemma step_exact:
  assumes em: "standard_target em" and s: "st_storage s = Some storage" "table_integer storage"
    and c: "table_integer (st_carrier s)" "int_kind (st_carrier s) = SignedInt"
    and wider: "prim_width em storage \<le> prim_width em (st_carrier s)"
    and d: "st_check_range s" "st_domain s = Some d" "{sint (od_low d) .. sint (od_high d)} \<subseteq> range_of em storage"
    and v: "const_plain v" "const_value v \<in> range_of em (st_carrier s)"
    and r: "step_result s (const_value v) \<in> range_of em (st_carrier s)"
  shows "\<exists>f. fold_step em s (Some v) o1 = Inr f \<and> \<not> snd f \<and>
    map_option const_value (fst f) =
      (if step_result s (const_value v) \<in> {sint (od_low d) .. sint (od_high d)}
       then Some (step_result s (const_value v)) else None)"
proof -
  let ?w = "prim_width em (st_carrier s)" and ?k = "step_result s (const_value v)"
  have w: "?w \<in> {8, 16, 32, 64}" by (rule width_cases [OF em c(1)])
  then have w0: "0 < ?w" "?w \<le> 64" by auto
  have kinds: "int_kind storage \<noteq> NoInt" using s(2) by (simp add: table_integer_def)
  from converted_carrier [OF em c(1) v(1)] obtain a where
    a: "convert_const_int_value em v (Some (st_carrier s)) True False = Inr (Some (a, False))"
    "take_bit ?w (uint (cv_bits a AND mask ?w)) = take_bit ?w (const_value v)" by blast
  have ks: "const_value v \<in> signed_range ?w" "?k \<in> signed_range ?w"
    using v(2) r c(2) by (simp_all add: range_of_def int_range_def)
  from stepped_exact [OF w c(2) a(2) ks] obtain b where
    b: "stepped_bits em s ?w (mask ?w) (cv_bits a AND mask ?w) = Inr (Some b, False)"
    "take_bit ?w (uint b) = take_bit ?w ?k" by blast
  have dom: "step_in_domain s ?w (mask ?w) b \<longleftrightarrow> ?k \<in> {sint (od_low d) .. sint (od_high d)}"
    using read_signed [OF w0 b(2) ks(2)]
    by (simp add: step_in_domain_def d(1,2) c(2) Let_def word_sle_eq)
  have step: "fold_step em s (Some v) o1 =
      (if step_in_domain s ?w (mask ?w) b then on_checked (stored_step em storage b) (\<lambda>v. Inr (Some v, False))
       else Inr unfolded)"
    using kinds c by (simp add: fold_step_def s(1) a(1) b(1) on_Inr em and_mask_word [OF w])
  show ?thesis
  proof (cases "?k \<in> {sint (od_low d) .. sint (od_high d)}")
    case True
    have "take_bit (prim_width em storage) (uint b) = take_bit (prim_width em storage) ?k"
      using b(2) wider by (metis min.absorb1 take_bit_take_bit)
    with stored_exact [OF em s(2)] True d(3) obtain x where
      "stored_step em storage b = Inr x" "const_value x = ?k" by blast
    moreover from this True dom step have "fold_step em s (Some v) o1 = Inr (Some x, False)"
      by (simp only: if_True on_Inr)
    ultimately show ?thesis using True by (simp only: if_True) simp
  next
    case False
    with dom step have "fold_step em s (Some v) o1 = Inr unfolded" by (simp only: if_False)
    with False show ?thesis by (simp only: if_False) (simp add: unfolded_def)
  qed
qed

text \<open>The step that the binder makes under a range check.\<close>

lemma bound_step:
  assumes em: "standard_target em" and t: "table_integer storage"
    and q: "\<not> (int_kind storage = UnsignedInt \<and> prim_width em storage = 64)"
  shows "\<exists>s. bind_ordinal_step em is_succ (Some storage) d q_check True = Inr (Some s) \<and>
    st_succ s = is_succ \<and> st_storage s = Some storage \<and> st_domain s = d \<and> st_check_range s \<and>
    st_check_overflow s = q_check \<and> table_integer (st_carrier s) \<and> int_kind (st_carrier s) = SignedInt \<and>
    range_of em storage \<subseteq> range_of em (st_carrier s)"
proof -
  have "(SignedInt, 8) \<in> set ordinals" by simp
  then obtain one where one: "ordinal_integer_primitive (prims em) SignedInt 8 = Some one"
    "int_kind one = SignedInt" "prim_width em one = 8" "table_integer one"
    by (rule ordinal_in_table [OF em])
  let ?op = "if is_succ then BAdd else BSub"
  have "\<not> mixed_with_qword em storage one" using q one by (simp add: mixed_with_qword_def)
  from arithmetic.signed_chosen [OF em t one(4) this one(2)] obtain c where
    "integer_arithmetic_primitive em ?op storage one = Inr (Some c)" "table_integer c"
    "int_kind c = SignedInt" "range_of em storage \<subseteq> range_of em c" .
  with one(1) show ?thesis by (simp add: bind_ordinal_step_def on_Inr)
qed

lemma wider_carrier:
  assumes em: "standard_target em" and "table_integer s" "table_integer c"
    and "int_kind c = SignedInt" "range_of em s \<subseteq> range_of em c"
  shows "prim_width em s \<le> prim_width em c"
  using range_subset [OF kind_cases [OF assms(2)] kind_cases [OF assms(3)]
      width_cases [OF em assms(2)] width_cases [OF em assms(3)]] assms(5)
  by (auto simp: range_of_def)

text \<open>On an unsigned carrier the low end of the domain is not looked at.\<close>

lemma unsigned_step_below_domain:
  "(case bind_ordinal_step sample_target False (find_primitive ''qword'')
        (Some \<lparr>od_family = IntegerFamily, od_low = 5, od_high = 5000000000\<rparr>) True True of
      Inr (Some s) \<Rightarrow>
        (case fold_step sample_target s (Some (fold_value sample_target 5)) None of
           Inr f \<Rightarrow> folded_value f | _ \<Rightarrow> None)
    | _ \<Rightarrow> None) = Some 4"
  by code_simp

end
