(* ===== verification/Emit_Claims.thy ===== *)
theory Emit_Claims
  imports Emit_Ordinal_Facts
begin

text \<open>
  What the constant folder and the ordinal analysis of \<open>src/emit_analysis.cc\<close> promise the rest of
  the emitter.
\<close>

definition sample_env :: fold_env where
  "sample_env = \<lparr>fe_target = sample_target, fe_registry = empty_registry, fe_frames = [],
     fe_locals = [(''answer'', False, Some (EBinary no_location BSub
        (EBinary no_location BMul (EIntLit no_location 6) (EIntLit no_location 7) False)
        (EUnary no_location UNeg (EIntLit no_location 2) False) False))],
     operand_prim = (\<lambda>_. find_primitive ''int64''), intrinsic_name = (\<lambda>_. None),
     operand_type = (\<lambda>_. None), ordinal_of = (\<lambda>_. None), label_ordinal = (\<lambda>_. None),
     cast_target = (\<lambda>_. None), step_of = (\<lambda>_. None)\<rparr>"

abbreviation sample_expr :: expr where
  "sample_expr \<equiv> EBinary no_location BIntDiv (EIdent no_location ''answer'') (EIntLit no_location 4) False"

lemma sample_operand: "plain_operand (operand_prim sample_env e)"
proof -
  obtain info where info: "find_primitive ''int64'' = Some info" "int_kind info = SignedInt"
    "prim_family info = FamInteger" "prim_kind info = KInt64"
    by (simp add: find_primitive_def primitive_type_map_def prim_def)
  then have "info \<in> snd ` set primitive_type_map" unfolding find_primitive_def by (force dest: map_of_SomeD)
  with info show ?thesis by (simp add: plain_operand_def integer_operand_def table_integer_def sample_env_def)
qed

lemma sample_evaluates: "evaluates sample_env sample_expr (Some 11, False)"
proof -
  let ?answer = "EBinary no_location BSub
        (EBinary no_location BMul (EIntLit no_location 6) (EIntLit no_location 7) False)
        (EUnary no_location UNeg (EIntLit no_location 2) False) False"
  have lit: "evaluates sample_env (EIntLit no_location n) (Some (uint n), False)" for n by (rule evaluates.literal)
  have "evaluates sample_env (EBinary no_location BMul (EIntLit no_location 6) (EIntLit no_location 7) False)
      (exact_result IntegerMul (Some (uint (6 :: u64))) (Some (uint (7 :: u64))) (False \<or> False))"
    by (rule evaluates.operation [OF _ sample_operand sample_operand lit lit]) (simp add: operator_kind_def)
  then have product: "evaluates sample_env (EBinary no_location BMul (EIntLit no_location 6) (EIntLit no_location 7) False)
      (Some 42, False)" by (simp add: exact_result_def exact_op_def foldable_range_def)
  have minus: "evaluates sample_env (EUnary no_location UNeg (EIntLit no_location 2) False) (Some (- uint (2 :: u64)), False)"
    by (rule evaluates.negated [OF lit]) (simp add: negatable_range_def)
  have "evaluates sample_env ?answer (exact_result IntegerSub (Some 42) (Some (- uint (2 :: u64))) (False \<or> False))"
    by (rule evaluates.operation [OF _ sample_operand sample_operand product minus]) (simp add: operator_kind_def)
  then have answer: "evaluates sample_env ?answer (Some 44, False)"
    by (simp add: exact_result_def exact_op_def foldable_range_def)
  have name: "evaluates sample_env (EIdent no_location ''answer'') (Some 44, False)"
    by (rule evaluates.named [OF _ _ answer])
      (simp_all add: sample_env_def const_initializer_def fold_untyped_const_def)
  have "evaluates sample_env sample_expr (exact_result IntegerDiv (Some 44) (Some (uint (4 :: u64))) (False \<or> False))"
    by (rule evaluates.operation [OF _ sample_operand sample_operand name lit]) (simp add: operator_kind_def)
  then show ?thesis
    by (simp add: exact_result_def exact_op_def foldable_range_def signed_divide_int_def)
qed

text \<open>
  C10. Constant folding is exact. For an expression of literals, signs, the operators
  \<open>+ - * div mod\<close> and names of untyped constants, the folder returns the constant that the
  reference semantics over the integers gives, and nothing where that has no value; it reports
  overflow exactly when an operation leaves \<open>-2^63 .. 2^64-1\<close>. The operands have integer types and
  the reference negates only numbers whose magnitude is below \<open>2^63\<close>. Casts, bitwise operators and
  shifts are outside the fragment; \<open>Emit_Storage\<close> has closed runs where they, and the negation of
  larger numbers, depart from the integers.
\<close>

theorem constant_folding_exact:
  assumes "standard_target (fe_target env)" "evaluates env e (x, overflow)"
  shows "\<exists>c. eval_const_int_expr env e = Inr c \<and> map_option const_value c = x \<and>
    required_const_int_expr_overflows env e = Inr overflow"
proof -
  have "leads_to env [] e" by (simp add: leads_to_def)
  from fold_agrees [OF assms this] obtain v where
    "fold_const env [] e = Inr (v, overflow)" "map_option const_value v = x" by (auto simp: agrees_def)
  then show ?thesis by (simp add: eval_const_int_expr_def required_const_int_expr_overflows_def on_Inr)
qed

theorem constant_folding_exact_witness:
  "\<exists>c. eval_const_int_expr sample_env sample_expr = Inr c \<and> map_option const_value c = Some 11 \<and>
    required_const_int_expr_overflows sample_env sample_expr = Inr False"
proof -
  have "standard_target (fe_target sample_env)" using sample_standard by (simp add: sample_env_def)
  from constant_folding_exact [OF this sample_evaluates] show ?thesis .
qed

text \<open>
  C11. The type in which an arithmetic operation is carried out exists for every pair of integer types and
  holds every value of both, except when one is signed and the other unsigned with 64 bits,
  where no type does. This is so for the common type, for the operators \<open>+ - *\<close> and, for operands
  that are not constants, for \<open>div\<close> and \<open>mod\<close>, on 32-bit and 64-bit targets. Comparisons, bitwise
  operators and divisions by constants choose their type by other rules.
\<close>

theorem carriers_hold_operands:
  assumes "standard_target em" "table_integer l" "table_integer r"
    and "answer = common_integer_primitive em l r \<or> answer = integer_arithmetic_primitive em op l r \<or>
      answer = division_carrier em l r"
  shows "\<exists>c. answer = Inr (Some c) \<and> table_integer c \<and>
    (range_of em l \<union> range_of em r \<subseteq> range_of em c \<longleftrightarrow> \<not> mixed_with_qword em l r)"
  using assms(4) common.chosen [OF assms(1-3)] arithmetic.chosen [OF assms(1-3), of op]
    division.chosen [OF assms(1-3)] by blast

theorem carriers_hold_operands_witness:
  "\<exists>b l c. find_primitive ''byte'' = Some b \<and> find_primitive ''longint'' = Some l \<and>
    common_integer_primitive sample_target b l = Inr (Some c) \<and> range_of sample_target b \<subseteq> range_of sample_target c"
proof -
  obtain b l where bl: "find_primitive ''byte'' = Some b" "find_primitive ''longint'' = Some l"
    "int_kind b = UnsignedInt" "int_kind l = SignedInt" "prim_bits b = 8" "\<not> pointer_sized b"
    by (simp add: find_primitive_def primitive_type_map_def prim_def)
  then have "b \<in> snd ` set primitive_type_map" "l \<in> snd ` set primitive_type_map"
    unfolding find_primitive_def by (force dest: map_of_SomeD)+
  with bl have t: "table_integer b" "table_integer l" by (simp_all add: table_integer_def)
  have "\<not> mixed_with_qword sample_target b l" using bl by (simp add: mixed_with_qword_def prim_width_def)
  with carriers_hold_operands [OF sample_standard t, of "common_integer_primitive sample_target b l"] bl(1,2)
  show ?thesis by blast
qed

text \<open>
  C37. The storage of an ordinal domain is the narrowest integer type of its signedness that
  holds every ordinal of the domain.
\<close>

theorem ordinal_storage_holds_domain:
  assumes "standard_target em" "od_low d \<le>s od_high d"
  shows "\<exists>c. ordinal_integer_primitive_for_domain em d = Inr (Some c) \<and> table_integer c \<and>
    {sint (od_low d) .. sint (od_high d)} \<subseteq> range_of em c \<and>
    (\<forall>c'. table_integer c' \<and> int_kind c' = int_kind c \<and>
       {sint (od_low d) .. sint (od_high d)} \<subseteq> range_of em c' \<longrightarrow> prim_width em c \<le> prim_width em c')"
  by (rule domain_storage [OF assms])

theorem ordinal_storage_holds_domain_witness:
  "\<exists>c. ordinal_integer_primitive_for_domain sample_target
      \<lparr>od_family = IntegerFamily, od_low = - 3, od_high = 300\<rparr> = Inr (Some c) \<and> {- 3 .. 300} \<subseteq> range_of sample_target c"
  using ordinal_storage_holds_domain [OF sample_standard, of "\<lparr>od_family = IntegerFamily, od_low = - 3, od_high = 300\<rparr>"]
  by (simp add: word_sle_eq) blast

subsection \<open>Enumerations\<close>

lemma enum_bits_hold:
  assumes "low \<le> v" "v \<le> high" "low \<in> signed_range 64" "high \<in> signed_range 64" "0 \<le> low \<or> v < 128"
    and "low = sint l" "high = sint h"
  shows "v \<in> int_range (domain_kind low, enum_storage_bits n l h)"
  using assms(1-5) unfolding enum_storage_bits_def word_sless_alt assms(6,7) [symmetric]
  by (auto simp: domain_kind_def int_range_def signed_range_def unsigned_range_def)

lemma enum_storage_some:
  assumes "standard_target em"
  obtains c where "enum_storage_primitive em n (Some d) = Some c" "table_integer c"
    "range_of em c = int_range (domain_kind (sint (od_low d)), enum_storage_bits n (od_low d) (od_high d))"
proof -
  have "(domain_kind (sint (od_low d)), enum_storage_bits n (od_low d) (od_high d)) \<in> set ordinals"
    by (simp add: domain_kind_def enum_storage_bits_def)
  then obtain c where "ordinal_integer_primitive (prims em) (domain_kind (sint (od_low d)))
      (enum_storage_bits n (od_low d) (od_high d)) = Some c"
    "int_kind c = domain_kind (sint (od_low d))" "prim_width em c = enum_storage_bits n (od_low d) (od_high d)"
    "table_integer c" by (rule ordinal_in_table [OF assms])
  then show thesis using that [of c]
    by (simp add: enum_storage_primitive_def domain_kind_def word_sless_alt range_of_def split: if_splits)
qed

text \<open>
  C38. When the labels of an enumeration are evaluated without a report, their ordinals are
  distinct, the domain of the type is the interval from the first to the last, and the type
  that stores the enumeration holds every one of them, unless there is a negative label: then
  only those below 128.
\<close>

theorem enum_labels_stored:
  assumes "standard_target em" "labels \<noteq> []" "length vs = length labels"
    and "evaluate_enum_ordinals labels = (map Some vs, 0)"
  shows "\<exists>d c. enum_domain labels members key = Some d \<and> distinct vs \<and>
    od_low d = hd vs \<and> od_high d = last vs \<and>
    enum_storage_primitive em packenum (Some (ordinal_domain.truncate d)) = Some c \<and>
    (\<forall>v\<in>set vs. od_low d \<le>s v \<and> v \<le>s od_high d \<and>
       (0 \<le> sint (od_low d) \<or> sint v < 128 \<longrightarrow> sint v \<in> range_of em c))"
proof -
  let ?d = "keyed EnumFamily (hd vs) (last vs) key"
  note bounds = enum_domain_bounds [OF assms(4,2,3), of members key]
  obtain c where c: "enum_storage_primitive em packenum (Some (ordinal_domain.truncate ?d)) = Some c"
    "range_of em c = int_range (domain_kind (sint (hd vs)), enum_storage_bits packenum (hd vs) (last vs))"
    using enum_storage_some [OF assms(1), of packenum "ordinal_domain.truncate ?d"]
    by (auto simp: ordinal_domain.truncate_def keyed_def)
  have "sint v \<in> range_of em c" if "v \<in> set vs" "0 \<le> sint (hd vs) \<or> sint v < 128" for v
    unfolding c(2) using that bounds sint_in_range [where 'a = 64]
    by (intro enum_bits_hold [OF _ _ _ _ _ refl refl]) (auto simp: word_sle_eq)
  with bounds c(1) show ?thesis by (auto simp: keyed_def)
qed

theorem enum_labels_stored_witness:
  "\<exists>d c. enum_domain [(NoValue, None), (FoldedTo (fold_value sample_target 300), None), (NoValue, None)] 3 None = Some d \<and>
    enum_storage_primitive sample_target 1 (Some (ordinal_domain.truncate d)) = Some c \<and> 301 \<in> range_of sample_target c"
proof -
  let ?labels = "[(NoValue, None), (FoldedTo (fold_value sample_target 300), None), (NoValue, None)]"
  have e: "evaluate_enum_ordinals ?labels = (map Some [0, 300, 301], 0)" by code_simp
  have d: "enum_domain ?labels 3 None = Some (keyed EnumFamily 0 301 None)" by code_simp
  from enum_labels_stored [OF sample_standard _ _ e, of 3 None 1] d
  show ?thesis by (auto simp: keyed_def)
qed

subsection \<open>Sets\<close>


text \<open>\<open>['a'..'z', '0']\<close> as a set of printable characters, and \<open>[300]\<close> as a \<open>set of byte\<close>.\<close>

abbreviation constant_operand :: "ordinal_family \<Rightarrow> i64 \<Rightarrow> i64 \<Rightarrow> i64 \<Rightarrow> literal_operand" where
  "constant_operand f lo hi v \<equiv> \<lparr>lo_type = Some (keyed f lo hi None),
     lo_value = Some \<lparr>ov_value = v, ov_family = f, ov_enum = None\<rparr>,
     lo_element = Some (Some (keyed f lo hi None))\<rparr>"


text \<open>
  C40. Union, difference, intersection and symmetric difference of two sets over the same
  ordinals are bound to a result type whose elements include those of both operands; the type
  is that of an operand whenever the other converts to it.
\<close>

theorem set_operation_holds_operands:
  assumes "standard_target em" "od_low l \<le>s od_high l" "od_family l = od_family r" "od_enum l = od_enum r"
    and "lelem = Some e" "od_family e = od_family l" "relem = Some f" "od_family f = od_family l"
  shows "\<exists>d. set_operation_domain em (Some l) (Some r) lelem relem p = Inr (Some d) \<and> od_family d = od_family l \<and>
    {sint (od_low l) .. sint (od_high l)} \<union> {sint (od_low r) .. sint (od_high r)} \<subseteq>
      {sint (od_low d) .. sint (od_high d)} \<and>
    (classify_set_conversion (Some r) (Some l) p \<noteq> Incompatible \<longrightarrow> d = l)"
proof -
  obtain d where d: "set_operation_domain em (Some l) (Some r) lelem relem p = Inr (Some d)"
    "od_family d = od_family l"
    "{sint (od_low l) .. sint (od_high l)} \<union> {sint (od_low r) .. sint (od_high r)} \<subseteq>
      {sint (od_low d) .. sint (od_high d)}"
    using set_operation_holds [OF assms, of p] by blast
  moreover have "classify_set_conversion (Some r) (Some l) p \<noteq> Incompatible \<Longrightarrow> d = l"
    using d(1) assms(3,4) by (simp add: set_operation_domain_def)
  ultimately show ?thesis by blast
qed

theorem set_operation_holds_operands_witness:
  "\<exists>d. set_operation_domain sample_target (Some (keyed IntegerFamily 0 10 None)) (Some (keyed IntegerFamily 5 300 None))
      (Some (keyed IntegerFamily 0 255 None)) (Some (keyed IntegerFamily 5 300 None)) False = Inr (Some d) \<and>
    0 \<in> {sint (od_low d) .. sint (od_high d)} \<and> 300 \<in> {sint (od_low d) .. sint (od_high d)}"
proof -
  let ?l = "keyed IntegerFamily 0 10 None" and ?r = "keyed IntegerFamily 5 300 None"
  have "od_low ?l \<le>s od_high ?l" by (simp add: keyed_def word_sle_eq)
  from set_operation_holds_operands [OF sample_standard this _ _ refl _ refl, of ?r "keyed IntegerFamily 0 255 None" ?r False]
  show ?thesis by (auto simp: keyed_def)
qed

subsection \<open>\<open>Succ\<close> and \<open>Pred\<close>\<close>



end
