(* ===== verification/Emit_Assign.thy ===== *)
theory Emit_Assign
  imports Emit_Storage Rt_Int_Facts
begin

text \<open>
  Assignment statements, \<open>EmitStmts::emit_assign_stmt\<close> in \<open>src/emit_stmts.cc\<close>: which of its lowerings
  an assignment takes, what the emitted C++ does with integers, and when \<open>{$R+}\<close> checks them.
\<close>

subsection \<open>Lowerings\<close>

text \<open>
  What the handler asks of the other parts of the emitter: whether the target is a property, a
  path into a packed aggregate, storage that is no C++ lvalue, or a short string, and the
  primitive types of both sides. A subrange, an enumeration or a string has no primitive type.
\<close>

record assignment =
  property_target :: bool
  packed_path_target :: bool
  special_target :: bool
  shortstring_target :: bool
  target_primitive :: "primitive_info option"
  source_primitive :: "primitive_info option"
  asg_r_check :: bool

datatype (plugins only: code) lowering =
    PropertyWrite | PackedPathReport | SpecialStore | ShortstringAssign
  | PlainStore | RangeChecked string | TruncatedReal string

definition is_real :: "primitive_info option \<Rightarrow> bool" where
  "is_real p = (case p of None \<Rightarrow> False | Some info \<Rightarrow> float_tier info \<noteq> NoTier)"

text \<open>The conversion of an integer to an integer is checked when the types differ like this.\<close>

definition narrowing_wrap :: "emit_target \<Rightarrow> primitive_info \<Rightarrow> primitive_info option \<Rightarrow> bool checked" where
  "narrowing_wrap em dst src =
     (if is_real src then Inr True
      else case src of
        None \<Rightarrow> Inr False
      | Some s \<Rightarrow>
          if int_kind s = NoInt then Inr False
          else on_checked (resolved_primitive_bits em s) (\<lambda>sb.
            on_checked (resolved_primitive_bits em dst) (\<lambda>db.
              Inr (sb > db \<or> int_kind s \<noteq> int_kind dst))))"

definition emit_assign_stmt :: "emit_target \<Rightarrow> assignment \<Rightarrow> lowering checked" where
  "emit_assign_stmt em a =
     (if property_target a then Inr PropertyWrite
      else if packed_path_target a then Inr PackedPathReport
      else if special_target a then Inr SpecialStore
      else if shortstring_target a then Inr ShortstringAssign
      else case target_primitive a of
        None \<Rightarrow> Inr PlainStore
      | Some dst \<Rightarrow>
          if int_kind dst = NoInt then Inr PlainStore
          else if asg_r_check a
          then on_checked (narrowing_wrap em dst (source_primitive a)) (\<lambda>wrap.
                 Inr (if wrap then RangeChecked (prim_cxx dst) else PlainStore))
          else if is_real (source_primitive a) then Inr (TruncatedReal (prim_cxx dst))
          else Inr PlainStore)"

text \<open>
  What the emitted statement does for an integer right-hand side: the C++ assignment converts the
  value to the target's type, \<open>tp2cc_range_check_assign\<close> checks it first. \<open>s\<close> and \<open>d\<close> say whether the
  C++ types are signed.
\<close>

fun assigned :: "lowering \<Rightarrow> bool \<Rightarrow> bool \<Rightarrow> 'src::len word \<Rightarrow> 'dst::len word rt" where
  "assigned (RangeChecked cxx) s d v = range_check_assign s d v"
| "assigned how s d v = Inr (ccast s v)"

subsection \<open>What is checked\<close>

abbreviation is_signed :: "primitive_info \<Rightarrow> bool" where
  "is_signed info \<equiv> int_kind info = SignedInt"

text \<open>An assignment to an ordinary variable of an integer type.\<close>

definition plain_assignment :: "primitive_info \<Rightarrow> primitive_info option \<Rightarrow> bool \<Rightarrow> assignment" where
  "plain_assignment dst src r =
     \<lparr>property_target = False, packed_path_target = False, special_target = False,
      shortstring_target = False, target_primitive = Some dst, source_primitive = src, asg_r_check = r\<rparr>"

lemma integer_not_real:
  "list_all (\<lambda>c. int_kind c \<noteq> NoInt \<longrightarrow> float_tier c = NoTier) (map snd primitive_type_map)"
  by code_simp

lemma table_integer_not_real: "table_integer info \<Longrightarrow> \<not> is_real (Some info)"
  using integer_not_real unfolding list_all_iff table_integer_def by (auto simp: is_real_def)

lemma crange_of:
  assumes "table_integer info" "LENGTH('a::len) = prim_width em info"
  shows "crange (is_signed info) LENGTH('a) = range_of em info"
  using kind_cases [OF assms(1)] assms(2) by (auto simp: crange_def range_of_def int_range_def)

lemma integer_lowering:
  assumes "standard_target em" "table_integer dst" "table_integer src"
  shows "emit_assign_stmt em (plain_assignment dst (Some src) r) =
    Inr (if r \<and> (prim_width em src > prim_width em dst \<or> int_kind src \<noteq> int_kind dst)
         then RangeChecked (prim_cxx dst) else PlainStore)"
  using assms table_integer_not_real [OF assms(3)]
  by (auto simp: emit_assign_stmt_def plain_assignment_def narrowing_wrap_def on_Inr table_integer_def)

text \<open>
  C4. An assignment between variables of primitive integer types. Under \<open>{$R+}\<close> it stores the value
  of the right-hand side or raises \<open>ERangeError\<close>, and raises exactly when the target's type cannot
  represent the value: the conversions the emitter leaves unchecked never lose a value, and those
  it checks are checked against the target's bounds. Under \<open>{$R-}\<close> the value is reduced modulo two
  to the width. A right-hand side without a primitive type, such as a subrange, is reduced in the
  same way whatever the switch says: it is never checked.
\<close>

theorem assignment_range_checked:
  fixes v :: "'a::len word"
  assumes "standard_target em" "table_integer dst" "table_integer src"
    and "LENGTH('a) = prim_width em src" "LENGTH('b::len) = prim_width em dst"
  shows "\<exists>checked unchecked. emit_assign_stmt em (plain_assignment dst (Some src) True) = Inr checked \<and>
    map_sum id (cval (is_signed dst)) (assigned checked (is_signed src) (is_signed dst) v :: 'b word rt) =
      (if cval (is_signed src) v \<in> range_of em dst then Inr (cval (is_signed src) v) else Inl ERangeError) \<and>
    emit_assign_stmt em (plain_assignment dst (Some src) False) = Inr unchecked \<and>
    emit_assign_stmt em (plain_assignment dst None r) = Inr unchecked \<and>
    (\<exists>w. assigned unchecked (is_signed src) (is_signed dst) v = Inr (w :: 'b word) \<and>
      cval (is_signed dst) w mod 2 ^ LENGTH('b) = cval (is_signed src) v mod 2 ^ LENGTH('b))"
proof -
  let ?s = "is_signed src" and ?d = "is_signed dst"
  have in_range: "cval ?s v \<in> range_of em dst \<longleftrightarrow> cval ?s v \<in> crange ?d LENGTH('b)"
    unfolding crange_of [OF assms(2,5)] ..
  have kinds: "int_kind src \<noteq> int_kind dst \<longleftrightarrow> ?s \<noteq> ?d"
    using kind_cases [OF assms(2)] kind_cases [OF assms(3)] by auto
  have store: "cval ?d (ccast ?s v :: 'b word) = cwrap ?d LENGTH('b) (cval ?s v)" by (rule cval_ccast)
  have none: "emit_assign_stmt em (plain_assignment dst None r) = Inr PlainStore"
    using assms(2) by (simp add: emit_assign_stmt_def plain_assignment_def narrowing_wrap_def is_real_def on_Inr)
  have modular: "cwrap ?d LENGTH('b) k mod 2 ^ LENGTH('b) = k mod 2 ^ LENGTH('b)" for k
    by (simp add: cwrap_def take_bit_signed_take_bit flip: take_bit_eq_mod)
  define wrap where "wrap \<longleftrightarrow> LENGTH('b) < LENGTH('a) \<or> ?s \<noteq> ?d"
  have checked: "emit_assign_stmt em (plain_assignment dst (Some src) True) =
      Inr (if wrap then RangeChecked (prim_cxx dst) else PlainStore)"
    using integer_lowering [OF assms(1-3), of True] kinds by (simp add: wrap_def assms(4,5))
  have "map_sum id (cval ?d)
      (assigned (if wrap then RangeChecked (prim_cxx dst) else PlainStore) ?s ?d v :: 'b word rt) =
    (if cval ?s v \<in> range_of em dst then Inr (cval ?s v) else Inl ERangeError)"
  proof (cases wrap)
    case True
    then have "range_check_assign ?s ?d v = (if cval ?s v \<in> crange ?d LENGTH('b)
        then Inr (ccast ?s v :: 'b word) else Inl ERangeError)"
      unfolding wrap_def by (rule range_check_exact)
    with True show ?thesis
      unfolding in_range using store cwrap_exact [of ?d "LENGTH('b)" "cval ?s v"] by simp
  next
    case False
    then have "cval ?s v \<in> crange ?d LENGTH('b)"
      using crange_mono [OF _ cval_in_range [of ?s v]] by (simp add: wrap_def)
    with False show ?thesis
      unfolding in_range using store cwrap_exact [of ?d "LENGTH('b)" "cval ?s v"] by simp
  qed
  with checked none integer_lowering [OF assms(1-3), of False] show ?thesis
    using store modular by auto
qed

text \<open>A \<open>longint\<close> assigned to a \<open>byte\<close>: 300 is refused under \<open>{$R+}\<close> and a subrange stores 44.\<close>

theorem assignment_range_checked_witness:
  "\<exists>byte longint how. find_primitive ''byte'' = Some byte \<and> find_primitive ''longint'' = Some longint \<and>
    emit_assign_stmt sample_target (plain_assignment byte (Some longint) True) = Inr how \<and>
    map_sum id (cval False) (assigned how True False (300 :: 32 word) :: 8 word rt) = Inl ERangeError \<and>
    emit_assign_stmt sample_target (plain_assignment byte None True) = Inr PlainStore"
proof -
  obtain b l where bl: "find_primitive ''byte'' = Some b" "find_primitive ''longint'' = Some l"
    "int_kind b = UnsignedInt" "int_kind l = SignedInt" "prim_bits b = 8" "prim_bits l = 32"
    "\<not> pointer_sized b" "\<not> pointer_sized l"
    by (simp add: find_primitive_def primitive_type_map_def prim_def)
  then have "b \<in> snd ` set primitive_type_map" "l \<in> snd ` set primitive_type_map"
    unfolding find_primitive_def by (force dest: map_of_SomeD)+
  with bl have t: "table_integer b" "table_integer l" by (simp_all add: table_integer_def)
  have "LENGTH(32) = prim_width sample_target l" "LENGTH(8) = prim_width sample_target b"
    using bl by (simp_all add: prim_width_def)
  from assignment_range_checked [OF sample_standard t this, of "300 :: 32 word" True]
  show ?thesis using bl(1-4) integer_lowering [OF sample_standard t, of False]
    by (auto simp: cval_def range_of_def int_range_def unsigned_range_def prim_width_def bl)
qed

end
