(* ===== verification/Spec2Isabelle.thy ===== *)
theory Spec2Isabelle
  imports Lexer_Stream Parse_Actions Unit_Facts Topo_Facts Makefile_Emit Support_Facts Runtime_Units
    Rt_Int_Facts Rt_Ansi_Facts Rt_Set_Facts Rt_Text_Facts Driver_Facts
    Reg_Scope_Facts Reg_Sig_Facts Reg_Decl_Facts Emit_Claims Emit_Assign
begin

text \<open>
  A model of tp2cc, a compiler from Pascal to C++ (\<open>src/src\<close>, \<open>src/include/tp2cc_rt\<close>).

  \<^bold>\<open>The program.\<close> \<open>main.cc\<close> scans the command line and runs one command. \<open>emit-all\<close> lets
  \<open>UnitGraph\<close> (\<open>units.cc\<close>) find and parse the entry file and everything it uses, sorts the units,
  emits C++ for each and writes a Makefile. A file goes through the lexer (\<open>lexer.cc\<close>, with
  conditional compilation and includes) and the parser (\<open>parser.cc\<close>), which tells a listener
  about declarations while it parses. The emitted C++ calls templates of a run-time library
  (\<open>prelude.h\<close>).

  \<^bold>\<open>The theories\<close>, in the order in which they build on each other:

  \<^item> \<open>Tp_Prelude\<close>: characters, ASCII case, fixed-width integers, facts on lists.
  \<^item> \<open>Tokens\<close>, \<open>Lex_State\<close>, \<open>If_Expr\<close>, \<open>Directives\<close>, \<open>Lexer\<close>, \<open>Lexer_Stream\<close>: \<open>token.h\<close>, \<open>lexer.h\<close>,
    \<open>lexer.cc\<close>. The lexer's state is a record with a stack of inputs, a stack of conditional
    frames and the directive modes; reports go to a log; the file system is a parameter.
  \<^item> \<open>Ast\<close>, \<open>Parse_Core\<close>, \<open>Parse_Expr\<close>, \<open>Parse_Stmt\<close>, \<open>Parse_Proc\<close>, \<open>Parse_Type\<close>, \<open>Parse_Object\<close>,
    \<open>Parse_Decl\<close>: \<open>ast.h\<close>, \<open>parser.cc\<close>, one definition per parse function in a state monad over the
    token stream. The recursion of the grammar is tied by \<open>knot\<close>, with fuel.
  \<^item> \<open>Parse_Frame\<close>, \<open>Parse_Total\<close>, \<open>Parse_Total_Types\<close>, \<open>Parse_Total_Decl\<close>: contracts of all parse
    functions, a rule per combinator, and that fuel of the length of the stream is enough.
    \<open>Parse_Facts\<close>: the parser ends, keeps reports and numbers. \<open>Parse_Actions\<close>: the listener is
    told exactly the declarations of the tree.
  \<^item> \<open>Unit_Graph\<close>, \<open>Unit_Facts\<close>, \<open>Topo_Facts\<close>: propagation of failures and topological order of
    \<open>units.cc\<close>; reachability, order, completeness, cycles, independence of hash order.
  \<^item> \<open>Unit_Sessions\<close>, \<open>Session_Facts\<close>, \<open>Discovery_Facts\<close>: the search for unit files and the
    parsing sessions of \<open>units.cc\<close>; discovery ends, and returns 0 only when all is well. The
    fuel bounds recursion depth and rounds by the number of candidate files.
  \<^item> \<open>Unit_Init\<close>, \<open>Driver\<close>, \<open>Driver_Facts\<close>: startup order, options, \<open>emit-all\<close> of \<open>main.cc\<close>.
  \<^item> \<open>Makefile_Emit\<close>: \<open>emit_makefile.cc\<close>, with the shell's reading of quoted words.
  \<^item> \<open>Emit_Support\<close>, \<open>Support_Facts\<close>, \<open>Word_Facts\<close>: \<open>emit_support.cc\<close>, names, literals, carriers,
    compile-time arithmetic. \<open>Runtime_Units\<close>: the table of \<open>runtime_units.cc\<close>.
  \<^item> \<open>Rt_Int\<close>, \<open>Rt_Int_Facts\<close>: integer templates of \<open>prelude.h\<close> as words with a sign flag, exact
    results, exceptions as \<open>Inl\<close>, agreement with the emitter's compile-time arithmetic.
  \<^item> \<open>Rt_Loops\<close>, \<open>Rt_Short\<close>, \<open>Rt_Short_Facts\<close>: short strings of \<open>prelude.h\<close>, a length byte and a
    buffer, with the loops of the code; they refine lists of characters. \<open>Rt_Ansi\<close>,
    \<open>Rt_Ansi_Facts\<close>: long strings as pointers into a heap of shared blocks; value semantics. A
    length that overflows \<open>int32_t\<close> is undefined behaviour, \<open>None\<close>.
    \<open>Rt_Set\<close>, \<open>Rt_Set_Facts\<close>: sets as 32 bytes, refining sets of ordinals. \<open>Rt_Text\<close>,
    \<open>Rt_Text_Facts\<close>: \<open>Val\<close> and \<open>Str\<close>.

  \<^item> \<open>Reg_Model\<close>, \<open>Reg_Class\<close>, \<open>Reg_Scope\<close>, \<open>Reg_Sig\<close>, \<open>Reg_Members\<close>, \<open>Reg_Decl\<close>, \<open>Reg_Unit\<close>:
    \<open>typereg.h\<close>, \<open>typereg.cc\<close>. Objects that the code shares by pointer (type expressions,
    descriptors, symbols, scope frames) lie in lists of a record \<open>registry\<close>, and an address is an
    index. \<open>Reg_Class_Facts\<close>: member lookup along the ancestry and the method cache.
    \<open>Reg_Scope_Facts\<close>: what a name means below a declaration. \<open>Reg_Sig_Facts\<close>: comparison of
    signatures, with fuel for the depth of calls; a bound from the number and nesting of types is
    enough where procedural types are not recursive, and none is enough where they are.
    \<open>Reg_Decl_Facts\<close>: entering declarations only adds, and units accepted without a report have
    clear names.
  \<^item> \<open>Emit_Fold\<close>, \<open>Emit_Ordinals\<close>: \<open>emit_analysis.h\<close>, \<open>emit_analysis.cc\<close>. A type expression enters by
    the primitive type, ordinal domain or label list it denotes; a thrown \<open>logic_error\<close> is \<open>Inl\<close>.
    \<open>fold_const\<close> is \<open>eval_const_int_expr\<close>; it ends because each name is entered once on a path, and
    needs no fuel. \<open>Emit_Carriers\<close>: carriers hold the operands. \<open>Emit_Fold_Facts\<close>: the operations on
    constants are exact. \<open>Emit_Fold_Eval\<close>: the folder agrees with a semantics over the integers.
    \<open>Emit_Storage\<close>, \<open>Emit_Ordinal_Facts\<close>: storage of ordinal types, labels, sets, steps, and closed
    runs where the code is wrong. \<open>Emit_Claims\<close>: the properties.
  \<^item> \<open>Emit_Assign\<close>: which lowering an assignment statement takes (\<open>emit_assign_stmt\<close> of
    \<open>emit_stmts.cc\<close>), and that the range check of the emitted C++ is exact for primitive types.

  \<^bold>\<open>Interfaces.\<close> \<open>Parse_Frame\<close> and \<open>Parse_Facts\<close> state what every parser step must keep as a
  locale (\<open>unit_frame\<close>) with several interpretations; \<open>Topo_Facts\<close> has the graph contract
  \<open>dep_graph\<close>; \<open>Session_Facts\<close> has \<open>unit_search\<close>, extended by \<open>readable_search\<close>. \<open>Rt_Short_Facts\<close> has
  \<open>char_source\<close>, through which generic string operations read any kind of string, interpreted for
  short strings, live prefixes and long strings; \<open>Rt_Set_Facts\<close> has \<open>bitwise_op\<close>;
  \<open>Reg_Class_Facts\<close> has \<open>inherited_member\<close>, interpreted for fields, labels and properties;
  \<open>Emit_Carriers\<close> has \<open>operand_carrier\<close>, interpreted for the common, arithmetic and division types.

  \<^bold>\<open>Not modelled.\<close> Of the type registry: the descriptors of type expressions
  (\<open>TypeDescriptorResolver\<close>), the binding of statements and expressions, property accessors, the
  contexts stored with declarations and the tables of the run-time units. Of the analysis the
  deduction of expression types and the queries on classes; \<open>fold_env\<close> has what the folder asks of
  them. The other emitters (\<open>emit*.cc\<close>, except the support functions and assignments) are not modelled. Where the driver calls the
  registry or an emitter it is a parameter (\<open>registry_step\<close>, \<open>emit\<close>, the type names of
  \<open>Emit_Support\<close>). Console output, reading and writing of files and
  the search for the compiler's own binary are I/O. Floating point and the parts of \<open>prelude.h\<close>
  that work on C++ memory (pointers, objects, files) are not modelled.
\<close>

end
